(* ===== verification/Zns_Prelude.thy ===== *)
theory Zns_Prelude
  imports
    Main
    "HOL-Library.Char_ord"
    "HOL-Library.List_Lexorder"
    "HOL-Library.Monad_Syntax"
begin

text \<open>
  The prelude of the development: the scalar types every component shares, the
  collections of rewrite rules, and the generic lemmas on lists, decimal text and
  separated text.

  Conventions. A Rust \<open>String\<close>, \<open>&str\<close>, \<open>Vec<u8>\<close> or \<open>[u8; N]\<close> is a HOL
  \<^typ>\<open>string\<close>, one \<^typ>\<open>char\<close> per byte. A block height (\<open>BlockHeight\<close>, a \<open>u32\<close>)
  and an amount of zatoshis (\<open>Zatoshis\<close>, a range-checked \<open>u64\<close>) are naturals; the places
  where the width matters test the bound explicitly. A \<open>Timestamp\<close> is its whole seconds,
  an \<^typ>\<open>int\<close>. A Rust function that can panic has type \<open>'a may_panic\<close>: \<open>None\<close> is
  the panic. A Rust \<open>Option\<close> is \<open>option\<close>.
\<close>

section \<open>Scalar types\<close>

type_synonym height = nat
type_synonym zat = nat
type_synonym timestamp = int
type_synonym bytes = string
type_synonym 'a may_panic = "'a option"

definition U32_MAX :: nat where
  "U32_MAX = 2 ^ 32 - 1"

definition U64_MAX :: nat where
  "U64_MAX = 2 ^ 64 - 1"

definition I64_MAX :: nat where
  "I64_MAX = 2 ^ 63 - 1"

lemmas width_defs = U32_MAX_def U64_MAX_def I64_MAX_def

text \<open>The collections: rules that unfold an accessor, rules that a rollback uses, and
  introduction rules for well-formedness invariants.\<close>

named_theorems field_simps_zns \<open>accessors of the model's records and sums\<close>
named_theorems rewind_simps \<open>what a truncation does to each operation\<close>
named_theorems wf_intros \<open>introduction rules for the components' invariants\<close>

section \<open>Vectors\<close>

text \<open>\<open>iter().position(p)\<close>, \<open>Vec::remove(i)\<close> and \<open>iter_mut().find(p)\<close> followed by an
  assignment.\<close>

fun position :: "('a \<Rightarrow> bool) \<Rightarrow> 'a list \<Rightarrow> nat option" where
  "position p [] = None"
| "position p (x # xs) = (if p x then Some 0 else map_option Suc (position p xs))"

definition remove_at :: "nat \<Rightarrow> 'a list \<Rightarrow> 'a list" where
  "remove_at i xs = take i xs @ drop (Suc i) xs"

fun update_first :: "('a \<Rightarrow> bool) \<Rightarrow> ('a \<Rightarrow> 'a) \<Rightarrow> 'a list \<Rightarrow> 'a list" where
  "update_first p f [] = []"
| "update_first p f (x # xs) = (if p x then f x # xs else x # update_first p f xs)"

lemma position_None_iff: "position p xs = None \<longleftrightarrow> (\<forall>x\<in>set xs. \<not> p x)"
  by (induction xs) auto

lemma position_Some_iff:
  "position p xs = Some i \<longleftrightarrow>
     i < length xs \<and> p (xs ! i) \<and> (\<forall>j<i. \<not> p (xs ! j))"
proof (induction xs arbitrary: i)
  case Nil
  then show ?case by simp
next
  case (Cons x xs)
  show ?case
  proof (cases i)
    case 0
    then show ?thesis by auto
  next
    case (Suc k)
    then show ?thesis using Cons.IH [of k] by (auto simp: less_Suc_eq_0_disj)
  qed
qed

lemma position_less: "position p xs = Some i \<Longrightarrow> i < length xs"
  by (simp add: position_Some_iff)

lemma position_holds: "position p xs = Some i \<Longrightarrow> p (xs ! i)"
  by (simp add: position_Some_iff)

lemma remove_at_0 [simp]: "remove_at 0 (x # xs) = xs"
  by (simp add: remove_at_def)

lemma remove_at_Suc [simp]: "remove_at (Suc i) (x # xs) = x # remove_at i xs"
  by (simp add: remove_at_def)

lemma set_remove_at_subset: "set (remove_at i xs) \<subseteq> set xs"
  by (auto simp: remove_at_def dest: in_set_takeD in_set_dropD)

lemma length_remove_at: "i < length xs \<Longrightarrow> length (remove_at i xs) = length xs - 1"
  by (simp add: remove_at_def)

text \<open>Removing the first hit of a predicate that has at most one hit is a filter.\<close>

lemma remove_at_position_filter:
  assumes "position p xs = Some i" and "length (filter p xs) \<le> 1"
  shows "remove_at i xs = filter (\<lambda>x. \<not> p x) xs"
  using assms
proof (induction xs arbitrary: i)
  case Nil
  then show ?case by simp
next
  case (Cons x xs)
  show ?case
  proof (cases "p x")
    case True
    with Cons.prems have "filter p xs = []" by simp
    then have "filter (\<lambda>x. \<not> p x) xs = xs"
      by (simp add: filter_empty_conv filter_id_conv)
    with True Cons.prems(1) show ?thesis by simp
  next
    case False
    with Cons.prems show ?thesis using Cons.IH by auto
  qed
qed

lemma filter_remove_at_position:
  assumes "position p xs = Some i"
  shows "length (filter p (remove_at i xs)) = length (filter p xs) - 1"
  using assms
proof (induction xs arbitrary: i)
  case (Cons x xs)
  then show ?case
    by (cases "p x") (auto simp: position_Some_iff)
qed simp

lemma length_update_first [simp]: "length (update_first p f xs) = length xs"
  by (induction xs) auto

lemma update_first_none: "\<forall>x\<in>set xs. \<not> p x \<Longrightarrow> update_first p f xs = xs"
  by (induction xs) auto

lemma set_update_first: "set (update_first p f xs) \<subseteq> set xs \<union> f ` set xs"
  by (induction xs) auto

lemma map_update_first: "(\<And>x. g (f x) = g x) \<Longrightarrow> map g (update_first p f xs) = map g xs"
  by (induction xs) auto

lemma filter_length_mono:
  "(\<And>x. x \<in> set xs \<Longrightarrow> p x \<Longrightarrow> q x) \<Longrightarrow> length (filter p xs) \<le> length (filter q xs)"
  by (induction xs) (auto simp: le_SucI)

lemma filter_remove_at_le: "length (filter p (remove_at i xs)) \<le> length (filter p xs)"
proof (induction xs arbitrary: i)
  case (Cons x xs)
  then show ?case by (cases i) (auto simp: le_SucI)
qed (simp add: remove_at_def)

lemma length_filter_filter_le:
  "length (filter p (filter q xs)) \<le> length (filter p xs)"
  by (induction xs) (auto simp: le_SucI)

text \<open>\<open>Vec::retain_mut\<close>: the closure updates the element and says whether it stays.\<close>

definition retain_mut :: "('a \<Rightarrow> 'a \<times> bool) \<Rightarrow> 'a list \<Rightarrow> 'a list" where
  "retain_mut f xs = concat (map (\<lambda>x. case f x of (x', keep) \<Rightarrow> if keep then [x'] else []) xs)"

lemma retain_mut_Nil [simp]: "retain_mut f [] = []"
  by (simp add: retain_mut_def)

lemma retain_mut_Cons [simp]:
  "retain_mut f (x # xs) = (if snd (f x) then [fst (f x)] else []) @ retain_mut f xs"
  by (simp add: retain_mut_def split: prod.splits)

lemma set_retain_mut: "set (retain_mut f xs) = {fst (f x) |x. x \<in> set xs \<and> snd (f x)}"
  by (induction xs) auto

text \<open>An update that keeps \<open>g\<close> keeps the distinctness of \<open>g\<close>.\<close>

lemma distinct_retain_mut:
  assumes "\<And>x. g (fst (f x)) = g x" and "distinct (map g xs)"
  shows "distinct (map g (retain_mut f xs))"
  using assms(2)
proof (induction xs)
  case (Cons x xs)
  then have "g x \<notin> g ` set (retain_mut f xs)" by (force simp: set_retain_mut assms(1))
  with Cons show ?case by (simp add: assms(1))
qed simp

lemma distinct_map_remove_at: "distinct (map g xs) \<Longrightarrow> distinct (map g (remove_at i xs))"
proof (induction xs arbitrary: i)
  case (Cons x xs)
  then show ?case using set_remove_at_subset by (cases i) fastforce+
qed (simp add: remove_at_def)

end
