(* ===== verification/Zns_Text.thy ===== *)
theory Zns_Text
  imports Zns_Prelude
begin

text \<open>
  Text as the memo grammars use it, all of it the Rust standard library's behaviour:
  decimal printing (\<open>to_string\<close>) and parsing (\<open>str::parse\<close>), \<open>str::split(':')\<close>,
  \<open>split_once('.')\<close>, padding to a width, trimming trailing zeros, and the UTF-8 test of
  \<open>str::from_utf8\<close>. The lemmas are the round trips the codecs rest on.
\<close>

section \<open>Decimal digits\<close>

definition byte_of :: "char \<Rightarrow> nat" where
  "byte_of c = of_char c"

definition is_ascii_digit :: "char \<Rightarrow> bool" where
  "is_ascii_digit c \<longleftrightarrow> 48 \<le> byte_of c \<and> byte_of c \<le> 57"

definition is_ascii_lower :: "char \<Rightarrow> bool" where
  "is_ascii_lower c \<longleftrightarrow> 97 \<le> byte_of c \<and> byte_of c \<le> 122"

definition digit_char :: "nat \<Rightarrow> char" where
  "digit_char d = char_of (48 + d)"

definition digit_val :: "char \<Rightarrow> nat" where
  "digit_val c = byte_of c - 48"

lemma byte_of_char_of: "n < 256 \<Longrightarrow> byte_of (char_of n) = n"
  by (simp add: byte_of_def)

lemma byte_of_inj: "byte_of a = byte_of b \<Longrightarrow> a = b"
  by (metis byte_of_def char_of_char)

lemma digit_val_char [simp]: "d < 10 \<Longrightarrow> digit_val (digit_char d) = d"
  by (simp add: digit_val_def digit_char_def byte_of_char_of)

lemma is_digit_digit_char [simp]: "d < 10 \<Longrightarrow> is_ascii_digit (digit_char d)"
  by (simp add: is_ascii_digit_def digit_char_def byte_of_char_of)

lemma digit_char_val [simp]: "is_ascii_digit c \<Longrightarrow> digit_char (digit_val c) = c"
  by (simp add: is_ascii_digit_def digit_val_def digit_char_def byte_of_def)

lemma digit_val_less: "is_ascii_digit c \<Longrightarrow> digit_val c < 10"
  by (auto simp: is_ascii_digit_def digit_val_def)

lemma digit_val_zero_iff: "is_ascii_digit c \<Longrightarrow> digit_val c = 0 \<longleftrightarrow> c = CHR ''0''"
proof
  assume c: "is_ascii_digit c" and "digit_val c = 0"
  then have "byte_of c = byte_of (CHR ''0'')"
    by (auto simp: is_ascii_digit_def digit_val_def byte_of_def)
  then show "c = CHR ''0''" by (rule byte_of_inj)
qed (simp add: digit_val_def byte_of_def)

text \<open>\<open>n.to_string()\<close> and the value of a digit string.\<close>

fun dec :: "nat \<Rightarrow> string" where
  "dec n = (if n < 10 then [digit_char n] else dec (n div 10) @ [digit_char (n mod 10)])"

declare dec.simps [simp del]

definition undec :: "string \<Rightarrow> nat" where
  "undec s = foldl (\<lambda>a c. a * 10 + digit_val c) 0 s"

definition dec_int :: "int \<Rightarrow> string" where
  "dec_int i = (if i < 0 then CHR ''-'' # dec (nat (- i)) else dec (nat i))"

definition all_digits :: "string \<Rightarrow> bool" where
  "all_digits s \<longleftrightarrow> list_all is_ascii_digit s"

text \<open>\<open>str::parse\<close> into an unsigned integer of maximum \<open>m\<close>, on a string already known to
  hold digits only: empty text and a value above the maximum fail.\<close>

definition parse_upto :: "nat \<Rightarrow> string \<Rightarrow> nat option" where
  "parse_upto m s = (if s = [] \<or> \<not> all_digits s \<or> m < undec s then None else Some (undec s))"

lemma undec_Nil [simp]: "undec [] = 0"
  by (simp add: undec_def)

lemma undec_snoc [simp]: "undec (s @ [c]) = undec s * 10 + digit_val c"
  by (simp add: undec_def)

lemma dec_nonempty [simp]: "dec n \<noteq> []"
  by (subst dec.simps) simp

lemma undec_dec [simp]: "undec (dec n) = n"
proof (induction n rule: dec.induct)
  case (1 n)
  show ?case
  proof (cases "n < 10")
    case True
    then show ?thesis using undec_snoc [of "[]" "digit_char n"]
      by (simp add: dec.simps [of n])
  next
    case False
    with "1.IH" show ?thesis by (simp add: dec.simps [of n])
  qed
qed

lemma all_digits_dec [simp]: "all_digits (dec n)"
proof (induction n rule: dec.induct)
  case (1 n)
  then show ?case by (subst dec.simps) (simp add: all_digits_def)
qed

lemma dec_inj: "dec m = dec n \<Longrightarrow> m = n"
  by (metis undec_dec)

lemma undec_less: "all_digits s \<Longrightarrow> undec s < 10 ^ length s"
proof (induction s rule: rev_induct)
  case (snoc c s)
  then have "undec s < 10 ^ length s" and "digit_val c < 10"
    by (auto simp: all_digits_def digit_val_less)
  then show ?case by simp
qed simp

lemma undec_append_zeros: "undec (s @ replicate k (CHR ''0'')) = undec s * 10 ^ k"
proof (induction k)
  case (Suc k)
  have "s @ replicate (Suc k) (CHR ''0'') = (s @ replicate k (CHR ''0'')) @ [CHR ''0'']"
    by (simp add: replicate_append_same)
  then have "undec (s @ replicate (Suc k) (CHR ''0'')) = undec (s @ replicate k (CHR ''0'')) * 10
      + digit_val (CHR ''0'')"
    by (metis undec_snoc)
  then show ?case using Suc.IH by (simp add: digit_val_def byte_of_def)
qed simp

text \<open>A canonical decimal has no leading zero unless it is \<open>0\<close> itself: on those strings
  printing is the inverse of reading.\<close>

definition canonical_dec :: "string \<Rightarrow> bool" where
  "canonical_dec s \<longleftrightarrow> s \<noteq> [] \<and> all_digits s \<and> (length s > 1 \<longrightarrow> hd s \<noteq> CHR ''0'')"

lemma undec_pos: "all_digits s \<Longrightarrow> s \<noteq> [] \<Longrightarrow> hd s \<noteq> CHR ''0'' \<Longrightarrow> 0 < undec s"
proof (induction s rule: rev_induct)
  case (snoc c s)
  show ?case
  proof (cases "s = []")
    case True
    with snoc.prems show ?thesis
      using digit_val_zero_iff [of c] undec_snoc [of "[]" c] by (simp add: all_digits_def)
  next
    case False
    with snoc show ?thesis by (simp add: all_digits_def)
  qed
qed simp

lemma dec_undec: "canonical_dec s \<Longrightarrow> dec (undec s) = s"
proof (induction s rule: rev_induct)
  case (snoc c s)
  from snoc.prems have c: "is_ascii_digit c" and s: "all_digits s"
    by (auto simp: canonical_dec_def all_digits_def)
  show ?case
  proof (cases "s = []")
    case True
    then show ?thesis using undec_snoc [of "[]" c] c
      by (simp add: dec.simps digit_val_less)
  next
    case False
    with snoc.prems have hd: "hd s \<noteq> CHR ''0''" by (auto simp: canonical_dec_def)
    with False s have "canonical_dec s" by (simp add: canonical_dec_def)
    with snoc.IH have IH: "dec (undec s) = s" .
    have "0 < undec s" using undec_pos [OF s False hd] .
    then have ge: "\<not> undec s * 10 + digit_val c < 10" by simp
    have d: "(undec s * 10 + digit_val c) div 10 = undec s"
      and m: "(undec s * 10 + digit_val c) mod 10 = digit_val c"
      using digit_val_less [OF c] by auto
    show ?thesis using ge d m IH c
      by (simp add: dec.simps [of "undec s * 10 + digit_val c"])
  qed
qed (simp add: canonical_dec_def)

lemma canonical_dec_dec [simp]: "canonical_dec (dec n)"
proof (induction n rule: dec.induct)
  case (1 n)
  show ?case
  proof (cases "n < 10")
    case True
    then show ?thesis by (simp add: dec.simps [of n] canonical_dec_def all_digits_def)
  next
    case False
    then have IH: "canonical_dec (dec (n div 10))" using "1.IH" by simp
    have "hd (dec (n div 10)) \<noteq> CHR ''0''"
    proof (cases "length (dec (n div 10)) > 1")
      case True
      with IH show ?thesis by (simp add: canonical_dec_def)
    next
      case short: False
      show ?thesis
      proof
        assume z: "hd (dec (n div 10)) = CHR ''0''"
        with short have "dec (n div 10) = [CHR ''0'']"
          by (cases "dec (n div 10)") auto
        then have "undec (dec (n div 10)) = undec [CHR ''0'']" by simp
        moreover have "undec [CHR ''0''] = 0"
          by (simp add: undec_def digit_val_def byte_of_def)
        ultimately have "n div 10 = 0" by simp
        with False show False by simp
      qed
    qed
    moreover have "all_digits (dec n)" by simp
    ultimately show ?thesis using False
      by (simp add: dec.simps [of n] canonical_dec_def)
  qed
qed

lemma length_dec_le: "n < 10 ^ k \<Longrightarrow> 0 < k \<Longrightarrow> length (dec n) \<le> k"
proof (induction k arbitrary: n)
  case (Suc k)
  show ?case
  proof (cases "n < 10")
    case True
    then show ?thesis by (simp add: dec.simps [of n])
  next
    case False
    with Suc.prems have "0 < k" by (cases k) auto
    moreover from Suc.prems have "n div 10 < 10 ^ k"
      by (simp add: less_mult_imp_div_less mult.commute)
    ultimately have "length (dec (n div 10)) \<le> k" using Suc.IH by blast
    with False show ?thesis by (simp add: dec.simps [of n])
  qed
qed simp

lemma parse_upto_dec [simp]: "parse_upto m (dec n) = (if n \<le> m then Some n else None)"
  by (simp add: parse_upto_def)

lemma digits_no_char: "all_digits s \<Longrightarrow> \<not> is_ascii_digit c \<Longrightarrow> c \<notin> set s"
  by (auto simp: all_digits_def list_all_iff)

section \<open>Separated text\<close>

text \<open>\<open>s.split(c)\<close> yields one piece more than there are separators; joining is the
  \<open>format!\<close> of the codecs.\<close>

fun split_on :: "char \<Rightarrow> string \<Rightarrow> string list" where
  "split_on c [] = [[]]"
| "split_on c (x # xs) =
     (if x = c then [] # split_on c xs
      else (case split_on c xs of [] \<Rightarrow> [[x]] | p # ps \<Rightarrow> (x # p) # ps))"

fun join_with :: "char \<Rightarrow> string list \<Rightarrow> string" where
  "join_with c [] = []"
| "join_with c [p] = p"
| "join_with c (p # q # ps) = p @ c # join_with c (q # ps)"

lemma split_on_nonempty [simp]: "split_on c s \<noteq> []"
  by (induction s) (auto split: list.splits)

lemma join_split [simp]: "join_with c (split_on c s) = s"
proof (induction s)
  case (Cons x xs)
  obtain p ps where ps: "split_on c xs = p # ps"
    by (metis list.exhaust split_on_nonempty)
  with Cons.IH show ?case by (cases ps) auto
qed simp

lemma split_on_piece: "c \<notin> set p \<Longrightarrow> split_on c p = [p]"
  by (induction p) auto

lemma split_on_append:
  "c \<notin> set p \<Longrightarrow> split_on c (p @ c # s) = p # split_on c s"
  by (induction p) auto

lemma split_join:
  "ps \<noteq> [] \<Longrightarrow> \<forall>p\<in>set ps. c \<notin> set p \<Longrightarrow> split_on c (join_with c ps) = ps"
proof (induction c ps rule: join_with.induct)
  case (3 c p q ps)
  then have "split_on c (join_with c (q # ps)) = q # ps" by simp
  with 3 show ?case by (simp add: split_on_append)
qed (auto simp: split_on_piece)

lemma split_on_no_sep: "p \<in> set (split_on c s) \<Longrightarrow> c \<notin> set p"
proof (induction s arbitrary: p)
  case (Cons x xs)
  obtain q qs where qs: "split_on c xs = q # qs"
    by (metis list.exhaust split_on_nonempty)
  then show ?case using Cons.IH Cons.prems by (cases "x = c") auto
qed simp

lemma join_with_set: "set (join_with c ps) \<subseteq> insert c (\<Union> (set ` set ps))"
  by (induction c ps rule: join_with.induct) auto

lemma length_join_with:
  "length (join_with c ps) = sum_list (map length ps) + (length ps - 1)"
  by (induction c ps rule: join_with.induct) auto

text \<open>\<open>s.split_once(c)\<close>: the text before and after the first separator.\<close>

fun split_once :: "char \<Rightarrow> string \<Rightarrow> (string \<times> string) option" where
  "split_once c [] = None"
| "split_once c (x # xs) =
     (if x = c then Some ([], xs) else map_option (\<lambda>(a, b). (x # a, b)) (split_once c xs))"

lemma split_once_append: "c \<notin> set a \<Longrightarrow> split_once c (a @ c # b) = Some (a, b)"
  by (induction a) auto

lemma split_once_None: "c \<notin> set a \<Longrightarrow> split_once c a = None"
  by (induction a) auto

lemma split_once_Some: "split_once c s = Some (a, b) \<Longrightarrow> s = a @ c # b \<and> c \<notin> set a"
proof (induction s arbitrary: a)
  case (Cons x xs)
  then show ?case by (cases "x = c") auto
qed simp

section \<open>Padding and trimming\<close>

text \<open>\<open>format!("{s:0<8}")\<close> pads on the right, \<open>format!("{n:08}")\<close> on the left, and
  \<open>trim_end_matches('0')\<close> drops trailing zeros.\<close>

definition pad_right :: "nat \<Rightarrow> char \<Rightarrow> string \<Rightarrow> string" where
  "pad_right w c s = s @ replicate (w - length s) c"

definition pad_left :: "nat \<Rightarrow> char \<Rightarrow> string \<Rightarrow> string" where
  "pad_left w c s = replicate (w - length s) c @ s"

definition trim_end :: "char \<Rightarrow> string \<Rightarrow> string" where
  "trim_end c s = rev (dropWhile (\<lambda>x. x = c) (rev s))"

lemma trim_end_decomp: "\<exists>k. s = trim_end c s @ replicate k c"
proof -
  have "rev s = takeWhile (\<lambda>x. x = c) (rev s) @ dropWhile (\<lambda>x. x = c) (rev s)" by simp
  moreover have "takeWhile (\<lambda>x. x = c) (rev s)
      = replicate (length (takeWhile (\<lambda>x. x = c) (rev s))) c"
    by (metis (full_types) replicate_eqI set_takeWhileD)
  ultimately have "rev s = replicate (length (takeWhile (\<lambda>x. x = c) (rev s))) c
      @ dropWhile (\<lambda>x. x = c) (rev s)" by metis
  then have "s = rev (dropWhile (\<lambda>x. x = c) (rev s))
      @ replicate (length (takeWhile (\<lambda>x. x = c) (rev s))) c"
    by (metis rev_append rev_replicate rev_rev_ident)
  then show ?thesis unfolding trim_end_def by blast
qed

lemma length_trim_end_le: "length (trim_end c s) \<le> length s"
  by (metis length_append le_add1 trim_end_decomp)

lemma pad_trim: "length s = w \<Longrightarrow> pad_right w c (trim_end c s) = s"
proof -
  assume len: "length s = w"
  obtain k where k: "s = trim_end c s @ replicate k c" using trim_end_decomp by blast
  then have "length s = length (trim_end c s) + k" by (metis length_append length_replicate)
  with len have "w - length (trim_end c s) = k" by simp
  with k show ?thesis by (simp add: pad_right_def)
qed

lemma undec_replicate_zero: "undec (replicate k (CHR ''0'') @ s) = undec s"
proof (induction s rule: rev_induct)
  case Nil
  show ?case using undec_append_zeros [of "[]" k] by simp
next
  case (snoc x xs)
  then show ?case by (metis append_assoc undec_snoc)
qed

section \<open>UTF-8\<close>

text \<open>The byte sequences \<open>std::str::from_utf8\<close> accepts.\<close>

definition byte_in :: "nat \<Rightarrow> nat \<Rightarrow> char \<Rightarrow> bool" where
  "byte_in lo hi c \<longleftrightarrow> lo \<le> byte_of c \<and> byte_of c \<le> hi"

abbreviation is_cont :: "char \<Rightarrow> bool" where
  "is_cont \<equiv> byte_in 128 191"

fun utf8_rest :: "nat \<Rightarrow> string \<Rightarrow> string option" where
  "utf8_rest 0 s = Some s"
| "utf8_rest (Suc n) [] = None"
| "utf8_rest (Suc n) (c # s) = (if is_cont c then utf8_rest n s else None)"

lemma utf8_rest_length: "utf8_rest n s = Some t \<Longrightarrow> length t \<le> length s"
  by (induction n s rule: utf8_rest.induct) (auto split: if_splits)

text \<open>One scalar value: the rest of the text after it, \<open>None\<close> on a malformed sequence.\<close>

definition utf8_step :: "char \<Rightarrow> string \<Rightarrow> string option" where
  "utf8_step c s =
     (if byte_of c < 128 then Some s
      else if byte_in 194 223 c then utf8_rest 1 s
      else (case s of
          [] \<Rightarrow> None
        | d # t \<Rightarrow>
            if byte_of c = 224 then (if byte_in 160 191 d then utf8_rest 1 t else None)
            else if byte_of c = 237 then (if byte_in 128 159 d then utf8_rest 1 t else None)
            else if byte_in 225 239 c then (if is_cont d then utf8_rest 1 t else None)
            else if byte_of c = 240 then (if byte_in 144 191 d then utf8_rest 2 t else None)
            else if byte_of c = 244 then (if byte_in 128 143 d then utf8_rest 2 t else None)
            else if byte_in 241 243 c then (if is_cont d then utf8_rest 2 t else None)
            else None))"

lemma utf8_step_length: "utf8_step c s = Some t \<Longrightarrow> length t \<le> length s"
  by (auto simp: utf8_step_def split: if_splits list.splits dest!: utf8_rest_length)

function from_utf8_ok :: "string \<Rightarrow> bool" where
  "from_utf8_ok [] = True"
| "from_utf8_ok (c # s) = (case utf8_step c s of None \<Rightarrow> False | Some t \<Rightarrow> from_utf8_ok t)"
  by pat_completeness auto
termination
  by (relation "measure length") (auto dest: utf8_step_length)

lemma utf8_ascii: "\<forall>c\<in>set s. byte_of c < 128 \<Longrightarrow> from_utf8_ok s"
  by (induction s) (auto simp: utf8_step_def)

end
