(* ===== verification/Names.thy ===== *)
theory Names
  imports Zns_Text
begin

text \<open>
  The vocabulary of \<open>src/mint.rs\<close>: names, actions, and the addresses a memo carries; and
  the environment, a record of the operations the repository takes from other crates
  (\<open>zcash_address\<close>, \<open>zcash_keys\<close>, \<open>zcash_protocol\<close>, \<open>orchard\<close>, \<open>blake2b_simd\<close>,
  \<open>hmac\<close>, \<open>hex\<close>, \<open>time\<close>). The environment is an argument of every definition that uses
  one of those operations; a theorem that relies on how such an operation behaves says so in
  a hypothesis.
\<close>

section \<open>The environment\<close>

datatype network_type = MainNet | TestNet | RegtestNet

datatype revision = R0 | Other_Revision

datatype transparent_address = PublicKeyHash bytes | ScriptHash bytes

datatype zaddress = Transparent transparent_address | Other_Address

text \<open>
  \<^item> \<open>unified_decode\<close> is \<open>unified::Address::decode\<close>: the network, the revision, and of the
    container the two things the code asks, whether it has no metadata items and what
    \<open>UnifiedAddress::try_from\<close> makes of it.
  \<^item> \<open>memo_text\<close> is \<open>Memo::try_from(memo)\<close> when it is \<open>Ok(Memo::Text(_))\<close>;
    \<open>memo_from_bytes\<close> is \<open>MemoBytes::from_bytes\<close>.
  \<^item> \<open>scalar_from_uniform\<close> and \<open>base_from_uniform\<close> are the wide reductions of the two
    Pallas fields; \<open>cm_from_bytes\<close> and \<open>cm_to_bytes\<close> the encoding of a commitment trapdoor.
  \<^item> \<open>ts_ok\<close> is the range of \<open>time::Timestamp\<close>, \<open>max_money\<close> the range of \<open>Zatoshis\<close>.
  \<^item> \<open>expiry_delta h\<close> is \<open>default_tx_expiry_delta(BranchId::for_height(params, h))\<close>.
\<close>

record ('ua, 'cm) zenv =
  network_type_of :: network_type
  unified_decode :: "string \<Rightarrow> (network_type \<times> revision \<times> bool \<times> 'ua option) option"
  ua_encode :: "'ua \<Rightarrow> string"
  ua_unknown_is_empty :: "'ua \<Rightarrow> bool"
  ua_has_orchard :: "'ua \<Rightarrow> bool"
  ua_has_sapling :: "'ua \<Rightarrow> bool"
  ua_transparent :: "'ua \<Rightarrow> transparent_address option"
  address_decode :: "string \<Rightarrow> zaddress option"
  taddr_encode :: "transparent_address \<Rightarrow> string"
  memo_text :: "bytes \<Rightarrow> string option"
  memo_from_bytes :: "bytes \<Rightarrow> bytes option"
  hex_encode :: "bytes \<Rightarrow> string"
  hex_decode :: "string \<Rightarrow> bytes option"
  blake2b512 :: "bytes \<Rightarrow> bytes"
  scalar_from_uniform :: "bytes \<Rightarrow> 'cm"
  base_from_uniform :: "bytes \<Rightarrow> bytes"
  cm_from_bytes :: "bytes \<Rightarrow> 'cm option"
  cm_to_bytes :: "'cm \<Rightarrow> bytes"
  hmac_sha256 :: "bytes \<Rightarrow> bytes \<Rightarrow> bytes"
  ts_ok :: "int \<Rightarrow> bool"
  max_money :: nat
  expiry_delta :: "height \<Rightarrow> nat"

text \<open>\<open>Timestamp::from_seconds\<close> and \<open>checked_add\<close>; \<open>Zatoshis::from_u64\<close> and the checked
  arithmetic on amounts, which fails outside \<open>0..=MAX_MONEY\<close>.\<close>

definition ts_from_seconds :: "('ua, 'cm) zenv \<Rightarrow> int \<Rightarrow> timestamp option" where
  "ts_from_seconds E s = (if ts_ok E s then Some s else None)"

definition zat_from_u64 :: "('ua, 'cm) zenv \<Rightarrow> nat \<Rightarrow> zat option" where
  "zat_from_u64 E n = (if n \<le> max_money E then Some n else None)"

definition zat_sub :: "zat \<Rightarrow> zat \<Rightarrow> zat option" where
  "zat_sub a b = (if b \<le> a then Some (a - b) else None)"

definition zat_mul :: "('ua, 'cm) zenv \<Rightarrow> zat \<Rightarrow> nat \<Rightarrow> zat option" where
  "zat_mul E a k = zat_from_u64 E (a * k)"

definition zat_add :: "('ua, 'cm) zenv \<Rightarrow> zat \<Rightarrow> zat \<Rightarrow> zat option" where
  "zat_add E a b = zat_from_u64 E (a + b)"

lemmas zat_defs = zat_from_u64_def zat_sub_def zat_mul_def zat_add_def

section \<open>Constants\<close>

definition LIVENESS_INTERVAL :: int where
  "LIVENESS_INTERVAL = 31557600"

definition MAX_NAME_LEN :: nat where
  "MAX_NAME_LEN = 63"

section \<open>Names\<close>

datatype name = Name (as_str: string)

instantiation name :: linorder
begin

definition less_eq_name :: "name \<Rightarrow> name \<Rightarrow> bool" where
  "less_eq_name a b \<longleftrightarrow> as_str a \<le> as_str b"

definition less_name :: "name \<Rightarrow> name \<Rightarrow> bool" where
  "less_name a b \<longleftrightarrow> as_str a < as_str b"

instance
  by standard (auto simp: less_eq_name_def less_name_def name.expand)

end

definition name_byte :: "char \<Rightarrow> bool" where
  "name_byte b \<longleftrightarrow> is_ascii_lower b \<or> is_ascii_digit b"

definition name_parse :: "string \<Rightarrow> name option" where
  "name_parse s =
     (if s = [] \<or> length s > MAX_NAME_LEN then None
      else if list_all name_byte s then Some (Name s) else None)"

definition valid_name :: "name \<Rightarrow> bool" where
  "valid_name n \<longleftrightarrow> name_parse (as_str n) = Some n"

lemma name_parse_Some_iff:
  "name_parse s = Some n \<longleftrightarrow>
     n = Name s \<and> s \<noteq> [] \<and> length s \<le> MAX_NAME_LEN \<and> list_all name_byte s"
  by (auto simp: name_parse_def)

lemma name_parse_valid: "name_parse s = Some n \<Longrightarrow> valid_name n \<and> as_str n = s"
  by (auto simp: valid_name_def name_parse_Some_iff)

lemma name_parse_as_str: "valid_name n \<Longrightarrow> name_parse (as_str n) = Some n"
  by (simp add: valid_name_def)

lemma valid_name_iff:
  "valid_name n \<longleftrightarrow> as_str n \<noteq> [] \<and> length (as_str n) \<le> 63 \<and> list_all name_byte (as_str n)"
  by (auto simp: valid_name_def name_parse_Some_iff MAX_NAME_LEN_def)

lemma name_byte_ascii: "name_byte c \<Longrightarrow> byte_of c < 128 \<and> c \<noteq> CHR '':'' \<and> c \<noteq> CHR 0x00"
  by (auto simp: name_byte_def is_ascii_lower_def is_ascii_digit_def byte_of_def)

lemma valid_name_char:
  "valid_name n \<Longrightarrow> c \<in> set (as_str n) \<Longrightarrow> byte_of c < 128 \<and> c \<noteq> CHR '':'' \<and> c \<noteq> CHR 0x00"
  by (metis list_all_iff name_byte_ascii valid_name_iff)

section \<open>Actions\<close>

datatype action = ActClaim | ActUpdate | ActRelease | ActSale | ActList | ActDelist | ActAuction

fun action_as_str :: "action \<Rightarrow> string" where
  "action_as_str ActClaim = ''claim''"
| "action_as_str ActUpdate = ''update''"
| "action_as_str ActRelease = ''release''"
| "action_as_str ActSale = ''sale''"
| "action_as_str ActList = ''list''"
| "action_as_str ActDelist = ''delist''"
| "action_as_str ActAuction = ''auction''"

definition action_parse :: "string \<Rightarrow> action option" where
  "action_parse verb =
     (if verb = ''claim'' then Some ActClaim
      else if verb = ''update'' then Some ActUpdate
      else if verb = ''release'' then Some ActRelease
      else if verb = ''sale'' then Some ActSale
      else if verb = ''list'' then Some ActList
      else if verb = ''delist'' then Some ActDelist
      else if verb = ''auction'' then Some ActAuction
      else None)"

definition is_release :: "action \<Rightarrow> bool" where
  "is_release a \<longleftrightarrow> a = ActRelease"

definition is_claim :: "action \<Rightarrow> bool" where
  "is_claim a \<longleftrightarrow> a = ActClaim"

definition is_update :: "action \<Rightarrow> bool" where
  "is_update a \<longleftrightarrow> a = ActUpdate"

definition is_sale :: "action \<Rightarrow> bool" where
  "is_sale a \<longleftrightarrow> a = ActSale"

definition is_list :: "action \<Rightarrow> bool" where
  "is_list a \<longleftrightarrow> a = ActList"

definition is_delist :: "action \<Rightarrow> bool" where
  "is_delist a \<longleftrightarrow> a = ActDelist"

definition is_auction :: "action \<Rightarrow> bool" where
  "is_auction a \<longleftrightarrow> a = ActAuction"

definition needs_predecessor :: "action \<Rightarrow> bool" where
  "needs_predecessor a \<longleftrightarrow> a = ActUpdate \<or> a = ActRelease \<or> a = ActSale"

lemmas action_tests [field_simps_zns] =
  is_release_def is_claim_def is_update_def is_sale_def is_list_def is_delist_def
  is_auction_def needs_predecessor_def

lemma action_parse_as_str [simp]: "action_parse (action_as_str a) = Some a"
  by (cases a) (simp_all add: action_parse_def)

lemma action_parse_Some: "action_parse s = Some a \<Longrightarrow> s = action_as_str a"
  by (auto simp: action_parse_def split: if_splits)

lemma action_as_str_char:
  "c \<in> set (action_as_str a) \<Longrightarrow> byte_of c < 128 \<and> c \<noteq> CHR '':'' \<and> c \<noteq> CHR 0x00"
  by (cases a) (auto simp: byte_of_def)

lemma length_action_as_str: "length (action_as_str a) \<le> 7"
  by (cases a) auto

section \<open>Controller addresses\<close>

text \<open>Known receivers only, at least one of them shielded.\<close>

definition decode_controller_ua :: "('ua, 'cm) zenv \<Rightarrow> string \<Rightarrow> 'ua option" where
  "decode_controller_ua E s =
     (case unified_decode E s of
        None \<Rightarrow> None
      | Some (net, revision, no_metadata, converted) \<Rightarrow>
          if net \<noteq> network_type_of E \<or> revision \<noteq> R0 \<or> \<not> no_metadata then None
          else (case converted of
              None \<Rightarrow> None
            | Some ua \<Rightarrow>
                if ua_unknown_is_empty E ua \<and> (ua_has_orchard E ua \<or> ua_has_sapling E ua)
                then Some ua else None))"

lemma decode_controller_ua_shielded:
  "decode_controller_ua E s = Some ua \<Longrightarrow>
     ua_unknown_is_empty E ua \<and> (ua_has_orchard E ua \<or> ua_has_sapling E ua)"
  by (auto simp: decode_controller_ua_def split: option.splits if_splits)

end
