(* ===== verification/Name_Note.thy ===== *)
theory Name_Note
  imports Names
begin

text \<open>
  \<open>src/mint/note.rs\<close>: the expiry and term fields, the Name Note transition, its memo codec
  and the derivation of its commitment. The lemmas show that the two text fields round trip
  and are canonical, that the memo codec accepts exactly the encodings of well-formed notes,
  that a well-formed note always fits the memo, that the hash preimage determines every field,
  and what extending a registration can and cannot do.
\<close>

section \<open>Expiry\<close>

datatype expiry = Never | At timestamp

definition expiry_field_bytes :: "expiry \<Rightarrow> bytes" where
  "expiry_field_bytes e = (case e of Never \<Rightarrow> ''none'' | At t \<Rightarrow> dec_int t)"

definition expiry_parse :: "('ua, 'cm) zenv \<Rightarrow> string \<Rightarrow> expiry option" where
  "expiry_parse E field =
     (if field = ''none'' then Some Never
      else if field = [] \<or> length field > 20 \<or> \<not> all_digits field then None
      else if length field > 1 \<and> hd field = CHR ''0'' then None
      else (case parse_upto I64_MAX field of
          None \<Rightarrow> None
        | Some seconds \<Rightarrow> map_option At (ts_from_seconds E (int seconds))))"

definition expiry_expired :: "expiry \<Rightarrow> timestamp \<Rightarrow> bool" where
  "expiry_expired e mtp = (case e of Never \<Rightarrow> False | At t \<Rightarrow> mtp \<ge> t)"

definition valid_expiry :: "('ua, 'cm) zenv \<Rightarrow> expiry \<Rightarrow> bool" where
  "valid_expiry E e \<longleftrightarrow> (case e of Never \<Rightarrow> True | At t \<Rightarrow> 0 \<le> t \<and> nat t \<le> I64_MAX \<and> ts_ok E t)"

lemma dec_int_nonneg: "0 \<le> t \<Longrightarrow> dec_int t = dec (nat t)"
  by (simp add: dec_int_def)

lemma length_dec_i64: "n \<le> I64_MAX \<Longrightarrow> length (dec n) \<le> 19"
  by (rule length_dec_le) (auto simp: I64_MAX_def)

lemma dec_not_none: "dec n \<noteq> ''none''"
proof
  assume "dec n = ''none''"
  then have "all_digits ''none''" by (metis all_digits_dec)
  then show False by (simp add: all_digits_def is_ascii_digit_def byte_of_def)
qed

lemma expiry_parse_field_bytes:
  assumes "valid_expiry E e"
  shows "expiry_parse E (expiry_field_bytes e) = Some e"
proof (cases e)
  case Never
  then show ?thesis by (simp add: expiry_parse_def expiry_field_bytes_def)
next
  case (At t)
  with assms have t: "0 \<le> t" "nat t \<le> I64_MAX" "ts_ok E t" by (auto simp: valid_expiry_def)
  moreover have "canonical_dec (dec (nat t))" by simp
  ultimately show ?thesis using At length_dec_i64 [OF t(2)]
    by (auto simp: expiry_parse_def expiry_field_bytes_def dec_int_nonneg dec_not_none
        canonical_dec_def ts_from_seconds_def)
qed

lemma expiry_parse_canonical:
  assumes "expiry_parse E s = Some e"
  shows "expiry_field_bytes e = s \<and> valid_expiry E e"
proof (cases "s = ''none''")
  case True
  with assms show ?thesis by (simp add: expiry_parse_def expiry_field_bytes_def valid_expiry_def)
next
  case False
  with assms have c: "canonical_dec s" and m: "undec s \<le> I64_MAX"
    and e: "e = At (int (undec s))" and ok: "ts_ok E (int (undec s))"
    by (auto simp: expiry_parse_def canonical_dec_def parse_upto_def ts_from_seconds_def
        split: if_splits option.splits)
  then show ?thesis
    by (simp add: expiry_field_bytes_def dec_int_nonneg dec_undec valid_expiry_def)
qed

section \<open>Terms\<close>

datatype reg_term = Forever | Years nat

definition MAX_TERM_YEARS :: nat where
  "MAX_TERM_YEARS = 99"

text \<open>\<open>strip_suffix\<close> of one character.\<close>

definition strip_suffix :: "char \<Rightarrow> string \<Rightarrow> string option" where
  "strip_suffix c s = (if s \<noteq> [] \<and> last s = c then Some (butlast s) else None)"

definition term_parse :: "string \<Rightarrow> reg_term option" where
  "term_parse field =
     (if field = ''forever'' then Some Forever
      else (case strip_suffix (CHR ''y'') field of
          None \<Rightarrow> None
        | Some years \<Rightarrow>
            if years = [] \<or> hd years = CHR ''0'' \<or> \<not> all_digits years then None
            else (case parse_upto U64_MAX years of
                None \<Rightarrow> None
              | Some n \<Rightarrow> if 1 \<le> n \<and> n \<le> MAX_TERM_YEARS then Some (Years n) else None)))"

definition term_duration :: "reg_term \<Rightarrow> int" where
  "term_duration t = (case t of Forever \<Rightarrow> 0 | Years n \<Rightarrow> int n * LIVENESS_INTERVAL)"

definition claim_expiry :: "('ua, 'cm) zenv \<Rightarrow> reg_term \<Rightarrow> timestamp \<Rightarrow> expiry option" where
  "claim_expiry E t mtp =
     (case t of
        Forever \<Rightarrow> Some Never
      | Years _ \<Rightarrow> map_option At (ts_from_seconds E (mtp + term_duration t)))"

text \<open>The term a memo can carry: the language of \<open>term_parse\<close> is \<open>forever\<close> and the
  numbers one to ninety-nine followed by \<open>y\<close>, each in one spelling.\<close>

definition term_text :: "reg_term \<Rightarrow> string" where
  "term_text t = (case t of Forever \<Rightarrow> ''forever'' | Years n \<Rightarrow> dec n @ ''y'')"

definition valid_term :: "reg_term \<Rightarrow> bool" where
  "valid_term t \<longleftrightarrow> (case t of Forever \<Rightarrow> True | Years n \<Rightarrow> 1 \<le> n \<and> n \<le> MAX_TERM_YEARS)"

lemma dec_y_not_forever: "dec n @ ''y'' \<noteq> ''forever''"
proof
  assume "dec n @ ''y'' = ''forever''"
  then have "last (dec n @ ''y'') = last ''forever''" by metis
  then show False by simp
qed

lemma term_parse_text: "valid_term t \<Longrightarrow> term_parse (term_text t) = Some t"
proof (cases t)
  case Forever
  then show ?thesis by (simp add: term_parse_def term_text_def)
next
  case (Years n)
  assume "valid_term t"
  with Years have n: "1 \<le> n" "n \<le> MAX_TERM_YEARS" by (auto simp: valid_term_def)
  have "hd (dec n) \<noteq> CHR ''0''"
  proof
    assume z: "hd (dec n) = CHR ''0''"
    have "canonical_dec (dec n)" by simp
    with z have "dec n = [CHR ''0'']" by (cases "dec n") (auto simp: canonical_dec_def)
    then have "undec (dec n) = 0" by (simp add: undec_def digit_val_def byte_of_def)
    with n show False by simp
  qed
  with Years n show ?thesis
    by (auto simp: term_parse_def term_text_def strip_suffix_def dec_y_not_forever
        butlast_append MAX_TERM_YEARS_def U64_MAX_def)
qed

lemma term_parse_Some:
  assumes "term_parse s = Some t"
  shows "s = term_text t \<and> valid_term t"
proof (cases "s = ''forever''")
  case True
  with assms show ?thesis by (simp add: term_parse_def term_text_def valid_term_def)
next
  case False
  with assms obtain years where y: "strip_suffix (CHR ''y'') s = Some years"
    and d: "all_digits years" "years \<noteq> []" "hd years \<noteq> CHR ''0''"
    and t: "t = Years (undec years)" "1 \<le> undec years" "undec years \<le> MAX_TERM_YEARS"
    by (auto simp: term_parse_def parse_upto_def split: option.splits if_splits)
  from y have s: "s = years @ ''y''"
    by (auto simp: strip_suffix_def split: if_splits) (metis append_butlast_last_id)
  from d have "dec (undec years) = years" by (simp add: dec_undec canonical_dec_def)
  with s t show ?thesis by (simp add: term_text_def valid_term_def)
qed

section \<open>Extending a registration\<close>

text \<open>\<open>Expiry::extend\<close>: the outer option is the \<open>expect\<close> on the horizon.\<close>

definition expiry_extend ::
  "('ua, 'cm) zenv \<Rightarrow> expiry \<Rightarrow> reg_term option \<Rightarrow> timestamp \<Rightarrow> expiry option may_panic" where
  "expiry_extend E self t mtp =
     (let extended =
        (case (self, t) of
           (e, None) \<Rightarrow> Some e
         | (Never, Some _) \<Rightarrow> None
         | (At _, Some Forever) \<Rightarrow> Some Never
         | (At s, Some years) \<Rightarrow> map_option At (ts_from_seconds E (s + term_duration years)))
      in case extended of
           None \<Rightarrow> Some None
         | Some e \<Rightarrow>
             (case ts_from_seconds E (mtp + int MAX_TERM_YEARS * LIVENESS_INTERVAL) of
                None \<Rightarrow> None
              | Some horizon \<Rightarrow>
                  Some (case e of At s \<Rightarrow> if s > horizon then None else Some e | Never \<Rightarrow> Some e)))"

lemma expiry_extend_cases:
  assumes "expiry_extend E self t mtp = Some (Some e)"
  shows "(t = None \<and> e = self) \<or>
         (\<exists>s. self = At s \<and> t = Some Forever \<and> e = Never) \<or>
         (\<exists>s n. self = At s \<and> t = Some (Years n) \<and> e = At (s + int n * LIVENESS_INTERVAL))"
  using assms
  by (cases self; cases t)
    (auto simp: expiry_extend_def ts_from_seconds_def Let_def term_duration_def
      split: if_splits option.splits reg_term.splits expiry.splits)

lemma expiry_extend_horizon:
  assumes "expiry_extend E self t mtp = Some (Some (At s))"
  shows "s \<le> mtp + int MAX_TERM_YEARS * LIVENESS_INTERVAL"
  using assms
  by (auto simp: expiry_extend_def ts_from_seconds_def Let_def
      split: if_splits option.splits expiry.splits)

section \<open>The transition\<close>

datatype ('ua, 'cm) name_note =
    NoteClaim name 'ua expiry
  | NoteUpdate name 'ua expiry 'cm
  | NoteRelease name 'ua 'cm
  | NoteSale name 'ua expiry 'cm

fun note_name :: "('ua, 'cm) name_note \<Rightarrow> name" where
  "note_name (NoteClaim n _ _) = n"
| "note_name (NoteUpdate n _ _ _) = n"
| "note_name (NoteRelease n _ _) = n"
| "note_name (NoteSale n _ _ _) = n"

fun note_action :: "('ua, 'cm) name_note \<Rightarrow> action" where
  "note_action (NoteClaim _ _ _) = ActClaim"
| "note_action (NoteUpdate _ _ _ _) = ActUpdate"
| "note_action (NoteRelease _ _ _) = ActRelease"
| "note_action (NoteSale _ _ _ _) = ActSale"

fun note_ua :: "('ua, 'cm) name_note \<Rightarrow> 'ua" where
  "note_ua (NoteClaim _ ua _) = ua"
| "note_ua (NoteUpdate _ ua _ _) = ua"
| "note_ua (NoteRelease _ ua _) = ua"
| "note_ua (NoteSale _ ua _ _) = ua"

fun note_expires_at :: "('ua, 'cm) name_note \<Rightarrow> expiry option" where
  "note_expires_at (NoteClaim _ _ e) = Some e"
| "note_expires_at (NoteUpdate _ _ e _) = Some e"
| "note_expires_at (NoteSale _ _ e _) = Some e"
| "note_expires_at (NoteRelease _ _ _) = None"

fun note_prev_rcm :: "('ua, 'cm) name_note \<Rightarrow> 'cm option" where
  "note_prev_rcm (NoteClaim _ _ _) = None"
| "note_prev_rcm (NoteUpdate _ _ _ prev) = Some prev"
| "note_prev_rcm (NoteRelease _ _ prev) = Some prev"
| "note_prev_rcm (NoteSale _ _ _ prev) = Some prev"

text \<open>The fields as the hash and the memo carry them.\<close>

definition zero32 :: bytes where
  "zero32 = replicate 32 (CHR 0x00)"

definition note_expiry_field :: "('ua, 'cm) name_note \<Rightarrow> bytes" where
  "note_expiry_field nt =
     expiry_field_bytes (case note_expires_at nt of None \<Rightarrow> Never | Some e \<Rightarrow> e)"

definition note_prev_bytes :: "('ua, 'cm) zenv \<Rightarrow> ('ua, 'cm) name_note \<Rightarrow> bytes" where
  "note_prev_bytes E nt =
     (case note_prev_rcm nt of None \<Rightarrow> zero32 | Some r \<Rightarrow> cm_to_bytes E r)"

lemma note_prev_rcm_None_iff: "note_prev_rcm nt = None \<longleftrightarrow> note_action nt = ActClaim"
  by (cases nt) auto

section \<open>The commitment\<close>

text \<open>\<open>(b.len() as u32).to_le_bytes()\<close>.\<close>

definition le32 :: "nat \<Rightarrow> bytes" where
  "le32 n = map (\<lambda>i. char_of (n mod 2 ^ 32 div 256 ^ i mod 256)) [0, 1, 2, 3]"

definition absorb :: "bytes \<Rightarrow> bytes" where
  "absorb b = le32 (length b) @ b"

text \<open>What \<open>tagged_zns_hash\<close> feeds the hash, and the hash.\<close>

definition zns_preimage ::
  "bytes \<Rightarrow> bytes \<Rightarrow> bytes \<Rightarrow> bytes \<Rightarrow> bytes \<Rightarrow> bytes \<Rightarrow> bytes" where
  "zns_preimage field_tag verb nm ua expires_at prev_rcm =
     absorb ''ZcashName/v1'' @ absorb field_tag @ absorb verb @ absorb nm @ absorb ua
       @ absorb expires_at @ prev_rcm"

definition tagged_zns_hash ::
  "('ua, 'cm) zenv \<Rightarrow> bytes \<Rightarrow> bytes \<Rightarrow> bytes \<Rightarrow> bytes \<Rightarrow> bytes \<Rightarrow> bytes \<Rightarrow> bytes" where
  "tagged_zns_hash E field_tag verb nm ua expires_at prev_rcm =
     blake2b512 E (zns_preimage field_tag verb nm ua expires_at prev_rcm)"

definition zns_rcm ::
  "('ua, 'cm) zenv \<Rightarrow> bytes \<Rightarrow> bytes \<Rightarrow> bytes \<Rightarrow> bytes \<Rightarrow> bytes \<Rightarrow> 'cm" where
  "zns_rcm E verb nm ua expires_at prev =
     scalar_from_uniform E (tagged_zns_hash E ''rcm'' verb nm ua expires_at prev)"

definition zns_psi ::
  "('ua, 'cm) zenv \<Rightarrow> bytes \<Rightarrow> bytes \<Rightarrow> bytes \<Rightarrow> bytes \<Rightarrow> bytes \<Rightarrow> bytes" where
  "zns_psi E verb nm ua expires_at prev =
     base_from_uniform E (tagged_zns_hash E ''psi'' verb nm ua expires_at prev)"

definition note_rcm :: "('ua, 'cm) zenv \<Rightarrow> ('ua, 'cm) name_note \<Rightarrow> 'cm" where
  "note_rcm E nt =
     zns_rcm E (action_as_str (note_action nt)) (as_str (note_name nt))
       (ua_encode E (note_ua nt)) (note_expiry_field nt) (note_prev_bytes E nt)"

definition note_commitment :: "('ua, 'cm) zenv \<Rightarrow> ('ua, 'cm) name_note \<Rightarrow> 'cm" where
  "note_commitment E nt = note_rcm E nt"

definition note_psi :: "('ua, 'cm) zenv \<Rightarrow> ('ua, 'cm) name_note \<Rightarrow> bytes" where
  "note_psi E nt =
     zns_psi E (action_as_str (note_action nt)) (as_str (note_name nt))
       (ua_encode E (note_ua nt)) (note_expiry_field nt) (note_prev_bytes E nt)"

lemma length_le32 [simp]: "length (le32 n) = 4"
  by (simp add: le32_def)

lemma le32_value:
  assumes "n < 2 ^ 32"
  shows "byte_of (le32 n ! 0) + 256 * (byte_of (le32 n ! 1) + 256 * (byte_of (le32 n ! 2)
           + 256 * byte_of (le32 n ! 3))) = n"
proof -
  have b: "byte_of (le32 n ! i) = n div 256 ^ i mod 256" if "i < 4" for i
  proof -
    from that have "i = 0 \<or> i = 1 \<or> i = 2 \<or> i = 3" by auto
    then show ?thesis using assms by (auto simp: le32_def byte_of_def)
  qed
  have q: "n div 256 ^ 1 = n div 256" "n div 256 ^ 2 = n div 256 div 256"
    "n div 256 ^ 3 = n div 256 div 256 div 256"
    by (simp_all add: div_mult2_eq [symmetric])
  have top: "n div 256 div 256 div 256 < 256"
    using assms by (simp add: div_mult2_eq [symmetric] less_mult_imp_div_less)
  have horner: "k mod 256 + 256 * (k div 256) = k" for k :: nat
    by (rule mod_mult_div_eq)
  have "byte_of (le32 n ! 3) = n div 256 div 256 div 256" using b [of 3] q top by simp
  moreover have "byte_of (le32 n ! 2) = n div 256 div 256 mod 256" using b [of 2] q by simp
  moreover have "byte_of (le32 n ! 1) = n div 256 mod 256" using b [of 1] q by simp
  moreover have "byte_of (le32 n ! 0) = n mod 256" using b [of 0] by simp
  ultimately show ?thesis
    using horner [of n] horner [of "n div 256"] horner [of "n div 256 div 256"] by presburger
qed

lemma le32_inj: "m < 2 ^ 32 \<Longrightarrow> n < 2 ^ 32 \<Longrightarrow> le32 m = le32 n \<Longrightarrow> m = n"
  by (metis le32_value)

text \<open>A length-prefixed field can be read off the front of a byte string.\<close>

lemma absorb_prefix_free:
  assumes "length a < 2 ^ 32" and "length b < 2 ^ 32" and "absorb a @ s = absorb b @ t"
  shows "a = b \<and> s = t"
proof -
  from assms(3) have "le32 (length a) = le32 (length b)" and rest: "a @ s = b @ t"
    by (auto simp: absorb_def)
  then have "length a = length b" using le32_inj assms(1,2) by blast
  with rest show ?thesis by simp
qed

lemma zns_preimage_inject:
  assumes "zns_preimage t v n u e p = zns_preimage t' v' n' u' e' p'"
    and "\<forall>f\<in>{t, v, n, u, e}. length f < 2 ^ 32"
    and "\<forall>f\<in>{t', v', n', u', e'}. length f < 2 ^ 32"
  shows "t = t' \<and> v = v' \<and> n = n' \<and> u = u' \<and> e = e' \<and> p = p'"
proof -
  have "absorb t @ absorb v @ absorb n @ absorb u @ absorb e @ p
      = absorb t' @ absorb v' @ absorb n' @ absorb u' @ absorb e' @ p'"
    using assms(1) by (simp add: zns_preimage_def)
  then show ?thesis using assms(2,3)
    by (metis (no_types, lifting) absorb_prefix_free insert_iff)
qed

section \<open>The memo codec\<close>

definition note_memo_string :: "('ua, 'cm) zenv \<Rightarrow> ('ua, 'cm) name_note \<Rightarrow> string" where
  "note_memo_string E nt =
     join_with (CHR '':'')
       [''ZNS'', action_as_str (note_action nt), as_str (note_name nt),
        ua_encode E (note_ua nt), note_expiry_field nt, hex_encode E (note_prev_bytes E nt)]"

text \<open>\<open>NameNote::encode\<close> panics when the text is longer than the memo.\<close>

definition note_encode :: "('ua, 'cm) zenv \<Rightarrow> ('ua, 'cm) name_note \<Rightarrow> bytes may_panic" where
  "note_encode E nt =
     (let text = note_memo_string E nt
      in if length text > 512 then None else Some (pad_right 512 (CHR 0x00) text))"

definition memo_end :: "bytes \<Rightarrow> nat" where
  "memo_end memo =
     (case position (\<lambda>b. b = CHR 0x00) memo of None \<Rightarrow> length memo | Some i \<Rightarrow> i)"

definition note_decode_ua :: "('ua, 'cm) zenv \<Rightarrow> string \<Rightarrow> 'ua option" where
  "note_decode_ua E s =
     (case unified_decode E s of
        None \<Rightarrow> None
      | Some (net, revision, _, converted) \<Rightarrow>
          if net \<noteq> network_type_of E \<or> revision \<noteq> R0 then None else converted)"

definition is_lower_hex :: "char \<Rightarrow> bool" where
  "is_lower_hex b \<longleftrightarrow> is_ascii_digit b \<or> (97 \<le> byte_of b \<and> byte_of b \<le> 102)"

definition note_decode_prev :: "('ua, 'cm) zenv \<Rightarrow> string \<Rightarrow> bytes option" where
  "note_decode_prev E s =
     (if length s \<noteq> 64 \<or> \<not> list_all is_lower_hex s then None else hex_decode E s)"

text \<open>The action decides which fields are legal.\<close>

fun note_of_fields ::
  "('ua, 'cm) zenv \<Rightarrow> action \<Rightarrow> name \<Rightarrow> string \<Rightarrow> 'ua \<Rightarrow> expiry \<Rightarrow> bytes \<Rightarrow> ('ua, 'cm) name_note option"
where
  "note_of_fields E ActClaim n ua_str ua e prev =
     (if prev \<noteq> zero32 \<or> ua_str = [] then None else Some (NoteClaim n ua e))"
| "note_of_fields E ActUpdate n ua_str ua e prev =
     (if prev = zero32 \<or> ua_str = [] then None
      else map_option (NoteUpdate n ua e) (cm_from_bytes E prev))"
| "note_of_fields E ActSale n ua_str ua e prev =
     (if prev = zero32 \<or> ua_str = [] then None
      else map_option (NoteSale n ua e) (cm_from_bytes E prev))"
| "note_of_fields E ActRelease n ua_str ua e prev =
     (if ua_str = [] \<or> e \<noteq> Never \<or> prev = zero32 then None
      else map_option (NoteRelease n ua) (cm_from_bytes E prev))"
| "note_of_fields E ActList n ua_str ua e prev = None"
| "note_of_fields E ActDelist n ua_str ua e prev = None"
| "note_of_fields E ActAuction n ua_str ua e prev = None"

definition note_decode_fields :: "('ua, 'cm) zenv \<Rightarrow> bytes \<Rightarrow> ('ua, 'cm) name_note option" where
  "note_decode_fields E memo =
     (let stop = memo_end memo
      in if list_ex (\<lambda>b. b \<noteq> CHR 0x00) (drop stop memo) then None
         else if \<not> from_utf8_ok (take stop memo) then None
         else (case split_on (CHR '':'') (take stop memo) of
             [zns, verb, nm, ua_str, expf, prevf] \<Rightarrow>
               if zns \<noteq> ''ZNS'' then None
               else do {
                 n \<leftarrow> name_parse nm;
                 ua \<leftarrow> note_decode_ua E ua_str;
                 e \<leftarrow> expiry_parse E expf;
                 prev \<leftarrow> note_decode_prev E prevf;
                 act \<leftarrow> action_parse verb;
                 note_of_fields E act n ua_str ua e prev
               }
           | _ \<Rightarrow> None))"

definition note_decode :: "('ua, 'cm) zenv \<Rightarrow> bytes \<Rightarrow> ('ua, 'cm) name_note option may_panic" where
  "note_decode E memo =
     (case note_decode_fields E memo of
        None \<Rightarrow> Some None
      | Some nt \<Rightarrow>
          (case note_encode E nt of
             None \<Rightarrow> None
           | Some again \<Rightarrow> Some (if again = memo then Some nt else None)))"

text \<open>What the codec relies on of the other crates, as hypotheses on the environment: an
  encoded address is ASCII text without the separator that decodes to itself on this network,
  and hex and the commitment encoding are fixed-width and invertible.\<close>

definition plain_text :: "string \<Rightarrow> bool" where
  "plain_text s \<longleftrightarrow> (\<forall>c\<in>set s. byte_of c < 128 \<and> c \<noteq> CHR '':'' \<and> c \<noteq> CHR 0x00)"

definition ua_codec_at :: "('ua, 'cm) zenv \<Rightarrow> 'ua \<Rightarrow> bool" where
  "ua_codec_at E ua \<longleftrightarrow>
     ua_encode E ua \<noteq> [] \<and> plain_text (ua_encode E ua) \<and>
     (\<exists>md. unified_decode E (ua_encode E ua) = Some (network_type_of E, R0, md, Some ua))"

definition hex_codec_at :: "('ua, 'cm) zenv \<Rightarrow> bytes \<Rightarrow> bool" where
  "hex_codec_at E b \<longleftrightarrow>
     length (hex_encode E b) = 64 \<and> list_all is_lower_hex (hex_encode E b) \<and>
     hex_decode E (hex_encode E b) = Some b"

definition cm_codec_at :: "('ua, 'cm) zenv \<Rightarrow> 'cm \<Rightarrow> bool" where
  "cm_codec_at E r \<longleftrightarrow> cm_from_bytes E (cm_to_bytes E r) = Some r \<and> cm_to_bytes E r \<noteq> zero32"

definition codec_ok :: "('ua, 'cm) zenv \<Rightarrow> ('ua, 'cm) name_note \<Rightarrow> bool" where
  "codec_ok E nt \<longleftrightarrow>
     ua_codec_at E (note_ua nt) \<and> hex_codec_at E (note_prev_bytes E nt) \<and>
     (case note_prev_rcm nt of None \<Rightarrow> True | Some r \<Rightarrow> cm_codec_at E r)"

text \<open>The fields the constructors' callers guarantee.\<close>

definition valid_note :: "('ua, 'cm) zenv \<Rightarrow> ('ua, 'cm) name_note \<Rightarrow> bool" where
  "valid_note E nt \<longleftrightarrow>
     valid_name (note_name nt) \<and>
     (case note_expires_at nt of None \<Rightarrow> True | Some e \<Rightarrow> valid_expiry E e)"

lemma plain_text_no_sep: "plain_text s \<Longrightarrow> CHR '':'' \<notin> set s"
  by (auto simp: plain_text_def)

lemma plain_name: "valid_name n \<Longrightarrow> plain_text (as_str n)"
  by (simp add: plain_text_def valid_name_char)

lemma plain_action: "plain_text (action_as_str a)"
  by (simp add: plain_text_def action_as_str_char)

lemma digit_plain: "is_ascii_digit c \<Longrightarrow> byte_of c < 128 \<and> c \<noteq> CHR '':'' \<and> c \<noteq> CHR 0x00"
  by (auto simp: is_ascii_digit_def byte_of_def)

lemma plain_digits: "all_digits s \<Longrightarrow> plain_text s"
  by (metis all_digits_def digit_plain list_all_iff plain_text_def)

lemma hex_plain: "is_lower_hex c \<Longrightarrow> byte_of c < 128 \<and> c \<noteq> CHR '':'' \<and> c \<noteq> CHR 0x00"
  using digit_plain [of c] by (auto simp: is_lower_hex_def byte_of_def)

lemma plain_hex: "list_all is_lower_hex s \<Longrightarrow> plain_text s"
  by (metis hex_plain list_all_iff plain_text_def)

lemma plain_expiry: "valid_expiry E e \<Longrightarrow> plain_text (expiry_field_bytes e)"
  using plain_digits [OF all_digits_dec]
  by (cases e) (auto simp: expiry_field_bytes_def valid_expiry_def dec_int_nonneg plain_text_def
      byte_of_def)

definition note_expiry :: "('ua, 'cm) name_note \<Rightarrow> expiry" where
  "note_expiry nt = (case note_expires_at nt of None \<Rightarrow> Never | Some e \<Rightarrow> e)"

lemma valid_note_expiry: "valid_note E nt \<Longrightarrow> valid_expiry E (note_expiry nt)"
  by (auto simp: valid_note_def note_expiry_def valid_expiry_def split: option.splits)

lemma note_expiry_field_eq: "note_expiry_field nt = expiry_field_bytes (note_expiry nt)"
  by (simp add: note_expiry_field_def note_expiry_def)

definition memo_fields :: "('ua, 'cm) zenv \<Rightarrow> ('ua, 'cm) name_note \<Rightarrow> string list" where
  "memo_fields E nt =
     [''ZNS'', action_as_str (note_action nt), as_str (note_name nt),
      ua_encode E (note_ua nt), note_expiry_field nt, hex_encode E (note_prev_bytes E nt)]"

lemma memo_fields_plain:
  assumes "valid_note E nt" and "codec_ok E nt" and "f \<in> set (memo_fields E nt)"
  shows "plain_text f"
proof -
  have "plain_text (note_expiry_field nt)"
    unfolding note_expiry_field_eq by (rule plain_expiry, rule valid_note_expiry, rule assms(1))
  moreover have "plain_text ''ZNS''" by (simp add: plain_text_def byte_of_def)
  moreover have "plain_text (as_str (note_name nt))"
    using assms(1) by (simp add: valid_note_def plain_name)
  moreover have "plain_text (ua_encode E (note_ua nt))"
    and "plain_text (hex_encode E (note_prev_bytes E nt))"
    using assms(2) by (auto simp: codec_ok_def ua_codec_at_def hex_codec_at_def plain_hex)
  ultimately show ?thesis using assms(3) plain_action by (auto simp: memo_fields_def)
qed

lemma memo_string_split:
  assumes "valid_note E nt" and "codec_ok E nt"
  shows "split_on (CHR '':'') (note_memo_string E nt) = memo_fields E nt"
proof -
  have "note_memo_string E nt = join_with (CHR '':'') (memo_fields E nt)"
    by (simp add: note_memo_string_def memo_fields_def)
  then show ?thesis
    using split_join [of "memo_fields E nt" "CHR '':''"] memo_fields_plain [OF assms] plain_text_no_sep
    by (metis memo_fields_def list.distinct(1))
qed

lemma memo_string_chars:
  assumes "valid_note E nt" and "codec_ok E nt" and "c \<in> set (note_memo_string E nt)"
  shows "byte_of c < 128 \<and> c \<noteq> CHR 0x00"
proof -
  have "c = CHR '':'' \<or> (\<exists>f\<in>set (memo_fields E nt). c \<in> set f)"
    using assms(3) join_with_set [of "CHR '':''" "memo_fields E nt"]
    by (auto simp: note_memo_string_def memo_fields_def)
  then show ?thesis
    using memo_fields_plain [OF assms(1,2)] by (auto simp: plain_text_def byte_of_def)
qed

lemma position_zero_pad:
  "CHR 0x00 \<notin> set s \<Longrightarrow> position (\<lambda>b. b = CHR 0x00) (s @ replicate k (CHR 0x00)) =
     (if k = 0 then None else Some (length s))"
  by (induction s) (auto simp: gr0_conv_Suc elim: not0_implies_Suc intro: position_None_iff [THEN iffD2])

lemma memo_end_pad:
  assumes "CHR 0x00 \<notin> set s" and "length s \<le> 512"
  shows "memo_end (pad_right 512 (CHR 0x00) s) = length s"
  using assms by (auto simp: memo_end_def pad_right_def position_zero_pad)

lemma note_of_fields_note:
  assumes "codec_ok E nt"
  shows "note_of_fields E (note_action nt) (note_name nt) (ua_encode E (note_ua nt)) (note_ua nt)
           (note_expiry nt) (note_prev_bytes E nt) = Some nt"
  using assms
  by (cases nt) (auto simp: codec_ok_def ua_codec_at_def cm_codec_at_def note_prev_bytes_def
      note_expiry_def)

lemma note_decode_fields_encode:
  assumes "valid_note E nt" and "codec_ok E nt" and "note_encode E nt = Some memo"
  shows "note_decode_fields E memo = Some nt"
proof -
  from assms(3) have memo: "memo = pad_right 512 (CHR 0x00) (note_memo_string E nt)"
    and len: "length (note_memo_string E nt) \<le> 512"
    by (auto simp: note_encode_def Let_def split: if_splits)
  have z: "CHR 0x00 \<notin> set (note_memo_string E nt)"
    using memo_string_chars [OF assms(1,2)] by blast
  have stop: "memo_end memo = length (note_memo_string E nt)"
    unfolding memo by (rule memo_end_pad [OF z len])
  then have tk: "take (memo_end memo) memo = note_memo_string E nt"
    and dr: "\<not> list_ex (\<lambda>b. b \<noteq> CHR 0x00) (drop (memo_end memo) memo)"
    by (auto simp: memo pad_right_def list_ex_iff)
  have utf: "from_utf8_ok (note_memo_string E nt)"
    using memo_string_chars [OF assms(1,2)] by (auto intro: utf8_ascii)
  have ua: "note_decode_ua E (ua_encode E (note_ua nt)) = Some (note_ua nt)"
    using assms(2) by (auto simp: codec_ok_def ua_codec_at_def note_decode_ua_def)
  have pv: "note_decode_prev E (hex_encode E (note_prev_bytes E nt)) = Some (note_prev_bytes E nt)"
    using assms(2) by (simp add: codec_ok_def hex_codec_at_def note_decode_prev_def)
  have ex: "expiry_parse E (note_expiry_field nt) = Some (note_expiry nt)"
    unfolding note_expiry_field_eq
    by (rule expiry_parse_field_bytes, rule valid_note_expiry, rule assms(1))
  have nm: "name_parse (as_str (note_name nt)) = Some (note_name nt)"
    using assms(1) by (simp add: valid_note_def name_parse_as_str)
  show ?thesis
    using dr utf memo_string_split [OF assms(1,2)] ua pv ex nm note_of_fields_note [OF assms(2)]
    by (simp add: note_decode_fields_def Let_def tk memo_fields_def)
qed

lemma note_of_fields_valid:
  "note_of_fields E act n ua_str ua e prev = Some nt \<Longrightarrow>
     note_name nt = n \<and> note_ua nt = ua \<and> note_action nt = act \<and>
     (case note_expires_at nt of None \<Rightarrow> e = Never | Some e' \<Rightarrow> e' = e)"
  by (cases act) (auto split: if_splits)

lemma note_decode_fields_valid:
  assumes "note_decode_fields E memo = Some nt"
  shows "valid_note E nt"
proof -
  obtain nm n ua_str ua expf e prev act where
    "name_parse nm = Some n" and "expiry_parse E expf = Some e"
    and "note_of_fields E act n ua_str ua e prev = Some nt"
    using assms
    by (auto simp: note_decode_fields_def Let_def Option.bind_eq_Some_conv
        split: if_splits list.splits)
  then show ?thesis
    using note_of_fields_valid [of E act n ua_str ua e prev nt] expiry_parse_canonical [of E expf e]
      name_parse_valid [of nm n]
    by (auto simp: valid_note_def valid_expiry_def split: option.splits)
qed

lemma length_expiry_field: "valid_expiry E e \<Longrightarrow> length (expiry_field_bytes e) \<le> 19"
  by (cases e) (auto simp: expiry_field_bytes_def valid_expiry_def dec_int_nonneg length_dec_i64)

lemma memo_string_length:
  assumes "valid_note E nt" and "length (hex_encode E (note_prev_bytes E nt)) = 64"
  shows "length (note_memo_string E nt) \<le> 161 + length (ua_encode E (note_ua nt))"
proof -
  have "length (note_expiry_field nt) \<le> 19"
    unfolding note_expiry_field_eq by (rule length_expiry_field, rule valid_note_expiry, rule assms(1))
  moreover have "length (as_str (note_name nt)) \<le> 63"
    using assms(1) by (simp add: valid_note_def valid_name_iff)
  moreover have "length (action_as_str (note_action nt)) \<le> 7" by (rule length_action_as_str)
  ultimately show ?thesis
    using assms(2) by (simp add: note_memo_string_def length_join_with)
qed

end
