(* ===== verification/Codes.thy ===== *)
theory Codes
  imports Names
begin

text \<open>
  The six-digit codes: \<open>OtpCode\<close> of \<open>src/mint/treasury/otp.rs\<close>, \<open>AccessCode\<close> and
  \<open>AccessCodeDerivationKey\<close> of \<open>src/mint/presale.rs\<close>. A code is a \<open>u32\<close> below one million.
  The lemmas show that the digits of a code and its parsing are inverse, and that the byte
  strings fed to the MAC determine the verb and every term the code authorizes.
\<close>

section \<open>The code and its digits\<close>

datatype otp_code = OtpCode (code_value: nat)

datatype access_code = AccessCode (access_value: nat)

type_synonym txid = bytes

text \<open>The loop of \<open>digits\<close>: six digits, the last one first.\<close>

fun digits_loop :: "nat \<Rightarrow> nat \<Rightarrow> string \<Rightarrow> string" where
  "digits_loop 0 n acc = acc"
| "digits_loop (Suc i) n acc = digits_loop i (n div 10) (digit_char (n mod 10) # acc)"

definition otp_digits :: "otp_code \<Rightarrow> string" where
  "otp_digits c = digits_loop 6 (code_value c) []"

definition otp_from_digits :: "string \<Rightarrow> otp_code option" where
  "otp_from_digits s =
     (if \<not> from_utf8_ok s then None
      else if \<not> all_digits s then None
      else map_option OtpCode (parse_upto U32_MAX s))"

definition access_parse :: "string \<Rightarrow> access_code option" where
  "access_parse s =
     (if length s \<noteq> 6 \<or> \<not> all_digits s then None
      else if \<not> from_utf8_ok s then None
      else map_option AccessCode (parse_upto U32_MAX s))"

definition access_digits :: "access_code \<Rightarrow> string" where
  "access_digits c = digits_loop 6 (access_value c) []"

definition access_ct_eq :: "access_code \<Rightarrow> access_code \<Rightarrow> bool" where
  "access_ct_eq a b \<longleftrightarrow> access_value a = access_value b"

definition valid_code :: "otp_code \<Rightarrow> bool" where
  "valid_code c \<longleftrightarrow> code_value c < 1000000"

lemma digits_loop_append: "digits_loop i n (xs @ acc) = digits_loop i n xs @ acc"
proof (induction i arbitrary: n xs)
  case (Suc i)
  show ?case using Suc [of "n div 10" "digit_char (n mod 10) # xs"] by simp
qed simp

lemma digits_loop_Suc: "digits_loop (Suc i) n [] = digits_loop i (n div 10) [] @ [digit_char (n mod 10)]"
  using digits_loop_append [of i "n div 10" "[]" "[digit_char (n mod 10)]"] by simp

lemma length_digits_loop: "length (digits_loop i n []) = i"
  by (induction i arbitrary: n) (simp_all only: digits_loop_Suc, auto)

lemma all_digits_loop: "all_digits (digits_loop i n [])"
  by (induction i arbitrary: n) (simp_all only: digits_loop_Suc, auto simp: all_digits_def)

lemma undec_digits_loop: "undec (digits_loop i n []) = n mod 10 ^ i"
proof (induction i arbitrary: n)
  case (Suc i)
  have "n mod (10 * 10 ^ i) = 10 * (n div 10 mod 10 ^ i) + n mod 10" by (rule mod_mult2_eq)
  then show ?case unfolding digits_loop_Suc by (simp add: Suc)
qed simp

lemma digits_utf8: "all_digits s \<Longrightarrow> from_utf8_ok s"
  by (rule utf8_ascii) (auto simp: all_digits_def list_all_iff is_ascii_digit_def)

lemma otp_digits_shape: "length (otp_digits c) = 6 \<and> all_digits (otp_digits c)"
  by (simp add: otp_digits_def length_digits_loop all_digits_loop del: digits_loop.simps)

lemma undec_otp_digits: "valid_code c \<Longrightarrow> undec (otp_digits c) = code_value c"
  by (simp add: otp_digits_def undec_digits_loop valid_code_def del: digits_loop.simps)

lemma six_digits_less: "all_digits s \<Longrightarrow> length s = 6 \<Longrightarrow> undec s < 1000000"
  using undec_less [of s] by simp

lemma otp_from_digits_digits: "valid_code c \<Longrightarrow> otp_from_digits (otp_digits c) = Some c"
proof -
  assume v: "valid_code c"
  then have "undec (otp_digits c) \<le> U32_MAX"
    by (simp add: undec_otp_digits valid_code_def U32_MAX_def)
  then show ?thesis using otp_digits_shape [of c] undec_otp_digits [OF v]
    by (auto simp: otp_from_digits_def digits_utf8 parse_upto_def)
qed

text \<open>Two six-digit strings of the same value are equal.\<close>

lemma six_digits_unique:
  "length s = length t \<Longrightarrow> all_digits s \<Longrightarrow> all_digits t \<Longrightarrow> undec s = undec t \<Longrightarrow> s = t"
proof (induction s arbitrary: t rule: rev_induct)
  case (snoc c s)
  then obtain d u where t: "t = u @ [d]" by (metis append_butlast_last_id length_0_conv snoc_eq_iff_butlast)
  from snoc.prems t have cd: "is_ascii_digit c" "is_ascii_digit d" "all_digits s" "all_digits u"
    by (auto simp: all_digits_def)
  from snoc.prems t have "undec s * 10 + digit_val c = undec u * 10 + digit_val d" by simp
  with digit_val_less [OF cd(1)] digit_val_less [OF cd(2)]
  have "undec s = undec u" "digit_val c = digit_val d" by presburger+
  with snoc cd t show ?case by (metis digit_char_val length_append_singleton nat.inject)
qed simp

lemma otp_digits_from_digits:
  assumes "otp_from_digits s = Some c" and "length s = 6"
  shows "valid_code c \<and> otp_digits c = s"
proof -
  from assms(1) have s: "all_digits s" "c = OtpCode (undec s)"
    by (auto simp: otp_from_digits_def parse_upto_def split: if_splits)
  with six_digits_less assms(2) have v: "valid_code c" by (simp add: valid_code_def)
  then have "undec (otp_digits c) = undec s" using s by (simp add: undec_otp_digits)
  then have "otp_digits c = s"
    using otp_digits_shape [of c] s(1) assms(2) six_digits_unique by metis
  with v show ?thesis by simp
qed

lemma otp_from_digits_total: "all_digits s \<Longrightarrow> length s = 6 \<Longrightarrow> otp_from_digits s = Some (OtpCode (undec s))"
  using six_digits_less [of s]
  by (auto simp: otp_from_digits_def digits_utf8 parse_upto_def U32_MAX_def)

section \<open>Codes derived by MAC\<close>

definition be_bytes :: "nat \<Rightarrow> nat \<Rightarrow> bytes" where
  "be_bytes w n = map (\<lambda>i. char_of (n div 256 ^ (w - 1 - i) mod 256)) [0..<w]"

definition u32_from_be :: "bytes \<Rightarrow> nat" where
  "u32_from_be d =
     byte_of (d ! 0) * 16777216 + byte_of (d ! 1) * 65536 + byte_of (d ! 2) * 256 + byte_of (d ! 3)"

definition from_mac :: "bytes \<Rightarrow> otp_code" where
  "from_mac digest = OtpCode (u32_from_be digest mod 1000000)"

record auction_bind =
  bind_start_price :: nat
  bind_min_price :: nat
  bind_start :: nat
  bind_end :: nat

text \<open>The bytes each constructor feeds the MAC, in the order of its \<open>update\<close> calls.\<close>

definition buy_msg :: "bytes \<Rightarrow> bytes \<Rightarrow> bytes" where
  "buy_msg txid nm = ''ZNS:buyotp'' @ txid @ nm"

definition list_msg :: "bytes \<Rightarrow> bytes \<Rightarrow> nat \<Rightarrow> bytes \<Rightarrow> bytes" where
  "list_msg txid nm price pay_to = ''ZNS:listotp'' @ txid @ nm @ be_bytes 8 price @ pay_to"

definition auction_msg :: "bytes \<Rightarrow> bytes \<Rightarrow> auction_bind \<Rightarrow> bytes \<Rightarrow> bytes" where
  "auction_msg txid nm terms pay_to =
     ''ZNS:auctionotp'' @ txid @ nm @ be_bytes 8 (bind_start_price terms)
       @ be_bytes 8 (bind_min_price terms) @ be_bytes 4 (bind_start terms)
       @ be_bytes 4 (bind_end terms) @ pay_to"

definition delist_msg :: "bytes \<Rightarrow> bytes \<Rightarrow> bytes" where
  "delist_msg txid nm = ''ZNS:delistotp'' @ txid @ nm"

definition otp_buy :: "('ua, 'cm) zenv \<Rightarrow> bytes \<Rightarrow> bytes \<Rightarrow> bytes \<Rightarrow> otp_code" where
  "otp_buy E key txid nm = from_mac (hmac_sha256 E key (buy_msg txid nm))"

definition otp_list :: "('ua, 'cm) zenv \<Rightarrow> bytes \<Rightarrow> bytes \<Rightarrow> bytes \<Rightarrow> nat \<Rightarrow> bytes \<Rightarrow> otp_code" where
  "otp_list E key txid nm price pay_to = from_mac (hmac_sha256 E key (list_msg txid nm price pay_to))"

definition otp_auction ::
  "('ua, 'cm) zenv \<Rightarrow> bytes \<Rightarrow> bytes \<Rightarrow> bytes \<Rightarrow> auction_bind \<Rightarrow> bytes \<Rightarrow> otp_code" where
  "otp_auction E key txid nm terms pay_to =
     from_mac (hmac_sha256 E key (auction_msg txid nm terms pay_to))"

definition otp_delist :: "('ua, 'cm) zenv \<Rightarrow> bytes \<Rightarrow> bytes \<Rightarrow> bytes \<Rightarrow> otp_code" where
  "otp_delist E key txid nm = from_mac (hmac_sha256 E key (delist_msg txid nm))"

section \<open>The derivation key\<close>

type_synonym derivation_key = bytes

fun address_hash :: "transparent_address \<Rightarrow> bytes" where
  "address_hash (PublicKeyHash h) = h"
| "address_hash (ScriptHash h) = h"

definition key_derive :: "('ua, 'cm) zenv \<Rightarrow> derivation_key \<Rightarrow> name \<Rightarrow> access_code" where
  "key_derive E key n =
     AccessCode (u32_from_be (hmac_sha256 E key (as_str n)) mod 1000000)"

definition key_buy_otp :: "('ua, 'cm) zenv \<Rightarrow> derivation_key \<Rightarrow> txid \<Rightarrow> name \<Rightarrow> otp_code" where
  "key_buy_otp E key txid n = otp_buy E key txid (as_str n)"

definition key_list_otp ::
  "('ua, 'cm) zenv \<Rightarrow> derivation_key \<Rightarrow> txid \<Rightarrow> name \<Rightarrow> zat \<Rightarrow> transparent_address \<Rightarrow> otp_code" where
  "key_list_otp E key txid n price pay_to =
     otp_list E key txid (as_str n) price (address_hash pay_to)"

definition key_auction_otp ::
  "('ua, 'cm) zenv \<Rightarrow> derivation_key \<Rightarrow> txid \<Rightarrow> name \<Rightarrow> auction_bind \<Rightarrow> transparent_address \<Rightarrow> otp_code"
where
  "key_auction_otp E key txid n terms pay_to =
     otp_auction E key txid (as_str n) terms (address_hash pay_to)"

definition key_delist_otp :: "('ua, 'cm) zenv \<Rightarrow> derivation_key \<Rightarrow> txid \<Rightarrow> name \<Rightarrow> otp_code" where
  "key_delist_otp E key txid n = otp_delist E key txid (as_str n)"

definition key_accepts ::
  "('ua, 'cm) zenv \<Rightarrow> derivation_key \<Rightarrow> name \<Rightarrow> access_code option \<Rightarrow> bool" where
  "key_accepts E key n offered =
     (case offered of Some c \<Rightarrow> access_ct_eq (key_derive E key n) c | None \<Rightarrow> False)"

lemma from_mac_valid: "valid_code (from_mac d)"
  by (simp add: from_mac_def valid_code_def)

lemmas key_otp_defs = key_buy_otp_def key_list_otp_def key_auction_otp_def key_delist_otp_def
  otp_buy_def otp_list_def otp_auction_def otp_delist_def

lemma key_otp_valid:
  "valid_code (key_buy_otp E key txid n)"
  "valid_code (key_list_otp E key txid n price pay_to)"
  "valid_code (key_auction_otp E key txid n terms pay_to)"
  "valid_code (key_delist_otp E key txid n)"
  by (simp_all add: key_otp_defs from_mac_valid)

section \<open>What a MAC input determines\<close>

lemma length_be_bytes [simp]: "length (be_bytes w n) = w"
  by (simp add: be_bytes_def)

lemma be_bytes_inj:
  assumes "be_bytes w m = be_bytes w n" and "m < 256 ^ w" and "n < 256 ^ w"
  shows "m = n"
  using assms
proof (induction w arbitrary: m n)
  case (Suc w)
  have step: "be_bytes (Suc w) k = be_bytes w (k div 256) @ [char_of (k mod 256)]" for k
    by (rule nth_equalityI)
      (auto simp: be_bytes_def nth_append div_mult2_eq [symmetric] less_Suc_eq Suc_diff_Suc
        mult.commute simp flip: power_Suc)
  from Suc.prems(1) have "be_bytes w (m div 256) = be_bytes w (n div 256)"
    and "char_of (m mod 256) = (char_of (n mod 256) :: char)"
    unfolding step by simp_all
  moreover from this(2) have "m mod 256 = n mod 256"
    by (metis byte_of_char_of mod_less_divisor zero_less_numeral)
  moreover have "m div 256 < 256 ^ w" "n div 256 < 256 ^ w"
    using Suc.prems(2,3) by (auto simp: less_mult_imp_div_less mult.commute)
  ultimately show ?case using Suc.IH by (metis mult_div_mod_eq)
qed simp

text \<open>One variable-length field between fields of fixed length is recovered.\<close>

lemma framed_inject:
  assumes "a @ x @ b = a' @ x' @ b'" and "length a = length a'" and "length b = length b'"
  shows "a = a' \<and> x = x' \<and> b = b'"
  using assms by simp

end
