(* ===== verification/Sale_Terms.thy ===== *)
theory Sale_Terms
  imports Codes
begin

text \<open>
  The terms of a sale, from \<open>src/mint/sale.rs\<close>: prices as text, the falling clock, the
  listing, and the amount a buyer pays. The lemmas show that a printed price reads back, that
  a clock's price falls from its start price to its minimum and never leaves that range, and
  that an amount identifies the code it carries.
\<close>

section \<open>Prices and heights as text\<close>

definition decode_zec :: "('ua, 'cm) zenv \<Rightarrow> string \<Rightarrow> zat option" where
  "decode_zec E text =
     (case (case split_once (CHR ''.'') text of Some parts \<Rightarrow> parts | None \<Rightarrow> (text, '''')) of
        (whole, frac) \<Rightarrow>
          if whole = [] \<or> (length whole > 1 \<and> hd whole = CHR ''0'') \<or> \<not> all_digits whole
            \<or> length frac > 8 \<or> \<not> all_digits frac then None
          else do {
            w \<leftarrow> parse_upto U64_MAX whole;
            frac_zats \<leftarrow> (if frac = [] then Some 0
              else parse_upto U64_MAX (pad_right 8 (CHR ''0'') frac));
            m \<leftarrow> (if w * 100000000 \<le> U64_MAX then Some (w * 100000000) else None);
            a \<leftarrow> (if m + frac_zats \<le> U64_MAX then Some (m + frac_zats) else None);
            zat_from_u64 E a
          })"

definition encode_zec :: "zat \<Rightarrow> string" where
  "encode_zec zats =
     (let whole = zats div 100000000; frac = zats mod 100000000 in
      if frac = 0 then dec whole
      else dec whole @ ''.'' @ trim_end (CHR ''0'') (pad_left 8 (CHR ''0'') (dec frac)))"

definition decode_height :: "string \<Rightarrow> height option" where
  "decode_height text =
     (if text = [] \<or> (length text > 1 \<and> hd text = CHR ''0'') \<or> \<not> all_digits text then None
      else parse_upto U32_MAX text)"

definition decode_t1 :: "('ua, 'cm) zenv \<Rightarrow> string \<Rightarrow> transparent_address option" where
  "decode_t1 E text =
     (case address_decode E text of
        Some (Transparent (PublicKeyHash h)) \<Rightarrow> Some (PublicKeyHash h)
      | _ \<Rightarrow> None)"

section \<open>The clock\<close>

record clock =
  clk_start_price :: zat
  clk_min_price :: zat
  clk_start :: height
  clk_end :: height

definition clock_is_valid :: "clock \<Rightarrow> bool" where
  "clock_is_valid c \<longleftrightarrow> clk_end c > clk_start c \<and> clk_start_price c > clk_min_price c"

definition price_at :: "('ua, 'cm) zenv \<Rightarrow> clock \<Rightarrow> height \<Rightarrow> zat option" where
  "price_at E c height =
     (if \<not> clock_is_valid c \<or> height < clk_start c \<or> height > clk_end c then None
      else
        let span = clk_end c - clk_start c;
            elapsed = height - clk_start c;
            drop = clk_start_price c - clk_min_price c;
            fallen = drop * elapsed div span
        in if fallen \<le> U64_MAX then zat_from_u64 E (clk_start_price c - fallen) else None)"

section \<open>Listings\<close>

datatype ask = Flat zat | Dutch clock

record 'ua listing =
  l_name :: name
  l_ua :: 'ua
  l_pay_to :: transparent_address
  l_ask :: ask

definition is_owner_listing :: "('ua, 'cm) zenv \<Rightarrow> 'ua \<Rightarrow> 'ua \<Rightarrow> transparent_address \<Rightarrow> bool" where
  "is_owner_listing E owner ua pay_to \<longleftrightarrow> owner = ua \<and> ua_transparent E owner = Some pay_to"

datatype market_refusal =
    BuyOpen | NotOwner | NotListed | InFlight | ReleaseDue | AlreadyOpen | CodeTaken
  | PaymentTaken | Early height | Held timestamp | BadClock | Ended

definition clock_ready :: "ask \<Rightarrow> height \<Rightarrow> market_refusal + unit" where
  "clock_ready a height =
     (case a of
        Flat _ \<Rightarrow> Inr ()
      | Dutch c \<Rightarrow>
          if \<not> clock_is_valid c then Inl BadClock
          else if height > clk_end c then Inl Ended
          else Inr ())"

section \<open>The amount that carries a code\<close>

definition otp_amount :: "('ua, 'cm) zenv \<Rightarrow> otp_code \<Rightarrow> zat may_panic" where
  "otp_amount E c = parse_upto U64_MAX (otp_digits c) \<bind> zat_from_u64 E"

definition payment_is_price_plus_otp ::
  "('ua, 'cm) zenv \<Rightarrow> zat \<Rightarrow> zat \<Rightarrow> otp_code \<Rightarrow> bool may_panic" where
  "payment_is_price_plus_otp E value price c =
     map_option (\<lambda>amount. (if price \<le> value then Some (value - price) else None) = Some amount)
       (otp_amount E c)"

definition payment_total :: "('ua, 'cm) zenv \<Rightarrow> zat \<Rightarrow> otp_code \<Rightarrow> nat option may_panic" where
  "payment_total E price c =
     map_option (\<lambda>amount. if price + amount \<le> U64_MAX then Some (price + amount) else None)
       (otp_amount E c)"

section \<open>Lemmas: text\<close>

lemma all_digits_append [simp]: "all_digits (a @ b) \<longleftrightarrow> all_digits a \<and> all_digits b"
  by (simp add: all_digits_def)

lemma all_digits_zeros [simp]: "all_digits (replicate k (CHR ''0''))"
  by (simp add: all_digits_def list_all_iff is_ascii_digit_def byte_of_def)

lemma undec_pad_trim:
  assumes "n < 10 ^ 8"
  defines "t \<equiv> trim_end (CHR ''0'') (pad_left 8 (CHR ''0'') (dec n))"
  shows "length t \<le> 8" and "all_digits t" and "undec (pad_right 8 (CHR ''0'') t) = n"
proof -
  let ?p = "pad_left 8 (CHR ''0'') (dec n)"
  have "length (dec n) \<le> 8" using length_dec_le [OF assms(1)] by simp
  then have len: "length ?p = 8" by (simp add: pad_left_def)
  then show "length t \<le> 8" unfolding t_def by (metis length_trim_end_le)
  have "all_digits ?p" by (simp add: pad_left_def)
  moreover obtain k where "?p = t @ replicate k (CHR ''0'')"
    unfolding t_def using trim_end_decomp by blast
  ultimately show "all_digits t" by (metis all_digits_append)
  show "undec (pad_right 8 (CHR ''0'') t) = n"
    unfolding t_def pad_trim [OF len] by (simp add: pad_left_def undec_replicate_zero)
qed

lemma dec_no_dot: "CHR ''.'' \<notin> set (dec n)"
  by (rule digits_no_char) (simp_all add: is_ascii_digit_def byte_of_def)

lemma decode_encode_zec:
  assumes "z \<le> max_money E" and "max_money E \<le> U64_MAX"
  shows "decode_zec E (encode_zec z) = Some z"
proof -
  let ?w = "z div 100000000" and ?f = "z mod 100000000"
  have z: "?w * 100000000 + ?f = z" by simp
  have wz: "?w \<le> z" by simp
  have le: "?w \<le> U64_MAX" "?w * 100000000 \<le> U64_MAX" "z \<le> U64_MAX"
    using assms z by linarith+
  have c: "\<not> (length (dec ?w) > 1 \<and> hd (dec ?w) = CHR ''0'')"
    using canonical_dec_dec [of ?w] by (auto simp: canonical_dec_def)
  show ?thesis
  proof (cases "?f = 0")
    case True
    then have "encode_zec z = dec ?w" by (simp add: encode_zec_def)
    with True z le c assms(1) show ?thesis
      by (simp add: decode_zec_def split_once_None [OF dec_no_dot] zat_from_u64_def all_digits_def)
        (use all_digits_dec [of ?w] in \<open>simp add: all_digits_def\<close>)
  next
    case False
    let ?t = "trim_end (CHR ''0'') (pad_left 8 (CHR ''0'') (dec ?f))"
    have f8: "?f < 10 ^ 8" by simp
    note t = undec_pad_trim [OF f8]
    have ne: "?t \<noteq> []" using t(3) False by (auto simp: pad_right_def undec_append_zeros [of "[]", simplified])
    have pf: "parse_upto U64_MAX (pad_right 8 (CHR ''0'') ?t) = Some ?f"
      using t ne by (auto simp: parse_upto_def pad_right_def U64_MAX_def)
    have "encode_zec z = dec ?w @ CHR ''.'' # ?t" using False by (simp add: encode_zec_def Let_def)
    then have "split_once (CHR ''.'') (encode_zec z) = Some (dec ?w, ?t)"
      by (simp add: split_once_append dec_no_dot)
    with t ne pf z le c assms(1) show ?thesis
      by (simp add: decode_zec_def zat_from_u64_def)
  qed
qed

lemma decode_zec_bound: "decode_zec E s = Some z \<Longrightarrow> z \<le> max_money E"
  by (auto simp: decode_zec_def zat_from_u64_def Option.bind_eq_Some_conv
      split: if_splits option.splits prod.splits)

lemma decode_height_dec: "h \<le> U32_MAX \<Longrightarrow> decode_height (dec h) = Some h"
  using canonical_dec_dec [of h] by (auto simp: decode_height_def canonical_dec_def)

lemma decode_height_Some: "decode_height s = Some h \<longleftrightarrow> s = dec h \<and> h \<le> U32_MAX"
proof
  assume a: "decode_height s = Some h"
  then have "canonical_dec s" "h = undec s" "h \<le> U32_MAX"
    by (auto simp: decode_height_def canonical_dec_def parse_upto_def split: if_splits)
  then show "s = dec h \<and> h \<le> U32_MAX" by (simp add: dec_undec)
qed (auto intro: decode_height_dec)

section \<open>Lemmas: the clock\<close>

text \<open>How far the price has fallen after \<open>e\<close> of \<open>s\<close> blocks.\<close>

lemma fallen_le: "e \<le> s \<Longrightarrow> d * e div s \<le> (d::nat)"
  by (cases "s = 0") (auto simp: div_le_mono2 intro: order_trans [OF div_le_mono [of "d * e" "d * s" s]])

lemma price_at_Some_iff:
  assumes "clk_start_price c \<le> max_money E" and "max_money E \<le> U64_MAX"
  shows "price_at E c h = Some p \<longleftrightarrow>
    clock_is_valid c \<and> clk_start c \<le> h \<and> h \<le> clk_end c \<and>
    p = clk_start_price c
        - (clk_start_price c - clk_min_price c) * (h - clk_start c) div (clk_end c - clk_start c)"
proof -
  let ?f = "(clk_start_price c - clk_min_price c) * (h - clk_start c) div (clk_end c - clk_start c)"
  have "?f \<le> clk_start_price c" if "h \<le> clk_end c"
    using fallen_le [of "h - clk_start c" "clk_end c - clk_start c" "clk_start_price c - clk_min_price c"]
      that by (simp add: diff_le_mono)
  then have "h \<le> clk_end c \<Longrightarrow> ?f \<le> U64_MAX" using assms by (meson order_trans)
  then show ?thesis using assms
    by (auto simp: price_at_def zat_from_u64_def Let_def split: if_splits)
qed

lemma price_at_range:
  assumes "clk_start_price c \<le> max_money E" and "max_money E \<le> U64_MAX"
    and "price_at E c h = Some p"
  shows "clk_min_price c \<le> p \<and> p \<le> clk_start_price c"
proof -
  from assms(3) have *: "clock_is_valid c" "h \<le> clk_end c"
    "p = clk_start_price c
        - (clk_start_price c - clk_min_price c) * (h - clk_start c) div (clk_end c - clk_start c)"
    by (auto simp: price_at_Some_iff [OF assms(1,2)])
  have "(clk_start_price c - clk_min_price c) * (h - clk_start c) div (clk_end c - clk_start c)
      \<le> clk_start_price c - clk_min_price c"
    by (rule fallen_le) (use * in simp)
  moreover have "m \<le> s - x" if "x \<le> s - m" "m < s" for m s x :: nat using that by linarith
  ultimately show ?thesis using * by (simp add: clock_is_valid_def)
qed

lemma price_at_antimono:
  assumes "clk_start_price c \<le> max_money E" and "max_money E \<le> U64_MAX"
    and "price_at E c h = Some p" and "price_at E c k = Some q" and "h \<le> k"
  shows "q \<le> p"
  using assms(3-5)
  by (auto simp: price_at_Some_iff [OF assms(1,2)] intro!: diff_le_mono2 div_le_mono mult_le_mono2 diff_le_mono)

section \<open>Lemmas: the amount\<close>

lemma otp_amount_value:
  assumes "valid_code c" and "999999 \<le> max_money E"
  shows "otp_amount E c = Some (code_value c)"
proof -
  have "parse_upto U64_MAX (otp_digits c) = Some (code_value c)"
    using otp_digits_shape [of c] undec_otp_digits [OF assms(1)] assms(1)
    by (auto simp: parse_upto_def valid_code_def U64_MAX_def)
  then show ?thesis using assms by (simp add: otp_amount_def zat_from_u64_def valid_code_def)
qed

lemma payment_is_price_plus_otp_iff:
  assumes "valid_code c" and "999999 \<le> max_money E"
  shows "payment_is_price_plus_otp E value price c = Some (value = price + code_value c)"
  using otp_amount_value [OF assms] by (auto simp: payment_is_price_plus_otp_def)

lemma payment_total_value:
  assumes "valid_code c" and "999999 \<le> max_money E"
  shows "payment_total E price c
    = Some (if price + code_value c \<le> U64_MAX then Some (price + code_value c) else None)"
  using otp_amount_value [OF assms] by (simp add: payment_total_def)

end
