(* ===== verification/Requests.thy ===== *)
theory Requests
  imports Name_Note Sale_Terms
begin

text \<open>
  The memo grammars of \<open>src/mint.rs\<close> and \<open>src/mint/sale.rs\<close>: name requests, market
  requests, OTP memos and buy OTPs, and the classification of what reaches the Treasury. The
  iterator over the \<open>:\<close>-separated fields is the list of the fields still unread.
\<close>

section \<open>Name requests\<close>

datatype 'ua request =
    ReqClaim name 'ua reg_term "access_code option"
  | ReqUpdate name 'ua "reg_term option"
  | ReqRelease name 'ua

fun request_name :: "'ua request \<Rightarrow> name" where
  "request_name (ReqClaim n _ _ _) = n"
| "request_name (ReqUpdate n _ _) = n"
| "request_name (ReqRelease n _) = n"

fun request_action :: "'ua request \<Rightarrow> action" where
  "request_action (ReqClaim _ _ _ _) = ActClaim"
| "request_action (ReqUpdate _ _ _) = ActUpdate"
| "request_action (ReqRelease _ _) = ActRelease"

fun request_ua :: "'ua request \<Rightarrow> 'ua" where
  "request_ua (ReqClaim _ ua _ _) = ua"
| "request_ua (ReqUpdate _ ua _) = ua"
| "request_ua (ReqRelease _ ua) = ua"

type_synonym 'a field_parser = "string list \<Rightarrow> ('a \<times> string list) option"

fun next_field :: "string field_parser" where
  "next_field [] = None"
| "next_field (f # fs) = Some (f, fs)"

definition decode_zns :: "('ua, 'cm) zenv \<Rightarrow> bytes \<Rightarrow> (string \<Rightarrow> 'a field_parser) \<Rightarrow> 'a option" where
  "decode_zns E memo parse =
     do {
       text \<leftarrow> memo_text E memo;
       (zns, rest) \<leftarrow> next_field (split_on (CHR '':'') text);
       (if zns \<noteq> ''ZNS'' then None
        else do {
          (verb, rest) \<leftarrow> next_field rest;
          (v, rest) \<leftarrow> parse verb rest;
          (if rest = [] then Some v else None)
        })
     }"

definition decode_name_and_ua :: "('ua, 'cm) zenv \<Rightarrow> (name \<times> 'ua) field_parser" where
  "decode_name_and_ua E rest =
     do {
       (nm, rest) \<leftarrow> next_field rest;
       n \<leftarrow> name_parse nm;
       (ua, rest) \<leftarrow> next_field rest;
       (if ua = [] then None
        else map_option (\<lambda>u. ((n, u), rest)) (decode_controller_ua E ua))
     }"

definition update_term_parse :: "string \<Rightarrow> reg_term option option" where
  "update_term_parse f =
     (if f = ''none'' then Some None
      else if f = ''forever'' then Some (Some Forever)
      else map_option Some (term_parse f))"

definition request_fields :: "('ua, 'cm) zenv \<Rightarrow> string \<Rightarrow> 'ua request field_parser" where
  "request_fields E verb rest =
     (if verb = ''claim'' then do {
        (first, rest) \<leftarrow> next_field rest;
        ((c, t), rest) \<leftarrow> (case term_parse first of
            Some t \<Rightarrow> Some ((None, t), rest)
          | None \<Rightarrow> do {
              c \<leftarrow> access_parse first;
              (f, rest) \<leftarrow> next_field rest;
              t \<leftarrow> term_parse f;
              Some ((Some c, t), rest) });
        ((n, ua), rest) \<leftarrow> decode_name_and_ua E rest;
        Some (ReqClaim n ua t c, rest) }
      else if verb = ''update'' then do {
        (f, rest) \<leftarrow> next_field rest;
        t \<leftarrow> update_term_parse f;
        ((n, ua), rest) \<leftarrow> decode_name_and_ua E rest;
        Some (ReqUpdate n ua t, rest) }
      else if verb = ''release'' then do {
        ((n, ua), rest) \<leftarrow> decode_name_and_ua E rest;
        Some (ReqRelease n ua, rest) }
      else None)"

definition request_decode :: "('ua, 'cm) zenv \<Rightarrow> bytes \<Rightarrow> 'ua request option" where
  "request_decode E memo = decode_zns E memo (request_fields E)"

section \<open>Market requests\<close>

datatype 'ua market_request =
    MktList "'ua listing"
  | MktDelist name 'ua
  | MktBuy name 'ua

definition market_fields :: "('ua, 'cm) zenv \<Rightarrow> string \<Rightarrow> 'ua market_request field_parser" where
  "market_fields E verb rest =
     (if verb = ''list'' then do {
        ((n, ua), rest) \<leftarrow> decode_name_and_ua E rest;
        (t, rest) \<leftarrow> next_field rest;
        pay_to \<leftarrow> decode_t1 E t;
        (p, rest) \<leftarrow> next_field rest;
        price \<leftarrow> decode_zec E p;
        Some (MktList \<lparr>l_name = n, l_ua = ua, l_pay_to = pay_to, l_ask = Flat price\<rparr>, rest) }
      else if verb = ''auction'' then do {
        ((n, ua), rest) \<leftarrow> decode_name_and_ua E rest;
        (t, rest) \<leftarrow> next_field rest;
        pay_to \<leftarrow> decode_t1 E t;
        (sp, rest) \<leftarrow> next_field rest;
        start_price \<leftarrow> decode_zec E sp;
        (mp, rest) \<leftarrow> next_field rest;
        min_price \<leftarrow> decode_zec E mp;
        (sb, rest) \<leftarrow> next_field rest;
        start \<leftarrow> decode_height sb;
        (eb, rest) \<leftarrow> next_field rest;
        end_block \<leftarrow> decode_height eb;
        (let c = \<lparr>clk_start_price = start_price, clk_min_price = min_price,
                  clk_start = start, clk_end = end_block\<rparr>
         in if \<not> clock_is_valid c then None
            else Some (MktList \<lparr>l_name = n, l_ua = ua, l_pay_to = pay_to, l_ask = Dutch c\<rparr>, rest)) }
      else if verb = ''delist'' then do {
        ((n, ua), rest) \<leftarrow> decode_name_and_ua E rest;
        Some (MktDelist n ua, rest) }
      else if verb = ''buy'' then do {
        ((n, ua), rest) \<leftarrow> decode_name_and_ua E rest;
        Some (MktBuy n ua, rest) }
      else None)"

definition market_decode :: "('ua, 'cm) zenv \<Rightarrow> bytes \<Rightarrow> 'ua market_request option" where
  "market_decode E memo = decode_zns E memo (market_fields E)"

section \<open>OTP memos\<close>

record 'ua otp_memo =
  om_code :: otp_code
  om_name :: name
  om_action :: action
  om_ua :: 'ua
  om_listing :: "(transparent_address \<times> zat) option"
  om_clock :: "(transparent_address \<times> clock) option"

text \<open>The sentence of a memo; \<open>None\<close> where the encoder has nothing to print.\<close>

definition otp_memo_parts :: "('ua, 'cm) zenv \<Rightarrow> 'ua otp_memo \<Rightarrow> string list option" where
  "otp_memo_parts E m =
     (if is_claim (om_action m) then None
      else
        let otp = otp_digits (om_code m); n = as_str (om_name m); ua = ua_encode E (om_ua m) in
        if is_list (om_action m) then
          map_option (\<lambda>(pay_to, price).
              [''ZNS'', ''otp'', otp, n, ''list'', ua, taddr_encode E pay_to, encode_zec price])
            (om_listing m)
        else if is_auction (om_action m) then
          map_option (\<lambda>(pay_to, c).
              [''ZNS'', ''otp'', otp, n, ''auction'', ua, taddr_encode E pay_to,
               encode_zec (clk_start_price c), encode_zec (clk_min_price c),
               dec (clk_start c), dec (clk_end c)])
            (om_clock m)
        else Some [''ZNS'', ''otp'', otp, n, action_as_str (om_action m), ua])"

definition otp_memo_encode :: "('ua, 'cm) zenv \<Rightarrow> 'ua otp_memo \<Rightarrow> bytes option" where
  "otp_memo_encode E m =
     otp_memo_parts E m \<bind> (\<lambda>ps. memo_from_bytes E (join_with (CHR '':'') ps))"

definition challengeable :: "action \<Rightarrow> bool" where
  "challengeable a \<longleftrightarrow> is_update a \<or> is_release a \<or> is_list a \<or> is_delist a \<or> is_auction a"

definition otp_memo_terms ::
  "('ua, 'cm) zenv \<Rightarrow> action \<Rightarrow> string list \<Rightarrow>
     ('ua \<times> (transparent_address \<times> zat) option \<times> (transparent_address \<times> clock) option) option" where
  "otp_memo_terms E a parts =
     (if is_list a then
        if length parts \<noteq> 8 then None
        else do {
          ua \<leftarrow> decode_controller_ua E (parts ! 5);
          pay_to \<leftarrow> decode_t1 E (parts ! 6);
          price \<leftarrow> decode_zec E (parts ! 7);
          Some (ua, Some (pay_to, price), None) }
      else if is_auction a then
        if length parts \<noteq> 11 then None
        else do {
          ua \<leftarrow> decode_controller_ua E (parts ! 5);
          pay_to \<leftarrow> decode_t1 E (parts ! 6);
          start_price \<leftarrow> decode_zec E (parts ! 7);
          min_price \<leftarrow> decode_zec E (parts ! 8);
          start \<leftarrow> decode_height (parts ! 9);
          end_block \<leftarrow> decode_height (parts ! 10);
          (let c = \<lparr>clk_start_price = start_price, clk_min_price = min_price,
                    clk_start = start, clk_end = end_block\<rparr>
           in if \<not> clock_is_valid c then None else Some (ua, None, Some (pay_to, c))) }
      else if length parts \<noteq> 6 then None
      else map_option (\<lambda>ua. (ua, None, None)) (decode_controller_ua E (parts ! 5)))"

definition otp_memo_decode_parts :: "('ua, 'cm) zenv \<Rightarrow> string list \<Rightarrow> 'ua otp_memo option" where
  "otp_memo_decode_parts E parts =
     (if length parts < 6 \<or> parts ! 0 \<noteq> ''ZNS'' \<or> parts ! 1 \<noteq> ''otp'' then None
      else if length (parts ! 2) \<noteq> 6 \<or> \<not> all_digits (parts ! 2) then None
      else do {
        c \<leftarrow> otp_from_digits (parts ! 2);
        n \<leftarrow> name_parse (parts ! 3);
        a \<leftarrow> (case action_parse (parts ! 4) of
              Some a \<Rightarrow> if challengeable a then Some a else None | None \<Rightarrow> None);
        (ua, listing, c') \<leftarrow> otp_memo_terms E a parts;
        Some \<lparr>om_code = c, om_name = n, om_action = a, om_ua = ua, om_listing = listing, om_clock = c'\<rparr>
      })"

definition otp_memo_decode :: "('ua, 'cm) zenv \<Rightarrow> bytes \<Rightarrow> 'ua otp_memo option" where
  "otp_memo_decode E memo =
     memo_text E memo \<bind> (\<lambda>text. otp_memo_decode_parts E (split_on (CHR '':'') text))"

section \<open>Buy OTPs\<close>

record 'ua buy_otp =
  bo_code :: otp_code
  bo_name :: name
  bo_ua :: 'ua
  bo_dutch :: "(zat \<times> timestamp) option"

definition buy_otp_encode :: "('ua, 'cm) zenv \<Rightarrow> 'ua buy_otp \<Rightarrow> bytes option" where
  "buy_otp_encode E b =
     memo_from_bytes E (join_with (CHR '':'')
       (case bo_dutch b of
          Some (price, until) \<Rightarrow>
            [''ZNS'', ''dutch'', otp_digits (bo_code b), as_str (bo_name b), ua_encode E (bo_ua b),
             encode_zec price, dec_int until]
        | None \<Rightarrow>
            [''ZNS'', ''buyotp'', otp_digits (bo_code b), as_str (bo_name b), ua_encode E (bo_ua b)]))"

section \<open>What reaches the Treasury\<close>

datatype 'ua mint_inbound =
    InRequest "'ua request"
  | InMarket "'ua market_request"
  | InResponse "'ua otp_memo"
  | Unrecognized

definition inbound_decode :: "('ua, 'cm) zenv \<Rightarrow> bytes \<Rightarrow> 'ua mint_inbound" where
  "inbound_decode E memo =
     (case otp_memo_decode E memo of
        Some response \<Rightarrow> InResponse response
      | None \<Rightarrow>
          (case request_decode E memo of
             Some request \<Rightarrow> InRequest request
           | None \<Rightarrow>
               (case market_decode E memo of
                  Some request \<Rightarrow> InMarket request
                | None \<Rightarrow> Unrecognized)))"

end
