(* ===== verification/Demo_Env.thy ===== *)
theory Demo_Env
  imports Name_Note
begin

text \<open>
  A concrete environment, for the witnesses: addresses are their own encodings, commitments
  their own 32 bytes, hex is computed, the hash keeps a prefix of its input. No
  property rests on it; each witness applies a property to it to show that the property's
  hypotheses can hold together.
\<close>

definition hex_digit :: "nat \<Rightarrow> char" where
  "hex_digit d = (if d < 10 then char_of (48 + d) else char_of (87 + d))"

definition demo_hex_encode :: "bytes \<Rightarrow> string" where
  "demo_hex_encode b =
     concat (map (\<lambda>c. [hex_digit (byte_of c div 16), hex_digit (byte_of c mod 16)]) b)"

definition hex_val :: "char \<Rightarrow> nat" where
  "hex_val c = (if byte_of c < 58 then byte_of c - 48 else byte_of c - 87)"

fun demo_hex_decode :: "string \<Rightarrow> bytes option" where
  "demo_hex_decode [] = Some []"
| "demo_hex_decode [c] = None"
| "demo_hex_decode (a # b # s) =
     map_option (\<lambda>r. char_of (16 * hex_val a + hex_val b) # r) (demo_hex_decode s)"

definition demo_env :: "(string, bytes) zenv" where
  "demo_env =
     \<lparr> network_type_of = MainNet,
       unified_decode = (\<lambda>s. if take 2 s = ''u1'' then Some (MainNet, R0, True, Some s) else None),
       ua_encode = (\<lambda>ua. ua),
       ua_unknown_is_empty = (\<lambda>_. True),
       ua_has_orchard = (\<lambda>_. True),
       ua_has_sapling = (\<lambda>_. False),
       ua_transparent = (\<lambda>ua. Some (PublicKeyHash (drop 2 ua))),
       address_decode = (\<lambda>s. if take 2 s = ''t1'' then Some (Transparent (PublicKeyHash (drop 2 s))) else None),
       taddr_encode = (\<lambda>a. case a of PublicKeyHash h \<Rightarrow> ''t1'' @ h | ScriptHash h \<Rightarrow> ''t3'' @ h),
       memo_text = (\<lambda>m. Some (takeWhile (\<lambda>b. b \<noteq> CHR 0x00) m)),
       memo_from_bytes = (\<lambda>b. if length b \<le> 512 then Some (pad_right 512 (CHR 0x00) b) else None),
       hex_encode = demo_hex_encode,
       hex_decode = demo_hex_decode,
       blake2b512 = (\<lambda>b. pad_right 64 (CHR 0x00) (take 64 b)),
       scalar_from_uniform = (\<lambda>b. CHR 0x01 # take 31 (drop 24 b)),
       base_from_uniform = (\<lambda>b. take 32 b),
       cm_from_bytes = (\<lambda>b. Some b),
       cm_to_bytes = (\<lambda>r. r),
       hmac_sha256 = (\<lambda>k m. take 32 (rev m @ k @ zero32)),
       ts_ok = (\<lambda>s. - 377705116800 \<le> s \<and> s \<le> 253402300799),
       max_money = 2100000000000000,
       expiry_delta = (\<lambda>h. 40) \<rparr>"

lemmas demo_simps = demo_env_def demo_hex_encode_def hex_digit_def hex_val_def

abbreviation demo_alice :: name where
  "demo_alice \<equiv> Name ''alice''"

abbreviation demo_claim :: "(string, bytes) name_note" where
  "demo_claim \<equiv> NoteClaim demo_alice ''u1abc'' (At 1893456000)"

definition demo_prev :: bytes where
  "demo_prev = CHR 0x07 # replicate 31 (CHR 0x00)"

abbreviation demo_release :: "(string, bytes) name_note" where
  "demo_release \<equiv> NoteRelease demo_alice ''u1abc'' demo_prev"

lemma demo_valid_name: "valid_name demo_alice"
  by (simp add: valid_name_iff name_byte_def is_ascii_lower_def byte_of_def)

lemma byte_of_bound: "byte_of c < 256"
proof -
  have "byte_of (char_of (byte_of c)) = byte_of c" by (simp add: byte_of_def)
  moreover have "byte_of (char_of n) < 256" for n :: nat by (simp add: byte_of_def)
  ultimately show ?thesis by metis
qed

lemma hex_digit_props:
  assumes "d < 16"
  shows "hex_val (hex_digit d) = d \<and> is_lower_hex (hex_digit d)"
  using assms
  by (auto simp: hex_val_def hex_digit_def is_lower_hex_def is_ascii_digit_def byte_of_char_of)

lemma demo_hex_roundtrip: "demo_hex_decode (demo_hex_encode b) = Some b"
proof (induction b)
  case (Cons c b)
  have d: "byte_of c div 16 < 16"
    using byte_of_bound [of c] by (simp add: less_mult_imp_div_less)
  have m: "byte_of c mod 16 < 16" by simp
  show ?case using Cons hex_digit_props [OF d] hex_digit_props [OF m]
    by (simp add: demo_hex_encode_def) (simp add: byte_of_def)
qed (simp add: demo_hex_encode_def)

lemma demo_hex_shape:
  "length (demo_hex_encode b) = 2 * length b \<and> list_all is_lower_hex (demo_hex_encode b)"
proof (induction b)
  case (Cons c b)
  have d: "byte_of c div 16 < 16"
    using byte_of_bound [of c] by (simp add: less_mult_imp_div_less)
  have m: "byte_of c mod 16 < 16" by simp
  show ?case using Cons hex_digit_props [OF d] hex_digit_props [OF m]
    by (simp add: demo_hex_encode_def)
qed (simp add: demo_hex_encode_def)

lemma demo_hex_codec: "length b = 32 \<Longrightarrow> hex_codec_at demo_env b"
  using demo_hex_shape [of b] by (simp add: hex_codec_at_def demo_env_def demo_hex_roundtrip)

lemma demo_hex_zero: "hex_codec_at demo_env zero32"
  by (rule demo_hex_codec) (simp add: zero32_def)

lemma demo_ua_codec: "ua_codec_at demo_env ''u1abc''"
  by (auto simp: ua_codec_at_def demo_env_def plain_text_def byte_of_def)

lemma demo_claim_codec: "codec_ok demo_env demo_claim"
  using demo_hex_zero demo_ua_codec by (simp add: codec_ok_def note_prev_bytes_def)

lemma demo_claim_valid: "valid_note demo_env demo_claim"
  using demo_valid_name
  by (simp add: valid_note_def valid_expiry_def demo_env_def I64_MAX_def)

end
