(* ===== verification/Request_Laws.thy ===== *)
theory Request_Laws
  imports Requests Demo_Env
begin

text \<open>
  What the memo grammars accept: an exact description of the name requests, the disjointness
  of the three grammars (so that the order in which the classifier tries them does not
  matter), and the round trip of the challenge memo the controller returns.
\<close>

section \<open>Reading a sentence\<close>

lemma next_field_Some: "next_field fs = Some (f, gs) \<longleftrightarrow> fs = f # gs"
  by (cases fs) auto

lemma decode_zns_Some:
  "decode_zns E memo p = Some v \<longleftrightarrow>
     (\<exists>sent verb fs. memo_text E memo = Some sent \<and>
        split_on (CHR '':'') sent = ''ZNS'' # verb # fs \<and> p verb fs = Some (v, []))"
  by (auto simp: decode_zns_def Option.bind_eq_Some_conv next_field_Some split: if_splits)

lemma decode_name_and_ua_Some:
  "decode_name_and_ua E fs = Some ((n, u), gs) \<longleftrightarrow>
     (\<exists>ua. fs = as_str n # ua # gs \<and> valid_name n \<and> ua \<noteq> [] \<and> decode_controller_ua E ua = Some u)"
proof
  assume "decode_name_and_ua E fs = Some ((n, u), gs)"
  then show "\<exists>ua. fs = as_str n # ua # gs \<and> valid_name n \<and> ua \<noteq> [] \<and> decode_controller_ua E ua = Some u"
    by (auto simp: decode_name_and_ua_def Option.bind_eq_Some_conv next_field_Some
        dest!: name_parse_valid split: if_splits)
next
  assume "\<exists>ua. fs = as_str n # ua # gs \<and> valid_name n \<and> ua \<noteq> [] \<and> decode_controller_ua E ua = Some u"
  then show "decode_name_and_ua E fs = Some ((n, u), gs)"
    by (auto simp: decode_name_and_ua_def name_parse_as_str)
qed

lemma colon_not_digit: "all_digits s \<Longrightarrow> CHR '':'' \<notin> set s"
  by (rule digits_no_char) (simp_all add: is_ascii_digit_def byte_of_def)

lemma colon_not_name: "valid_name n \<Longrightarrow> CHR '':'' \<notin> set (as_str n)"
  using valid_name_char by blast

lemma colon_not_term: "CHR '':'' \<notin> set (term_text t)"
  by (cases t) (simp_all add: term_text_def colon_not_digit)

section \<open>Access codes in a sentence\<close>

definition valid_access :: "access_code \<Rightarrow> bool" where
  "valid_access c \<longleftrightarrow> access_value c < 1000000"

lemma access_digits_otp: "access_digits (AccessCode n) = otp_digits (OtpCode n)"
  by (simp add: access_digits_def otp_digits_def)

lemma access_parse_otp:
  "length s = 6 \<Longrightarrow> access_parse s = map_option (\<lambda>c. AccessCode (code_value c)) (otp_from_digits s)"
  by (auto simp: access_parse_def otp_from_digits_def option.map_comp comp_def)

lemma access_parse_iff: "access_parse s = Some c \<longleftrightarrow> s = access_digits c \<and> valid_access c"
proof
  assume a: "access_parse s = Some c"
  then have l: "length s = 6" by (auto simp: access_parse_def split: if_splits)
  with a obtain d where d: "otp_from_digits s = Some d" "c = AccessCode (code_value d)"
    by (auto simp: access_parse_otp)
  with otp_digits_from_digits [OF d(1) l] show "s = access_digits c \<and> valid_access c"
    by (simp add: access_digits_otp valid_access_def valid_code_def)
next
  assume "s = access_digits c \<and> valid_access c"
  moreover obtain n where "c = AccessCode n" by (cases c)
  ultimately show "access_parse s = Some c"
    using otp_digits_shape [of "OtpCode n"] otp_from_digits_digits [of "OtpCode n"]
    by (simp add: access_parse_otp access_digits_otp valid_access_def valid_code_def)
qed

lemma access_parse_digits: "valid_access c \<Longrightarrow> access_parse (access_digits c) = Some c"
  by (simp add: access_parse_iff)

lemma term_text_last_y_or_r: "\<not> all_digits (term_text t)"
  by (cases t) (simp_all add: term_text_def all_digits_def is_ascii_digit_def byte_of_def)

lemma access_digits_all: "all_digits (access_digits c)"
  using otp_digits_shape by (cases c) (simp add: access_digits_otp)

lemma term_parse_access: "term_parse (access_digits c) = None"
  using term_parse_Some term_text_last_y_or_r access_digits_all by (metis option.exhaust)

section \<open>The name-request grammar\<close>

fun valid_request :: "'ua request \<Rightarrow> bool" where
  "valid_request (ReqClaim n ua t c) \<longleftrightarrow>
     valid_name n \<and> valid_term t \<and> (case c of None \<Rightarrow> True | Some a \<Rightarrow> valid_access a)"
| "valid_request (ReqUpdate n ua t) \<longleftrightarrow>
     valid_name n \<and> (case t of None \<Rightarrow> True | Some t' \<Rightarrow> valid_term t')"
| "valid_request (ReqRelease n ua) \<longleftrightarrow> valid_name n"

text \<open>The fields after the verb, with the address spelled \<open>ua\<close>.\<close>

fun request_tail :: "'ua request \<Rightarrow> string \<Rightarrow> string list" where
  "request_tail (ReqClaim n u t c) ua =
     (case c of None \<Rightarrow> [] | Some a \<Rightarrow> [access_digits a]) @ [term_text t, as_str n, ua]"
| "request_tail (ReqUpdate n u t) ua =
     [(case t of None \<Rightarrow> ''none'' | Some t' \<Rightarrow> term_text t'), as_str n, ua]"
| "request_tail (ReqRelease n u) ua = [as_str n, ua]"

definition request_parts :: "'ua request \<Rightarrow> string \<Rightarrow> string list" where
  "request_parts r ua = ''ZNS'' # action_as_str (request_action r) # request_tail r ua"

lemma term_text_not_none: "term_text t \<noteq> ''none'' \<and> ''none'' \<noteq> term_text t"
proof -
  have "last (term_text t) \<noteq> last ''none''" by (cases t) (simp_all add: term_text_def)
  then show ?thesis by metis
qed

lemma term_parse_forever: "term_parse ''forever'' = Some Forever"
  by (simp add: term_parse_def)

lemma update_term_field:
  "update_term_parse f = Some t \<longleftrightarrow>
   f = (case t of None \<Rightarrow> ''none'' | Some t' \<Rightarrow> term_text t') \<and>
   (case t of None \<Rightarrow> True | Some t' \<Rightarrow> valid_term t')"
proof -
  have tp: "term_parse f = Some x \<longleftrightarrow> f = term_text x \<and> valid_term x" for x
    using term_parse_Some term_parse_text by blast
  have "update_term_parse f = (if f = ''none'' then Some None else map_option Some (term_parse f))"
    by (simp add: term_parse_forever update_term_parse_def)
  moreover have "\<dots> = Some t \<longleftrightarrow>
     (case t of None \<Rightarrow> f = ''none'' | Some t' \<Rightarrow> f \<noteq> ''none'' \<and> term_parse f = Some t')"
    by (cases t) auto
  ultimately show ?thesis
    unfolding tp by (cases t) (use term_text_not_none in auto)
qed

lemma request_fields_Some:
  "request_fields E verb fs = Some (r, []) \<longleftrightarrow>
     (\<exists>ua. verb = action_as_str (request_action r) \<and> fs = request_tail r ua \<and> ua \<noteq> [] \<and>
        decode_controller_ua E ua = Some (request_ua r) \<and> valid_request r)"
  (is "?lhs = ?rhs")
proof
  assume l: ?lhs
  have tp: "term_parse f = Some x \<longleftrightarrow> f = term_text x \<and> valid_term x" for f x
    using term_parse_Some term_parse_text by blast
  from l consider (c) "verb = ''claim''" | (u) "verb = ''update''" | (r) "verb = ''release''"
    by (auto simp: request_fields_def split: if_splits)
  then show ?rhs
  proof cases
    case c
    with l show ?thesis
      by (auto simp: request_fields_def Option.bind_eq_Some_conv next_field_Some tp access_parse_iff
          decode_name_and_ua_Some split: option.splits)
  next
    case u
    with l show ?thesis
      by (auto simp: request_fields_def Option.bind_eq_Some_conv next_field_Some
          decode_name_and_ua_Some update_term_field)
  next
    case r
    with l show ?thesis
      by (auto simp: request_fields_def Option.bind_eq_Some_conv decode_name_and_ua_Some)
  qed
next
  assume ?rhs
  then obtain ua where ua: "verb = action_as_str (request_action r)" "fs = request_tail r ua"
    "ua \<noteq> []" "decode_controller_ua E ua = Some (request_ua r)" "valid_request r" by blast
  show ?lhs
  proof (cases r)
    case (ReqClaim n u t c)
    with ua show ?thesis
      by (cases c) (simp_all add: request_fields_def term_parse_text term_parse_access
          access_parse_digits decode_name_and_ua_def name_parse_as_str)
  next
    case (ReqUpdate n u t)
    with ua have "update_term_parse (case t of None \<Rightarrow> ''none'' | Some t' \<Rightarrow> term_text t') = Some t"
      by (subst update_term_field) auto
    with ua ReqUpdate show ?thesis
      by (simp add: request_fields_def decode_name_and_ua_def name_parse_as_str)
  next
    case (ReqRelease n u)
    with ua show ?thesis
      by (simp add: request_fields_def decode_name_and_ua_def name_parse_as_str)
  qed
qed

lemma request_parts_no_colon:
  assumes "valid_request r" and "CHR '':'' \<notin> set ua"
  shows "\<forall>p\<in>set (request_parts r ua). CHR '':'' \<notin> set p"
  using assms action_as_str_char [of "CHR '':''" "request_action r"]
  by (cases r)
    (auto simp: request_parts_def colon_not_term colon_not_name colon_not_digit access_digits_all
      split: option.splits)

text \<open>C30: The name-request grammar, exactly: a memo decodes to a request if and only if its text is
  \<open>ZNS:\<close>, the verb, the optional six-digit code, the term in its one spelling, the name and an
  address text that decodes to the request's address; no field may follow.\<close>

theorem request_decode_iff:
  "request_decode E memo = Some r \<longleftrightarrow>
     (\<exists>ua. memo_text E memo = Some (join_with (CHR '':'') (request_parts r ua)) \<and>
        ua \<noteq> [] \<and> CHR '':'' \<notin> set ua \<and> decode_controller_ua E ua = Some (request_ua r) \<and>
        valid_request r)"
  (is "?lhs = ?rhs")
proof
  assume ?lhs
  then obtain sent verb fs where t: "memo_text E memo = Some sent"
    "split_on (CHR '':'') sent = ''ZNS'' # verb # fs" "request_fields E verb fs = Some (r, [])"
    unfolding request_decode_def decode_zns_Some by blast
  then obtain ua where ua: "verb = action_as_str (request_action r)" "fs = request_tail r ua"
    "ua \<noteq> []" "decode_controller_ua E ua = Some (request_ua r)" "valid_request r"
    unfolding request_fields_Some by blast
  have parts: "split_on (CHR '':'') sent = request_parts r ua" using t ua by (simp add: request_parts_def)
  have "sent = join_with (CHR '':'') (request_parts r ua)" unfolding parts [symmetric] by simp
  moreover have "ua \<in> set (request_parts r ua)" by (cases r) (auto simp: request_parts_def)
  ultimately show ?rhs using t ua split_on_no_sep parts by metis
next
  assume ?rhs
  then obtain ua where ua: "memo_text E memo = Some (join_with (CHR '':'') (request_parts r ua))"
    "ua \<noteq> []" "CHR '':'' \<notin> set ua" "decode_controller_ua E ua = Some (request_ua r)" "valid_request r"
    by blast
  have "split_on (CHR '':'') (join_with (CHR '':'') (request_parts r ua)) = request_parts r ua"
    by (rule split_join) (use request_parts_no_colon [OF ua(5,3)] in \<open>auto simp: request_parts_def\<close>)
  moreover have "request_fields E (action_as_str (request_action r)) (request_tail r ua) = Some (r, [])"
    unfolding request_fields_Some using ua by blast
  ultimately show ?lhs unfolding request_decode_def decode_zns_Some
    using ua(1) by (auto simp: request_parts_def)
qed

section \<open>The grammars are disjoint\<close>

text \<open>The second field of a memo's text.\<close>

definition memo_verb :: "('ua, 'cm) zenv \<Rightarrow> bytes \<Rightarrow> string option" where
  "memo_verb E memo =
     (case memo_text E memo of
        None \<Rightarrow> None
      | Some sent \<Rightarrow>
          (case split_on (CHR '':'') sent of _ # verb # _ \<Rightarrow> Some verb | _ \<Rightarrow> None))"

lemma decode_zns_verb: "decode_zns E memo p = Some v \<Longrightarrow> \<exists>verb fs. memo_verb E memo = Some verb \<and> p verb fs = Some (v, [])"
  unfolding decode_zns_Some by (auto simp: memo_verb_def)

lemma request_decode_verb:
  assumes "request_decode E memo = Some r"
  shows "memo_verb E memo \<in> {Some ''claim'', Some ''update'', Some ''release''}"
proof -
  obtain verb fs where v: "memo_verb E memo = Some verb" "request_fields E verb fs = Some (r, [])"
    using decode_zns_verb [OF assms [unfolded request_decode_def]] by blast
  have "request_fields E verb fs = None" if "verb \<notin> {''claim'', ''update'', ''release''}"
    using that by (simp add: request_fields_def)
  with v show ?thesis by fastforce
qed

lemma market_decode_verb:
  assumes "market_decode E memo = Some r"
  shows "memo_verb E memo \<in> {Some ''list'', Some ''auction'', Some ''delist'', Some ''buy''}"
proof -
  obtain verb fs where v: "memo_verb E memo = Some verb" "market_fields E verb fs = Some (r, [])"
    using decode_zns_verb [OF assms [unfolded market_decode_def]] by blast
  have "market_fields E verb fs = None" if "verb \<notin> {''list'', ''auction'', ''delist'', ''buy''}"
    using that by (simp add: market_fields_def)
  with v show ?thesis by fastforce
qed

lemma otp_memo_decode_verb:
  assumes "otp_memo_decode E memo = Some m"
  shows "memo_verb E memo = Some ''otp''"
proof -
  from assms obtain sent where t: "memo_text E memo = Some sent"
    and d: "otp_memo_decode_parts E (split_on (CHR '':'') sent) = Some m"
    by (auto simp: otp_memo_decode_def Option.bind_eq_Some_conv)
  then have "6 \<le> length (split_on (CHR '':'') sent)" "split_on (CHR '':'') sent ! 1 = ''otp''"
    by (auto simp: otp_memo_decode_parts_def split: if_splits)
  with t show ?thesis by (auto simp: memo_verb_def split: list.splits)
qed

text \<open>No memo belongs to two grammars: a challenge response is never also a name request or a
  market request, and a name request never also a market request, so classification does not
  depend on the order in which the decoders run.\<close>

lemma grammars_disjoint:
  "(otp_memo_decode E memo = None \<or> request_decode E memo = None) \<and>
   (otp_memo_decode E memo = None \<or> market_decode E memo = None) \<and>
   (request_decode E memo = None \<or> market_decode E memo = None)"
proof -
  have "otp_memo_decode E memo = None \<or> request_decode E memo = None"
    using otp_memo_decode_verb request_decode_verb by fastforce
  moreover have "otp_memo_decode E memo = None \<or> market_decode E memo = None"
    using otp_memo_decode_verb market_decode_verb by fastforce
  moreover have "request_decode E memo = None \<or> market_decode E memo = None"
    using request_decode_verb market_decode_verb by fastforce
  ultimately show ?thesis by blast
qed

section \<open>The challenge memo comes back\<close>

text \<open>What the encoder relies on: a memo of ASCII text reads back as that text, and the
  addresses it prints are separator-free text that decodes to the same address.\<close>

definition ascii_text :: "string \<Rightarrow> bool" where
  "ascii_text s \<longleftrightarrow> (\<forall>c\<in>set s. byte_of c < 128 \<and> c \<noteq> CHR 0x00)"

definition memo_codec :: "('ua, 'cm) zenv \<Rightarrow> bool" where
  "memo_codec E \<longleftrightarrow>
     (\<forall>s m. ascii_text s \<longrightarrow> s \<noteq> [] \<longrightarrow> memo_from_bytes E s = Some m \<longrightarrow> memo_text E m = Some s)"

definition controller_codec_at :: "('ua, 'cm) zenv \<Rightarrow> 'ua \<Rightarrow> bool" where
  "controller_codec_at E ua \<longleftrightarrow>
     plain_text (ua_encode E ua) \<and> decode_controller_ua E (ua_encode E ua) = Some ua"

definition taddr_codec_at :: "('ua, 'cm) zenv \<Rightarrow> transparent_address \<Rightarrow> bool" where
  "taddr_codec_at E a \<longleftrightarrow>
     plain_text (taddr_encode E a) \<and> address_decode E (taddr_encode E a) = Some (Transparent a)"

text \<open>The memos the mint builds: the market terms match the verb.\<close>

definition valid_terms :: "('ua, 'cm) zenv \<Rightarrow> 'ua otp_memo \<Rightarrow> bool" where
  "valid_terms E m \<longleftrightarrow>
     (if is_list (om_action m) then
        om_clock m = None \<and>
        (\<exists>h price. om_listing m = Some (PublicKeyHash h, price) \<and> price \<le> max_money E \<and>
           taddr_codec_at E (PublicKeyHash h))
      else if is_auction (om_action m) then
        om_listing m = None \<and>
        (\<exists>h c. om_clock m = Some (PublicKeyHash h, c) \<and> clock_is_valid c \<and>
           clk_start_price c \<le> max_money E \<and> clk_end c \<le> U32_MAX \<and>
           taddr_codec_at E (PublicKeyHash h))
      else om_listing m = None \<and> om_clock m = None)"

definition valid_otp_memo :: "('ua, 'cm) zenv \<Rightarrow> 'ua otp_memo \<Rightarrow> bool" where
  "valid_otp_memo E m \<longleftrightarrow>
     valid_code (om_code m) \<and> valid_name (om_name m) \<and> challengeable (om_action m) \<and>
     controller_codec_at E (om_ua m) \<and> valid_terms E m"

lemma plain_zec: "plain_text (encode_zec z)"
proof -
  let ?t = "trim_end (CHR ''0'') (pad_left 8 (CHR ''0'') (dec (z mod 100000000)))"
  have "all_digits ?t" by (rule undec_pad_trim) simp
  then have "plain_text (dec (z div 100000000))" "plain_text ?t" by (simp_all add: plain_digits)
  moreover have "plain_text ''.''" by (simp add: plain_text_def byte_of_def)
  ultimately show ?thesis by (auto simp: encode_zec_def Let_def plain_text_def)
qed

lemma plain_literal:
  "plain_text ''ZNS''" "plain_text ''otp''" "plain_text ''list''" "plain_text ''auction''"
  by (simp_all add: plain_text_def byte_of_def)

lemma plain_otp_digits: "plain_text (otp_digits c)"
  using otp_digits_shape plain_digits by blast

lemma otp_memo_parts_plain:
  assumes "valid_otp_memo E m" and "otp_memo_parts E m = Some ps"
  shows "\<forall>p\<in>set ps. plain_text p"
  using assms plain_name [of "om_name m"]
  by (auto simp: otp_memo_parts_def valid_otp_memo_def valid_terms_def Let_def
      controller_codec_at_def taddr_codec_at_def plain_zec plain_literal plain_otp_digits
      plain_digits plain_action split: if_splits)

lemma otp_memo_parts_nonempty: "otp_memo_parts E m = Some ps \<Longrightarrow> ps \<noteq> [] \<and> join_with (CHR '':'') ps \<noteq> []"
  by (auto simp: otp_memo_parts_def Let_def split: if_splits)

lemma join_plain_ascii: "\<forall>p\<in>set ps. plain_text p \<Longrightarrow> ascii_text (join_with (CHR '':'') ps)"
  using join_with_set [of "CHR '':''" ps] by (fastforce simp: ascii_text_def plain_text_def byte_of_def)

lemma decode_t1_taddr:
  "taddr_codec_at E (PublicKeyHash h) \<Longrightarrow> decode_t1 E (taddr_encode E (PublicKeyHash h)) = Some (PublicKeyHash h)"
  by (simp add: decode_t1_def taddr_codec_at_def)

lemma otp_memo_parts_decode:
  assumes v: "valid_otp_memo E m" and p: "otp_memo_parts E m = Some ps" and mm: "max_money E \<le> U64_MAX"
  shows "otp_memo_decode_parts E ps = Some m"
proof -
  have c: "valid_code (om_code m)" "valid_name (om_name m)" "challengeable (om_action m)"
    "decode_controller_ua E (ua_encode E (om_ua m)) = Some (om_ua m)"
    using v by (auto simp: valid_otp_memo_def controller_codec_at_def)
  note base = otp_digits_shape [of "om_code m"] otp_from_digits_digits [OF c(1)]
    name_parse_as_str [OF c(2)] c(3,4)
  consider (l) "om_action m = ActList" | (a) "om_action m = ActAuction"
    | (o) "om_action m \<notin> {ActList, ActAuction, ActClaim}"
    using c(3) by (auto simp: challengeable_def action_tests)
  then show ?thesis
  proof cases
    case l
    then obtain h price where t: "om_listing m = Some (PublicKeyHash h, price)" "om_clock m = None"
      "price \<le> max_money E" "taddr_codec_at E (PublicKeyHash h)"
      using v by (auto simp: valid_otp_memo_def valid_terms_def action_tests)
    have "action_parse ''list'' = Some ActList" by (simp add: action_parse_def)
    with l t base p decode_encode_zec [OF t(3) mm] decode_t1_taddr [OF t(4)] show ?thesis
      by (auto simp: otp_memo_parts_def otp_memo_decode_parts_def otp_memo_terms_def action_tests Let_def)
  next
    case a
    then obtain h k where t: "om_clock m = Some (PublicKeyHash h, k)" "om_listing m = None"
      "clock_is_valid k" "clk_start_price k \<le> max_money E" "clk_end k \<le> U32_MAX"
      "taddr_codec_at E (PublicKeyHash h)"
      using v by (auto simp: valid_otp_memo_def valid_terms_def action_tests)
    then have k: "clk_min_price k \<le> max_money E" "clk_start k \<le> U32_MAX"
      by (auto simp: clock_is_valid_def)
    have "action_parse ''auction'' = Some ActAuction" by (simp add: action_parse_def)
    with a t base p decode_encode_zec [OF t(4) mm] decode_encode_zec [OF k(1) mm]
      decode_t1_taddr [OF t(6)] decode_height_dec [OF t(5)] decode_height_dec [OF k(2)]
    show ?thesis
      by (auto simp: otp_memo_parts_def otp_memo_decode_parts_def otp_memo_terms_def action_tests
          Let_def clock_is_valid_def)
  next
    case o
    with v have t: "om_listing m = None" "om_clock m = None"
      by (auto simp: valid_otp_memo_def valid_terms_def action_tests)
    with o base p show ?thesis
      by (auto simp: otp_memo_parts_def otp_memo_decode_parts_def otp_memo_terms_def action_tests Let_def)
  qed
qed

text \<open>A challenge the mint sends is read back as the same challenge when the controller returns
  the memo: code, name, verb, address, and for a listing or an auction the payment address, the
  price and the clock.\<close>

lemma otp_memo_roundtrip:
  assumes "valid_otp_memo E m" and "memo_codec E" and "max_money E \<le> U64_MAX"
    and "otp_memo_encode E m = Some memo"
  shows "otp_memo_decode E memo = Some m"
proof -
  from assms(4) obtain ps where ps: "otp_memo_parts E m = Some ps"
    "memo_from_bytes E (join_with (CHR '':'') ps) = Some memo"
    by (auto simp: otp_memo_encode_def Option.bind_eq_Some_conv)
  note plain = otp_memo_parts_plain [OF assms(1) ps(1)]
  have "memo_text E memo = Some (join_with (CHR '':'') ps)"
    using assms(2) ps join_plain_ascii [OF plain] otp_memo_parts_nonempty [OF ps(1)]
    unfolding memo_codec_def by blast
  moreover have "split_on (CHR '':'') (join_with (CHR '':'') ps) = ps"
    by (rule split_join) (use plain plain_text_no_sep otp_memo_parts_nonempty [OF ps(1)] in auto)
  ultimately show ?thesis
    using otp_memo_parts_decode [OF assms(1) ps(1) assms(3)] by (simp add: otp_memo_decode_def)
qed

abbreviation demo_memo_list :: "string otp_memo" where
  "demo_memo_list \<equiv> \<lparr>om_code = OtpCode 123456, om_name = demo_alice, om_action = ActList,
     om_ua = ''u1abc'', om_listing = Some (PublicKeyHash ''abc'', 150000000), om_clock = None\<rparr>"

lemma demo_memo_codec: "memo_codec demo_env"
proof -
  have "takeWhile (\<lambda>b. b \<noteq> CHR 0x00) (s @ replicate k (CHR 0x00)) = s" if "ascii_text s" for s k
    using that by (induction s) (auto simp: ascii_text_def takeWhile_replicate)
  then show ?thesis
    by (auto simp: memo_codec_def demo_env_def pad_right_def split: if_splits)
qed

end
