(* ===== verification/Name_Note_Queue.thy ===== *)
theory Name_Note_Queue
  imports Name_Note
begin

text \<open>
  \<open>NameNoteQueue\<close> of \<open>src/mint/note.rs\<close>: the orders of Name Notes from authorization to
  canonical observation. The invariant is that at most one unresolved order owns a name;
  every operation keeps it but the reorg rewind, which can break it (see the root theory).
\<close>

section \<open>State and operations\<close>

datatype name_note_state = Authorized | Sent height | Seen

type_synonym ('ua, 'cm) note_order = "('ua, 'cm) name_note \<times> height \<times> name_note_state"

record ('ua, 'cm) name_note_queue =
  orders :: "('ua, 'cm) note_order list"

definition nnq_default :: "('ua, 'cm) name_note_queue" where
  "nnq_default = \<lparr>orders = []\<rparr>"

definition owns_name :: "name \<Rightarrow> ('ua, 'cm) note_order \<Rightarrow> bool" where
  "owns_name n = (\<lambda>(nt, _, st). st \<noteq> Seen \<and> note_name nt = n)"

definition note_pending :: "('ua, 'cm) name_note_queue \<Rightarrow> name \<Rightarrow> bool" where
  "note_pending q n = list_ex (owns_name n) (orders q)"

definition nnq_admit ::
  "height \<Rightarrow> ('ua, 'cm) name_note \<Rightarrow> ('ua, 'cm) name_note_queue \<Rightarrow> bool \<times> ('ua, 'cm) name_note_queue"
where
  "nnq_admit origin nt q =
     (if note_pending q (note_name nt) then (False, q)
      else (True, q\<lparr>orders := orders q @ [(nt, origin, Authorized)]\<rparr>))"

definition nnq_rewind_to :: "height \<Rightarrow> ('ua, 'cm) name_note_queue \<Rightarrow> ('ua, 'cm) name_note_queue" where
  "nnq_rewind_to ancestor q =
     q\<lparr>orders := map (\<lambda>(nt, origin, st). (nt, origin, if st = Seen then Authorized else st))
                  (filter (\<lambda>(_, origin, _). origin \<le> ancestor) (orders q))\<rparr>"

definition authorized_for :: "name \<Rightarrow> ('ua, 'cm) note_order \<Rightarrow> bool" where
  "authorized_for n = (\<lambda>(nt, _, st). st = Authorized \<and> note_name nt = n)"

definition mark_sent ::
  "name \<Rightarrow> height \<Rightarrow> ('ua, 'cm) name_note_queue \<Rightarrow> ('ua, 'cm) name_note_queue may_panic" where
  "mark_sent n expiry q =
     (if list_ex (authorized_for n) (orders q)
      then Some (q\<lparr>orders := update_first (authorized_for n)
                    (\<lambda>(nt, origin, _). (nt, origin, Sent expiry)) (orders q)\<rparr>)
      else None)"

definition sat_add_u32 :: "nat \<Rightarrow> nat \<Rightarrow> nat" where
  "sat_add_u32 a b = min (a + b) U32_MAX"

definition expire_sent :: "height \<Rightarrow> ('ua, 'cm) name_note_queue \<Rightarrow> ('ua, 'cm) name_note_queue" where
  "expire_sent tip q =
     q\<lparr>orders := map (\<lambda>(nt, origin, st).
         (nt, origin, case st of Sent expiry \<Rightarrow> if sat_add_u32 tip 1 \<ge> expiry then Authorized else st
                      | _ \<Rightarrow> st)) (orders q)\<rparr>"

definition authorized_notes :: "('ua, 'cm) name_note_queue \<Rightarrow> ('ua, 'cm) name_note list" where
  "authorized_notes q = map fst (filter (\<lambda>(_, _, st). st = Authorized) (orders q))"

definition authorized_names :: "('ua, 'cm) name_note_queue \<Rightarrow> name list" where
  "authorized_names q = map (note_name \<circ> fst) (filter (\<lambda>(_, _, st). st \<noteq> Seen) (orders q))"

definition drop_note :: "name \<Rightarrow> ('ua, 'cm) name_note_queue \<Rightarrow> ('ua, 'cm) name_note_queue may_panic" where
  "drop_note n q =
     (case position (owns_name n) (orders q) of
        None \<Rightarrow> None
      | Some i \<Rightarrow> Some (q\<lparr>orders := remove_at i (orders q)\<rparr>))"

section \<open>At most one unresolved order per name\<close>

definition nnq_inv :: "('ua, 'cm) name_note_queue \<Rightarrow> bool" where
  "nnq_inv q \<longleftrightarrow> distinct (authorized_names q)"

lemma authorized_names_pending: "n \<in> set (authorized_names q) \<longleftrightarrow> note_pending q n"
  by (force simp: authorized_names_def note_pending_def owns_name_def list_ex_iff)

lemma nnq_inv_default: "nnq_inv nnq_default"
  by (simp add: nnq_inv_def nnq_default_def authorized_names_def)

lemma nnq_inv_admit: "nnq_inv q \<Longrightarrow> nnq_inv (snd (nnq_admit origin nt q))"
  using authorized_names_pending [of "note_name nt" q]
  by (auto simp: nnq_inv_def nnq_admit_def authorized_names_def)

text \<open>An operation that maps states without touching \<open>Seen\<close> keeps the list of owned names.\<close>

lemma authorized_names_map:
  assumes "\<And>nt origin st. \<exists>st'. f (nt, origin, st) = (nt, origin, st') \<and> (st' = Seen \<longleftrightarrow> st = Seen)"
  shows "map (note_name \<circ> fst) (filter (\<lambda>(_, _, st). st \<noteq> Seen) (map f os))
       = map (note_name \<circ> fst) (filter (\<lambda>(_, _, st). st \<noteq> Seen) os)"
proof (induction os)
  case (Cons x os)
  obtain nt origin st where x: "x = (nt, origin, st)" by (cases x)
  obtain st' where "f x = (nt, origin, st')" "st' = Seen \<longleftrightarrow> st = Seen" using assms x by blast
  with Cons x show ?case by simp
qed simp

lemma authorized_names_mark_sent:
  "mark_sent n expiry q = Some q' \<Longrightarrow> authorized_names q' = authorized_names q"
proof -
  have "map (note_name \<circ> fst) (filter (\<lambda>(_, _, st). st \<noteq> Seen)
          (update_first (authorized_for n) (\<lambda>(nt, origin, _). (nt, origin, Sent expiry)) os))
      = map (note_name \<circ> fst) (filter (\<lambda>(_, _, st). st \<noteq> Seen) os)" for os :: "('a, 'b) note_order list"
    by (induction os) (auto simp: authorized_for_def)
  then show "mark_sent n expiry q = Some q' \<Longrightarrow> authorized_names q' = authorized_names q"
    by (auto simp: mark_sent_def authorized_names_def split: if_splits)
qed

lemma authorized_names_expire_sent: "authorized_names (expire_sent tip q) = authorized_names q"
  unfolding authorized_names_def expire_sent_def
  by simp (rule authorized_names_map, auto split: name_note_state.splits)

lemma nnq_inv_mark_sent: "nnq_inv q \<Longrightarrow> mark_sent n expiry q = Some q' \<Longrightarrow> nnq_inv q'"
  by (simp add: nnq_inv_def authorized_names_mark_sent)

lemma nnq_inv_expire_sent: "nnq_inv q \<Longrightarrow> nnq_inv (expire_sent tip q)"
  by (simp add: nnq_inv_def authorized_names_expire_sent)

text \<open>Keeping some of the orders keeps the invariant.\<close>

lemma nnq_inv_filter: "nnq_inv q \<Longrightarrow> nnq_inv (q\<lparr>orders := filter p (orders q)\<rparr>)"
proof -
  have "distinct (map (note_name \<circ> fst) (filter r (filter p xs)))"
    if "distinct (map (note_name \<circ> fst) (filter r xs))"
    for r p and xs :: "('a, 'b) note_order list"
    using that by (induction xs) (auto simp: image_iff)
  then show "nnq_inv q \<Longrightarrow> nnq_inv (q\<lparr>orders := filter p (orders q)\<rparr>)"
    by (simp add: nnq_inv_def authorized_names_def)
qed

lemma owns_at_most_once:
  "nnq_inv q \<Longrightarrow> length (filter (owns_name n) (orders q)) \<le> 1"
proof -
  have "length (filter (owns_name n) xs) \<le> 1"
    if "distinct (map (note_name \<circ> fst) (filter (\<lambda>(_, _, st). st \<noteq> Seen) xs))"
    for xs :: "('a, 'b) note_order list"
    using that
  proof (induction xs)
    case (Cons x xs)
    have "owns_name n x \<Longrightarrow> filter (owns_name n) xs = []"
      using Cons.prems
      by (force simp: owns_name_def filter_empty_conv image_iff split: prod.splits if_splits)
    with Cons show ?case by (cases "owns_name n x") (auto split: if_splits prod.splits)
  qed simp
  then show "nnq_inv q \<Longrightarrow> ?thesis" by (simp add: nnq_inv_def authorized_names_def)
qed

lemma drop_note_filter:
  assumes "nnq_inv q" and "drop_note n q = Some q'"
  shows "orders q' = filter (\<lambda>x. \<not> owns_name n x) (orders q)"
  using assms remove_at_position_filter [OF _ owns_at_most_once [OF assms(1)]]
  by (auto simp: drop_note_def split: option.splits)

lemma nnq_inv_drop_note:
  assumes "nnq_inv q" and "drop_note n q = Some q'"
  shows "nnq_inv q'"
proof -
  have "q' = q\<lparr>orders := filter (\<lambda>x. \<not> owns_name n x) (orders q)\<rparr>"
    using drop_note_filter [OF assms] assms(2) by (auto simp: drop_note_def split: option.splits)
  with nnq_inv_filter [OF assms(1)] show ?thesis by metis
qed

lemma drop_note_not_panic: "drop_note n q \<noteq> None \<longleftrightarrow> note_pending q n"
  by (auto simp: drop_note_def note_pending_def list_ex_iff position_None_iff split: option.splits)
     (metis option.distinct(1) position_None_iff)

lemma mark_sent_not_panic:
  "mark_sent n expiry q \<noteq> None \<longleftrightarrow> n \<in> note_name ` set (authorized_notes q)"
  by (force simp: mark_sent_def authorized_notes_def list_ex_iff authorized_for_def)

lemma drop_note_frees: "nnq_inv q \<Longrightarrow> drop_note n q = Some q' \<Longrightarrow> \<not> note_pending q' n"
  using drop_note_filter by (fastforce simp: note_pending_def list_ex_iff)

lemmas nnq_inv_ops = nnq_inv_default nnq_inv_admit nnq_inv_mark_sent nnq_inv_expire_sent
  nnq_inv_filter nnq_inv_drop_note

declare nnq_inv_ops [wf_intros]

end
