(* ===== verification/Btree_Map.thy ===== *)
theory Btree_Map
  imports Zns_Prelude
begin

text \<open>
  \<open>std::collections::BTreeMap\<close> and \<open>BTreeSet\<close>, which hold the Registry's records,
  histories, listings and anchors and the pre-sale table. A map is the list of its entries
  in key order, a set the list of its elements in order, so that iteration order (which the
  code relies on when it releases names or picks an anchor) is part of the model.

  The locale \<open>ordered_map\<close> is the contract the components rely on; it is interpreted on the
  list implementation, and the components use the facts of that interpretation.
\<close>

section \<open>The contract\<close>

lemma same_keys_same_entries:
  assumes "map fst xs = map fst ys" and "set xs = set ys" and "distinct (map fst ys)"
  shows "xs = ys"
proof (rule nth_equalityI)
  show len: "length xs = length ys" using assms(1) by (rule map_eq_imp_length_eq)
  fix i
  assume i: "i < length xs"
  then have "fst (xs ! i) = fst (ys ! i)" using assms(1) len by (metis nth_map)
  moreover have "xs ! i \<in> set ys" and "ys ! i \<in> set ys"
    using i len assms(2) nth_mem by metis+
  ultimately show "xs ! i = ys ! i" using assms(3) by (metis eq_key_imp_eq_value prod.collapse)
qed

locale ordered_map =
  fixes lookup :: "'m \<Rightarrow> 'k::linorder \<Rightarrow> 'v option"
    and upd :: "'k \<Rightarrow> 'v \<Rightarrow> 'm \<Rightarrow> 'm"
    and del :: "'k \<Rightarrow> 'm \<Rightarrow> 'm"
    and entries :: "'m \<Rightarrow> ('k \<times> 'v) list"
    and retain :: "('k \<Rightarrow> 'v \<Rightarrow> bool) \<Rightarrow> 'm \<Rightarrow> 'm"
    and ok :: "'m \<Rightarrow> bool"
  assumes lookup_upd: "ok m \<Longrightarrow> lookup (upd k v m) = (lookup m)(k \<mapsto> v)"
    and lookup_del: "ok m \<Longrightarrow> lookup (del k m) = (lookup m)(k := None)"
    and lookup_retain: "ok m \<Longrightarrow> lookup (retain p m) k =
          (case lookup m k of None \<Rightarrow> None | Some v \<Rightarrow> if p k v then Some v else None)"
    and entries_lookup: "ok m \<Longrightarrow> (k, v) \<in> set (entries m) \<longleftrightarrow> lookup m k = Some v"
    and entries_sorted: "ok m \<Longrightarrow> sorted_wrt (<) (map fst (entries m))"
    and entries_inject: "ok m \<Longrightarrow> ok n \<Longrightarrow> entries m = entries n \<Longrightarrow> m = n"
    and ok_upd: "ok m \<Longrightarrow> ok (upd k v m)"
    and ok_del: "ok m \<Longrightarrow> ok (del k m)"
    and ok_retain: "ok m \<Longrightarrow> ok (retain p m)"
begin

lemma entries_distinct: "ok m \<Longrightarrow> distinct (map fst (entries m))"
  using entries_sorted strict_sorted_iff by blast

text \<open>Two well-formed maps with the same lookups are the same map: iteration order carries
  no information of its own.\<close>

lemma ext_lookup:
  assumes "ok m" and "ok n" and "lookup m = lookup n"
  shows "m = n"
proof -
  have "set (entries m) = set (entries n)"
    using assms by (auto simp: entries_lookup)
  moreover have "map fst (entries m) = map fst (entries n)"
    by (rule strict_sorted_equal)
      (use assms calculation in \<open>auto simp: entries_sorted\<close>)
  ultimately have "entries m = entries n"
    using same_keys_same_entries entries_distinct [OF assms(2)] by blast
  then show ?thesis by (rule entries_inject [OF assms(1,2)])
qed

text \<open>The idiom of the Registry's queries: the keys whose value passes a test, in order.\<close>

lemma select_keys:
  "ok m \<Longrightarrow> k \<in> set (map fst (filter (\<lambda>(k, v). p k v) (entries m))) \<longleftrightarrow>
     (\<exists>v. lookup m k = Some v \<and> p k v)"
  by (force simp: entries_lookup)

lemma select_keys_distinct:
  "ok m \<Longrightarrow> distinct (map fst (filter (\<lambda>(k, v). p k v) (entries m)))"
  using entries_distinct distinct_map_filter by blast

end

section \<open>The implementation\<close>

type_synonym ('k, 'v) btree = "('k \<times> 'v) list"

definition bt_get :: "('k, 'v) btree \<Rightarrow> 'k \<Rightarrow> 'v option" where
  "bt_get m = map_of m"

definition bt_insert :: "'k::linorder \<Rightarrow> 'v \<Rightarrow> ('k, 'v) btree \<Rightarrow> ('k, 'v) btree" where
  "bt_insert k v m = filter (\<lambda>e. fst e < k) m @ (k, v) # filter (\<lambda>e. k < fst e) m"

definition bt_remove :: "'k::linorder \<Rightarrow> ('k, 'v) btree \<Rightarrow> ('k, 'v) btree" where
  "bt_remove k m = filter (\<lambda>e. fst e \<noteq> k) m"

definition bt_retain :: "('k \<Rightarrow> 'v \<Rightarrow> bool) \<Rightarrow> ('k, 'v) btree \<Rightarrow> ('k, 'v) btree" where
  "bt_retain p m = filter (\<lambda>(k, v). p k v) m"

definition bt_ok :: "('k::linorder, 'v) btree \<Rightarrow> bool" where
  "bt_ok m \<longleftrightarrow> sorted_wrt (<) (map fst m)"

lemma bt_ok_distinct: "bt_ok m \<Longrightarrow> distinct (map fst m)"
  unfolding bt_ok_def using strict_sorted_iff by blast

lemma bt_ok_Nil [simp]: "bt_ok []"
  by (simp add: bt_ok_def)

lemma bt_ok_filter: "bt_ok m \<Longrightarrow> bt_ok (filter p m)"
  unfolding bt_ok_def by (simp add: sorted_wrt_map sorted_wrt_filter)

lemma bt_ok_insert: "bt_ok m \<Longrightarrow> bt_ok (bt_insert k v m)"
proof -
  assume ok: "bt_ok m"
  then have "sorted_wrt (\<lambda>a b. fst a < fst b) (filter (\<lambda>e. fst e < k) m)"
    and "sorted_wrt (\<lambda>a b. fst a < fst b) (filter (\<lambda>e. k < fst e) m)"
    by (auto simp: bt_ok_def sorted_wrt_map sorted_wrt_filter)
  then show ?thesis
    by (auto simp: bt_insert_def bt_ok_def sorted_wrt_append sorted_wrt_map)
qed

lemma bt_get_filter:
  "distinct (map fst m) \<Longrightarrow>
     map_of (filter p m) k = (case map_of m k of None \<Rightarrow> None | Some v \<Rightarrow> if p (k, v) then Some v else None)"
proof (induction m)
  case (Cons e m)
  obtain a b where e: "e = (a, b)" by force
  from Cons.prems e have "map_of m a = None" by (simp add: map_of_eq_None_iff image_iff)
  with Cons e show ?case by (auto split: option.splits)
qed simp

lemma bt_get_insert: "bt_ok m \<Longrightarrow> bt_get (bt_insert k v m) = (bt_get m)(k \<mapsto> v)"
proof (rule ext)
  fix x
  assume "bt_ok m"
  then have d: "distinct (map fst m)" by (rule bt_ok_distinct)
  show "bt_get (bt_insert k v m) x = ((bt_get m)(k \<mapsto> v)) x"
    by (cases x k rule: linorder_cases)
      (auto simp: bt_get_def bt_insert_def map_add_def bt_get_filter [OF d] split: option.splits)
qed

lemma bt_get_remove: "bt_get (bt_remove k m) = (bt_get m)(k := None)"
  by (induction m) (auto simp: bt_get_def bt_remove_def fun_eq_iff)

interpretation bt: ordered_map bt_get bt_insert bt_remove "\<lambda>m. m" bt_retain bt_ok
proof unfold_locales
  fix m :: "('k::linorder, 'v) btree" and k :: 'k and v :: 'v and p :: "'k \<Rightarrow> 'v \<Rightarrow> bool"
  assume ok: "bt_ok m"
  note d = bt_ok_distinct [OF ok]
  show "bt_get (bt_insert k v m) = (bt_get m)(k \<mapsto> v)" by (rule bt_get_insert [OF ok])
  show "bt_get (bt_remove k m) = (bt_get m)(k := None)" by (rule bt_get_remove)
  show "bt_get (bt_retain p m) k =
      (case bt_get m k of None \<Rightarrow> None | Some v \<Rightarrow> if p k v then Some v else None)"
    by (simp add: bt_get_def bt_retain_def bt_get_filter [OF d] cong: option.case_cong)
  show "(k, v) \<in> set m \<longleftrightarrow> bt_get m k = Some v"
    using d by (simp add: bt_get_def)
  show "sorted_wrt (<) (map fst m)" using ok by (simp add: bt_ok_def)
  show "bt_ok (bt_insert k v m)" by (rule bt_ok_insert [OF ok])
  show "bt_ok (bt_remove k m)" using ok by (simp add: bt_remove_def bt_ok_filter)
  show "bt_ok (bt_retain p m)" using ok by (simp add: bt_retain_def bt_ok_filter)
qed

lemmas bt_simps = bt.lookup_upd bt.lookup_del bt.lookup_retain

lemma bt_get_Nil [simp]: "bt_get [] k = None"
  by (simp add: bt_get_def)

section \<open>Ordered sets\<close>

text \<open>\<open>BTreeSet::insert\<close> and \<open>remove\<close> report whether they changed the set.\<close>

type_synonym 'a bset = "'a list"

definition bs_insert :: "'a::linorder \<Rightarrow> 'a bset \<Rightarrow> bool \<times> 'a bset" where
  "bs_insert x s =
     (if x \<in> set s then (False, s)
      else (True, filter (\<lambda>y. y < x) s @ x # filter (\<lambda>y. x < y) s))"

definition bs_remove :: "'a::linorder \<Rightarrow> 'a bset \<Rightarrow> bool \<times> 'a bset" where
  "bs_remove x s = (x \<in> set s, filter (\<lambda>y. y \<noteq> x) s)"

definition bs_ok :: "'a::linorder bset \<Rightarrow> bool" where
  "bs_ok s \<longleftrightarrow> sorted_wrt (<) s"

lemma bs_ok_Nil [simp]: "bs_ok []"
  by (simp add: bs_ok_def)

lemma bs_ok_distinct: "bs_ok s \<Longrightarrow> distinct s"
  unfolding bs_ok_def using strict_sorted_iff by blast

lemma bs_ok_insert: "bs_ok s \<Longrightarrow> bs_ok (snd (bs_insert x s))"
  by (auto simp: bs_ok_def bs_insert_def sorted_wrt_append sorted_wrt_filter)

lemma bs_ok_remove: "bs_ok s \<Longrightarrow> bs_ok (snd (bs_remove x s))"
  by (simp add: bs_ok_def bs_remove_def sorted_wrt_filter)

lemma set_bs_insert [simp]: "set (snd (bs_insert x s)) = insert x (set s)"
  by (auto simp: bs_insert_def)

lemma set_bs_remove [simp]: "set (snd (bs_remove x s)) = set s - {x}"
  by (auto simp: bs_remove_def)

lemma fst_bs_insert [simp]: "fst (bs_insert x s) \<longleftrightarrow> x \<notin> set s"
  by (simp add: bs_insert_def)

lemma fst_bs_remove [simp]: "fst (bs_remove x s) \<longleftrightarrow> x \<in> set s"
  by (simp add: bs_remove_def)

lemma length_bs_insert:
  "bs_ok s \<Longrightarrow> length (snd (bs_insert x s)) = (if x \<in> set s then length s else Suc (length s))"
  by (metis bs_ok_distinct bs_ok_insert card_insert_if distinct_card finite_set set_bs_insert)

end
