(* ===== verification/Rewind.thy ===== *)
theory Rewind
  imports Zns_Prelude
begin

text \<open>
  The reorganisation contract. Every faculty the run loop keeps (the anchor pool, the
  Registry, the request and refund queues, the market's event log) is advanced block by
  block and offers a \<open>truncate_to(height)\<close>; \<open>main\<close> calls them together when Zebra names a
  different chain. What the loop relies on is stated once, as the locale \<open>rewindable\<close>:
  truncating after any sequence of steps gives back exactly the state that the steps at or
  below that height produce. Components whose state is a list of stamped entries meet the
  simpler contract \<open>height_log\<close>, which implies the first.
\<close>

section \<open>Runs of stamped steps\<close>

fun run_steps :: "(height \<Rightarrow> 'e \<Rightarrow> 's \<Rightarrow> 's option) \<Rightarrow> (height \<times> 'e) list \<Rightarrow> 's \<Rightarrow> 's option" where
  "run_steps step [] s = Some s"
| "run_steps step ((h, e) # es) s = Option.bind (step h e s) (run_steps step es)"

lemma run_steps_append:
  "run_steps step (xs @ ys) s = Option.bind (run_steps step xs s) (run_steps step ys)"
proof (induction xs arbitrary: s)
  case (Cons x xs)
  obtain h e where "x = (h, e)" by force
  then show ?case using Cons.IH by (cases "step h e s") auto
qed simp

text \<open>The heights of a run never decrease: blocks are applied in chain order.\<close>

definition ascending_from :: "height \<Rightarrow> (height \<times> 'e) list \<Rightarrow> bool" where
  "ascending_from t es \<longleftrightarrow> sorted (t # map fst es)"

lemma ascending_from_Cons [simp]:
  "ascending_from t ((h, e) # es) \<longleftrightarrow> t \<le> h \<and> ascending_from h es"
  by (auto simp: ascending_from_def)

lemma ascending_from_Nil [simp]: "ascending_from t []"
  by (simp add: ascending_from_def)

section \<open>The contract of a rewindable faculty\<close>

text \<open>\<open>at t s\<close>: the state is well formed and holds nothing from a block above \<open>t\<close>.\<close>

locale rewindable =
  fixes step :: "height \<Rightarrow> 'e \<Rightarrow> 's \<Rightarrow> 's option"
    and trunc :: "height \<Rightarrow> 's \<Rightarrow> 's"
    and at :: "height \<Rightarrow> 's \<Rightarrow> bool"
  assumes at_mono: "at t s \<Longrightarrow> t \<le> h \<Longrightarrow> at h s"
    and at_step: "at t s \<Longrightarrow> t \<le> h \<Longrightarrow> step h e s = Some s' \<Longrightarrow> at h s'"
    and trunc_step: "at t s \<Longrightarrow> t \<le> h \<Longrightarrow> n < h \<Longrightarrow> step h e s = Some s' \<Longrightarrow> trunc n s' = trunc n s"
    and trunc_at: "at t s \<Longrightarrow> trunc t s = s"
begin

lemma trunc_above: "at t s \<Longrightarrow> t \<le> n \<Longrightarrow> trunc n s = s"
  using at_mono trunc_at by blast

lemma at_run:
  "at t s \<Longrightarrow> ascending_from t es \<Longrightarrow> run_steps step es s = Some s' \<Longrightarrow>
     \<forall>e\<in>set es. fst e \<le> n \<Longrightarrow> t \<le> n \<Longrightarrow> at n s'"
proof (induction es arbitrary: s t)
  case Nil
  then show ?case using at_mono by simp
next
  case (Cons x es)
  obtain h e where x: "x = (h, e)" by force
  from Cons.prems(3) x obtain s1 where s1: "step h e s = Some s1" "run_steps step es s1 = Some s'"
    by (auto simp: Option.bind_eq_Some_conv)
  with Cons.prems x have "at h s1" by (auto intro: at_step)
  then show ?case by (rule Cons.IH) (use Cons.prems x s1 in auto)
qed

lemma trunc_run:
  "at t s \<Longrightarrow> ascending_from t es \<Longrightarrow> run_steps step es s = Some s' \<Longrightarrow>
     \<forall>e\<in>set es. n < fst e \<Longrightarrow> trunc n s' = trunc n s"
proof (induction es arbitrary: s t)
  case (Cons x es)
  obtain h e where x: "x = (h, e)" by force
  from Cons.prems(3) x obtain s1 where s1: "step h e s = Some s1" "run_steps step es s1 = Some s'"
    by (auto simp: Option.bind_eq_Some_conv)
  with Cons.prems x have "at h s1" and eq: "trunc n s1 = trunc n s"
    by (auto intro: at_step trunc_step)
  then have "trunc n s' = trunc n s1" by (rule_tac Cons.IH) (use Cons.prems x s1 in auto)
  with eq show ?case by simp
qed simp

text \<open>Rolling back to \<open>n\<close> equals having applied only the blocks up to \<open>n\<close>.\<close>

lemma rollback:
  assumes "at t s" and "ascending_from t es" and "t \<le> n" and "run_steps step es s = Some s'"
  shows "run_steps step (takeWhile (\<lambda>e. fst e \<le> n) es) s = Some (trunc n s')"
  using assms
proof (induction es arbitrary: s t)
  case Nil
  then show ?case using trunc_above by simp
next
  case (Cons x es)
  obtain h e where x: "x = (h, e)" by force
  from Cons.prems(4) x obtain s1 where s1: "step h e s = Some s1" "run_steps step es s1 = Some s'"
    by (auto simp: Option.bind_eq_Some_conv)
  show ?case
  proof (cases "h \<le> n")
    case True
    from Cons.prems x s1 have "at h s1" by (auto intro: at_step)
    with Cons.IH [of h s1] True Cons.prems x s1 show ?thesis by auto
  next
    case False
    have "\<forall>e\<in>set (x # es). n < fst e"
      using False Cons.prems(2) x by (auto simp: ascending_from_def)
    then have "trunc n s' = trunc n s"
      using trunc_run [OF Cons.prems(1,2,4)] by blast
    also have "\<dots> = s" using Cons.prems(1,3) trunc_above by blast
    finally show ?thesis using False x by simp
  qed
qed

end

section \<open>Stamped logs\<close>

locale height_log =
  fixes log :: "'s \<Rightarrow> 'e list"
    and height_of :: "'e \<Rightarrow> height"
    and push :: "'e \<Rightarrow> 's \<Rightarrow> 's"
    and keep :: "height \<Rightarrow> 's \<Rightarrow> 's"
  assumes log_push: "log (push e s) = log s @ [e]"
    and log_keep: "log (keep h s) = filter (\<lambda>e. height_of e \<le> h) (log s)"
    and log_inject: "log s = log s' \<Longrightarrow> s = s'"
begin

lemma keep_keep: "keep h (keep k s) = keep (min h k) s"
  by (rule log_inject) (auto simp: log_keep intro: filter_cong)

lemma keep_push_above: "h < height_of e \<Longrightarrow> keep h (push e s) = keep h s"
  by (rule log_inject) (simp add: log_keep log_push)

lemma keep_all: "\<forall>e\<in>set (log s). height_of e \<le> h \<Longrightarrow> keep h s = s"
  by (rule log_inject) (simp add: log_keep filter_id_conv)

end

sublocale height_log \<subseteq> stamped: rewindable
  "\<lambda>h e s. if height_of e = h then Some (push e s) else None" keep
  "\<lambda>t s. \<forall>e\<in>set (log s). height_of e \<le> t"
  by unfold_locales
    (auto simp: log_push keep_push_above keep_all split: if_splits intro: order_trans)

end
