(* ===== verification/Anchor_Pool.thy ===== *)
theory Anchor_Pool
  imports Btree_Map Rewind
begin

text \<open>
  \<open>src/mint/registry/anchor_pool.rs\<close>: the nullifiers that confer claim authority, with a
  checkpoint per block for the rewind. The lemmas show that the pool never exceeds its standing
  size, that once the ceremony has closed no transaction enlarges it, that a spent anchor leaves
  whatever the verdict, and that truncation gives back the pool of the earlier block.
\<close>

section \<open>State and operations\<close>

text \<open>A nullifier is a field element of \<open>orchard\<close>; here it is the 32 bytes of that number, most
  significant first, so that the order of byte strings is the numeric order a \<open>BTreeSet\<close> of them has.\<close>

type_synonym nullifier = bytes

definition ANCHOR_POOL_SIZE :: nat where
  "ANCHOR_POOL_SIZE = 40"

definition is_ceremony_fill :: "nat \<Rightarrow> nat \<Rightarrow> bool" where
  "is_ceremony_fill zero_value_outputs name_notes \<longleftrightarrow>
     zero_value_outputs = ANCHOR_POOL_SIZE \<and> name_notes = 0"

record anchor_pool =
  live :: "nullifier bset"
  checkpoints :: "(height, nullifier bset) btree"
  established :: "height option"

definition pool_default :: anchor_pool where
  "pool_default = \<lparr>live = [], checkpoints = [], established = None\<rparr>"

definition pool_contains :: "anchor_pool \<Rightarrow> nullifier \<Rightarrow> bool" where
  "pool_contains p nf \<longleftrightarrow> nf \<in> set (live p)"

definition is_full :: "anchor_pool \<Rightarrow> bool" where
  "is_full p \<longleftrightarrow> length (live p) \<ge> ANCHOR_POOL_SIZE"

definition adoption_closed :: "anchor_pool \<Rightarrow> bool" where
  "adoption_closed p \<longleftrightarrow> established p \<noteq> None"

definition adopt :: "height \<Rightarrow> nullifier \<Rightarrow> anchor_pool \<Rightarrow> anchor_pool" where
  "adopt height nf p =
     (if adoption_closed p \<or> is_full p then p
      else (case bs_insert nf (live p) of
          (inserted, live') \<Rightarrow>
            if inserted then
              \<lparr>live = live',
               checkpoints = bt_insert height live' (checkpoints p),
               established =
                 (if length live' = ANCHOR_POOL_SIZE then Some height else established p)\<rparr>
            else p))"

text \<open>The loop over the spent nullifiers: how many live anchors retired, and what is left.\<close>

fun retire_loop :: "nullifier list \<Rightarrow> nat \<times> nullifier bset \<Rightarrow> nat \<times> nullifier bset" where
  "retire_loop [] acc = acc"
| "retire_loop (nf # nfs) (retired, s) =
     (case bs_remove nf s of
        (removed, s') \<Rightarrow> retire_loop nfs (if removed then retired + 1 else retired, s'))"

definition retire_spent :: "nullifier list \<Rightarrow> nullifier option \<Rightarrow> height \<Rightarrow> anchor_pool \<Rightarrow> anchor_pool" where
  "retire_spent nfs successor height p =
     (case retire_loop nfs (0, live p) of
        (retired, live1) \<Rightarrow>
          (case (if retired = 1
                 then (case successor of
                     Some nf \<Rightarrow> (case bs_insert nf live1 of (ins, l) \<Rightarrow> (retired > 0 \<or> ins, l))
                   | None \<Rightarrow> (retired > 0, live1))
                 else (retired > 0, live1)) of
             (changed, live2) \<Rightarrow>
               p\<lparr>live := live2,
                 checkpoints := if changed then bt_insert height live2 (checkpoints p)
                                else checkpoints p\<rparr>))"

definition pool_truncate_to :: "height \<Rightarrow> anchor_pool \<Rightarrow> anchor_pool" where
  "pool_truncate_to height p =
     (let cps = bt_retain (\<lambda>h _. h \<le> height) (checkpoints p) in
      \<lparr>live = (if cps = [] then [] else snd (last cps)),
       checkpoints = cps,
       established =
         (case established p of Some e \<Rightarrow> if e > height then None else Some e | None \<Rightarrow> None)\<rparr>)"

section \<open>What the loop retires\<close>

lemma retire_loop_live: "snd (retire_loop nfs (k, s)) = filter (\<lambda>x. x \<notin> set nfs) s"
proof (induction nfs arbitrary: k s)
  case (Cons nf nfs)
  then show ?case by (simp add: bs_remove_def Cons conj_commute)
qed simp

lemma retire_loop_count:
  assumes "distinct s"
  shows "fst (retire_loop nfs (k, s)) = k + (length s - length (filter (\<lambda>x. x \<notin> set nfs) s))"
  using assms
proof (induction nfs arbitrary: k s)
  case (Cons nf nfs)
  let ?s = "filter (\<lambda>y. y \<noteq> nf) s"
  have d: "distinct ?s" using Cons.prems by simp
  have f: "filter (\<lambda>x. x \<notin> set nfs) ?s = filter (\<lambda>x. x \<notin> set (nf # nfs)) s"
    by (simp add: conj_commute)
  have le: "length (filter (\<lambda>x. x \<notin> set (nf # nfs)) s) \<le> length ?s"
    unfolding f [symmetric] by (rule length_filter_le)
  have len: "length s = length ?s + (if nf \<in> set s then 1 else 0)"
  proof -
    have "length s = length ?s + length (filter (\<lambda>y. y = nf) s)"
      using sum_length_filter_compl [of "\<lambda>y. y \<noteq> nf" s] by simp
    moreover have "filter (\<lambda>y. y = nf) s = (if nf \<in> set s then [nf] else [])"
      using Cons.prems by (induction s) (auto simp: filter_empty_conv)
    ultimately show ?thesis by simp
  qed
  show ?case using Cons.IH [OF d] f le len by (auto simp: bs_remove_def)
qed simp

definition spent_anchors :: "nullifier list \<Rightarrow> anchor_pool \<Rightarrow> nullifier set" where
  "spent_anchors nfs p = set (live p) \<inter> set nfs"

lemma retire_loop_card:
  assumes "distinct (live p)"
  shows "fst (retire_loop nfs (0, live p)) = card (spent_anchors nfs p)"
proof -
  have "card (set (live p)) = card (spent_anchors nfs p) + card (set (live p) - set nfs)"
    unfolding spent_anchors_def
    by (subst card_Un_disjoint [symmetric]) (auto intro!: arg_cong [where f = card])
  moreover have "set (filter (\<lambda>x. x \<notin> set nfs) (live p)) = set (live p) - set nfs" by auto
  then have "length (filter (\<lambda>x. x \<notin> set nfs) (live p)) = card (set (live p) - set nfs)"
    using assms by (metis distinct_card distinct_filter)
  ultimately show ?thesis
    using assms by (simp add: retire_loop_count distinct_card)
qed

section \<open>The pool's invariant\<close>

definition pool_inv :: "anchor_pool \<Rightarrow> bool" where
  "pool_inv p \<longleftrightarrow>
     bs_ok (live p) \<and> length (live p) \<le> ANCHOR_POOL_SIZE \<and> bt_ok (checkpoints p) \<and>
     live p = (if checkpoints p = [] then [] else snd (last (checkpoints p))) \<and>
     (\<forall>(h, s)\<in>set (checkpoints p). bs_ok s \<and> length s \<le> ANCHOR_POOL_SIZE)"

definition pool_at :: "height \<Rightarrow> anchor_pool \<Rightarrow> bool" where
  "pool_at t p \<longleftrightarrow>
     pool_inv p \<and> (\<forall>(h, s)\<in>set (checkpoints p). h \<le> t) \<and>
     (case established p of None \<Rightarrow> True | Some e \<Rightarrow> e \<le> t)"

lemma bs_insert_ok: "bs_ok s \<Longrightarrow> bs_insert x s = (b, s') \<Longrightarrow> bs_ok s'"
  by (metis bs_ok_insert snd_conv)

text \<open>A checkpoint written at or above every key becomes the last one.\<close>

lemma checkpoint_last:
  assumes "\<forall>(h, s)\<in>set m. h \<le> (t::height)" and "t \<le> height"
  shows "bt_insert height v m = filter (\<lambda>e. fst e < height) m @ [(height, v)]"
  using assms by (fastforce simp: bt_insert_def filter_empty_conv)

lemma pool_at_checkpoint:
  assumes "pool_at t p" and "t \<le> height" and "bs_ok s" and "length s \<le> ANCHOR_POOL_SIZE"
    and "e = established p \<or> e = Some height"
  shows "pool_at height \<lparr>live = s, checkpoints = bt_insert height s (checkpoints p), established = e\<rparr>"
proof -
  have le: "\<forall>(h, s)\<in>set (checkpoints p). h \<le> t" using assms(1) by (simp add: pool_at_def)
  have "bt_ok (bt_insert height s (checkpoints p))"
    using assms(1) by (simp add: pool_at_def pool_inv_def bt.ok_upd)
  with assms checkpoint_last [OF le assms(2)] show ?thesis
    by (auto simp: pool_at_def pool_inv_def split: option.splits)
qed

lemma pool_at_mono: "pool_at t p \<Longrightarrow> t \<le> h \<Longrightarrow> pool_at h p"
  by (fastforce simp: pool_at_def split: option.splits)

lemma pool_at_adopt:
  assumes "pool_at t p" and "t \<le> height"
  shows "pool_at height (adopt height nf p)"
proof (cases "adoption_closed p \<or> is_full p \<or> nf \<in> set (live p)")
  case True
  then have "adopt height nf p = p" by (auto simp: adopt_def bs_insert_def)
  with assms show ?thesis using pool_at_mono by metis
next
  case False
  let ?l = "snd (bs_insert nf (live p))"
  have ok: "bs_ok (live p)" using assms(1) unfolding pool_at_def pool_inv_def by blast
  have "length ?l \<le> ANCHOR_POOL_SIZE"
    using False length_bs_insert [OF ok] by (simp add: is_full_def)
  moreover have "adopt height nf p = \<lparr>live = ?l, checkpoints = bt_insert height ?l (checkpoints p),
      established = (if length ?l = ANCHOR_POOL_SIZE then Some height else established p)\<rparr>"
    using False by (simp add: adopt_def bs_insert_def)
  ultimately show ?thesis
    using pool_at_checkpoint [OF assms bs_ok_insert [OF ok]] by simp
qed

lemma retire_spent_cases:
  assumes "bs_ok (live p)"
  shows "retire_spent nfs successor height p =
    (if spent_anchors nfs p = {} then p
     else let l = filter (\<lambda>x. x \<notin> set nfs) (live p);
              s = (case successor of
                     Some nf \<Rightarrow> if card (spent_anchors nfs p) = 1 then snd (bs_insert nf l) else l
                   | None \<Rightarrow> l)
          in p\<lparr>live := s, checkpoints := bt_insert height s (checkpoints p)\<rparr>)"
proof -
  obtain k l where r: "retire_loop nfs (0, live p) = (k, l)" by force
  have k: "k = card (spent_anchors nfs p)"
    using retire_loop_card [OF bs_ok_distinct [OF assms], of nfs] r by simp
  have l: "l = filter (\<lambda>x. x \<notin> set nfs) (live p)"
    using retire_loop_live [of nfs 0 "live p"] r by simp
  have fin: "finite (spent_anchors nfs p)" by (simp add: spent_anchors_def)
  have same: "spent_anchors nfs p = {} \<Longrightarrow> l = live p"
    unfolding l by (auto simp: spent_anchors_def filter_id_conv)
  show ?thesis
  proof (cases "spent_anchors nfs p = {}")
    case True
    with k same r show ?thesis by (simp add: retire_spent_def)
  next
    case False
    with fin k have "0 < k" by (simp add: card_gt_0_iff)
    with False k l r show ?thesis
      by (auto simp: retire_spent_def Let_def split: option.splits prod.splits)
  qed
qed

lemma live_retire_spent:
  assumes "bs_ok (live p)"
  shows "set (live (retire_spent nfs successor height p)) =
     (set (live p) - set nfs) \<union>
     (if card (spent_anchors nfs p) = 1 then set_option successor else {})"
proof -
  have l: "set (filter (\<lambda>x. x \<notin> set nfs) (live p)) = set (live p) - set nfs" by auto
  show ?thesis
  proof (cases "spent_anchors nfs p = {}")
    case True
    then have "set (live p) - set nfs = set (live p)" by (auto simp: spent_anchors_def)
    with True show ?thesis by (simp add: retire_spent_cases [OF assms])
  next
    case False
    then show ?thesis using l
      by (cases successor) (simp_all add: retire_spent_cases [OF assms] Let_def)
  qed
qed

lemma length_retire_spent:
  assumes "bs_ok (live p)"
  shows "length (live (retire_spent nfs successor height p)) \<le> length (live p)"
    and "bs_ok (live (retire_spent nfs successor height p))"
proof -
  let ?l = "filter (\<lambda>x. x \<notin> set nfs) (live p)"
  have ok: "bs_ok ?l" using assms by (simp add: bs_ok_def sorted_wrt_filter)
  have "length ?l + card (spent_anchors nfs p) \<le> length (live p)"
    using retire_loop_count [OF bs_ok_distinct [OF assms], of nfs 0]
      retire_loop_card [OF bs_ok_distinct [OF assms], of nfs] length_filter_le [of _ "live p"]
    by (metis add.commute add_0 le_add_diff_inverse2 order_refl)
  then show "length (live (retire_spent nfs successor height p)) \<le> length (live p)"
    using length_bs_insert [OF ok]
    by (auto simp: retire_spent_cases [OF assms] Let_def split: option.splits)
  show "bs_ok (live (retire_spent nfs successor height p))"
    using assms ok bs_ok_insert [OF ok]
    by (auto simp: retire_spent_cases [OF assms] Let_def split: option.splits)
qed

lemma pool_at_retire_spent:
  assumes "pool_at t p" and "t \<le> height"
  shows "pool_at height (retire_spent nfs successor height p)"
proof -
  have ok: "bs_ok (live p)" and n: "length (live p) \<le> ANCHOR_POOL_SIZE"
    using assms(1) unfolding pool_at_def pool_inv_def by blast+
  let ?p = "retire_spent nfs successor height p"
  show ?thesis
  proof (cases "?p = p")
    case True
    then show ?thesis using assms pool_at_mono by metis
  next
    case False
    then have "?p = \<lparr>live = live ?p, checkpoints = bt_insert height (live ?p) (checkpoints p),
        established = established p\<rparr>"
      by (auto simp: retire_spent_cases [OF ok] Let_def)
    moreover have "length (live ?p) \<le> ANCHOR_POOL_SIZE"
      using length_retire_spent(1) [OF ok] n by (rule order_trans)
    ultimately show ?thesis
      using pool_at_checkpoint [OF assms length_retire_spent(2) [OF ok]] by metis
  qed
qed

lemma pool_at_default: "pool_at t pool_default"
  by (simp add: pool_at_def pool_inv_def pool_default_def)

section \<open>Truncation\<close>

lemma established_retire_spent [simp]: "established (retire_spent nfs s h p) = established p"
  by (auto simp: retire_spent_def split: prod.splits)

datatype pool_event = PoolAdopt nullifier | PoolRetire "nullifier list" "nullifier option"

definition pool_step :: "height \<Rightarrow> pool_event \<Rightarrow> anchor_pool \<Rightarrow> anchor_pool option" where
  "pool_step h e p =
     Some (case e of PoolAdopt nf \<Rightarrow> adopt h nf p | PoolRetire nfs s \<Rightarrow> retire_spent nfs s h p)"

lemma truncate_checkpoint:
  assumes "n < height" and "bt_ok m"
  shows "bt_retain (\<lambda>h _. h \<le> n) (bt_insert height s m) = bt_retain (\<lambda>h _. h \<le> n) m"
  by (rule bt.ext_lookup)
    (use assms in \<open>auto simp: fun_eq_iff bt.ok_retain bt.ok_upd bt_simps split: option.splits\<close>)

lemma truncate_adopt:
  assumes "n < height" and "bt_ok (checkpoints p)"
  shows "pool_truncate_to n (adopt height nf p) = pool_truncate_to n p"
  using assms truncate_checkpoint [OF assms]
  by (auto simp: adopt_def pool_truncate_to_def Let_def adoption_closed_def split: prod.splits)

lemma truncate_retire_spent:
  assumes "n < height" and "bt_ok (checkpoints p)"
  shows "pool_truncate_to n (retire_spent nfs s height p) = pool_truncate_to n p"
proof -
  have "bt_retain (\<lambda>h _. h \<le> n) (checkpoints (retire_spent nfs s height p))
      = bt_retain (\<lambda>h _. h \<le> n) (checkpoints p)"
    using truncate_checkpoint [OF assms] by (auto simp: retire_spent_def split: prod.splits)
  then show ?thesis by (simp add: pool_truncate_to_def)
qed

lemma truncate_at:
  assumes "pool_at t p"
  shows "pool_truncate_to t p = p"
proof -
  have "bt_retain (\<lambda>h _. h \<le> t) (checkpoints p) = checkpoints p"
    using assms by (auto simp: pool_at_def bt_retain_def filter_id_conv)
  with assms show ?thesis
    by (auto simp: pool_truncate_to_def pool_at_def pool_inv_def Let_def split: option.splits)
qed

interpretation pool: rewindable pool_step pool_truncate_to pool_at
proof unfold_locales
  fix t h n :: height and p p' :: anchor_pool and e :: pool_event
  assume p: "pool_at t p"
  show "t \<le> h \<Longrightarrow> pool_at h p" using p pool_at_mono by blast
  show "t \<le> h \<Longrightarrow> pool_step h e p = Some p' \<Longrightarrow> pool_at h p'"
    using p by (auto simp: pool_step_def pool_at_adopt pool_at_retire_spent split: pool_event.splits)
  show "t \<le> h \<Longrightarrow> n < h \<Longrightarrow> pool_step h e p = Some p' \<Longrightarrow>
      pool_truncate_to n p' = pool_truncate_to n p"
    using p by (auto simp: pool_step_def pool_at_def pool_inv_def truncate_adopt truncate_retire_spent
        split: pool_event.splits)
  show "pool_truncate_to t p = p" by (rule truncate_at [OF p])
qed

section \<open>Closed adoption\<close>

lemma adopt_closed: "adoption_closed p \<Longrightarrow> adopt height nf p = p"
  by (simp add: adopt_def)

end
