(* ===== verification/Otp.thy ===== *)
theory Otp
  imports Requests
begin

text \<open>
  \<open>src/mint/treasury/otp.rs\<close>: challenges issued for updates and releases, and the queue that
  holds them until the controller answers. \<open>OtpCode::generate\<close> is a random source, modelled by
  the list of the codes it would draw. The invariant: no request is challenged twice, no two
  challenges that one response could name share a code, and no challenge is past its attempts.
\<close>

section \<open>State and operations\<close>

definition D_OTP :: int where
  "D_OTP = 1800"

definition MAX_ATTEMPTS :: nat where
  "MAX_ATTEMPTS = 6"

record 'ua otp_challenge =
  ch_request :: "'ua request"
  ch_code :: otp_code
  ch_expires_at :: timestamp
  ch_attempts :: nat

definition attempt :: "otp_code \<Rightarrow> 'ua otp_challenge \<Rightarrow> bool \<times> 'ua otp_challenge" where
  "attempt c ch =
     (if code_value (ch_code ch) = code_value c then (True, ch)
      else (False, ch\<lparr>ch_attempts := ch_attempts ch + 1\<rparr>))"

definition challenge_memo :: "'ua otp_challenge \<Rightarrow> 'ua otp_memo" where
  "challenge_memo ch =
     \<lparr>om_code = ch_code ch, om_name = request_name (ch_request ch),
      om_action = request_action (ch_request ch), om_ua = request_ua (ch_request ch),
      om_listing = None, om_clock = None\<rparr>"

datatype challenge_state = Requested | Relayed

record 'ua otp_queue =
  challenges :: "('ua otp_challenge \<times> challenge_state) list"

definition otp_new :: "'ua otp_queue" where
  "otp_new = \<lparr>challenges = []\<rparr>"

text \<open>What a response names: the name, the verb and the address of a request.\<close>

definition request_key :: "'ua request \<Rightarrow> name \<times> action \<times> 'ua" where
  "request_key r = (request_name r, request_action r, request_ua r)"

definition code_taken :: "'ua otp_queue \<Rightarrow> 'ua request \<Rightarrow> otp_code \<Rightarrow> bool" where
  "code_taken q request c =
     list_ex (\<lambda>(ch, _). request_name (ch_request ch) = request_name request \<and>
        request_action (ch_request ch) = request_action request \<and>
        request_ua (ch_request ch) = request_ua request \<and> ch_code ch = c) (challenges q)"

text \<open>\<open>draws\<close>: what \<open>generate\<close> returns, in order. \<open>None\<close>: still drawing, or the deadline
  overflows the clock.\<close>

definition otp_admit ::
  "('ua, 'cm) zenv \<Rightarrow> otp_code list \<Rightarrow> 'ua request \<Rightarrow> timestamp \<Rightarrow> 'ua otp_queue \<Rightarrow> 'ua otp_queue option" where
  "otp_admit E draws request mtp q =
     (if list_ex (\<lambda>(ch, _). ch_request ch = request) (challenges q) then Some q
      else do {
        c \<leftarrow> find (\<lambda>c. \<not> code_taken q request c) draws;
        expires_at \<leftarrow> ts_from_seconds E (mtp + D_OTP);
        Some (q\<lparr>challenges := challenges q @
          [(\<lparr>ch_request = request, ch_code = c, ch_expires_at = expires_at, ch_attempts = 0\<rparr>, Requested)]\<rparr>)
      })"

definition challenge_issued :: "'ua otp_challenge \<Rightarrow> 'ua otp_queue \<Rightarrow> 'ua otp_queue" where
  "challenge_issued relayed q =
     q\<lparr>challenges := map (\<lambda>(ch, st). (ch, if ch_request ch = ch_request relayed then Relayed else st))
        (challenges q)\<rparr>"

definition otp_requested :: "'ua otp_queue \<Rightarrow> 'ua otp_challenge list" where
  "otp_requested q = map fst (filter (\<lambda>(_, st). st = Requested) (challenges q))"

definition otp_expire :: "timestamp \<Rightarrow> 'ua otp_queue \<Rightarrow> 'ua otp_queue" where
  "otp_expire mtp q = q\<lparr>challenges := filter (\<lambda>(ch, _). mtp < ch_expires_at ch) (challenges q)\<rparr>"

definition drop_challenges :: "name \<Rightarrow> 'ua otp_queue \<Rightarrow> 'ua otp_queue" where
  "drop_challenges n q =
     q\<lparr>challenges := filter (\<lambda>(ch, _). request_name (ch_request ch) \<noteq> n) (challenges q)\<rparr>"

definition named_by :: "'ua otp_memo \<Rightarrow> 'ua otp_challenge \<Rightarrow> challenge_state \<Rightarrow> bool" where
  "named_by response ch st \<longleftrightarrow>
     st = Relayed \<and> request_name (ch_request ch) = om_name response \<and>
     request_action (ch_request ch) = om_action response \<and> request_ua (ch_request ch) = om_ua response"

definition otp_complete ::
  "'ua otp_memo \<Rightarrow> 'ua otp_queue \<Rightarrow> 'ua otp_challenge option \<times> 'ua otp_queue" where
  "otp_complete response q =
     (case position (\<lambda>(ch, st). named_by response ch st \<and>
             code_value (ch_code ch) = code_value (om_code response)) (challenges q) of
        Some i \<Rightarrow>
          (case attempt (om_code response) (fst (challenges q ! i)) of
             (correct, ch) \<Rightarrow>
               (if correct then Some ch else None, q\<lparr>challenges := remove_at i (challenges q)\<rparr>))
      | None \<Rightarrow>
          (None, q\<lparr>challenges := retain_mut (\<lambda>(ch, st).
               if \<not> named_by response ch st then ((ch, st), True)
               else (case attempt (om_code response) ch of
                   (correct, ch') \<Rightarrow> ((ch', st), correct \<or> ch_attempts ch' < MAX_ATTEMPTS)))
             (challenges q)\<rparr>))"

definition otp_unrelayed :: "'ua otp_queue \<Rightarrow> name list" where
  "otp_unrelayed q = map (\<lambda>(ch, _). request_name (ch_request ch))
     (filter (\<lambda>(_, st). st = Requested) (challenges q))"

definition otp_relayed :: "'ua otp_queue \<Rightarrow> name list" where
  "otp_relayed q = map (\<lambda>(ch, _). request_name (ch_request ch))
     (filter (\<lambda>(_, st). st = Relayed) (challenges q))"

section \<open>The invariant\<close>

definition code_key :: "'ua otp_challenge \<times> challenge_state \<Rightarrow> (name \<times> action \<times> 'ua) \<times> otp_code" where
  "code_key x = (request_key (ch_request (fst x)), ch_code (fst x))"

definition otp_inv :: "'ua otp_queue \<Rightarrow> bool" where
  "otp_inv q \<longleftrightarrow>
     distinct (map (ch_request \<circ> fst) (challenges q)) \<and>
     distinct (map code_key (challenges q)) \<and>
     (\<forall>(ch, st)\<in>set (challenges q). ch_attempts ch < MAX_ATTEMPTS)"

lemma code_taken_key: "code_taken q r c \<longleftrightarrow> (request_key r, c) \<in> code_key ` set (challenges q)"
  by (force simp: code_taken_def list_ex_iff code_key_def request_key_def)

lemma otp_inv_new: "otp_inv otp_new"
  by (simp add: otp_inv_def otp_new_def)

lemma otp_inv_admit:
  assumes "otp_inv q" and "otp_admit E draws r mtp q = Some q'"
  shows "otp_inv q'"
proof (cases "list_ex (\<lambda>(ch, _). ch_request ch = r) (challenges q)")
  case True
  with assms show ?thesis by (simp add: otp_admit_def)
next
  case False
  with assms(2) obtain c t where c: "find (\<lambda>c. \<not> code_taken q r c) draws = Some c"
    and q': "q' = q\<lparr>challenges := challenges q @
      [(\<lparr>ch_request = r, ch_code = c, ch_expires_at = t, ch_attempts = 0\<rparr>, Requested)]\<rparr>"
    by (auto simp: otp_admit_def Option.bind_eq_Some_conv)
  from c have "\<not> code_taken q r c" by (metis find_Some_iff)
  then have "(request_key r, c) \<notin> code_key ` set (challenges q)" by (simp add: code_taken_key)
  moreover have "r \<notin> (ch_request \<circ> fst) ` set (challenges q)"
    using False by (force simp: list_ex_iff)
  ultimately show ?thesis using assms(1) unfolding q'
    by (simp add: otp_inv_def code_key_def MAX_ATTEMPTS_def)
qed

lemma otp_inv_filter: "otp_inv q \<Longrightarrow> otp_inv (q\<lparr>challenges := filter p (challenges q)\<rparr>)"
  by (auto simp: otp_inv_def distinct_map_filter)

lemma otp_inv_issued: "otp_inv q \<Longrightarrow> otp_inv (challenge_issued ch q)"
proof -
  let ?f = "\<lambda>(c, st). (c, if ch_request c = ch_request ch then Relayed else st)"
  have "map (ch_request \<circ> fst) (map ?f xs) = map (ch_request \<circ> fst) xs"
    and "map code_key (map ?f xs) = map code_key xs"
    for xs :: "('a otp_challenge \<times> challenge_state) list"
    by (auto simp: code_key_def)
  then show "otp_inv q \<Longrightarrow> ?thesis"
    by (auto simp: otp_inv_def challenge_issued_def simp del: map_map)
qed

lemma attempt_same: "ch_request (snd (attempt c ch)) = ch_request ch" "ch_code (snd (attempt c ch)) = ch_code ch"
  by (simp_all add: attempt_def)

text \<open>The closure of \<open>complete\<close>'s \<open>retain_mut\<close>.\<close>

abbreviation count_attempt ::
  "'ua otp_memo \<Rightarrow> 'ua otp_challenge \<times> challenge_state \<Rightarrow> ('ua otp_challenge \<times> challenge_state) \<times> bool" where
  "count_attempt response \<equiv> (\<lambda>(ch, st).
     if \<not> named_by response ch st then ((ch, st), True)
     else (case attempt (om_code response) ch of
         (correct, ch') \<Rightarrow> ((ch', st), correct \<or> ch_attempts ch' < MAX_ATTEMPTS)))"

lemma count_attempt_same:
  "ch_request (fst (fst (count_attempt response x))) = ch_request (fst x)"
  "code_key (fst (count_attempt response x)) = code_key x"
  "snd (fst (count_attempt response x)) = snd x"
  by (cases x; simp add: attempt_def code_key_def)+

lemma otp_inv_complete:
  assumes "otp_inv q"
  shows "otp_inv (snd (otp_complete response q))"
proof (cases "position (\<lambda>(ch, st). named_by response ch st \<and>
    code_value (ch_code ch) = code_value (om_code response)) (challenges q)")
  case None
  have "otp_inv (q\<lparr>challenges := retain_mut (count_attempt response) (challenges q)\<rparr>)"
    using assms unfolding otp_inv_def
    by (auto simp: distinct_retain_mut count_attempt_same set_retain_mut attempt_def comp_def
        split: if_splits)
  with None show ?thesis by (simp add: otp_complete_def)
next
  case (Some i)
  have "otp_inv (q\<lparr>challenges := remove_at i (challenges q)\<rparr>)"
    using assms set_remove_at_subset unfolding otp_inv_def
    by (fastforce simp: distinct_map_remove_at)
  with Some show ?thesis by (simp add: otp_complete_def split: prod.splits)
qed

lemmas otp_inv_ops = otp_inv_new otp_inv_admit otp_inv_filter otp_inv_issued otp_inv_complete

declare otp_inv_ops [wf_intros]

section \<open>What a response does\<close>

lemma otp_complete_Some:
  assumes "otp_complete response q = (Some ch, q')"
  shows "\<exists>i < length (challenges q). challenges q ! i = (ch, Relayed) \<and>
     named_by response ch Relayed \<and> code_value (ch_code ch) = code_value (om_code response) \<and>
     challenges q' = remove_at i (challenges q)"
proof -
  let ?p = "\<lambda>(ch, st). named_by response ch st \<and> code_value (ch_code ch) = code_value (om_code response)"
  from assms obtain i where i: "position ?p (challenges q) = Some i"
    by (cases "position ?p (challenges q)") (auto simp: otp_complete_def)
  then have h: "i < length (challenges q)" "?p (challenges q ! i)"
    using position_less [OF i] position_holds [OF i] by simp_all
  obtain c st where x: "challenges q ! i = (c, st)" by force
  with assms i h show ?thesis
    by (auto simp: otp_complete_def attempt_def named_by_def)
qed

lemma otp_complete_None:
  assumes "otp_complete response q = (None, q')"
  shows "challenges q' = retain_mut (count_attempt response) (challenges q)"
    and "\<And>ch st. (ch, st) \<in> set (challenges q) \<Longrightarrow> named_by response ch st \<Longrightarrow>
           code_value (ch_code ch) \<noteq> code_value (om_code response)"
proof -
  let ?p = "\<lambda>(ch, st). named_by response ch st \<and> code_value (ch_code ch) = code_value (om_code response)"
  have n: "position ?p (challenges q) = None"
  proof (rule ccontr)
    assume "position ?p (challenges q) \<noteq> None"
    then obtain i where i: "position ?p (challenges q) = Some i" by blast
    then have "?p (challenges q ! i)" by (rule position_holds)
    with assms i show False by (auto simp: otp_complete_def attempt_def split: prod.splits)
  qed
  with assms show "challenges q' = retain_mut (count_attempt response) (challenges q)"
    by (auto simp: otp_complete_def)
  show "\<And>ch st. (ch, st) \<in> set (challenges q) \<Longrightarrow> named_by response ch st \<Longrightarrow>
           code_value (ch_code ch) \<noteq> code_value (om_code response)"
    using n by (auto simp: position_None_iff)
qed

section \<open>Guessing\<close>

fun answer_all :: "'ua otp_memo list \<Rightarrow> 'ua otp_queue \<Rightarrow> 'ua otp_challenge option list \<times> 'ua otp_queue" where
  "answer_all [] q = ([], q)"
| "answer_all (r # rs) q =
     (case otp_complete r q of (c, q1) \<Rightarrow> (case answer_all rs q1 of (cs, q2) \<Rightarrow> (c # cs, q2)))"

definition memo_key :: "'ua otp_memo \<Rightarrow> name \<times> action \<times> 'ua" where
  "memo_key m = (om_name m, om_action m, om_ua m)"

lemma named_by_key: "named_by m ch st \<longleftrightarrow> st = Relayed \<and> request_key (ch_request ch) = memo_key m"
  by (auto simp: named_by_def request_key_def memo_key_def)

lemma wrong_answers_counted:
  assumes "\<forall>r\<in>set rs. memo_key r = k" and "answer_all rs q = (cs, q')" and "\<forall>c\<in>set cs. c = None"
    and "\<forall>(ch, st)\<in>set (challenges q). st = Relayed \<longrightarrow> request_key (ch_request ch) = k \<longrightarrow> a \<le> ch_attempts ch"
  shows "\<forall>(ch, st)\<in>set (challenges q'). st = Relayed \<longrightarrow> request_key (ch_request ch) = k \<longrightarrow>
           a + length rs \<le> ch_attempts ch"
  using assms
proof (induction rs arbitrary: q cs a)
  case (Cons r rs)
  obtain c q1 where c: "otp_complete r q = (c, q1)" by force
  obtain cs1 where rest: "answer_all rs q1 = (cs1, q')" and cs: "cs = c # cs1"
    using Cons.prems(2) c by (auto split: prod.splits)
  with Cons.prems(3) c have c0: "otp_complete r q = (None, q1)" by simp
  have "Suc a \<le> ch_attempts ch"
    if in1: "(ch, st) \<in> set (challenges q1)" "st = Relayed" "request_key (ch_request ch) = k" for ch st
  proof -
    from in1(1) obtain x where x: "x \<in> set (challenges q)" "(ch, st) = fst (count_attempt r x)"
      unfolding otp_complete_None(1) [OF c0] set_retain_mut by blast
    obtain ch0 st0 where x0: "x = (ch0, st0)" by force
    have "st0 = Relayed" "request_key (ch_request ch0) = k"
      using count_attempt_same [of r x] x x0 in1 by (metis fst_conv snd_conv)+
    moreover from this have nb: "named_by r ch0 st0"
      using Cons.prems(1) by (simp add: named_by_key)
    ultimately have "a \<le> ch_attempts ch0" "code_value (ch_code ch0) \<noteq> code_value (om_code r)"
      using Cons.prems(4) x x0 otp_complete_None(2) [OF c0] by auto
    then show ?thesis using x x0 nb by (simp add: attempt_def)
  qed
  then have "\<forall>(ch, st)\<in>set (challenges q1). st = Relayed \<longrightarrow> request_key (ch_request ch) = k \<longrightarrow>
      Suc a \<le> ch_attempts ch"
    by blast
  then have "\<forall>(ch, st)\<in>set (challenges q'). st = Relayed \<longrightarrow> request_key (ch_request ch) = k \<longrightarrow>
      Suc a + length rs \<le> ch_attempts ch"
    using Cons.IH [OF _ rest, of "Suc a"] Cons.prems(1,3) cs by simp
  then show ?case by simp
qed simp

lemma otp_inv_answer_all: "otp_inv q \<Longrightarrow> otp_inv (snd (answer_all rs q))"
proof (induction rs arbitrary: q)
  case (Cons r rs)
  then show ?case using otp_inv_complete [OF Cons.prems, of r]
    by (auto split: prod.splits) (metis snd_conv)
qed simp

end
