(* ===== verification/Registry.thy ===== *)
theory Registry
  imports Name_Note_Queue Anchor_Pool Otp
begin

text \<open>
  \<open>src/mint/registry.rs\<close>: confirmed records, per-name histories, listings and the anchor
  pool; the authorization laws and the acceptance of confirmed transitions. The invariant is
  that histories are grouped by name, non-empty and ordered by height, and that the live
  records are exactly the histories' last entries that are not releases.
\<close>

section \<open>Records\<close>

record ('ua, 'cm) name_record =
  nr_name :: name
  nr_action :: action
  nr_ua :: 'ua
  nr_expires_at :: expiry
  nr_commitment :: 'cm
  nr_confirmed_height :: height
  nr_release_deadline :: timestamp
  nr_predecessor_nullifier :: nullifier

definition has_expired :: "('ua, 'cm) name_record \<Rightarrow> timestamp \<Rightarrow> bool" where
  "has_expired rec mtp = expiry_expired (nr_expires_at rec) mtp"

definition is_release_due :: "('ua, 'cm) name_record \<Rightarrow> timestamp \<Rightarrow> bool" where
  "is_release_due rec mtp \<longleftrightarrow> has_expired rec mtp \<or> mtp \<ge> nr_release_deadline rec"

definition record_create ::
  "('ua, 'cm) zenv \<Rightarrow> ('ua, 'cm) name_note \<Rightarrow> nullifier \<Rightarrow> height \<Rightarrow> timestamp \<Rightarrow>
     ('ua, 'cm) name_record may_panic" where
  "record_create E nt spent confirmed_height mtp =
     map_option (\<lambda>deadline.
         \<lparr>nr_name = note_name nt, nr_action = note_action nt, nr_ua = note_ua nt,
          nr_expires_at = (case note_expires_at nt of Some e \<Rightarrow> e | None \<Rightarrow> Never),
          nr_commitment = note_commitment E nt, nr_confirmed_height = confirmed_height,
          nr_release_deadline = deadline, nr_predecessor_nullifier = spent\<rparr>)
       (ts_from_seconds E (mtp + LIVENESS_INTERVAL))"

definition is_challengeable :: "('ua, 'cm) name_record \<Rightarrow> height \<Rightarrow> timestamp \<Rightarrow> bool" where
  "is_challengeable rec trigger_height mtp_now \<longleftrightarrow>
     \<not> is_release_due rec mtp_now \<and> trigger_height > nr_confirmed_height rec"

definition allows_challenge ::
  "('ua, 'cm) name_record \<Rightarrow> 'ua request \<Rightarrow> height \<Rightarrow> timestamp \<Rightarrow> bool" where
  "allows_challenge rec request trigger_height mtp_now =
     (if \<not> is_challengeable rec trigger_height mtp_now then False
      else (case request of
          ReqUpdate _ _ t \<Rightarrow> \<not> (nr_expires_at rec = Never \<and> t \<noteq> None)
        | ReqRelease _ ua \<Rightarrow> ua = nr_ua rec
        | ReqClaim _ _ _ _ \<Rightarrow> False))"

definition record_nullifier ::
  "('ua, 'cm) name_record \<Rightarrow> ('ua, 'cm) name_note \<Rightarrow> nullifier option" where
  "record_nullifier rec nt =
     (if Some (nr_commitment rec) = note_prev_rcm nt then Some (nr_predecessor_nullifier rec) else None)"

section \<open>The registry and its queries\<close>

record ('ua, 'cm) registry =
  records :: "(name, ('ua, 'cm) name_record) btree"
  history :: "(name, ('ua, 'cm) name_record list) btree"
  listings :: "(name, 'ua listing) btree"
  anchors :: anchor_pool

definition registry_new :: "('ua, 'cm) registry" where
  "registry_new = \<lparr>records = [], history = [], listings = [], anchors = pool_default\<rparr>"

definition record_of :: "('ua, 'cm) registry \<Rightarrow> name \<Rightarrow> ('ua, 'cm) name_record option" where
  "record_of r n = bt_get (records r) n"

definition record_history :: "('ua, 'cm) registry \<Rightarrow> name \<Rightarrow> ('ua, 'cm) name_record list" where
  "record_history r n = (case bt_get (history r) n of Some rs \<Rightarrow> rs | None \<Rightarrow> [])"

definition is_available :: "('ua, 'cm) registry \<Rightarrow> name \<Rightarrow> bool" where
  "is_available r n \<longleftrightarrow> record_of r n = None"

definition listing_of :: "('ua, 'cm) registry \<Rightarrow> name \<Rightarrow> 'ua listing option" where
  "listing_of r n = bt_get (listings r) n"

definition registry_price :: "('ua, 'cm) registry \<Rightarrow> name \<Rightarrow> zat option" where
  "registry_price r n =
     (case listing_of r n of
        None \<Rightarrow> None
      | Some l \<Rightarrow> (case l_ask l of Flat price \<Rightarrow> Some price | Dutch _ \<Rightarrow> None))"

definition registry_quote :: "('ua, 'cm) zenv \<Rightarrow> ('ua, 'cm) registry \<Rightarrow> name \<Rightarrow> height \<Rightarrow> zat option" where
  "registry_quote E r n height =
     (case listing_of r n of
        None \<Rightarrow> None
      | Some l \<Rightarrow> (case l_ask l of Flat price \<Rightarrow> Some price | Dutch c \<Rightarrow> price_at E c height))"

definition names_spent_by :: "('ua, 'cm) registry \<Rightarrow> nullifier list \<Rightarrow> name list" where
  "names_spent_by r nfs =
     map fst (filter (\<lambda>(_, rec). nr_predecessor_nullifier rec \<in> set nfs) (records r))"

definition releases_due ::
  "('ua, 'cm) registry \<Rightarrow> timestamp \<Rightarrow> (name \<times> ('ua, 'cm) name_note) list" where
  "releases_due r mtp =
     map (\<lambda>(n, rec). (n, NoteRelease n (nr_ua rec) (nr_commitment rec)))
       (filter (\<lambda>(_, rec). is_release_due rec mtp) (records r))"

definition name_chain :: "('ua, 'cm) registry \<Rightarrow> ('ua, 'cm) name_record list" where
  "name_chain r = map snd (records r)"

definition anchor_pool_live :: "('ua, 'cm) registry \<Rightarrow> nullifier list" where
  "anchor_pool_live r = live (anchors r)"

definition spendable_claim_anchor :: "(nullifier \<Rightarrow> bool) \<Rightarrow> ('ua, 'cm) registry \<Rightarrow> nullifier option" where
  "spendable_claim_anchor spendable r = find spendable (anchor_pool_live r)"

definition anchor_adoption_closed :: "('ua, 'cm) registry \<Rightarrow> bool" where
  "anchor_adoption_closed r = adoption_closed (anchors r)"

section \<open>Listings\<close>

definition restore_listing :: "'ua listing \<Rightarrow> ('ua, 'cm) registry \<Rightarrow> ('ua, 'cm) registry" where
  "restore_listing l r = r\<lparr>listings := bt_insert (l_name l) l (listings r)\<rparr>"

definition remove_listing :: "name \<Rightarrow> ('ua, 'cm) registry \<Rightarrow> bool \<times> ('ua, 'cm) registry" where
  "remove_listing n r = (listing_of r n \<noteq> None, r\<lparr>listings := bt_remove n (listings r)\<rparr>)"

definition clear_listings :: "('ua, 'cm) registry \<Rightarrow> ('ua, 'cm) registry" where
  "clear_listings r = r\<lparr>listings := []\<rparr>"

definition finish_clocks :: "height \<Rightarrow> ('ua, 'cm) registry \<Rightarrow> name list \<times> ('ua, 'cm) registry" where
  "finish_clocks height r =
     (let ended = (\<lambda>l. case l_ask l of Dutch c \<Rightarrow> height > clk_end c | Flat _ \<Rightarrow> False) in
      (map fst (filter (\<lambda>(_, l). ended l) (listings r)),
       r\<lparr>listings := bt_retain (\<lambda>_ l. \<not> ended l) (listings r)\<rparr>))"

definition registry_list ::
  "('ua, 'cm) zenv \<Rightarrow> 'ua listing \<Rightarrow> ('ua, 'cm) registry \<Rightarrow> market_refusal + ('ua, 'cm) registry" where
  "registry_list E l r =
     (case record_of r (l_name l) of
        None \<Rightarrow> Inl NotOwner
      | Some owner \<Rightarrow>
          if \<not> is_owner_listing E (nr_ua owner) (l_ua l) (l_pay_to l) then Inl NotOwner
          else Inr (restore_listing l r))"

definition registry_delist ::
  "name \<Rightarrow> 'ua \<Rightarrow> ('ua, 'cm) registry \<Rightarrow> market_refusal + ('ua, 'cm) registry" where
  "registry_delist n ua r =
     (if (case record_of r n of None \<Rightarrow> True | Some rec \<Rightarrow> nr_ua rec \<noteq> ua) then Inl NotOwner
      else (case remove_listing n r of (removed, r') \<Rightarrow> if removed then Inr r' else Inl NotListed))"

definition reconcile_listings :: "('ua, 'cm) registry \<Rightarrow> name list \<times> ('ua, 'cm) registry" where
  "reconcile_listings r =
     (let is_live = (\<lambda>n l. case bt_get (records r) n of Some rec \<Rightarrow> nr_ua rec = l_ua l | None \<Rightarrow> False) in
      (map fst (filter (\<lambda>(n, l). \<not> is_live n l) (listings r)),
       r\<lparr>listings := bt_retain is_live (listings r)\<rparr>))"

section \<open>Authorization\<close>

definition authorize_claim ::
  "('ua, 'cm) zenv \<Rightarrow> ('ua, 'cm) registry \<Rightarrow> name \<Rightarrow> 'ua \<Rightarrow> reg_term \<Rightarrow> timestamp \<Rightarrow>
     ('ua, 'cm) name_note option" where
  "authorize_claim E r n ua t mtp =
     (if \<not> is_available r n then None
      else map_option (NoteClaim n ua) (claim_expiry E t mtp))"

definition authorize_update ::
  "('ua, 'cm) zenv \<Rightarrow> ('ua, 'cm) registry \<Rightarrow> 'ua otp_challenge \<Rightarrow> timestamp \<Rightarrow>
     ('ua, 'cm) name_note option may_panic" where
  "authorize_update E r pending mtp =
     (case ch_request pending of
        ReqUpdate n ua t \<Rightarrow>
          (case record_of r n of
             None \<Rightarrow> Some None
           | Some rec \<Rightarrow>
               if is_release_due rec mtp then Some None
               else map_option (map_option (\<lambda>e. NoteUpdate n ua e (nr_commitment rec)))
                      (expiry_extend E (nr_expires_at rec) t mtp))
      | _ \<Rightarrow> Some None)"

definition authorize_release ::
  "('ua, 'cm) registry \<Rightarrow> 'ua otp_challenge \<Rightarrow> ('ua, 'cm) name_note option" where
  "authorize_release r pending =
     (case ch_request pending of
        ReqRelease n ua \<Rightarrow>
          (case record_of r n of
             None \<Rightarrow> None
           | Some rec \<Rightarrow> if nr_ua rec \<noteq> ua then None else Some (NoteRelease n ua (nr_commitment rec)))
      | _ \<Rightarrow> None)"

definition sale_transfer ::
  "('ua, 'cm) registry \<Rightarrow> name \<Rightarrow> 'ua \<Rightarrow> expiry \<Rightarrow> 'cm \<Rightarrow> ('ua, 'cm) name_note option" where
  "sale_transfer r n bob expires_at held =
     (case record_of r n of
        None \<Rightarrow> None
      | Some rec \<Rightarrow>
          if nr_commitment rec \<noteq> held then None
          else Some (NoteSale n bob expires_at (nr_commitment rec)))"

definition authorize_challenge ::
  "('ua, 'cm) registry \<Rightarrow> ('ua, 'cm) name_note_queue \<Rightarrow> 'ua request \<Rightarrow> height \<Rightarrow> timestamp \<Rightarrow>
     ('ua, 'cm) name_record option" where
  "authorize_challenge r name_notes request trigger_height mtp_now =
     (case bt_get (records r) (request_name request) of
        None \<Rightarrow> None
      | Some rec \<Rightarrow>
          if note_pending name_notes (request_name request) then None
          else if allows_challenge rec request trigger_height mtp_now then Some rec else None)"

definition challengeable_record ::
  "('ua, 'cm) registry \<Rightarrow> ('ua, 'cm) name_note_queue \<Rightarrow> name \<Rightarrow> height \<Rightarrow> timestamp \<Rightarrow>
     ('ua, 'cm) name_record option" where
  "challengeable_record r name_notes n trigger_height mtp_now =
     (if note_pending name_notes n then None
      else (case bt_get (records r) n of
          None \<Rightarrow> None
        | Some rec \<Rightarrow> if is_challengeable rec trigger_height mtp_now then Some rec else None))"

section \<open>Confirmed transitions\<close>

text \<open>\<open>set_record\<close>; its \<open>debug_assert\<close> on the heights is part of the invariant below.\<close>

definition set_record :: "('ua, 'cm) name_record \<Rightarrow> ('ua, 'cm) registry \<Rightarrow> ('ua, 'cm) registry" where
  "set_record rec r =
     r\<lparr>history := bt_insert (nr_name rec) (record_history r (nr_name rec) @ [rec]) (history r),
       records := if is_release (nr_action rec) then bt_remove (nr_name rec) (records r)
                  else bt_insert (nr_name rec) rec (records r)\<rparr>"

definition mark_released_one :: "height \<Rightarrow> name \<Rightarrow> ('ua, 'cm) registry \<Rightarrow> ('ua, 'cm) registry" where
  "mark_released_one height n r =
     (case record_of r n of
        None \<Rightarrow> r
      | Some rec \<Rightarrow> set_record (rec\<lparr>nr_action := ActRelease, nr_confirmed_height := height\<rparr>) r)"

definition mark_released :: "nullifier list \<Rightarrow> height \<Rightarrow> ('ua, 'cm) registry \<Rightarrow> ('ua, 'cm) registry" where
  "mark_released nfs height r = fold (mark_released_one height) (names_spent_by r nfs) r"

definition registry_retire ::
  "nullifier list \<Rightarrow> nullifier option \<Rightarrow> height \<Rightarrow> ('ua, 'cm) registry \<Rightarrow> ('ua, 'cm) registry" where
  "registry_retire nfs successor height r = r\<lparr>anchors := retire_spent nfs successor height (anchors r)\<rparr>"

definition follow_spends :: "nullifier list \<Rightarrow> height \<Rightarrow> ('ua, 'cm) registry \<Rightarrow> ('ua, 'cm) registry" where
  "follow_spends nfs height r = mark_released nfs height (registry_retire nfs None height r)"

definition adopt_anchor :: "height \<Rightarrow> nullifier \<Rightarrow> ('ua, 'cm) registry \<Rightarrow> ('ua, 'cm) registry" where
  "adopt_anchor height nf r = r\<lparr>anchors := adopt height nf (anchors r)\<rparr>"

definition built_before_release ::
  "('ua, 'cm) zenv \<Rightarrow> ('ua, 'cm) registry \<Rightarrow> name \<Rightarrow> height \<Rightarrow> bool" where
  "built_before_release E r n expiry =
     (let h = record_history r n in
      if h = [] then False
      else
        let latest = last h; released = nr_confirmed_height latest; delta = expiry_delta E released
        in is_release (nr_action latest) \<and> expiry \<le> sat_add_u32 released delta)"

definition accept_claim ::
  "('ua, 'cm) zenv \<Rightarrow> ('ua, 'cm) name_note \<Rightarrow> nullifier \<Rightarrow> nullifier option \<Rightarrow> nullifier list \<Rightarrow>
     height \<Rightarrow> timestamp \<Rightarrow> height \<Rightarrow> ('ua, 'cm) registry \<Rightarrow> (bool \<times> ('ua, 'cm) registry) may_panic" where
  "accept_claim E nt nullifier successor nfs height mtp expiry r =
     (if note_action nt \<noteq> ActClaim then None
      else
        let spent = filter (pool_contains (anchors r)) nfs;
            name_free = record_of r (note_name nt) = None;
            built_after_release = \<not> built_before_release E r (note_name nt) expiry;
            seated = (if length spent = 1 \<and> names_spent_by r nfs = [] \<and> name_free \<and> built_after_release
                      then successor else None);
            r1 = registry_retire nfs seated height r
        in if successor = None \<or> length spent \<noteq> 1 \<or> names_spent_by r1 nfs \<noteq> []
           then Some (False, mark_released nfs height r1)
           else if \<not> name_free then Some (False, r1)
           else if \<not> built_after_release then Some (False, r1)
           else map_option (\<lambda>rec. (True, set_record rec r1)) (record_create E nt nullifier height mtp))"

definition predecessor_spent ::
  "('ua, 'cm) registry \<Rightarrow> ('ua, 'cm) name_note \<Rightarrow> nullifier list \<Rightarrow> ('ua, 'cm) name_record option" where
  "predecessor_spent r nt nfs =
     (let spent = names_spent_by r nfs in
      if spent = [] then None
      else if list_ex (pool_contains (anchors r)) nfs then None
      else if spent \<noteq> [note_name nt] then None
      else record_of r (note_name nt))"

definition release_predecessor ::
  "('ua, 'cm) zenv \<Rightarrow> name \<Rightarrow> ('ua, 'cm) name_record \<Rightarrow> nullifier \<Rightarrow> height \<Rightarrow> timestamp \<Rightarrow>
     ('ua, 'cm) registry \<Rightarrow> ('ua, 'cm) registry may_panic" where
  "release_predecessor E n rec nullifier height mtp r =
     map_option (\<lambda>new. set_record new r)
       (record_create E (NoteRelease n (nr_ua rec) (nr_commitment rec)) nullifier height mtp)"

text \<open>The shared body of \<open>accept_update\<close>, \<open>accept_release\<close> and \<open>accept_sale\<close>, which
  differ in the variant they assert.\<close>

definition accept_successor ::
  "('ua, 'cm) zenv \<Rightarrow> ('ua, 'cm) name_note \<Rightarrow> nullifier \<Rightarrow> nullifier list \<Rightarrow> height \<Rightarrow> timestamp \<Rightarrow>
     ('ua, 'cm) registry \<Rightarrow> (bool \<times> ('ua, 'cm) registry) may_panic" where
  "accept_successor E nt nullifier nfs height mtp r =
     (case predecessor_spent r nt nfs of
        None \<Rightarrow> Some (False, follow_spends nfs height r)
      | Some rec \<Rightarrow>
          if note_prev_rcm nt \<noteq> Some (nr_commitment rec)
          then map_option (Pair False) (release_predecessor E (note_name nt) rec nullifier height mtp r)
          else map_option (\<lambda>new. (True, set_record new r)) (record_create E nt nullifier height mtp))"

definition accept_update ::
  "('ua, 'cm) zenv \<Rightarrow> ('ua, 'cm) name_note \<Rightarrow> nullifier \<Rightarrow> nullifier list \<Rightarrow> height \<Rightarrow> timestamp \<Rightarrow>
     ('ua, 'cm) registry \<Rightarrow> (bool \<times> ('ua, 'cm) registry) may_panic" where
  "accept_update E nt nullifier nfs height mtp r =
     (if note_action nt \<noteq> ActUpdate then None else accept_successor E nt nullifier nfs height mtp r)"

definition accept_release ::
  "('ua, 'cm) zenv \<Rightarrow> ('ua, 'cm) name_note \<Rightarrow> nullifier \<Rightarrow> nullifier list \<Rightarrow> height \<Rightarrow> timestamp \<Rightarrow>
     ('ua, 'cm) registry \<Rightarrow> (bool \<times> ('ua, 'cm) registry) may_panic" where
  "accept_release E nt nullifier nfs height mtp r =
     (if note_action nt \<noteq> ActRelease then None else accept_successor E nt nullifier nfs height mtp r)"

definition accept_sale ::
  "('ua, 'cm) zenv \<Rightarrow> ('ua, 'cm) name_note \<Rightarrow> nullifier \<Rightarrow> nullifier list \<Rightarrow> height \<Rightarrow> timestamp \<Rightarrow>
     ('ua, 'cm) registry \<Rightarrow> (bool \<times> ('ua, 'cm) registry) may_panic" where
  "accept_sale E nt nullifier nfs height mtp r =
     (if note_action nt \<noteq> ActSale then None else accept_successor E nt nullifier nfs height mtp r)"

section \<open>Truncation\<close>

text \<open>The \<open>while\<close> loop that pops the records above \<open>height\<close>.\<close>

definition pop_above :: "height \<Rightarrow> ('ua, 'cm) name_record list \<Rightarrow> ('ua, 'cm) name_record list" where
  "pop_above height rs = rev (dropWhile (\<lambda>rec. nr_confirmed_height rec > height) (rev rs))"

definition truncate_history ::
  "height \<Rightarrow> (name, ('ua, 'cm) name_record list) btree \<Rightarrow> (name, ('ua, 'cm) name_record list) btree" where
  "truncate_history height m =
     filter (\<lambda>(_, rs). rs \<noteq> []) (map (\<lambda>(n, rs). (n, pop_above height rs)) m)"

definition rebuild_records ::
  "(name, ('ua, 'cm) name_record list) btree \<Rightarrow> (name, ('ua, 'cm) name_record) btree" where
  "rebuild_records m =
     fold (\<lambda>(_, rs) acc.
         if rs \<noteq> [] \<and> \<not> is_release (nr_action (last rs))
         then bt_insert (nr_name (last rs)) (last rs) acc else acc) m []"

definition truncate_to_height :: "height \<Rightarrow> ('ua, 'cm) registry \<Rightarrow> ('ua, 'cm) registry" where
  "truncate_to_height height r =
     (let h = truncate_history height (history r) in
      r\<lparr>history := h, records := rebuild_records h, anchors := pool_truncate_to height (anchors r)\<rparr>)"

end
