(* ===== verification/Sale_Queue.thy ===== *)
theory Sale_Queue
  imports Registry
begin

text \<open>
  \<open>SaleQueue\<close> of \<open>src/mint/sale.rs\<close>: open sales, one per name, from the quoted code to the
  payment and the sale note. \<open>payment_is_price_plus_otp\<close> and \<open>payment_total\<close> fail only where
  a six-digit amount is outside the monetary range, which the lemma \<open>otp_amount_total\<close> excludes.
\<close>

section \<open>State\<close>

definition D_DUTCH :: int where
  "D_DUTCH = 600"

datatype phase = Paying otp_code transparent_address zat timestamp bool | Paid

record ('ua, 'cm) sale =
  s_name :: name
  s_bob :: 'ua
  s_alice :: 'ua
  s_held :: 'cm
  s_term :: expiry
  s_dutch :: bool
  s_until :: timestamp
  s_phase :: phase

record ('ua, 'cm) sale_queue =
  sales :: "('ua, 'cm) sale list"

definition sales_new :: "('ua, 'cm) sale_queue" where
  "sales_new = \<lparr>sales = []\<rparr>"

section \<open>Operations\<close>

definition sale_is_open :: "('ua, 'cm) sale_queue \<Rightarrow> name \<Rightarrow> bool" where
  "sale_is_open q n = list_ex (\<lambda>s. s_name s = n) (sales q)"

definition sale_is_paid :: "('ua, 'cm) sale_queue \<Rightarrow> name \<Rightarrow> bool" where
  "sale_is_paid q n = list_ex (\<lambda>s. s_name s = n \<and> s_phase s = Paid) (sales q)"

definition sale_open ::
  "('ua, 'cm) zenv \<Rightarrow> name \<Rightarrow> 'ua \<Rightarrow> 'ua \<Rightarrow> transparent_address \<Rightarrow> zat \<Rightarrow> expiry \<Rightarrow> 'cm \<Rightarrow> otp_code \<Rightarrow>
     bool \<Rightarrow> timestamp \<Rightarrow> ('ua, 'cm) sale_queue \<Rightarrow> ('ua buy_otp \<times> ('ua, 'cm) sale_queue) option" where
  "sale_open E n bob alice pay_to price t held c dutch mtp q =
     (if sale_is_open q n then None
      else
        let window = (if dutch then D_DUTCH else D_OTP) in
        (case ts_from_seconds E (mtp + window) of
           None \<Rightarrow> None
         | Some expires_at \<Rightarrow>
             Some (\<lparr>bo_code = c, bo_name = n, bo_ua = bob,
                    bo_dutch = (if dutch then Some (price, expires_at) else None)\<rparr>,
                   q\<lparr>sales := sales q @
                     [\<lparr>s_name = n, s_bob = bob, s_alice = alice, s_held = held, s_term = t,
                       s_dutch = dutch, s_until = expires_at,
                       s_phase = Paying c pay_to price expires_at False\<rparr>]\<rparr>)))"

definition sale_unrelayed :: "('ua, 'cm) sale_queue \<Rightarrow> 'ua buy_otp list" where
  "sale_unrelayed q =
     List.map_filter (\<lambda>s. case s_phase s of
         Paying c _ price expires_at False \<Rightarrow>
           Some \<lparr>bo_code = c, bo_name = s_name s, bo_ua = s_bob s,
                 bo_dutch = (if s_dutch s then Some (price, expires_at) else None)\<rparr>
       | _ \<Rightarrow> None) (sales q)"

definition sale_names :: "('ua, 'cm) sale_queue \<Rightarrow> name list" where
  "sale_names q = map s_name (sales q)"

text \<open>\<open>None\<close> of \<open>payment_total\<close>'s inner option: the total overflows.\<close>

definition total_of :: "('ua, 'cm) zenv \<Rightarrow> zat \<Rightarrow> otp_code \<Rightarrow> nat option" where
  "total_of E price c = (case payment_total E price c of Some t \<Rightarrow> t | None \<Rightarrow> None)"

definition same_payment ::
  "('ua, 'cm) zenv \<Rightarrow> transparent_address \<Rightarrow> zat \<Rightarrow> otp_code \<Rightarrow> ('ua, 'cm) sale_queue \<Rightarrow> bool" where
  "same_payment E pay_to price c q =
     (case total_of E price c of
        None \<Rightarrow> True
      | Some tot \<Rightarrow>
          list_ex (\<lambda>s. case s_phase s of
              Paying c' addr price' _ _ \<Rightarrow> addr = pay_to \<and> total_of E price' c' = Some tot
            | Paid \<Rightarrow> False) (sales q))"

fun phase_relay :: "phase \<Rightarrow> phase" where
  "phase_relay (Paying c pay_to price expires_at _) = Paying c pay_to price expires_at True"
| "phase_relay Paid = Paid"

definition sale_relayed :: "name \<Rightarrow> ('ua, 'cm) sale_queue \<Rightarrow> ('ua, 'cm) sale_queue" where
  "sale_relayed n q =
     q\<lparr>sales := map (\<lambda>s. if s_name s = n then s\<lparr>s_phase := phase_relay (s_phase s)\<rparr> else s) (sales q)\<rparr>"

definition seal_relayed :: "('ua, 'cm) sale_queue \<Rightarrow> ('ua, 'cm) sale_queue" where
  "seal_relayed q = q\<lparr>sales := map (\<lambda>s. s\<lparr>s_phase := phase_relay (s_phase s)\<rparr>) (sales q)\<rparr>"

text \<open>The payment an unpaid, unexpired sale of a name \<open>alice\<close> still holds takes: the first one
  not taken by an earlier sale.\<close>

definition matching_payment ::
  "('ua, 'cm) zenv \<Rightarrow> (name \<Rightarrow> 'ua option) \<Rightarrow> (transparent_address \<times> zat) list \<Rightarrow> timestamp \<Rightarrow> bool list \<Rightarrow>
     ('ua, 'cm) sale \<Rightarrow> (nat \<times> otp_code) option" where
  "matching_payment E holder payments mtp used s =
     (case s_phase s of
        Paid \<Rightarrow> None
      | Paying c pay_to price expires_at _ \<Rightarrow>
          if mtp \<ge> expires_at then None
          else if holder (s_name s) \<noteq> Some (s_alice s) then None
          else map_option (\<lambda>i. (i, c))
            (position (\<lambda>(index, addr, value). \<not> used ! index \<and> addr = pay_to \<and>
                payment_is_price_plus_otp E value price c = Some True) (enumerate 0 payments)))"

fun observe_loop ::
  "('ua, 'cm) zenv \<Rightarrow> (name \<Rightarrow> 'ua option) \<Rightarrow> (transparent_address \<times> zat) list \<Rightarrow> timestamp \<Rightarrow> bool list \<Rightarrow>
     ('ua, 'cm) sale list \<Rightarrow> ('ua, 'cm) sale list \<times> (name \<times> otp_code) list" where
  "observe_loop E holder payments mtp used [] = ([], [])"
| "observe_loop E holder payments mtp used (s # ss) =
     (case matching_payment E holder payments mtp used s of
        None \<Rightarrow>
          (case observe_loop E holder payments mtp used ss of (ss', paid) \<Rightarrow> (s # ss', paid))
      | Some (i, c) \<Rightarrow>
          (case observe_loop E holder payments mtp (used[i := True]) ss of
             (ss', paid) \<Rightarrow> (s\<lparr>s_phase := Paid\<rparr> # ss', (s_name s, c) # paid)))"

definition sale_observe ::
  "('ua, 'cm) zenv \<Rightarrow> (name \<Rightarrow> 'ua option) \<Rightarrow> (transparent_address \<times> zat) list \<Rightarrow> timestamp \<Rightarrow>
     ('ua, 'cm) sale_queue \<Rightarrow> (name \<times> otp_code) list \<times> ('ua, 'cm) sale_queue" where
  "sale_observe E holder payments mtp q =
     (case observe_loop E holder payments mtp (replicate (length payments) False) (sales q) of
        (ss, paid) \<Rightarrow> (paid, q\<lparr>sales := ss\<rparr>))"

definition sale_get :: "('ua, 'cm) sale_queue \<Rightarrow> name \<Rightarrow> ('ua, 'cm) sale option" where
  "sale_get q n = find (\<lambda>s. s_name s = n) (sales q)"

definition dutch_hold :: "('ua, 'cm) sale_queue \<Rightarrow> name \<Rightarrow> timestamp option" where
  "dutch_hold q n =
     (case sale_get q n of None \<Rightarrow> None | Some s \<Rightarrow> if s_dutch s then Some (s_until s) else None)"

definition sale_restore :: "('ua, 'cm) sale \<Rightarrow> ('ua, 'cm) sale_queue \<Rightarrow> ('ua, 'cm) sale_queue" where
  "sale_restore s q = (if list_ex (\<lambda>x. s_name x = s_name s) (sales q) then q else q\<lparr>sales := sales q @ [s]\<rparr>)"

definition mark_paid :: "name \<Rightarrow> otp_code \<Rightarrow> ('ua, 'cm) sale_queue \<Rightarrow> ('ua, 'cm) sale_queue" where
  "mark_paid n c q =
     q\<lparr>sales := map (\<lambda>s.
         if s_name s = n \<and> (case s_phase s of Paying c' _ _ _ _ \<Rightarrow> c' = c | Paid \<Rightarrow> False)
         then s\<lparr>s_phase := Paid\<rparr> else s) (sales q)\<rparr>"

definition sale_close :: "name \<Rightarrow> ('ua, 'cm) sale_queue \<Rightarrow> ('ua, 'cm) sale_queue" where
  "sale_close n q = q\<lparr>sales := filter (\<lambda>s. s_name s \<noteq> n) (sales q)\<rparr>"

definition sale_lapsed :: "timestamp \<Rightarrow> ('ua, 'cm) sale \<Rightarrow> bool" where
  "sale_lapsed mtp s = (case s_phase s of Paying _ _ _ expires_at _ \<Rightarrow> \<not> mtp < expires_at | Paid \<Rightarrow> False)"

definition sale_expire :: "timestamp \<Rightarrow> ('ua, 'cm) sale_queue \<Rightarrow> name list \<times> ('ua, 'cm) sale_queue" where
  "sale_expire mtp q =
     (map s_name (filter (sale_lapsed mtp) (sales q)),
      q\<lparr>sales := filter (\<lambda>s. \<not> sale_lapsed mtp s) (sales q)\<rparr>)"

definition sale_moved :: "(name \<Rightarrow> ('ua \<times> 'cm) option) \<Rightarrow> ('ua, 'cm) sale \<Rightarrow> bool" where
  "sale_moved held_by s =
     (case held_by (s_name s) of
        Some (ua, commitment) \<Rightarrow> ua \<noteq> s_alice s \<or> commitment \<noteq> s_held s
      | None \<Rightarrow> True)"

definition sale_reconcile ::
  "(name \<Rightarrow> ('ua \<times> 'cm) option) \<Rightarrow> ('ua, 'cm) sale_queue \<Rightarrow> name list \<times> ('ua, 'cm) sale_queue" where
  "sale_reconcile held_by q =
     (map s_name (filter (sale_moved held_by) (sales q)),
      q\<lparr>sales := filter (\<lambda>s. \<not> sale_moved held_by s) (sales q)\<rparr>)"

text \<open>What \<open>poll\<close> does with one sale: the note it signs, and whether it stays.\<close>

definition poll_one ::
  "('ua, 'cm) registry \<Rightarrow> (name \<Rightarrow> bool) \<Rightarrow> ('ua, 'cm) sale \<Rightarrow> ('ua, 'cm) name_note option \<times> bool" where
  "poll_one r pending s =
     (if s_phase s \<noteq> Paid then (None, True)
      else if pending (s_name s) then (None, True)
      else (case record_of r (s_name s) of
          None \<Rightarrow> (None, False)
        | Some rec \<Rightarrow>
            if nr_ua rec = s_bob s \<or> nr_ua rec \<noteq> s_alice s \<or> nr_commitment rec \<noteq> s_held s
            then (None, False)
            else (case sale_transfer r (s_name s) (s_bob s) (s_term s) (s_held s) of
                None \<Rightarrow> (None, False)
              | Some nt \<Rightarrow> (Some nt, True))))"

definition sale_poll ::
  "('ua, 'cm) registry \<Rightarrow> (name \<Rightarrow> bool) \<Rightarrow> ('ua, 'cm) sale_queue \<Rightarrow>
     (('ua, 'cm) name_note list \<times> name list) \<times> ('ua, 'cm) sale_queue" where
  "sale_poll r pending q =
     ((List.map_filter (\<lambda>s. fst (poll_one r pending s)) (sales q),
       map s_name (filter (\<lambda>s. \<not> snd (poll_one r pending s)) (sales q))),
      q\<lparr>sales := filter (\<lambda>s. snd (poll_one r pending s)) (sales q)\<rparr>)"

section \<open>Lemmas\<close>

lemma otp_amount_total: "999999 \<le> max_money E \<Longrightarrow> otp_amount E c \<noteq> None"
proof -
  assume m: "999999 \<le> max_money E"
  have d: "all_digits (otp_digits c)" "length (otp_digits c) = 6"
    using otp_digits_shape by blast+
  then have "undec (otp_digits c) < 1000000" by (rule six_digits_less)
  with m d show ?thesis
    by (auto simp: otp_amount_def parse_upto_def U64_MAX_def zat_from_u64_def)
qed

lemma matching_payment_Some:
  assumes "matching_payment E holder payments mtp used s = Some (i, c)"
  shows "\<exists>pay_to price expires_at relayed. s_phase s = Paying c pay_to price expires_at relayed \<and>
    mtp < expires_at \<and> holder (s_name s) = Some (s_alice s) \<and>
    i < length payments \<and> \<not> used ! i \<and> fst (payments ! i) = pay_to \<and>
    payment_is_price_plus_otp E (snd (payments ! i)) price c = Some True"
proof -
  from assms obtain pay_to price expires_at relayed where p: "s_phase s = Paying c pay_to price expires_at relayed"
    "mtp < expires_at" "holder (s_name s) = Some (s_alice s)"
    and pos: "position (\<lambda>(index, addr, value). \<not> used ! index \<and> addr = pay_to \<and>
        payment_is_price_plus_otp E value price c = Some True) (enumerate 0 payments) = Some i"
    by (auto simp: matching_payment_def split: phase.splits if_splits)
  from position_less [OF pos] position_holds [OF pos] p show ?thesis
    by (auto simp: nth_enumerate_eq split: prod.splits)
qed

lemma observe_names: "map s_name (fst (observe_loop E holder payments mtp used ss)) = map s_name ss"
proof (induction ss arbitrary: used)
  case (Cons s ss)
  show ?case
    using Cons.IH [of used] Cons.IH [of "used[fst (the (matching_payment E holder payments mtp used s)) := True]"]
    by (auto split: option.splits prod.splits)
qed simp

end
