(* ===== verification/Treasury.thy ===== *)
theory Treasury
  imports Requests Rewind "HOL-Library.Multiset"
begin

text \<open>
  \<open>src/mint/treasury/refund.rs\<close> and the request queue and sweep policy of
  \<open>src/mint/treasury.rs\<close>. A fee rule enters through its marginal fee. The two queues are
  stamped logs: each is an instance of the locale \<open>height_log\<close>, from which their rollback
  follows. The transaction builders of \<open>zcash_client_backend\<close> are parameters of the sweep.
\<close>

section \<open>Refunds\<close>

definition FEE_ACTIONS :: nat where
  "FEE_ACTIONS = 100"

definition refund_output :: "('ua, 'cm) zenv \<Rightarrow> zat \<Rightarrow> zat \<Rightarrow> zat option" where
  "refund_output E marginal_fee paid =
     do {
       fee \<leftarrow> zat_mul E marginal_fee FEE_ACTIONS;
       output \<leftarrow> zat_sub paid fee;
       (if output > 0 then Some output else None)
     }"

definition access_code_penalty :: "zat \<Rightarrow> zat" where
  "access_code_penalty price = price div 100"

record 'ua refund_request =
  rf_payment :: txid
  rf_recipient :: 'ua
  rf_amount :: zat
  rf_name :: name
  rf_height :: height
  rf_note :: "string option"

record 'ua refund_queue =
  refunds_due :: "'ua refund_request list"

definition refunds_default :: "'ua refund_queue" where
  "refunds_default = \<lparr>refunds_due = []\<rparr>"

definition refund_admit_with_note ::
  "('ua, 'cm) zenv \<Rightarrow> zat \<Rightarrow> txid \<Rightarrow> 'ua \<Rightarrow> name \<Rightarrow> height \<Rightarrow> zat \<Rightarrow> string option \<Rightarrow>
     'ua refund_queue \<Rightarrow> 'ua refund_queue" where
  "refund_admit_with_note E marginal_fee txid recipient n height refundable sentence q =
     (case refund_output E marginal_fee refundable of
        None \<Rightarrow> q
      | Some amount \<Rightarrow>
          q\<lparr>refunds_due := refunds_due q @
              [\<lparr>rf_payment = txid, rf_recipient = recipient, rf_amount = amount, rf_name = n,
                rf_height = height, rf_note = sentence\<rparr>]\<rparr>)"

definition refund_admit ::
  "('ua, 'cm) zenv \<Rightarrow> zat \<Rightarrow> txid \<Rightarrow> 'ua \<Rightarrow> name \<Rightarrow> height \<Rightarrow> zat \<Rightarrow>
     'ua refund_queue \<Rightarrow> 'ua refund_queue" where
  "refund_admit E marginal_fee txid recipient n height refundable q =
     refund_admit_with_note E marginal_fee txid recipient n height refundable None q"

definition refund_due :: "height \<Rightarrow> 'ua refund_queue \<Rightarrow> 'ua refund_request list" where
  "refund_due tip q = filter (\<lambda>refund. rf_height refund < tip) (refunds_due q)"

definition refund_is_empty :: "'ua refund_queue \<Rightarrow> bool" where
  "refund_is_empty q \<longleftrightarrow> refunds_due q = []"

definition refund_paid :: "'ua refund_request \<Rightarrow> 'ua refund_queue \<Rightarrow> 'ua refund_queue" where
  "refund_paid built q =
     (case position (\<lambda>refund. refund = built) (refunds_due q) of
        Some i \<Rightarrow> q\<lparr>refunds_due := remove_at i (refunds_due q)\<rparr>
      | None \<Rightarrow> q)"

definition refund_truncate_to :: "height \<Rightarrow> 'ua refund_queue \<Rightarrow> 'ua refund_queue" where
  "refund_truncate_to ancestor q =
     q\<lparr>refunds_due := filter (\<lambda>refund. rf_height refund \<le> ancestor) (refunds_due q)\<rparr>"

definition refund_push :: "'ua refund_request \<Rightarrow> 'ua refund_queue \<Rightarrow> 'ua refund_queue" where
  "refund_push e q = q\<lparr>refunds_due := refunds_due q @ [e]\<rparr>"

interpretation refund_log: height_log refunds_due rf_height refund_push refund_truncate_to
  by unfold_locales (auto simp: refund_push_def refund_truncate_to_def)

section \<open>Requests\<close>

record 'ua request_queue =
  queued :: "(txid \<times> 'ua request \<times> zat \<times> height) list"

definition requests_default :: "'ua request_queue" where
  "requests_default = \<lparr>queued = []\<rparr>"

definition request_record :: "txid \<Rightarrow> 'ua request \<Rightarrow> zat \<Rightarrow> height \<Rightarrow> 'ua request_queue \<Rightarrow> 'ua request_queue" where
  "request_record txid request paid height q = q\<lparr>queued := queued q @ [(txid, request, paid, height)]\<rparr>"

definition request_pending :: "'ua request_queue \<Rightarrow> (txid \<times> 'ua request \<times> zat \<times> height) list" where
  "request_pending q = queued q"

definition request_names :: "'ua request_queue \<Rightarrow> name list" where
  "request_names q = map (\<lambda>(_, request, _, _). request_name request) (queued q)"

definition request_resolved :: "txid \<Rightarrow> 'ua request_queue \<Rightarrow> 'ua request_queue" where
  "request_resolved txid q = q\<lparr>queued := filter (\<lambda>(t, _, _, _). t \<noteq> txid) (queued q)\<rparr>"

definition request_truncate_to :: "height \<Rightarrow> 'ua request_queue \<Rightarrow> 'ua request_queue" where
  "request_truncate_to ancestor q =
     q\<lparr>queued := filter (\<lambda>(_, _, _, height). height \<le> ancestor) (queued q)\<rparr>"

definition request_height :: "txid \<times> 'ua request \<times> zat \<times> height \<Rightarrow> height" where
  "request_height e = snd (snd (snd e))"

interpretation request_log: height_log queued request_height
  "\<lambda>(txid, request, paid, height). request_record txid request paid height" request_truncate_to
  by unfold_locales
    (auto simp: request_record_def request_truncate_to_def request_height_def intro!: filter_cong)

text \<open>Deciding every pending request leaves the queue empty, whatever txids they share.\<close>

lemma resolve_all: "queued (fold (\<lambda>(txid, _). request_resolved txid) (request_pending q) q) = []"
proof -
  have "set (queued (fold (\<lambda>(txid, _). request_resolved txid) es q)) =
      {e \<in> set (queued q). fst e \<notin> fst ` set es}" for es :: "(txid \<times> 'a request \<times> zat \<times> height) list" and q
  proof (induction es arbitrary: q)
    case (Cons e es)
    obtain t x where e: "e = (t, x)" by (cases e)
    show ?case using Cons.IH [of "request_resolved t q"] e
      by (force simp: request_resolved_def)
  qed simp
  from this [of "request_pending q" q]
  have "set (queued (fold (\<lambda>(txid, _). request_resolved txid) (request_pending q) q)) = {}"
    by (auto simp: request_pending_def)
  then show ?thesis by simp
qed

section \<open>The vault sweep\<close>

definition SWEEP_MINIMUM :: zat where
  "SWEEP_MINIMUM = 100000000"

definition SWEEP_RESERVE :: zat where
  "SWEEP_RESERVE = 1000000"

datatype 'e build_failure = Balance | Proposal 'e | Transaction 'e

text \<open>What \<open>propose_send_max_transfer\<close> answers: the request's total (a balance error, or an
  amount that may be absent), too little money, or another error.\<close>

datatype 'e send_max = SendMax "unit + zat option" | InsufficientFunds | SendMaxError 'e

definition propose_vault_sweep ::
  "'e send_max \<Rightarrow> (zat \<Rightarrow> 'e + 'proposal) \<Rightarrow> 'e build_failure + 'proposal option" where
  "propose_vault_sweep send_max propose_transfer =
     (case send_max of
        InsufficientFunds \<Rightarrow> Inr None
      | SendMaxError e \<Rightarrow> Inl (Proposal e)
      | SendMax (Inl _) \<Rightarrow> Inl Balance
      | SendMax (Inr tot) \<Rightarrow>
          let sendable = (case tot of Some z \<Rightarrow> z | None \<Rightarrow> 0) in
          (case (case zat_sub sendable SWEEP_RESERVE of
                   Some p \<Rightarrow> if p \<ge> SWEEP_MINIMUM then Some p else None
                 | None \<Rightarrow> None) of
             None \<Rightarrow> Inr None
           | Some payment \<Rightarrow>
               (case propose_transfer payment of Inl e \<Rightarrow> Inl (Proposal e) | Inr p \<Rightarrow> Inr (Some p))))"

text \<open>\<open>create\<close> is \<open>create_proposed_transactions\<close>, \<open>lookup\<close> the wallet's answer for the built
  transaction, whose absence is fatal.\<close>

definition sweep_to_vault ::
  "'e send_max \<Rightarrow> (zat \<Rightarrow> 'e + 'proposal) \<Rightarrow> ('proposal \<Rightarrow> 'e + txid) \<Rightarrow> (txid \<Rightarrow> 'tx option) \<Rightarrow>
     ('e build_failure + 'tx option) may_panic" where
  "sweep_to_vault send_max propose_transfer create lookup =
     (case propose_vault_sweep send_max propose_transfer of
        Inl e \<Rightarrow> Some (Inl e)
      | Inr None \<Rightarrow> Some (Inr None)
      | Inr (Some proposal) \<Rightarrow>
          (case create proposal of
             Inl e \<Rightarrow> Some (Inl (Transaction e))
           | Inr txid \<Rightarrow> map_option (\<lambda>tx. Inr (Some tx)) (lookup txid)))"

section \<open>Lemmas\<close>

lemma refund_output_iff:
  "refund_output E m paid = Some out \<longleftrightarrow>
     m * 100 \<le> max_money E \<and> m * 100 < paid \<and> out = paid - m * 100"
  by (auto simp: refund_output_def zat_defs FEE_ACTIONS_def Option.bind_eq_Some_conv split: if_splits)

lemma refund_truncate_admit:
  "n < height \<Longrightarrow> refund_truncate_to n (refund_admit_with_note E m txid ua nm height z s q) = refund_truncate_to n q"
  by (auto simp: refund_admit_with_note_def refund_truncate_to_def split: option.splits)

lemma mset_remove_at: "i < length xs \<Longrightarrow> mset (remove_at i xs) = mset xs - {#xs ! i#}"
proof -
  assume i: "i < length xs"
  then have "mset xs = mset (remove_at i xs) + {#xs ! i#}"
    using id_take_nth_drop [OF i] by (metis remove_at_def mset_append mset.simps(2) union_mset_add_mset_right
        add_mset_add_single)
  then show ?thesis by simp
qed

end
