(* ===== verification/Market.thy ===== *)
theory Market
  imports Sale_Queue Treasury
begin

text \<open>
  \<open>Market\<close> of \<open>src/mint/sale.rs\<close>: listings (held by the Registry), the buys against them, the
  controller challenges, and the event log a rollback replays. The operations that take the
  Registry by mutable reference return it.
\<close>

section \<open>Challenges\<close>

datatype 'ua challenge_kind = KindList "'ua listing" | KindDelist name 'ua

record 'ua market_challenge =
  mc_kind :: "'ua challenge_kind"
  mc_code :: otp_code
  mc_expires_at :: timestamp
  mc_relayed :: bool
  mc_attempts :: nat

definition mc_name :: "'ua market_challenge \<Rightarrow> name" where
  "mc_name ch = (case mc_kind ch of KindList l \<Rightarrow> l_name l | KindDelist n _ \<Rightarrow> n)"

definition mc_ua :: "'ua market_challenge \<Rightarrow> 'ua" where
  "mc_ua ch = (case mc_kind ch of KindList l \<Rightarrow> l_ua l | KindDelist _ ua \<Rightarrow> ua)"

definition mc_action :: "'ua market_challenge \<Rightarrow> action" where
  "mc_action ch =
     (case mc_kind ch of
        KindList l \<Rightarrow> (case l_ask l of Flat _ \<Rightarrow> ActList | Dutch _ \<Rightarrow> ActAuction)
      | KindDelist _ _ \<Rightarrow> ActDelist)"

definition mc_memo :: "'ua market_challenge \<Rightarrow> 'ua otp_memo" where
  "mc_memo ch =
     (case (case mc_kind ch of
              KindList l \<Rightarrow>
                (case l_ask l of
                   Flat price \<Rightarrow> (Some (l_pay_to l, price), None)
                 | Dutch c \<Rightarrow> (None, Some (l_pay_to l, c)))
            | KindDelist _ _ \<Rightarrow> (None, None)) of
        (listing, c) \<Rightarrow>
          \<lparr>om_code = mc_code ch, om_name = mc_name ch, om_action = mc_action ch, om_ua = mc_ua ch,
           om_listing = listing, om_clock = c\<rparr>)"

definition mc_held_by :: "('ua, 'cm) zenv \<Rightarrow> 'ua market_challenge \<Rightarrow> 'ua \<Rightarrow> bool" where
  "mc_held_by E ch owner =
     (case mc_kind ch of
        KindList l \<Rightarrow> is_owner_listing E owner (l_ua l) (l_pay_to l)
      | KindDelist _ ua \<Rightarrow> ua = owner)"

definition same_list :: "'ua listing \<Rightarrow> 'ua market_challenge \<Rightarrow> bool" where
  "same_list l ch = (case mc_kind ch of KindList held \<Rightarrow> held = l | KindDelist _ _ \<Rightarrow> False)"

definition same_terms :: "'ua otp_memo \<Rightarrow> 'ua market_challenge \<Rightarrow> bool" where
  "same_terms response ch =
     (case mc_kind ch of
        KindList l \<Rightarrow>
          (case l_ask l of
             Flat price \<Rightarrow>
               om_clock response = None \<and>
               (case om_listing response of
                  Some (pay_to, quoted) \<Rightarrow> pay_to = l_pay_to l \<and> quoted = price
                | None \<Rightarrow> False)
           | Dutch c \<Rightarrow>
               (case om_clock response of
                  Some (pay_to, quoted) \<Rightarrow> pay_to = l_pay_to l \<and> quoted = c
                | None \<Rightarrow> False))
      | KindDelist _ _ \<Rightarrow> om_listing response = None \<and> om_clock response = None)"

definition same_delist :: "name \<Rightarrow> 'ua \<Rightarrow> 'ua market_challenge \<Rightarrow> bool" where
  "same_delist n ua ch = (case mc_kind ch of KindDelist held owner \<Rightarrow> held = n \<and> owner = ua | KindList _ \<Rightarrow> False)"

section \<open>The market and its log\<close>

datatype ('ua, 'cm) market_event =
    EvList "'ua listing"
  | EvDelist name
  | EvOpen "('ua, 'cm) sale"
  | EvPaid name otp_code
  | EvExpire name
  | EvClose name
  | EvChallenge "'ua market_challenge"
  | EvChallengeClosed otp_code

record ('ua, 'cm) market =
  m_sales :: "('ua, 'cm) sale_queue"
  m_challenges :: "'ua market_challenge list"
  m_events :: "(height \<times> ('ua, 'cm) market_event) list"

definition market_new :: "('ua, 'cm) market" where
  "market_new = \<lparr>m_sales = sales_new, m_challenges = [], m_events = []\<rparr>"

definition market_names :: "('ua, 'cm) market \<Rightarrow> name list" where
  "market_names m = sale_names (m_sales m)"

definition market_is_open :: "('ua, 'cm) market \<Rightarrow> name \<Rightarrow> bool" where
  "market_is_open m n = sale_is_open (m_sales m) n"

definition market_is_paid :: "('ua, 'cm) market \<Rightarrow> name \<Rightarrow> bool" where
  "market_is_paid m n = sale_is_paid (m_sales m) n"

definition allows_transition :: "('ua, 'cm) market \<Rightarrow> name \<Rightarrow> bool" where
  "allows_transition m n \<longleftrightarrow> \<not> sale_is_open (m_sales m) n"

definition market_unrelayed :: "('ua, 'cm) market \<Rightarrow> 'ua buy_otp list" where
  "market_unrelayed m = sale_unrelayed (m_sales m)"

definition market_relayed :: "name \<Rightarrow> ('ua, 'cm) market \<Rightarrow> ('ua, 'cm) market" where
  "market_relayed n m = m\<lparr>m_sales := sale_relayed n (m_sales m)\<rparr>"

fun event_seal :: "('ua, 'cm) market_event \<Rightarrow> ('ua, 'cm) market_event" where
  "event_seal (EvOpen s) = EvOpen (s\<lparr>s_phase := phase_relay (s_phase s)\<rparr>)"
| "event_seal e = e"

definition seal_replayed_buys :: "('ua, 'cm) market \<Rightarrow> ('ua, 'cm) market" where
  "seal_replayed_buys m =
     m\<lparr>m_sales := seal_relayed (m_sales m), m_events := map (\<lambda>(h, e). (h, event_seal e)) (m_events m)\<rparr>"

definition market_record :: "height \<Rightarrow> ('ua, 'cm) market_event \<Rightarrow> ('ua, 'cm) market \<Rightarrow> ('ua, 'cm) market" where
  "market_record height e m = m\<lparr>m_events := m_events m @ [(height, e)]\<rparr>"

definition market_records :: "height \<Rightarrow> ('ua, 'cm) market_event list \<Rightarrow> ('ua, 'cm) market \<Rightarrow> ('ua, 'cm) market" where
  "market_records height es m = fold (market_record height) es m"

definition code_is_open :: "('ua, 'cm) market \<Rightarrow> otp_code \<Rightarrow> bool" where
  "code_is_open m c = list_ex (\<lambda>ch. mc_code ch = c) (m_challenges m)"

definition push_challenge :: "'ua market_challenge \<Rightarrow> height \<Rightarrow> ('ua, 'cm) market \<Rightarrow> ('ua, 'cm) market" where
  "push_challenge ch height m =
     (let m = market_record height (EvChallenge ch) m in m\<lparr>m_challenges := m_challenges m @ [ch]\<rparr>)"

definition restore_challenge :: "'ua market_challenge \<Rightarrow> ('ua, 'cm) market \<Rightarrow> ('ua, 'cm) market" where
  "restore_challenge ch m =
     (if list_ex (\<lambda>held. mc_code held = mc_code ch) (m_challenges m) then m
      else m\<lparr>m_challenges := m_challenges m @ [ch]\<rparr>)"

definition drop_challenge :: "otp_code \<Rightarrow> ('ua, 'cm) market \<Rightarrow> ('ua, 'cm) market" where
  "drop_challenge c m = m\<lparr>m_challenges := filter (\<lambda>ch. mc_code ch \<noteq> c) (m_challenges m)\<rparr>"

definition close_challenge :: "otp_code \<Rightarrow> height \<Rightarrow> ('ua, 'cm) market \<Rightarrow> ('ua, 'cm) market" where
  "close_challenge c height m = market_record height (EvChallengeClosed c) (drop_challenge c m)"

definition close_challenges :: "otp_code list \<Rightarrow> height \<Rightarrow> ('ua, 'cm) market \<Rightarrow> ('ua, 'cm) market" where
  "close_challenges cs height m = fold (\<lambda>c. close_challenge c height) cs m"

definition close_challenges_for :: "name \<Rightarrow> height \<Rightarrow> ('ua, 'cm) market \<Rightarrow> ('ua, 'cm) market" where
  "close_challenges_for n height m =
     close_challenges (map mc_code (filter (\<lambda>ch. mc_name ch = n) (m_challenges m))) height m"

section \<open>Block operations\<close>

definition market_observe ::
  "('ua, 'cm) zenv \<Rightarrow> (name \<Rightarrow> 'ua option) \<Rightarrow> (transparent_address \<times> zat) list \<Rightarrow> timestamp \<Rightarrow> height \<Rightarrow>
     ('ua, 'cm) market \<Rightarrow> ('ua, 'cm) market" where
  "market_observe E holder payments mtp height m =
     (case sale_observe E holder payments mtp (m_sales m) of
        (paid, q) \<Rightarrow> market_records height (map (\<lambda>(n, c). EvPaid n c) paid) (m\<lparr>m_sales := q\<rparr>))"

definition market_expire ::
  "timestamp \<Rightarrow> height \<Rightarrow> ('ua, 'cm) market \<times> ('ua, 'cm) registry \<Rightarrow> ('ua, 'cm) market \<times> ('ua, 'cm) registry" where
  "market_expire mtp height = (\<lambda>(m, r).
     (case finish_clocks height r of
        (ended, r') \<Rightarrow>
          let m1 = market_records height (map EvDelist ended) m in
          (case sale_expire mtp (m_sales m1) of
             (dropped, q) \<Rightarrow>
               let m2 = market_records height (map EvExpire dropped) (m1\<lparr>m_sales := q\<rparr>);
                   expired = map mc_code (filter (\<lambda>ch. mtp \<ge> mc_expires_at ch) (m_challenges m2))
               in (close_challenges expired height m2, r'))))"

definition live_holder :: "('ua, 'cm) registry \<Rightarrow> name \<Rightarrow> ('ua \<times> 'cm) option" where
  "live_holder r n = map_option (\<lambda>rec. (nr_ua rec, nr_commitment rec)) (record_of r n)"

definition market_reconcile ::
  "height \<Rightarrow> ('ua, 'cm) market \<times> ('ua, 'cm) registry \<Rightarrow> ('ua, 'cm) market \<times> ('ua, 'cm) registry" where
  "market_reconcile height = (\<lambda>(m, r).
     (case reconcile_listings r of
        (lost, r') \<Rightarrow>
          let m1 = market_records height (map EvDelist lost) m;
              stale = map mc_code (filter (\<lambda>ch. case live_holder r' (mc_name ch) of
                          Some (ua, _) \<Rightarrow> ua \<noteq> mc_ua ch | None \<Rightarrow> True) (m_challenges m1));
              m2 = close_challenges stale height m1
          in (case sale_reconcile (live_holder r') (m_sales m2) of
                (closed, q) \<Rightarrow> (market_records height (map EvClose closed) (m2\<lparr>m_sales := q\<rparr>), r'))))"

text \<open>Replaying one event, as the loop of \<open>truncate_to\<close> does.\<close>

fun apply_event ::
  "('ua, 'cm) market_event \<Rightarrow> ('ua, 'cm) market \<times> ('ua, 'cm) registry \<Rightarrow> ('ua, 'cm) market \<times> ('ua, 'cm) registry" where
  "apply_event (EvList l) (m, r) = (m, restore_listing l r)"
| "apply_event (EvDelist n) (m, r) = (m, snd (remove_listing n r))"
| "apply_event (EvOpen s) (m, r) = (m\<lparr>m_sales := sale_restore s (m_sales m)\<rparr>, r)"
| "apply_event (EvPaid n c) (m, r) = (m\<lparr>m_sales := mark_paid n c (m_sales m)\<rparr>, r)"
| "apply_event (EvExpire n) (m, r) = (m\<lparr>m_sales := sale_close n (m_sales m)\<rparr>, r)"
| "apply_event (EvClose n) (m, r) = (m\<lparr>m_sales := sale_close n (m_sales m)\<rparr>, r)"
| "apply_event (EvChallenge ch) (m, r) = (restore_challenge ch m, r)"
| "apply_event (EvChallengeClosed c) (m, r) = (drop_challenge c m, r)"

definition market_truncate_to ::
  "height \<Rightarrow> ('ua, 'cm) market \<times> ('ua, 'cm) registry \<Rightarrow> ('ua, 'cm) market \<times> ('ua, 'cm) registry" where
  "market_truncate_to height = (\<lambda>(m, r).
     let events = filter (\<lambda>(h, _). h \<le> height) (m_events m) in
     (case fold (\<lambda>(_, e). apply_event e) events
             (\<lparr>m_sales = sales_new, m_challenges = [], m_events = []\<rparr>, clear_listings r) of
        (m', r') \<Rightarrow> (m'\<lparr>m_events := events\<rparr>, r')))"

definition market_poll ::
  "('ua, 'cm) registry \<Rightarrow> (name \<Rightarrow> bool) \<Rightarrow> height \<Rightarrow> ('ua, 'cm) market \<Rightarrow>
     ('ua, 'cm) name_note list \<times> ('ua, 'cm) market" where
  "market_poll r pending height m =
     (case sale_poll r pending (m_sales m) of
        ((notes, closed), q) \<Rightarrow>
          (notes, market_records height (map EvClose closed) (m\<lparr>m_sales := q\<rparr>)))"

section \<open>Listing, delisting and buying\<close>

definition market_list ::
  "('ua, 'cm) zenv \<Rightarrow> 'ua listing \<Rightarrow> height \<Rightarrow> ('ua, 'cm) market \<times> ('ua, 'cm) registry \<Rightarrow>
     market_refusal + ('ua, 'cm) market \<times> ('ua, 'cm) registry" where
  "market_list E l height = (\<lambda>(m, r).
     (case clock_ready (l_ask l) height of
        Inl e \<Rightarrow> Inl e
      | Inr _ \<Rightarrow>
          if sale_is_open (m_sales m) (l_name l) then Inl BuyOpen
          else (case registry_list E l r of
              Inl e \<Rightarrow> Inl e
            | Inr r' \<Rightarrow> Inr (market_record height (EvList l) m, r'))))"

definition market_delist ::
  "name \<Rightarrow> 'ua \<Rightarrow> height \<Rightarrow> ('ua, 'cm) market \<times> ('ua, 'cm) registry \<Rightarrow>
     market_refusal + ('ua, 'cm) market \<times> ('ua, 'cm) registry" where
  "market_delist n ua height = (\<lambda>(m, r).
     if sale_is_open (m_sales m) n then Inl BuyOpen
     else (case registry_delist n ua r of
         Inl e \<Rightarrow> Inl e
       | Inr r' \<Rightarrow> Inr (market_record height (EvDelist n) m, r')))"

text \<open>The quote of \<open>open_buy\<close>: address, price, and whether it is a clock price.\<close>

definition buy_quote ::
  "('ua, 'cm) zenv \<Rightarrow> ('ua, 'cm) registry \<Rightarrow> name \<Rightarrow> 'ua \<Rightarrow> height \<Rightarrow>
     market_refusal + transparent_address \<times> zat \<times> bool" where
  "buy_quote E r n owner height =
     (case listing_of r n of
        None \<Rightarrow> Inl NotListed
      | Some l \<Rightarrow>
          if \<not> is_owner_listing E owner (l_ua l) (l_pay_to l) then Inl NotOwner
          else (case l_ask l of
              Flat price \<Rightarrow> Inr (l_pay_to l, price, False)
            | Dutch c \<Rightarrow>
                if height < clk_start c then Inl (Early (clk_start c))
                else (case price_at E c height of
                    None \<Rightarrow> Inl NotListed
                  | Some price \<Rightarrow> Inr (l_pay_to l, price, True))))"

definition open_buy ::
  "('ua, 'cm) zenv \<Rightarrow> ('ua, 'cm) registry \<Rightarrow> name \<Rightarrow> 'ua \<Rightarrow> 'ua \<Rightarrow> expiry \<Rightarrow> 'cm \<Rightarrow> bool \<Rightarrow> bool \<Rightarrow> otp_code \<Rightarrow>
     timestamp \<Rightarrow> height \<Rightarrow> ('ua, 'cm) market \<Rightarrow> (market_refusal + 'ua buy_otp \<times> ('ua, 'cm) market) may_panic" where
  "open_buy E r n bob owner t held release_due in_flight c mtp height m =
     (if sale_is_open (m_sales m) n then
        (case dutch_hold (m_sales m) n of
           Some until \<Rightarrow> Some (Inl (Held until))
         | None \<Rightarrow> Some (Inl AlreadyOpen))
      else (case buy_quote E r n owner height of
          Inl e \<Rightarrow> Some (Inl e)
        | Inr (pay_to, price, dutch) \<Rightarrow>
            if release_due then Some (Inl ReleaseDue)
            else if in_flight then Some (Inl InFlight)
            else if same_payment E pay_to price c (m_sales m) then Some (Inl PaymentTaken)
            else (case sale_open E n bob owner pay_to price t held c dutch mtp (m_sales m) of
                None \<Rightarrow> Some (Inl AlreadyOpen)
              | Some (otp, q) \<Rightarrow>
                  map_option (\<lambda>s. Inr (otp,
                      close_challenges_for n height
                        (market_record height (EvOpen s) (m\<lparr>m_sales := q\<rparr>))))
                    (sale_get q n))))"

definition unrelayed_challenges ::
  "('ua, 'cm) zenv \<Rightarrow> (name \<Rightarrow> 'ua option) \<Rightarrow> ('ua, 'cm) market \<Rightarrow> 'ua otp_memo list" where
  "unrelayed_challenges E owner m =
     map mc_memo
       (filter (\<lambda>ch. case owner (mc_name ch) of Some ua \<Rightarrow> mc_held_by E ch ua | None \<Rightarrow> False)
         (filter (\<lambda>ch. \<not> mc_relayed ch \<and> \<not> sale_is_open (m_sales m) (mc_name ch)) (m_challenges m)))"

definition challenge_relayed :: "otp_code \<Rightarrow> ('ua, 'cm) market \<Rightarrow> ('ua, 'cm) market" where
  "challenge_relayed c m =
     m\<lparr>m_challenges := map (\<lambda>ch. if mc_code ch = c then ch\<lparr>mc_relayed := True\<rparr> else ch) (m_challenges m)\<rparr>"

text \<open>The common end of the two proposals: the code is free, the challenge is pushed; the
  deadline's \<open>expect\<close> is the panic.\<close>

definition push_new_challenge ::
  "('ua, 'cm) zenv \<Rightarrow> 'ua challenge_kind \<Rightarrow> otp_code \<Rightarrow> timestamp \<Rightarrow> height \<Rightarrow> ('ua, 'cm) market \<Rightarrow>
     (market_refusal + ('ua, 'cm) market) may_panic" where
  "push_new_challenge E kind c mtp height m =
     (if code_is_open m c then Some (Inl CodeTaken)
      else map_option (\<lambda>expires_at. Inr (push_challenge
          \<lparr>mc_kind = kind, mc_code = c, mc_expires_at = expires_at, mc_relayed = False, mc_attempts = 0\<rparr>
          height m)) (ts_from_seconds E (mtp + D_OTP)))"

definition propose_list ::
  "('ua, 'cm) zenv \<Rightarrow> 'ua listing \<Rightarrow> 'ua \<Rightarrow> otp_code \<Rightarrow> timestamp \<Rightarrow> height \<Rightarrow> ('ua, 'cm) market \<Rightarrow>
     (market_refusal + ('ua, 'cm) market) may_panic" where
  "propose_list E l owner c mtp height m =
     (case clock_ready (l_ask l) height of
        Inl e \<Rightarrow> Some (Inl e)
      | Inr _ \<Rightarrow>
          if \<not> is_owner_listing E owner (l_ua l) (l_pay_to l) then Some (Inl NotOwner)
          else if sale_is_open (m_sales m) (l_name l) then Some (Inl BuyOpen)
          else if list_ex (same_list l) (m_challenges m) then Some (Inr m)
          else push_new_challenge E (KindList l) c mtp height m)"

definition propose_delist ::
  "('ua, 'cm) zenv \<Rightarrow> ('ua, 'cm) registry \<Rightarrow> name \<Rightarrow> 'ua \<Rightarrow> otp_code \<Rightarrow> timestamp \<Rightarrow> height \<Rightarrow>
     ('ua, 'cm) market \<Rightarrow> (market_refusal + ('ua, 'cm) market) may_panic" where
  "propose_delist E r n ua c mtp height m =
     (if (case record_of r n of None \<Rightarrow> True | Some rec \<Rightarrow> nr_ua rec \<noteq> ua) then Some (Inl NotOwner)
      else if sale_is_open (m_sales m) n then Some (Inl BuyOpen)
      else if listing_of r n = None then Some (Inl NotListed)
      else if list_ex (same_delist n ua) (m_challenges m) then Some (Inr m)
      else push_new_challenge E (KindDelist n ua) c mtp height m)"

section \<open>Answers\<close>

definition answers :: "'ua otp_memo \<Rightarrow> 'ua market_challenge \<Rightarrow> bool" where
  "answers response ch \<longleftrightarrow>
     mc_name ch = om_name response \<and> mc_ua ch = om_ua response \<and> mc_action ch = om_action response"

text \<open>The indices, last first; an index past the end is the panic of the indexing.\<close>

fun count_wrong :: "height \<Rightarrow> nat list \<Rightarrow> ('ua, 'cm) market \<Rightarrow> ('ua, 'cm) market may_panic" where
  "count_wrong height [] m = Some m"
| "count_wrong height (i # is) m =
     (if i \<ge> length (m_challenges m) then None
      else
        let ch = m_challenges m ! i;
            ch' = ch\<lparr>mc_attempts := mc_attempts ch + 1\<rparr>;
            m1 = m\<lparr>m_challenges := (m_challenges m)[i := ch']\<rparr>
        in if mc_attempts ch' \<ge> MAX_ATTEMPTS
           then count_wrong height is (close_challenge (mc_code ch') height m1)
           else count_wrong height is m1)"

text \<open>The right answer: the challenge at index \<open>i\<close> is spent and, unless a buy is open, applied.\<close>

definition answer_hit ::
  "('ua, 'cm) zenv \<Rightarrow> height \<Rightarrow> nat \<Rightarrow> ('ua, 'cm) market \<times> ('ua, 'cm) registry \<Rightarrow>
     ('ua, 'cm) market \<times> ('ua, 'cm) registry" where
  "answer_hit E height i = (\<lambda>(m, r).
     let ch = m_challenges m ! i;
         m1 = market_record height (EvChallengeClosed (mc_code ch))
                (m\<lparr>m_challenges := remove_at i (m_challenges m)\<rparr>)
     in if sale_is_open (m_sales m1) (mc_name ch) then (m1, r)
        else (case (case mc_kind ch of
                      KindList l \<Rightarrow> market_list E l height (m1, r)
                    | KindDelist n ua \<Rightarrow> market_delist n ua height (m1, r)) of
            Inl _ \<Rightarrow> (m1, r)
          | Inr mr \<Rightarrow> mr))"

definition named_indices :: "'ua otp_memo \<Rightarrow> ('ua, 'cm) market \<Rightarrow> nat list" where
  "named_indices response m =
     map fst (filter (\<lambda>(_, ch). answers response ch) (enumerate 0 (m_challenges m)))"

definition right_answer :: "'ua otp_memo \<Rightarrow> ('ua, 'cm) market \<Rightarrow> nat option" where
  "right_answer response m =
     find (\<lambda>i. mc_code (m_challenges m ! i) = om_code response \<and>
               same_terms response (m_challenges m ! i)) (named_indices response m)"

definition market_answer ::
  "('ua, 'cm) zenv \<Rightarrow> 'ua otp_memo \<Rightarrow> height \<Rightarrow> ('ua, 'cm) market \<times> ('ua, 'cm) registry \<Rightarrow>
     (bool \<times> ('ua, 'cm) market \<times> ('ua, 'cm) registry) may_panic" where
  "market_answer E response height = (\<lambda>(m, r).
     if \<not> is_list (om_action response) \<and> \<not> is_delist (om_action response) \<and> \<not> is_auction (om_action response)
     then Some (False, m, r)
     else if named_indices response m = [] then Some (False, m, r)
     else (case right_answer response m of
         Some i \<Rightarrow> Some (True, answer_hit E height i (m, r))
       | None \<Rightarrow> map_option (\<lambda>m'. (False, m', r)) (count_wrong height (rev (named_indices response m)) m)))"

section \<open>Admission\<close>

record 'ua returned_intent =
  ri_recipient :: 'ua
  ri_name :: name
  ri_note :: string

record 'ua admission =
  ad_opened :: "name option"
  ad_returned :: "'ua returned_intent option"

definition admission_none :: "'ua admission" where
  "admission_none = \<lparr>ad_opened = None, ad_returned = None\<rparr>"

definition admission_opened :: "name \<Rightarrow> 'ua admission" where
  "admission_opened n = \<lparr>ad_opened = Some n, ad_returned = None\<rparr>"

definition make_returned_intent :: "name \<Rightarrow> 'ua \<Rightarrow> market_refusal \<Rightarrow> 'ua returned_intent option" where
  "make_returned_intent n bob refusal =
     map_option (\<lambda>sentence. \<lparr>ri_recipient = bob, ri_name = n, ri_note = sentence\<rparr>)
       (case refusal of
          Held until \<Rightarrow> Some (''ZNS:held:'' @ as_str n @ '':'' @ dec_int until)
        | Early start \<Rightarrow> Some (''ZNS:wait:'' @ as_str n @ '':'' @ dec start)
        | _ \<Rightarrow> None)"

definition challenge_code_for ::
  "('ua, 'cm) zenv \<Rightarrow> derivation_key \<Rightarrow> txid \<Rightarrow> 'ua listing \<Rightarrow> otp_code" where
  "challenge_code_for E key txid l =
     (case l_ask l of
        Flat price \<Rightarrow> key_list_otp E key txid (l_name l) price (l_pay_to l)
      | Dutch c \<Rightarrow>
          key_auction_otp E key txid (l_name l)
            \<lparr>bind_start_price = clk_start_price c, bind_min_price = clk_min_price c,
             bind_start = clk_start c, bind_end = clk_end c\<rparr> (l_pay_to l))"

text \<open>What \<open>admit\<close> makes of the outcome of \<open>open_buy\<close>.\<close>

fun buy_admission ::
  "name \<Rightarrow> 'ua \<Rightarrow> ('ua, 'cm) market \<Rightarrow> market_refusal + 'ua buy_otp \<times> ('ua, 'cm) market \<Rightarrow>
     'ua admission \<times> ('ua, 'cm) market" where
  "buy_admission n bob m (Inr (_, m')) = (admission_opened n, m')"
| "buy_admission n bob m (Inl (Held until)) =
     (\<lparr>ad_opened = None, ad_returned = make_returned_intent n bob (Held until)\<rparr>, m)"
| "buy_admission n bob m (Inl (Early start)) =
     (\<lparr>ad_opened = None, ad_returned = make_returned_intent n bob (Early start)\<rparr>, m)"
| "buy_admission n bob m (Inl _) = (admission_none, m)"

definition market_admit ::
  "('ua, 'cm) zenv \<Rightarrow> derivation_key \<Rightarrow> txid \<Rightarrow> 'ua market_request \<Rightarrow> zat \<Rightarrow> ('ua, 'cm) registry \<Rightarrow> zat \<Rightarrow>
     height \<Rightarrow> timestamp \<Rightarrow> (name \<Rightarrow> bool) \<Rightarrow> ('ua, 'cm) market \<Rightarrow> ('ua admission \<times> ('ua, 'cm) market) may_panic" where
  "market_admit E key txid request paid r marginal_fee height mtp pending m =
     (let fee_ok = (case zat_mul E marginal_fee FEE_ACTIONS of Some fee \<Rightarrow> paid \<ge> fee | None \<Rightarrow> False) in
      case request of
        MktList l \<Rightarrow>
          (case record_of r (l_name l) of
             None \<Rightarrow> Some (admission_none, m)
           | Some rec \<Rightarrow>
               if \<not> fee_ok \<or> is_release_due rec mtp \<or> pending (l_name l) then Some (admission_none, m)
               else map_option (\<lambda>res. (admission_none, case res of Inl _ \<Rightarrow> m | Inr m' \<Rightarrow> m'))
                 (propose_list E l (nr_ua rec) (challenge_code_for E key txid l) mtp height m))
      | MktDelist n ua \<Rightarrow>
          if (case record_of r n of None \<Rightarrow> True | Some rec \<Rightarrow> nr_ua rec \<noteq> ua) then Some (admission_none, m)
          else if \<not> fee_ok \<or> pending n then Some (admission_none, m)
          else map_option (\<lambda>res. (admission_none, case res of Inl _ \<Rightarrow> m | Inr m' \<Rightarrow> m'))
            (propose_delist E r n ua (key_delist_otp E key txid n) mtp height m)
      | MktBuy n bob \<Rightarrow>
          (case record_of r n of
             None \<Rightarrow> Some (admission_none, m)
           | Some rec \<Rightarrow>
               if \<not> fee_ok then Some (admission_none, m)
               else map_option (buy_admission n bob m)
                 (open_buy E r n bob (nr_ua rec) (nr_expires_at rec) (nr_commitment rec)
                   (is_release_due rec mtp) (pending n) (key_buy_otp E key txid n) mtp height m)))"

end
