(* ===== verification/Market_Replay.thy ===== *)
theory Market_Replay
  imports Market Rewind
begin

text \<open>
  The market's event log determines its state. The view of a market is what the log records: the
  listings, the sales and the challenges, without the marks of what this process has relayed and
  the count of wrong answers. Every operation appends events whose replay on the old view is the
  new view, so a rollback, which replays a prefix of the log, restores the old view.
\<close>

section \<open>The view\<close>

type_synonym ('ua, 'cm) market_view =
  "(name, 'ua listing) btree \<times> ('ua, 'cm) sale list \<times> 'ua market_challenge list"

fun phase_erase :: "phase \<Rightarrow> phase" where
  "phase_erase (Paying c pay_to price expires_at _) = Paying c pay_to price expires_at False"
| "phase_erase Paid = Paid"

definition sale_erase :: "('ua, 'cm) sale \<Rightarrow> ('ua, 'cm) sale" where
  "sale_erase s = s\<lparr>s_phase := phase_erase (s_phase s)\<rparr>"

definition challenge_erase :: "'ua market_challenge \<Rightarrow> 'ua market_challenge" where
  "challenge_erase ch = ch\<lparr>mc_relayed := False, mc_attempts := 0\<rparr>"

definition market_view :: "('ua, 'cm) market \<times> ('ua, 'cm) registry \<Rightarrow> ('ua, 'cm) market_view" where
  "market_view = (\<lambda>(m, r).
     (listings r, map sale_erase (sales (m_sales m)), map challenge_erase (m_challenges m)))"

definition pay_view :: "name \<Rightarrow> otp_code \<Rightarrow> ('ua, 'cm) sale \<Rightarrow> ('ua, 'cm) sale" where
  "pay_view n c s =
     (if s_name s = n \<and> (case s_phase s of Paying c' _ _ _ _ \<Rightarrow> c' = c | Paid \<Rightarrow> False)
      then s\<lparr>s_phase := Paid\<rparr> else s)"

fun view_event :: "('ua, 'cm) market_event \<Rightarrow> ('ua, 'cm) market_view \<Rightarrow> ('ua, 'cm) market_view" where
  "view_event (EvList l) (L, S, C) = (bt_insert (l_name l) l L, S, C)"
| "view_event (EvDelist n) (L, S, C) = (bt_remove n L, S, C)"
| "view_event (EvOpen s) (L, S, C) =
     (L, if s_name s \<in> s_name ` set S then S else S @ [sale_erase s], C)"
| "view_event (EvPaid n c) (L, S, C) = (L, map (pay_view n c) S, C)"
| "view_event (EvExpire n) (L, S, C) = (L, filter (\<lambda>s. s_name s \<noteq> n) S, C)"
| "view_event (EvClose n) (L, S, C) = (L, filter (\<lambda>s. s_name s \<noteq> n) S, C)"
| "view_event (EvChallenge ch) (L, S, C) =
     (L, S, if mc_code ch \<in> mc_code ` set C then C else C @ [challenge_erase ch])"
| "view_event (EvChallengeClosed c) (L, S, C) = (L, S, filter (\<lambda>ch. mc_code ch \<noteq> c) C)"

definition view_log :: "(height \<times> ('ua, 'cm) market_event) list \<Rightarrow> ('ua, 'cm) market_view" where
  "view_log es = fold (\<lambda>(_, e). view_event e) es ([], [], [])"

definition consistent :: "('ua, 'cm) market \<times> ('ua, 'cm) registry \<Rightarrow> bool" where
  "consistent mr \<longleftrightarrow> market_view mr = view_log (m_events (fst mr))"

text \<open>One name per sale, one code per challenge.\<close>

fun view_ok :: "('ua, 'cm) market_view \<Rightarrow> bool" where
  "view_ok (L, S, C) \<longleftrightarrow> bt_ok L \<and> distinct (map s_name S) \<and> distinct (map mc_code C)"

lemma erase_simps [simp]:
  "s_name (sale_erase s) = s_name s" "mc_code (challenge_erase ch) = mc_code ch"
  "sale_erase (s\<lparr>s_phase := Paid\<rparr>) = (sale_erase s)\<lparr>s_phase := Paid\<rparr>"
  by (simp_all add: sale_erase_def challenge_erase_def)

lemma erase_comp [simp]: "s_name \<circ> sale_erase = s_name" "mc_code \<circ> challenge_erase = mc_code"
  by (simp_all add: fun_eq_iff)

lemma phase_erase_erase [simp]: "phase_erase (phase_erase p) = phase_erase p"
  "phase_erase (phase_relay p) = phase_erase p"
  by (cases p; simp)+

lemma pay_view_name [simp]: "s_name (pay_view n c s) = s_name s"
  by (simp add: pay_view_def)

lemma pay_erase: "sale_erase (pay_view n c s) = pay_view n c (sale_erase s)"
  by (cases "s_phase s") (auto simp: pay_view_def sale_erase_def)

lemma view_apply: "market_view (apply_event e mr) = view_event e (market_view mr)"
proof -
  obtain m r where mr: "mr = (m, r)" by force
  have f: "filter (\<lambda>s. s_name s \<noteq> n) (map sale_erase ss) = map sale_erase (filter (\<lambda>s. s_name s \<noteq> n) ss)"
    for n and ss :: "('a, 'b) sale list" by (simp add: filter_map comp_def)
  have g: "filter (\<lambda>ch. mc_code ch \<noteq> c) (map challenge_erase cs)
      = map challenge_erase (filter (\<lambda>ch. mc_code ch \<noteq> c) cs)"
    for c and cs :: "'a market_challenge list" by (simp add: filter_map comp_def)
  have p: "map sale_erase (sales (mark_paid n c q)) = map (pay_view n c) (map sale_erase (sales q))"
    for n c and q :: "('a, 'b) sale_queue"
    by (simp add: mark_paid_def pay_view_def [symmetric] pay_erase)
  show ?thesis unfolding mr
    using f g p
    by (cases e)
      (auto simp: market_view_def restore_listing_def remove_listing_def sale_restore_def sale_close_def
        restore_challenge_def drop_challenge_def list_ex_iff image_iff dest: sym)
qed

lemma view_fold: "market_view (fold (\<lambda>(_, e). apply_event e) es mr) = fold (\<lambda>(_, e). view_event e) es (market_view mr)"
  by (induction es arbitrary: mr) (auto simp: view_apply)

lemma view_truncate: "market_view (market_truncate_to n (m, r)) = view_log (filter (\<lambda>(h, _). h \<le> n) (m_events m))"
proof -
  let ?es = "filter (\<lambda>(h, _). h \<le> n) (m_events m)"
  let ?z = "(\<lparr>m_sales = sales_new, m_challenges = [], m_events = []\<rparr>, clear_listings r)"
  obtain m' r' where f: "fold (\<lambda>(_, e). apply_event e) ?es ?z = (m', r')" by force
  have "market_view ?z = ([], [], [])" by (simp add: market_view_def sales_new_def clear_listings_def)
  then have "market_view (m', r') = view_log ?es" using view_fold [of ?es ?z] f by (simp add: view_log_def)
  moreover have "market_truncate_to n (m, r) = (m'\<lparr>m_events := ?es\<rparr>, r')"
    using f by (simp add: market_truncate_to_def)
  ultimately show ?thesis by (simp add: market_view_def)
qed

lemma events_truncate: "m_events (fst (market_truncate_to n (m, r))) = filter (\<lambda>(h, _). h \<le> n) (m_events m)"
  by (simp add: market_truncate_to_def Let_def split: prod.splits)

lemma truncate_consistent: "consistent (market_truncate_to n mr)"
proof -
  obtain m r where "mr = (m, r)" by force
  then show ?thesis using view_truncate [of n m r] events_truncate [of n m r] by (simp add: consistent_def)
qed

lemma view_event_ok: "view_ok v \<Longrightarrow> view_ok (view_event e v)"
proof -
  assume ok: "view_ok v"
  obtain L S C where v: "v = (L, S, C)" by (cases v)
  have m: "map s_name (map (pay_view n c) S) = map s_name S" for n c by simp
  show ?thesis using ok unfolding v
    by (cases e) (auto simp: bt.ok_upd bt.ok_del distinct_map_filter m simp del: map_map)
qed

lemma view_log_ok: "view_ok (view_log es)"
proof -
  have "view_ok v \<Longrightarrow> view_ok (fold (\<lambda>(_, e). view_event e) es v)" for v :: "('a, 'b) market_view"
  proof (induction es arbitrary: v)
    case (Cons x es)
    then show ?case using Cons.IH [OF view_event_ok [OF Cons.prems, of "snd x"]]
      by (simp add: case_prod_beta)
  qed simp
  then show ?thesis by (simp add: view_log_def)
qed

lemma consistent_ok: "consistent mr \<Longrightarrow> view_ok (market_view mr)"
  by (simp add: consistent_def view_log_ok)

lemma consistent_distinct:
  assumes "consistent (m, r)"
  shows "distinct (map s_name (sales (m_sales m)))" and "distinct (map mc_code (m_challenges m))"
    and "bt_ok (listings r)"
  using consistent_ok [OF assms] by (simp_all add: market_view_def)

section \<open>Logging\<close>

text \<open>\<open>logs h s s'\<close>: the step from \<open>s\<close> to \<open>s'\<close> appends events of height \<open>h\<close> that account
  for the whole change of the view.\<close>

definition logs ::
  "height \<Rightarrow> ('ua, 'cm) market \<times> ('ua, 'cm) registry \<Rightarrow> ('ua, 'cm) market \<times> ('ua, 'cm) registry \<Rightarrow> bool" where
  "logs h s s' \<longleftrightarrow>
     (\<exists>es. m_events (fst s') = m_events (fst s) @ map (Pair h) es \<and>
        market_view s' = fold view_event es (market_view s))"

lemma logs_same: "m_events (fst s') = m_events (fst s) \<Longrightarrow> market_view s' = market_view s \<Longrightarrow> logs h s s'"
  unfolding logs_def by (rule exI [of _ "[]"]) simp

lemma logs_trans:
  assumes "logs h s s'" and "logs h s' s''"
  shows "logs h s s''"
proof -
  obtain es fs where "m_events (fst s') = m_events (fst s) @ map (Pair h) es"
    "market_view s' = fold view_event es (market_view s)"
    "m_events (fst s'') = m_events (fst s') @ map (Pair h) fs"
    "market_view s'' = fold view_event fs (market_view s')"
    using assms unfolding logs_def by blast
  then show ?thesis unfolding logs_def by (intro exI [of _ "es @ fs"]) simp
qed

lemma logs_intro:
  assumes "m_events (fst s') = m_events (fst s) @ map (Pair h) es"
    and "market_view s' = fold view_event es (market_view s)"
  shows "logs h s s'"
  using assms unfolding logs_def by blast

lemma fold_events_view: "fold (\<lambda>(_, e). view_event e) (map (Pair h) es) v = fold view_event es v"
  by (induction es arbitrary: v) auto

lemma logs_consistent: "logs h s s' \<Longrightarrow> consistent s \<Longrightarrow> consistent s'"
  unfolding logs_def consistent_def view_log_def by (auto simp: fold_events_view)

lemma market_records_simps [simp]:
  "m_events (market_records h es m) = m_events m @ map (Pair h) es"
  "m_sales (market_records h es m) = m_sales m" "m_challenges (market_records h es m) = m_challenges m"
  by (induction es arbitrary: m) (auto simp: market_records_def market_record_def)

lemma market_record_simps [simp]:
  "m_events (market_record h e m) = m_events m @ [(h, e)]"
  "m_sales (market_record h e m) = m_sales m" "m_challenges (market_record h e m) = m_challenges m"
  by (simp_all add: market_record_def)

section \<open>Folding removals\<close>

lemma fold_close: "fold view_event (map EvClose ns) (L, S, C) = (L, filter (\<lambda>s. s_name s \<notin> set ns) S, C)"
  by (induction ns arbitrary: S) (auto intro: filter_cong)

lemma fold_expire: "fold view_event (map EvExpire ns) (L, S, C) = (L, filter (\<lambda>s. s_name s \<notin> set ns) S, C)"
  by (induction ns arbitrary: S) (auto intro: filter_cong)

lemma fold_delist: "fold view_event (map EvDelist ns) (L, S, C) = (filter (\<lambda>e. fst e \<notin> set ns) L, S, C)"
  by (induction ns arbitrary: L) (auto simp: bt_remove_def intro: filter_cong)

lemma fold_paid:
  "fold view_event (map (\<lambda>(n, c). EvPaid n c) ps) (L, S, C) = (L, map (fold (\<lambda>(n, c). pay_view n c) ps) S, C)"
  by (induction ps arbitrary: S) (auto simp: comp_def)

text \<open>With distinct keys, removing by the keys of the hits is removing the hits.\<close>

lemma filter_by_key:
  assumes "distinct (map g xs)"
  shows "filter (\<lambda>x. g x \<notin> set (map g (filter p xs))) xs = filter (\<lambda>x. \<not> p x) xs"
proof (rule filter_cong [OF refl])
  fix x
  assume "x \<in> set xs"
  then show "(g x \<notin> set (map g (filter p xs))) = (\<not> p x)"
    using assms by (auto simp: distinct_map inj_on_def)
qed

end
