(* ===== verification/Market_Laws.thy ===== *)
theory Market_Laws
  imports Market_Replay Demo_Env
begin

text \<open>
  Every market operation is accounted for in the log. The run of the market between rollbacks is a
  step relation, from which follows the rollback; the states the market reaches, over rollbacks and
  restarts too, are an inductive predicate, in which the log determines the book.
\<close>

section \<open>Every operation logs\<close>

lemma logs_close_challenge: "logs h (m, r) (close_challenge c h m, r)"
  by (rule logs_intro [of _ _ _ "[EvChallengeClosed c]"])
    (simp_all add: close_challenge_def drop_challenge_def market_view_def filter_map comp_def)

lemma logs_close_challenges: "logs h (m, r) (close_challenges cs h m, r)"
proof (induction cs arbitrary: m)
  case (Cons c cs)
  have "logs h (close_challenge c h m, r) (close_challenges cs h (close_challenge c h m), r)" by (rule Cons)
  with logs_close_challenge [of h m r c] show ?case
    unfolding close_challenges_def by (simp add: logs_trans)
qed (simp add: close_challenges_def logs_same)

lemma logs_close_for: "logs h (m, r) (close_challenges_for n h m, r)"
  unfolding close_challenges_for_def by (rule logs_close_challenges)

lemma logs_sales_removed:
  assumes "\<And>L S C. fold view_event (map ev ns) (L, S, C) = (L, filter (\<lambda>s. s_name s \<notin> set ns) S, C)"
    and "ns = map s_name (filter p (sales (m_sales m)))" and "distinct (map s_name (sales (m_sales m)))"
  shows "logs h (m, r)
     (market_records h (map ev ns) (m\<lparr>m_sales := (m_sales m)\<lparr>sales := filter (\<lambda>s. \<not> p s) (sales (m_sales m))\<rparr>\<rparr>), r)"
proof (rule logs_intro)
  have "filter (\<lambda>s. s_name s \<notin> set ns) (map sale_erase (sales (m_sales m)))
      = map sale_erase (filter (\<lambda>s. \<not> p s) (sales (m_sales m)))"
    unfolding assms(2) using filter_by_key [OF assms(3), of p] by (simp add: filter_map comp_def)
  then show "market_view (market_records h (map ev ns)
        (m\<lparr>m_sales := (m_sales m)\<lparr>sales := filter (\<lambda>s. \<not> p s) (sales (m_sales m))\<rparr>\<rparr>), r)
      = fold view_event (map ev ns) (market_view (m, r))"
    by (simp add: market_view_def assms(1))
qed simp

lemma logs_listings_removed:
  assumes "ns = map fst (filter (\<lambda>(n, l). p n l) (listings r))" and "bt_ok (listings r)"
  shows "logs h (m, r) (market_records h (map EvDelist ns) m, r\<lparr>listings := bt_retain (\<lambda>n l. \<not> p n l) (listings r)\<rparr>)"
proof (rule logs_intro)
  have "filter (\<lambda>e. fst e \<notin> set ns) (listings r) = bt_retain (\<lambda>n l. \<not> p n l) (listings r)"
    unfolding assms(1) bt_retain_def filter_by_key [OF bt_ok_distinct [OF assms(2)]]
    by (rule filter_cong) auto
  then show "market_view (market_records h (map EvDelist ns) m, r\<lparr>listings := bt_retain (\<lambda>n l. \<not> p n l) (listings r)\<rparr>)
      = fold view_event (map EvDelist ns) (market_view (m, r))"
    by (simp add: market_view_def fold_delist)
qed simp

lemma logs_expire:
  assumes "consistent (m, r)"
  shows "logs h (m, r) (market_expire mtp h (m, r))"
proof -
  let ?p = "\<lambda>(_ :: name) l. case l_ask l of Dutch c \<Rightarrow> h > clk_end c | Flat _ \<Rightarrow> False"
  let ?ended = "map fst (filter (\<lambda>(n, l). ?p n l) (listings r))"
  let ?r = "r\<lparr>listings := bt_retain (\<lambda>n l. \<not> ?p n l) (listings r)\<rparr>"
  let ?m1 = "market_records h (map EvDelist ?ended) m"
  have 1: "logs h (m, r) (?m1, ?r)"
    by (rule logs_listings_removed [OF refl]) (rule consistent_distinct(3) [OF assms])
  let ?dropped = "map s_name (filter (sale_lapsed mtp) (sales (m_sales ?m1)))"
  let ?m2 = "market_records h (map EvExpire ?dropped)
     (?m1\<lparr>m_sales := (m_sales ?m1)\<lparr>sales := filter (\<lambda>s. \<not> sale_lapsed mtp s) (sales (m_sales ?m1))\<rparr>\<rparr>)"
  have 2: "logs h (?m1, ?r) (?m2, ?r)"
    by (rule logs_sales_removed [OF fold_expire refl]) (use consistent_distinct(1) [OF assms] in simp)
  have "market_expire mtp h (m, r) = (close_challenges
      (map mc_code (filter (\<lambda>ch. mtp \<ge> mc_expires_at ch) (m_challenges ?m2))) h ?m2, ?r)"
    by (simp add: market_expire_def finish_clocks_def sale_expire_def Let_def)
  with logs_trans [OF logs_trans [OF 1 2] logs_close_challenges] show ?thesis by metis
qed

lemma logs_reconcile:
  assumes "consistent (m, r)"
  shows "logs h (m, r) (market_reconcile h (m, r))"
proof -
  let ?live = "\<lambda>n l. case bt_get (records r) n of Some rec \<Rightarrow> nr_ua rec = l_ua l | None \<Rightarrow> False"
  let ?lost = "map fst (filter (\<lambda>(n, l). \<not> ?live n l) (listings r))"
  let ?r = "r\<lparr>listings := bt_retain ?live (listings r)\<rparr>"
  let ?m1 = "market_records h (map EvDelist ?lost) m"
  have 1: "logs h (m, r) (?m1, ?r)"
    using logs_listings_removed [of ?lost "\<lambda>n l. \<not> ?live n l" r h m, OF refl consistent_distinct(3) [OF assms]]
    by simp
  define cs where "cs = map mc_code (filter (\<lambda>ch. case live_holder ?r (mc_name ch) of
                          Some (ua, _) \<Rightarrow> ua \<noteq> mc_ua ch | None \<Rightarrow> True) (m_challenges ?m1))"
  let ?m2 = "close_challenges cs h ?m1"
  have 2: "logs h (m, r) (?m2, ?r)" using logs_trans [OF 1 logs_close_challenges] .
  have d: "distinct (map s_name (sales (m_sales ?m2)))"
    by (rule consistent_distinct(1) [OF logs_consistent [OF 2 assms]])
  have "market_reconcile h (m, r) = (market_records h
      (map EvClose (map s_name (filter (sale_moved (live_holder ?r)) (sales (m_sales ?m2)))))
      (?m2\<lparr>m_sales := (m_sales ?m2)\<lparr>sales := filter (\<lambda>s. \<not> sale_moved (live_holder ?r) s) (sales (m_sales ?m2))\<rparr>\<rparr>), ?r)"
    by (simp add: market_reconcile_def reconcile_listings_def sale_reconcile_def Let_def cs_def)
  with logs_trans [OF 2 logs_sales_removed [OF fold_close refl d]] show ?thesis by metis
qed

lemma logs_poll:
  assumes "consistent (m, r)"
  shows "logs h (m, r) (snd (market_poll r pending h m), r)"
proof -
  have "snd (market_poll r pending h m) = market_records h
     (map EvClose (map s_name (filter (\<lambda>s. \<not> snd (poll_one r pending s)) (sales (m_sales m)))))
     (m\<lparr>m_sales := (m_sales m)\<lparr>sales := filter (\<lambda>s. \<not> \<not> snd (poll_one r pending s)) (sales (m_sales m))\<rparr>\<rparr>)"
    by (simp add: market_poll_def sale_poll_def)
  then show ?thesis
    by (simp only: logs_sales_removed [OF fold_close refl consistent_distinct(1) [OF assms]])
qed

text \<open>The payment pass: the events mark exactly the sales it marked.\<close>

lemma fold_pay_other: "s_name s \<notin> fst ` set ps \<Longrightarrow> fold (\<lambda>(n, c). pay_view n c) ps s = s"
  by (induction ps) (auto simp: pay_view_def)

lemma fold_pay_paid: "s_phase s = Paid \<Longrightarrow> fold (\<lambda>(n, c). pay_view n c) ps s = s"
  by (induction ps) (auto simp: pay_view_def)

lemma observe_paid_names:
  "fst ` set (snd (observe_loop E holder payments mtp used ss)) \<subseteq> s_name ` set ss"
proof (induction ss arbitrary: used)
  case (Cons s ss)
  show ?case
    using Cons.IH [of used] Cons.IH [of "used[fst (the (matching_payment E holder payments mtp used s)) := True]"]
    by (fastforce split: option.splits prod.splits)
qed simp

lemma observe_view:
  "distinct (map s_name ss) \<Longrightarrow>
     map sale_erase (fst (observe_loop E holder payments mtp used ss)) =
     map (fold (\<lambda>(n, c). pay_view n c) (snd (observe_loop E holder payments mtp used ss))) (map sale_erase ss)"
proof (induction ss arbitrary: used)
  case (Cons s ss)
  then have d: "distinct (map s_name ss)" "s_name s \<notin> s_name ` set ss" by auto
  show ?case
  proof (cases "matching_payment E holder payments mtp used s")
    case None
    obtain ss' paid where o: "observe_loop E holder payments mtp used ss = (ss', paid)" by force
    have "s_name (sale_erase s) \<notin> fst ` set paid"
      using observe_paid_names [of E holder payments mtp used ss] o d(2) by auto
    with fold_pay_other have "fold (\<lambda>(n, c). pay_view n c) paid (sale_erase s) = sale_erase s" by blast
    with None o Cons.IH [OF d(1), of used] show ?thesis by simp
  next
    case (Some ic)
    obtain i c where ic: "ic = (i, c)" by force
    let ?u = "used[i := True]"
    obtain ss' paid where o: "observe_loop E holder payments mtp ?u ss = (ss', paid)" by force
    obtain pay_to price expires_at rel where ph: "s_phase s = Paying c pay_to price expires_at rel"
      using matching_payment_Some Some ic by blast
    have first: "pay_view (s_name s) c (sale_erase s) = (sale_erase s)\<lparr>s_phase := Paid\<rparr>"
      using ph by (simp add: pay_view_def sale_erase_def)
    have others: "pay_view (s_name s) c x = x" if "x \<in> sale_erase ` set ss" for x
    proof -
      have "s_name x \<noteq> s_name s" using that d(2) by (metis erase_simps(1) imageE imageI)
      then show ?thesis by (simp add: pay_view_def)
    qed
    have "map (fold (\<lambda>(n, c). pay_view n c) ((s_name s, c) # paid)) (map sale_erase ss)
        = map (fold (\<lambda>(n, c). pay_view n c) paid) (map sale_erase ss)"
      using others by auto
    with Some ic o first Cons.IH [OF d(1), of ?u] show ?thesis
      by (simp add: fold_pay_paid)
  qed
qed simp

lemma logs_observe:
  assumes "consistent (m, r)"
  shows "logs h (m, r) (market_observe E holder payments mtp h m, r)"
proof -
  let ?o = "observe_loop E holder payments mtp (replicate (length payments) False) (sales (m_sales m))"
  let ?es = "map (\<lambda>(n, c). EvPaid n c) (snd ?o)"
  have e: "market_observe E holder payments mtp h m
      = market_records h ?es (m\<lparr>m_sales := (m_sales m)\<lparr>sales := fst ?o\<rparr>\<rparr>)"
    by (simp add: market_observe_def sale_observe_def case_prod_beta)
  have "market_view (market_observe E holder payments mtp h m, r)
      = fold view_event ?es (market_view (m, r))"
    unfolding e market_view_def prod.case fold_paid
    using observe_view [OF consistent_distinct(1) [OF assms]] by simp
  then show ?thesis by (rule logs_intro [rotated]) (simp add: e)
qed

lemma logs_list:
  assumes "market_list E l h (m, r) = Inr (m', r')"
  shows "logs h (m, r) (m', r')"
  by (rule logs_intro [of _ _ _ "[EvList l]"])
    (use assms in \<open>auto simp: market_list_def registry_list_def restore_listing_def market_view_def
      split: sum.splits if_splits option.splits\<close>)

lemma logs_delist:
  assumes "market_delist n ua h (m, r) = Inr (m', r')"
  shows "logs h (m, r) (m', r')"
  by (rule logs_intro [of _ _ _ "[EvDelist n]"])
    (use assms in \<open>auto simp: market_delist_def registry_delist_def remove_listing_def market_view_def
      split: sum.splits if_splits option.splits\<close>)

lemma logs_push:
  assumes "push_new_challenge E k c mtp h m = Some (Inr m')"
  shows "logs h (m, r) (m', r)"
proof -
  from assms obtain t where m': "m' = push_challenge
      \<lparr>mc_kind = k, mc_code = c, mc_expires_at = t, mc_relayed = False, mc_attempts = 0\<rparr> h m"
    and free: "c \<notin> mc_code ` set (m_challenges m)"
    by (auto simp: push_new_challenge_def code_is_open_def list_ex_iff image_iff split: if_splits)
  show ?thesis unfolding m'
    by (rule logs_intro [of _ _ _ "[EvChallenge \<lparr>mc_kind = k, mc_code = c, mc_expires_at = t,
        mc_relayed = False, mc_attempts = 0\<rparr>]"])
      (use free in \<open>auto simp: push_challenge_def market_view_def Let_def\<close>)
qed

lemma logs_propose_list: "propose_list E l owner c mtp h m = Some (Inr m') \<Longrightarrow> logs h (m, r) (m', r)"
  by (auto simp: propose_list_def logs_push logs_same split: sum.splits if_splits)

lemma logs_propose_delist: "propose_delist E r0 n ua c mtp h m = Some (Inr m') \<Longrightarrow> logs h (m, r) (m', r)"
  by (auto simp: propose_delist_def logs_push logs_same split: if_splits)

lemma sale_open_Some:
  assumes "sale_open E n bob alice pay_to price t held c dutch mtp q = Some (otp, q')"
  shows "\<exists>s. \<not> sale_is_open q n \<and> q' = q\<lparr>sales := sales q @ [s]\<rparr> \<and> s_name s = n \<and> sale_get q' n = Some s \<and>
    (\<exists>e. s_phase s = Paying c pay_to price e False) \<and> s_alice s = alice \<and> s_bob s = bob \<and> s_held s = held"
proof -
  have f: "find (\<lambda>s. s_name s = n) (xs @ [s]) = Some s" if "\<forall>x\<in>set xs. s_name x \<noteq> n" "s_name s = n"
    for xs and s :: "('a, 'b) sale" using that by (induction xs) auto
  show ?thesis using assms f
    by (auto simp: sale_open_def Let_def sale_is_open_def sale_get_def list_ex_iff split: if_splits option.splits)
qed

lemma logs_open_buy:
  assumes "open_buy E r0 n bob owner t held rd pn c mtp h m = Some (Inr (otp, m'))"
  shows "logs h (m, r) (m', r)"
proof -
  from assms obtain pay_to price dutch q s where
    q: "sale_open E n bob owner pay_to price t held c dutch mtp (m_sales m) = Some (otp, q)"
    and s: "sale_get q n = Some s"
    and m': "m' = close_challenges_for n h (market_record h (EvOpen s) (m\<lparr>m_sales := q\<rparr>))"
    by (auto simp: open_buy_def split: if_splits option.splits sum.splits prod.splits)
  from sale_open_Some [OF q] s have qs: "\<not> sale_is_open (m_sales m) n"
    "q = (m_sales m)\<lparr>sales := sales (m_sales m) @ [s]\<rparr>" "s_name s = n" by auto
  have "logs h (m, r) (market_record h (EvOpen s) (m\<lparr>m_sales := q\<rparr>), r)"
    by (rule logs_intro [of _ _ _ "[EvOpen s]"])
      (use qs in \<open>auto simp: market_view_def sale_is_open_def list_ex_iff\<close>)
  with logs_close_for show ?thesis unfolding m' using logs_trans by blast
qed

lemma logs_count_wrong: "count_wrong h is m = Some m' \<Longrightarrow> logs h (m, r) (m', r)"
proof (induction "is" arbitrary: m)
  case (Cons i "is")
  let ?m1 = "m\<lparr>m_challenges := (m_challenges m)[i := (m_challenges m ! i)\<lparr>mc_attempts := mc_attempts (m_challenges m ! i) + 1\<rparr>]\<rparr>"
  from Cons.prems have i: "i < length (m_challenges m)" by (auto split: if_splits)
  have "map challenge_erase (m_challenges ?m1) = map challenge_erase (m_challenges m)"
    using i by (simp add: map_update challenge_erase_def list_update_id [symmetric] del: list_update_id)
      (metis (no_types, lifting) challenge_erase_def list_update_id nth_map)
  then have 1: "logs h (m, r) (?m1, r)" by (intro logs_same) (simp_all add: market_view_def)
  from Cons.prems i consider "count_wrong h is ?m1 = Some m'"
    | c where "count_wrong h is (close_challenge c h ?m1) = Some m'"
    by (auto simp: Let_def split: if_splits)
  then show ?case
  proof cases
    case 1
    then show ?thesis using Cons.IH logs_trans [OF \<open>logs h (m, r) (?m1, r)\<close>] by blast
  next
    case 2
    then show ?thesis
      using Cons.IH logs_trans [OF logs_trans [OF 1 logs_close_challenge]] by blast
  qed
qed (simp add: logs_same)

lemma position_code:
  assumes "distinct (map g xs)" and "i < length xs"
  shows "remove_at i xs = filter (\<lambda>x. g x \<noteq> g (xs ! i)) xs"
  using assms
proof (induction xs arbitrary: i)
  case (Cons x xs)
  show ?case
  proof (cases i)
    case 0
    have "g y \<noteq> g x" if "y \<in> set xs" for y
      using Cons.prems(1) that by (metis distinct.simps(2) imageI list.set_map list.simps(9))
    then have "filter (\<lambda>y. g y \<noteq> g x) xs = xs" by (intro filter_True) blast
    with 0 show ?thesis by simp
  next
    case (Suc k)
    then have "g x \<noteq> g (xs ! k)" using Cons.prems by auto
    with Suc Cons show ?thesis by simp
  qed
qed simp

lemma right_answer_Some:
  assumes "right_answer response m = Some i"
  shows "i < length (m_challenges m)" and "answers response (m_challenges m ! i)"
    and "mc_code (m_challenges m ! i) = om_code response" and "same_terms response (m_challenges m ! i)"
proof -
  from assms have i: "i \<in> set (named_indices response m)"
    and c: "mc_code (m_challenges m ! i) = om_code response \<and> same_terms response (m_challenges m ! i)"
    unfolding right_answer_def find_Some_iff by (metis nth_mem, metis)
  from i show "i < length (m_challenges m)" "answers response (m_challenges m ! i)"
    by (auto simp: named_indices_def in_set_enumerate_eq)
  from c show "mc_code (m_challenges m ! i) = om_code response" "same_terms response (m_challenges m ! i)"
    by auto
qed

lemma logs_answer_hit:
  assumes c: "consistent (m, r)" and i: "i < length (m_challenges m)"
  shows "logs h (m, r) (answer_hit E h i (m, r))"
proof -
  let ?ch = "m_challenges m ! i"
  let ?m1 = "market_record h (EvChallengeClosed (mc_code ?ch)) (m\<lparr>m_challenges := remove_at i (m_challenges m)\<rparr>)"
  have 1: "logs h (m, r) (?m1, r)"
    by (rule logs_intro [of _ _ _ "[EvChallengeClosed (mc_code ?ch)]"])
      (simp_all add: market_view_def position_code [OF consistent_distinct(2) [OF c] i] filter_map comp_def)
  have "answer_hit E h i (m, r) = (?m1, r) \<or>
      (\<exists>l. market_list E l h (?m1, r) = Inr (answer_hit E h i (m, r))) \<or>
      (\<exists>n ua. market_delist n ua h (?m1, r) = Inr (answer_hit E h i (m, r)))"
    unfolding answer_hit_def Let_def prod.case
    by (auto split: sum.splits challenge_kind.splits)
  with 1 show ?thesis
    using logs_trans [OF 1] logs_list logs_delist by (metis surj_pair)
qed

lemma logs_answer:
  assumes c: "consistent (m, r)" and a: "market_answer E response h (m, r) = Some (b, m', r')"
  shows "logs h (m, r) (m', r')"
proof -
  from a consider (same) "(m', r') = (m, r)"
    | (wrong) "count_wrong h (rev (named_indices response m)) m = Some m'" "r' = r"
    | (hit) i where "right_answer response m = Some i" "(m', r') = answer_hit E h i (m, r)"
    by (auto simp: market_answer_def split: if_splits option.splits)
  then show ?thesis
  proof cases
    case same
    then show ?thesis by (simp add: logs_same)
  next
    case wrong
    then show ?thesis using logs_count_wrong by simp
  next
    case hit
    then show ?thesis using logs_answer_hit [OF c right_answer_Some(1)] by metis
  qed
qed

lemma keep_or_new: "m' = (case res of Inl _ \<Rightarrow> m | Inr x \<Rightarrow> x) \<Longrightarrow> m' = m \<or> res = Inr m'"
  by (cases res) auto

lemma admit_cases:
  assumes "market_admit E key txid request paid r0 fee h mtp pending m = Some (ad, m')"
  shows "m' = m \<or> (\<exists>l owner c. propose_list E l owner c mtp h m = Some (Inr m')) \<or>
    (\<exists>n ua c. propose_delist E r0 n ua c mtp h m = Some (Inr m')) \<or>
    (\<exists>n bob owner t held rd pn c otp. open_buy E r0 n bob owner t held rd pn c mtp h m = Some (Inr (otp, m')))"
proof (cases request)
  case (MktList l)
  show ?thesis
  proof (cases "\<exists>owner z. propose_list E l owner (challenge_code_for E key txid l) mtp h m = Some z \<and>
      m' = (case z of Inl _ \<Rightarrow> m | Inr x \<Rightarrow> x)")
    case True
    then show ?thesis using keep_or_new by metis
  next
    case False
    with assms MktList have "m' = m"
      by (auto simp: market_admit_def Let_def split: option.splits if_splits)
    then show ?thesis by blast
  qed
next
  case (MktDelist n ua)
  show ?thesis
  proof (cases "\<exists>z. propose_delist E r0 n ua (key_delist_otp E key txid n) mtp h m = Some z \<and>
      m' = (case z of Inl _ \<Rightarrow> m | Inr x \<Rightarrow> x)")
    case True
    then show ?thesis using keep_or_new by metis
  next
    case False
    with assms MktDelist have "m' = m"
      by (auto simp: market_admit_def Let_def split: option.splits if_splits)
    then show ?thesis by blast
  qed
next
  case (MktBuy n bob)
  have keep: "snd (buy_admission n bob m z) = m \<or> (\<exists>otp. z = Inr (otp, snd (buy_admission n bob m z)))"
    for z by (cases "(n, bob, m, z)" rule: buy_admission.cases) auto
  show ?thesis
  proof (cases "\<exists>owner t held rd pn c z. open_buy E r0 n bob owner t held rd pn c mtp h m = Some z \<and>
      m' = snd (buy_admission n bob m z)")
    case True
    then show ?thesis using keep by metis
  next
    case False
    with assms MktBuy have "m' = m"
      by (auto simp: market_admit_def Let_def split: option.splits if_splits) (metis snd_conv)+
    then show ?thesis by blast
  qed
qed

lemma logs_admit:
  assumes "market_admit E key txid request paid r0 fee h mtp pending m = Some (ad, m')"
  shows "logs h (m, r) (m', r)"
  using admit_cases [OF assms] logs_propose_list logs_propose_delist logs_open_buy
  by (auto simp: logs_same)

section \<open>The run of the market\<close>

text \<open>One step at height \<open>h\<close>: any public operation of the market that changes it, or a change of the
  Registry that leaves the listings alone (the confirmation of name notes). A rollback and the
  sealing of a boot are the steps of \<open>market_reach\<close> below.\<close>

inductive market_step ::
  "('ua, 'cm) zenv \<Rightarrow> height \<Rightarrow> ('ua, 'cm) market \<times> ('ua, 'cm) registry \<Rightarrow>
     ('ua, 'cm) market \<times> ('ua, 'cm) registry \<Rightarrow> bool" for E h where
  observe: "market_step E h (m, r) (market_observe E holder payments mtp h m, r)"
| expire: "market_step E h (m, r) (market_expire mtp h (m, r))"
| reconcile: "market_step E h (m, r) (market_reconcile h (m, r))"
| poll: "market_step E h (m, r) (snd (market_poll r pending h m), r)"
| admit: "market_admit E key txid request paid r fee h mtp pending m = Some (ad, m') \<Longrightarrow>
    market_step E h (m, r) (m', r)"
| answer: "market_answer E response h (m, r) = Some (b, mr) \<Longrightarrow> market_step E h (m, r) mr"
| list: "market_list E l h (m, r) = Inr mr \<Longrightarrow> market_step E h (m, r) mr"
| delist: "market_delist n ua h (m, r) = Inr mr \<Longrightarrow> market_step E h (m, r) mr"
| buy: "open_buy E r n bob owner t held release_due in_flight c mtp h m = Some (Inr (otp, m')) \<Longrightarrow>
    market_step E h (m, r) (m', r)"
| propose_list: "propose_list E l owner c mtp h m = Some (Inr m') \<Longrightarrow> market_step E h (m, r) (m', r)"
| propose_delist: "propose_delist E r n ua c mtp h m = Some (Inr m') \<Longrightarrow> market_step E h (m, r) (m', r)"
| relayed: "market_step E h (m, r) (market_relayed n m, r)"
| challenge_relayed: "market_step E h (m, r) (challenge_relayed c m, r)"
| registry: "listings r' = listings r \<Longrightarrow> market_step E h (m, r) (m, r')"

lemma view_relayed: "market_view (market_relayed n m, r) = market_view (m, r)"
proof -
  have "sale_erase (s\<lparr>s_phase := phase_relay (s_phase s)\<rparr>) = sale_erase s" for s :: "('a, 'b) sale"
    by (simp add: sale_erase_def)
  then show ?thesis by (auto simp: market_view_def market_relayed_def sale_relayed_def)
qed

lemma view_challenge_relayed: "market_view (challenge_relayed c m, r) = market_view (m, r)"
  by (auto simp: market_view_def challenge_relayed_def challenge_erase_def)

lemma step_logs: "market_step E h s s' \<Longrightarrow> consistent s \<Longrightarrow> logs h s s'"
proof (induction rule: market_step.induct)
  case (answer response m r b mr)
  then show ?case using logs_answer by (cases mr) blast
next
  case (list l m r mr)
  then show ?case using logs_list by (metis surj_pair)
next
  case (delist n ua m r mr)
  then show ?case using logs_delist by (metis surj_pair)
next
  case (relayed m r n)
  then show ?case by (intro logs_same) (simp_all add: view_relayed, simp add: market_relayed_def)
next
  case (challenge_relayed m r c)
  then show ?case by (intro logs_same) (simp_all add: view_challenge_relayed, simp add: challenge_relayed_def)
next
  case (registry r' r m)
  then show ?case by (intro logs_same) (simp_all add: market_view_def)
qed (auto intro: logs_observe logs_expire logs_reconcile logs_poll logs_admit logs_open_buy logs_propose_list logs_propose_delist)

text \<open>A run between rollbacks: steps at heights that satisfy \<open>P\<close>.\<close>

inductive market_run ::
  "('ua, 'cm) zenv \<Rightarrow> (height \<Rightarrow> bool) \<Rightarrow> ('ua, 'cm) market \<times> ('ua, 'cm) registry \<Rightarrow>
     ('ua, 'cm) market \<times> ('ua, 'cm) registry \<Rightarrow> bool" for E P where
  refl: "market_run E P s s"
| step: "market_run E P s s' \<Longrightarrow> P h \<Longrightarrow> market_step E h s' s'' \<Longrightarrow> market_run E P s s''"

lemma run_consistent: "market_run E P s s' \<Longrightarrow> consistent s \<Longrightarrow> consistent s'"
  by (induction rule: market_run.induct) (auto intro: step_logs logs_consistent)

lemma run_events:
  assumes "market_run E (\<lambda>h. n < h) s s'" and "consistent s"
  shows "filter (\<lambda>(h, _). h \<le> n) (m_events (fst s')) = filter (\<lambda>(h, _). h \<le> n) (m_events (fst s))"
  using assms
proof (induction rule: market_run.induct)
  case (step s s' h s'')
  then have "logs h s' s''" using run_consistent step_logs by blast
  then show ?case using step by (auto simp: logs_def filter_empty_conv)
qed simp

lemma consistent_new: "listings r = [] \<Longrightarrow> consistent (market_new, r)"
  by (simp add: consistent_def market_view_def market_new_def sales_new_def view_log_def)

text \<open>C12: A market rollback restores the book: after any sequence of operations at heights above
  \<open>n\<close> (payments, expiries, listings, buys, answers, relays, name notes), truncating to \<open>n\<close> gives
  back the listings, the open sales and the open challenges of the state they started from, up
  to the marks of what was relayed and the count of wrong answers.\<close>

theorem market_rollback:
  assumes "consistent s" and "\<forall>x. x \<in> set (m_events (fst s)) \<longrightarrow> fst x \<le> n"
    and "market_run E (\<lambda>h. n < h) s s'"
  shows "market_view (market_truncate_to n s') = market_view s"
proof -
  obtain m' r' where s': "s' = (m', r')" by force
  have "filter (\<lambda>(h, _). h \<le> n) (m_events (fst s)) = m_events (fst s)"
    using assms(2) by (auto simp: filter_id_conv)
  with run_events [OF assms(3,1)] view_truncate [of n m' r'] s' assms(1) show ?thesis
    by (simp add: consistent_def)
qed

abbreviation demo_sale :: "(string, bytes) sale" where
  "demo_sale \<equiv> \<lparr>s_name = demo_alice, s_bob = ''u1xyz'', s_alice = ''u1abc'', s_held = demo_prev, s_term = Never,
     s_dutch = False, s_until = 2000, s_phase = Paying (OtpCode 123456) (PublicKeyHash ''abc'') 500000000 2000 False\<rparr>"

abbreviation demo_market :: "(string, bytes) market" where
  "demo_market \<equiv> \<lparr>m_sales = \<lparr>sales = [demo_sale]\<rparr>, m_challenges = [], m_events = [(5, EvOpen demo_sale)]\<rparr>"

lemma demo_market_consistent: "consistent (demo_market, registry_new)"
  by (simp add: consistent_def market_view_def view_log_def registry_new_def sale_erase_def)

theorem market_rollback_witness:
  "market_view (market_truncate_to 5 (market_expire 3000 9 (demo_market, registry_new)))
     = market_view (demo_market, registry_new) \<and>
   m_sales (fst (market_expire 3000 9 (demo_market, registry_new))) = \<lparr>sales = []\<rparr>"
proof -
  have e: "\<forall>x. x \<in> set (m_events (fst (demo_market, registry_new :: (string, bytes) registry))) \<longrightarrow> fst x \<le> 5"
    by simp
  have "market_run demo_env (\<lambda>h. 5 < h) (demo_market, registry_new) (market_expire 3000 9 (demo_market, registry_new))"
    by (rule market_run.step [OF market_run.refl _ market_step.expire]) simp
  from market_rollback [OF demo_market_consistent e this] show ?thesis
    by (simp add: market_expire_def finish_clocks_def sale_expire_def sale_lapsed_def Let_def registry_new_def
        close_challenges_def)
qed

section \<open>The states the market reaches\<close>

text \<open>Sealing marks every buy as relayed, in the book and in the log, and changes nothing else that
  a replay restores.\<close>

lemma seal_view_event: "view_event (event_seal e) v = view_event e v"
proof -
  have "sale_erase (s\<lparr>s_phase := phase_relay (s_phase s)\<rparr>) = sale_erase s" for s :: "('a, 'b) sale"
    by (simp add: sale_erase_def)
  then show ?thesis by (cases e; cases v) simp_all
qed

lemma seal_view_log: "view_log (map (\<lambda>(h, e). (h, event_seal e)) es) = view_log es"
proof -
  have "fold (\<lambda>(_, e). view_event e) (map (\<lambda>(h, e). (h, event_seal e)) es) v = fold (\<lambda>(_, e). view_event e) es v"
    for v :: "('a, 'b) market_view"
    by (induction es arbitrary: v) (auto simp: seal_view_event)
  then show ?thesis by (simp add: view_log_def)
qed

lemma seal_view: "market_view (seal_replayed_buys m, r) = market_view (m, r)"
proof -
  have "sale_erase \<circ> (\<lambda>s. s\<lparr>s_phase := phase_relay (s_phase s)\<rparr>) = (sale_erase :: ('a, 'b) sale \<Rightarrow> _)"
    by (simp add: fun_eq_iff sale_erase_def)
  then show ?thesis by (simp add: market_view_def seal_replayed_buys_def seal_relayed_def)
qed

lemma seal_events: "m_events (seal_replayed_buys m) = map (\<lambda>(h, e). (h, event_seal e)) (m_events m)"
  by (simp add: seal_replayed_buys_def)

lemma seal_consistent: "consistent (m, r) \<Longrightarrow> consistent (seal_replayed_buys m, r)"
  by (simp add: consistent_def seal_view seal_events seal_view_log)

text \<open>\<open>market_reach E h s\<close>: the market and the Registry can be \<open>s\<close> with every block up to \<open>h\<close> applied. It
  starts empty; an operation is at the current height or above; a reorg truncates to any height, over
  whatever Registry its own truncation left; a boot seals what it replayed.\<close>

inductive market_reach ::
  "('ua, 'cm) zenv \<Rightarrow> height \<Rightarrow> ('ua, 'cm) market \<times> ('ua, 'cm) registry \<Rightarrow> bool" for E where
  new: "listings r = [] \<Longrightarrow> market_reach E h (market_new, r)"
| step: "market_reach E h s \<Longrightarrow> h \<le> h' \<Longrightarrow> market_step E h' s s' \<Longrightarrow> market_reach E h' s'"
| truncate: "market_reach E h (m, r) \<Longrightarrow> market_reach E n (market_truncate_to n (m, r'))"
| seal: "market_reach E h (m, r) \<Longrightarrow> market_reach E h (seal_replayed_buys m, r)"

text \<open>In all of them the log determines the book and is in chain order.\<close>

lemma reach_log:
  "market_reach E h s \<Longrightarrow>
     consistent s \<and> sorted (map fst (m_events (fst s))) \<and> (\<forall>x\<in>set (m_events (fst s)). fst x \<le> h)"
proof (induction rule: market_reach.induct)
  case (new r h)
  then show ?case using consistent_new [OF new] by (simp add: market_new_def)
next
  case (step h s h' s')
  then have l: "logs h' s s'" using step_logs by blast
  then obtain es where es: "m_events (fst s') = m_events (fst s) @ map (Pair h') es" by (auto simp: logs_def)
  have "consistent s'" using logs_consistent [OF l] step.IH by blast
  moreover have "sorted (map fst (map (Pair h') es))" by (induction es) (simp_all add: image_iff)
  ultimately show ?case using es step.IH step.hyps(2) by (fastforce simp: sorted_append)
next
  case (truncate h m r n r')
  then show ?case
    using truncate_consistent [of n "(m, r')"] by (simp add: events_truncate sorted_filter)
next
  case (seal h m r)
  have "map fst (m_events (seal_replayed_buys m)) = map fst (m_events m)" by (simp add: seal_events comp_def case_prod_beta)
  moreover have "\<forall>x\<in>set (m_events (seal_replayed_buys m)). fst x \<le> h" using seal.IH by (auto simp: seal_events)
  ultimately show ?case using seal.IH seal_consistent by (metis fst_conv)
qed

lemma sorted_prefix:
  "sorted (map fst xs) \<Longrightarrow> filter (\<lambda>(k, _). k \<le> n) xs = takeWhile (\<lambda>(k, _). k \<le> n) xs" for n :: height
proof (induction xs)
  case (Cons x xs)
  show ?case
  proof (cases "fst x \<le> n")
    case True
    then show ?thesis using Cons by (simp add: case_prod_beta)
  next
    case False
    then have "\<not> fst y \<le> n" if "y \<in> set xs" for y using Cons.prems that by (force dest: order_trans)
    with False show ?thesis by (simp add: case_prod_beta filter_empty_conv)
  qed
qed simp

text \<open>C32: The market is its log. In every state it reaches, over rollbacks and restarts, its listings, sales
  and challenges are what replaying its events gives, up to the relay marks and the count of wrong
  answers, and the events are in chain order. Each kind of transition is one on the log: an operation
  appends events of its height that account for the whole change of the book; a truncation to \<open>n\<close>,
  over any Registry, leaves the events up to \<open>n\<close>, which are a prefix, and the book they replay to; a
  boot's sealing leaves the book. So no two open challenges ever share a code, and no name has two
  sales.\<close>

theorem market_log_complete:
  assumes "market_reach E h (m, r)"
  shows "market_view (m, r) = view_log (m_events m) \<and>
    sorted (map fst (m_events m)) \<and> (\<forall>x\<in>set (m_events m). fst x \<le> h) \<and>
    (\<forall>h' s'. market_step E h' (m, r) s' \<longrightarrow>
       (\<exists>es. m_events (fst s') = m_events m @ map (Pair h') es \<and> market_view s' = fold view_event es (market_view (m, r)))) \<and>
    (\<forall>n r'. m_events (fst (market_truncate_to n (m, r'))) = takeWhile (\<lambda>(k, _). k \<le> n) (m_events m) \<and>
       market_view (market_truncate_to n (m, r')) = view_log (takeWhile (\<lambda>(k, _). k \<le> n) (m_events m))) \<and>
    market_view (seal_replayed_buys m, r) = market_view (m, r) \<and>
    distinct (map mc_code (m_challenges m)) \<and> distinct (sale_names (m_sales m))"
proof -
  from reach_log [OF assms] have c: "consistent (m, r)" and s: "sorted (map fst (m_events m))"
    and le: "\<forall>x\<in>set (m_events m). fst x \<le> h" by simp_all
  have "\<forall>h' s'. market_step E h' (m, r) s' \<longrightarrow>
      (\<exists>es. m_events (fst s') = m_events m @ map (Pair h') es \<and> market_view s' = fold view_event es (market_view (m, r)))"
    using step_logs [OF _ c] by (simp add: logs_def)
  moreover have "market_view (m, r) = view_log (m_events m)" using c by (simp add: consistent_def)
  ultimately show ?thesis
    using s le consistent_distinct(1,2) [OF c]
    by (simp add: sale_names_def seal_view events_truncate view_truncate sorted_prefix del: set_map)
qed

text \<open>Two names of one owner, listed at the same price, and a buy of each: the same address, the same
  price, two codes.\<close>

abbreviation demo_bob :: name where
  "demo_bob \<equiv> Name ''bob''"

definition demo_title :: "name \<Rightarrow> (string, bytes) name_record" where
  "demo_title n = \<lparr>nr_name = n, nr_action = ActClaim, nr_ua = ''u1abc'', nr_expires_at = Never, nr_commitment = demo_prev,
     nr_confirmed_height = 3, nr_release_deadline = 1800000000, nr_predecessor_nullifier = ''n1''\<rparr>"

definition demo_offer :: "name \<Rightarrow> string listing" where
  "demo_offer n = \<lparr>l_name = n, l_ua = ''u1abc'', l_pay_to = PublicKeyHash ''abc'', l_ask = Flat 100000000\<rparr>"

definition demo_buy :: "name \<Rightarrow> nat \<Rightarrow> (string, bytes) sale" where
  "demo_buy n c = \<lparr>s_name = n, s_bob = ''u1xyz'', s_alice = ''u1abc'', s_held = demo_prev, s_term = Never, s_dutch = False,
     s_until = 1000 + D_OTP, s_phase = Paying (OtpCode c) (PublicKeyHash ''abc'') 100000000 (1000 + D_OTP) False\<rparr>"

definition demo_owned :: "(string, bytes) registry" where
  "demo_owned = registry_new\<lparr>records := [(demo_alice, demo_title demo_alice), (demo_bob, demo_title demo_bob)]\<rparr>"

definition demo_shop :: "(string, bytes) registry" where
  "demo_shop = demo_owned\<lparr>listings := [(demo_alice, demo_offer demo_alice), (demo_bob, demo_offer demo_bob)]\<rparr>"

definition demo_bought :: "(string, bytes) market" where
  "demo_bought = \<lparr>m_sales = \<lparr>sales = [demo_buy demo_alice 7, demo_buy demo_bob 9]\<rparr>, m_challenges = [],
     m_events = [(5, EvList (demo_offer demo_alice)), (5, EvList (demo_offer demo_bob)),
       (6, EvOpen (demo_buy demo_alice 7)), (6, EvOpen (demo_buy demo_bob 9))]\<rparr>"

lemma demo_alice_bob: "demo_alice < demo_bob"
  by (simp add: less_name_def)

lemmas demo_step_defs = sale_is_open_def market_new_def sales_new_def market_record_def registry_list_def record_of_def
  demo_owned_def demo_shop_def registry_new_def demo_title_def demo_offer_def is_owner_listing_def restore_listing_def
  bt_insert_def bt_get_def demo_env_def less_name_def

lemma demo_reach: "market_reach demo_env 6 (demo_bought, demo_shop)"
proof -
  let ?r1 = "demo_owned\<lparr>listings := [(demo_alice, demo_offer demo_alice)]\<rparr>"
  let ?m1 = "market_record 5 (EvList (demo_offer demo_alice)) market_new"
  let ?m2 = "market_record 5 (EvList (demo_offer demo_bob)) ?m1"
  let ?m3 = "market_record 6 (EvOpen (demo_buy demo_alice 7)) (?m2\<lparr>m_sales := \<lparr>sales = [demo_buy demo_alice 7]\<rparr>\<rparr>)"
  let ?otp = "\<lambda>c n. \<lparr>bo_code = OtpCode c, bo_name = n, bo_ua = ''u1xyz'', bo_dutch = None\<rparr>"
  have 0: "market_reach demo_env 5 (market_new, demo_owned)"
    by (rule market_reach.new) (simp add: demo_owned_def registry_new_def)
  have "market_list demo_env (demo_offer demo_alice) 5 (market_new, demo_owned) = Inr (?m1, ?r1)"
    by (simp add: market_list_def clock_ready_def demo_step_defs)
  from market_reach.step [OF 0 order_refl market_step.list [OF this]] have 1: "market_reach demo_env 5 (?m1, ?r1)" .
  have "market_list demo_env (demo_offer demo_bob) 5 (?m1, ?r1) = Inr (?m2, demo_shop)"
    by (simp add: market_list_def clock_ready_def demo_step_defs)
  from market_reach.step [OF 1 order_refl market_step.list [OF this]] have 2: "market_reach demo_env 5 (?m2, demo_shop)" .
  have "open_buy demo_env demo_shop demo_alice ''u1xyz'' ''u1abc'' Never demo_prev False False (OtpCode 7) 1000 6 ?m2 =
      Some (Inr (?otp 7 demo_alice, ?m3))"
    by (simp add: open_buy_def buy_quote_def listing_of_def same_payment_def total_of_def payment_total_value sale_open_def sale_get_def
        valid_code_def close_challenges_for_def close_challenges_def ts_from_seconds_def U64_MAX_def D_OTP_def demo_buy_def demo_bought_def demo_step_defs)
  from market_reach.step [OF 2 _ market_step.buy [OF this]] have 3: "market_reach demo_env 6 (?m3, demo_shop)" by simp
  have "open_buy demo_env demo_shop demo_bob ''u1xyz'' ''u1abc'' Never demo_prev False False (OtpCode 9) 1000 6 ?m3 =
      Some (Inr (?otp 9 demo_bob, demo_bought))"
    by (simp add: open_buy_def buy_quote_def listing_of_def same_payment_def total_of_def payment_total_value sale_open_def sale_get_def
        valid_code_def close_challenges_for_def close_challenges_def ts_from_seconds_def U64_MAX_def D_OTP_def demo_buy_def demo_bought_def demo_step_defs)
  from market_reach.step [OF 3 order_refl market_step.buy [OF this]] show ?thesis .
qed

theorem market_log_complete_witness:
  "market_view (demo_bought, demo_shop) = (listings demo_shop, [demo_buy demo_alice 7, demo_buy demo_bob 9], []) \<and>
   market_view (market_truncate_to 5 (demo_bought, demo_shop)) = (listings demo_shop, [], [])"
proof -
  have "view_log (takeWhile (\<lambda>(k, _). k \<le> 5) (m_events demo_bought)) = (listings demo_shop, [], [])"
    using demo_alice_bob by (simp add: demo_bought_def view_log_def demo_shop_def bt_insert_def demo_offer_def)
  moreover have "market_view (demo_bought, demo_shop) = (listings demo_shop, [demo_buy demo_alice 7, demo_buy demo_bob 9], [])"
    by (simp add: market_view_def demo_bought_def demo_buy_def sale_erase_def)
  ultimately show ?thesis using market_log_complete [OF demo_reach] by metis
qed

end
