(* ===== verification/Market_Safety.thy ===== *)
theory Market_Safety
  imports Market_Laws "HOL-Library.Sublist"
begin

text \<open>
  What the market guarantees to the two sides of a sale: a payment names one open sale, a sale is
  paid only by the exact amount to the listed address while the seller still holds the name, an
  open buy freezes the listing, and the note that is signed binds the buyer to the record the
  sale captured.
\<close>

section \<open>What a sale asks and what pays it\<close>

text \<open>The value of a code's six digits.\<close>

lemma otp_amount_digits: "otp_amount E c = Some amount \<Longrightarrow> amount = code_value c mod 1000000"
  by (auto simp: otp_amount_def parse_upto_def zat_from_u64_def otp_digits_def undec_digits_loop Option.bind_eq_Some_conv
      split: if_splits simp del: digits_loop.simps)

lemma payment_exact:
  "999999 \<le> max_money E \<Longrightarrow> payment_is_price_plus_otp E value price c = Some (value = price + code_value c mod 1000000)"
  using otp_amount_total [of E c] otp_amount_digits [of E c] by (auto simp: payment_is_price_plus_otp_def)

lemma total_of_exact: "total_of E price c = Some t \<Longrightarrow> t = price + code_value c mod 1000000"
  using otp_amount_digits [of E c] by (auto simp: total_of_def payment_total_def split: if_splits option.splits)

text \<open>What an open unpaid sale asks: its listed address, and its price plus its six-digit code.\<close>

definition sale_asked :: "('ua, 'cm) sale \<Rightarrow> (transparent_address \<times> zat) option" where
  "sale_asked s =
     (case s_phase s of
        Paying c pay_to price _ _ \<Rightarrow> Some (pay_to, price + code_value c mod 1000000)
      | Paid \<Rightarrow> None)"

text \<open>Output \<open>i\<close> of a block pays a sale: it is exactly what the sale asks, before the code expires, and
  the seller still holds the name.\<close>

definition pays ::
  "(name \<Rightarrow> 'ua option) \<Rightarrow> (transparent_address \<times> zat) list \<Rightarrow> timestamp \<Rightarrow> ('ua, 'cm) sale \<Rightarrow> nat \<Rightarrow> bool" where
  "pays holder payments mtp s i \<longleftrightarrow>
     i < length payments \<and> sale_asked s = Some (payments ! i) \<and> holder (s_name s) = Some (s_alice s) \<and>
     (case s_phase s of Paying _ _ _ expires_at _ \<Rightarrow> mtp < expires_at | Paid \<Rightarrow> False)"

section \<open>Payments name one sale\<close>

definition pay_key :: "('ua, 'cm) zenv \<Rightarrow> ('ua, 'cm) sale \<Rightarrow> (transparent_address \<times> nat option) option" where
  "pay_key E s = (case s_phase s of Paying c pay_to price _ _ \<Rightarrow> Some (pay_to, total_of E price c) | Paid \<Rightarrow> None)"

definition open_payments :: "('ua, 'cm) zenv \<Rightarrow> ('ua, 'cm) market \<Rightarrow> (transparent_address \<times> nat option) list" where
  "open_payments E m = List.map_filter (pay_key E) (sales (m_sales m))"

lemma map_filter_Cons: "List.map_filter f (x # xs) = (case f x of Some y \<Rightarrow> y # List.map_filter f xs | None \<Rightarrow> List.map_filter f xs)"
  by (auto simp: List.map_filter_def split: option.splits)

lemma map_filter_Nil [simp]: "List.map_filter f [] = []"
  by (simp add: List.map_filter_def)

lemma map_filter_subseq: "subseq (List.map_filter f (filter p xs)) (List.map_filter f xs)"
  by (induction xs) (auto simp: map_filter_Cons split: option.splits)

lemma map_filter_append: "List.map_filter f (xs @ ys) = List.map_filter f xs @ List.map_filter f ys"
  by (simp add: List.map_filter_def)

lemma set_map_filter: "y \<in> set (List.map_filter f xs) \<longleftrightarrow> (\<exists>x\<in>set xs. f x = Some y)"
  by (induction xs) (auto simp: map_filter_Cons split: option.splits)

lemma observe_subseq:
  "subseq (List.map_filter (pay_key E) (fst (observe_loop E holder payments mtp used ss)))
     (List.map_filter (pay_key E) ss)"
proof (induction ss arbitrary: used)
  case (Cons s ss)
  have paid: "pay_key E (s\<lparr>s_phase := Paid\<rparr>) = None" by (simp add: pay_key_def)
  show ?case
    using Cons.IH [of used] Cons.IH [of "used[fst (the (matching_payment E holder payments mtp used s)) := True]"] paid
    by (auto simp: map_filter_Cons split: option.splits prod.splits)
qed simp

lemma sales_close_challenges [simp]: "m_sales (close_challenges cs h m) = m_sales m"
  by (induction cs arbitrary: m) (auto simp: close_challenges_def close_challenge_def drop_challenge_def)

lemma sales_count_wrong: "count_wrong h is m = Some m' \<Longrightarrow> m_sales m' = m_sales m"
  by (induction h "is" m rule: count_wrong.induct)
    (auto simp: Let_def close_challenge_def drop_challenge_def split: if_splits)

lemma sales_answer_hit: "m_sales (fst (answer_hit E h i (m, r))) = m_sales m"
  by (auto simp: answer_hit_def Let_def market_list_def market_delist_def split: sum.splits challenge_kind.splits)

lemma sales_answer: "market_answer E response h (m, r) = Some (b, m', r') \<Longrightarrow> m_sales m' = m_sales m"
  using sales_answer_hit [of E h _ m r]
  by (auto simp: market_answer_def sales_count_wrong split: if_splits option.splits) (metis fst_conv)+

lemma sales_propose:
  "propose_list E l owner c mtp h m = Some (Inr m') \<Longrightarrow> m_sales m' = m_sales m"
  "propose_delist E r n ua c mtp h m = Some (Inr m') \<Longrightarrow> m_sales m' = m_sales m"
  by (auto simp: propose_list_def propose_delist_def push_new_challenge_def push_challenge_def Let_def
      split: sum.splits if_splits)

text \<open>An open buy adds one payment that no open sale has.\<close>

lemma open_buy_payments:
  assumes "open_buy E r n bob owner t held rd pn c mtp h m = Some (Inr (otp, m'))"
  shows "\<exists>k. open_payments E m' = open_payments E m @ [k] \<and> k \<notin> set (open_payments E m) \<and> snd k \<noteq> None"
proof -
  from assms obtain pay_to price dutch q s where
    sp: "\<not> same_payment E pay_to price c (m_sales m)" and
    q: "sale_open E n bob owner pay_to price t held c dutch mtp (m_sales m) = Some (otp, q)"
    and s: "sale_get q n = Some s"
    and m': "m' = close_challenges_for n h (market_record h (EvOpen s) (m\<lparr>m_sales := q\<rparr>))"
    by (auto simp: open_buy_def split: if_splits option.splits sum.splits prod.splits)
  from sale_open_Some [OF q] s obtain e where qs: "q = (m_sales m)\<lparr>sales := sales (m_sales m) @ [s]\<rparr>"
    "s_phase s = Paying c pay_to price e False" by auto
  let ?k = "(pay_to, total_of E price c)"
  have "open_payments E m' = open_payments E m @ [?k]"
    using qs by (simp add: m' close_challenges_for_def open_payments_def map_filter_append map_filter_Cons pay_key_def)
  moreover obtain tot where tot: "total_of E price c = Some tot"
    and free: "\<And>s c' price' e b. s \<in> set (sales (m_sales m)) \<Longrightarrow> s_phase s = Paying c' pay_to price' e b \<Longrightarrow>
        total_of E price' c' \<noteq> Some tot"
    using sp by (fastforce simp: same_payment_def list_ex_iff split: option.splits)
  have "?k \<notin> set (open_payments E m)"
  proof
    assume "?k \<in> set (open_payments E m)"
    then obtain x where x: "x \<in> set (sales (m_sales m))" "pay_key E x = Some ?k"
      unfolding open_payments_def set_map_filter by blast
    with free tot show False by (cases "s_phase x") (fastforce simp: pay_key_def)+
  qed
  ultimately show ?thesis using tot by fastforce
qed

lemma admit_payments:
  assumes "market_admit E key txid request paid r fee h mtp pending m = Some (ad, m')"
  shows "open_payments E m' = open_payments E m \<or>
    (\<exists>k. open_payments E m' = open_payments E m @ [k] \<and> k \<notin> set (open_payments E m) \<and> snd k \<noteq> None)"
  using admit_cases [OF assms] sales_propose open_buy_payments
  unfolding open_payments_def by metis

lemma subseq_distinct: "subseq xs ys \<Longrightarrow> distinct ys \<Longrightarrow> distinct xs"
  by (metis distinct_nthsI subseq_conv_nths)

text \<open>An operation takes payments away, or adds one that none has.\<close>

lemma step_payments:
  assumes "market_step E h s s'"
  shows "subseq (open_payments E (fst s')) (open_payments E (fst s)) \<or>
     (\<exists>k. open_payments E (fst s') = open_payments E (fst s) @ [k] \<and> k \<notin> set (open_payments E (fst s)) \<and> snd k \<noteq> None)"
  using assms
proof (induction rule: market_step.induct)
  case (observe m r holder payments mtp)
  let ?o = "observe_loop E holder payments mtp (replicate (length payments) False) (sales (m_sales m))"
  have "open_payments E (market_observe E holder payments mtp h m) = List.map_filter (pay_key E) (fst ?o)"
    by (simp add: open_payments_def market_observe_def sale_observe_def case_prod_beta)
  then show ?case by (simp add: open_payments_def observe_subseq)
next
  case (expire m r mtp)
  then show ?case
    by (simp add: open_payments_def market_expire_def finish_clocks_def sale_expire_def Let_def map_filter_subseq)
next
  case (reconcile m r)
  then show ?case
    by (simp add: open_payments_def market_reconcile_def reconcile_listings_def sale_reconcile_def Let_def map_filter_subseq)
next
  case (poll m r pending)
  then show ?case
    by (simp add: open_payments_def market_poll_def sale_poll_def map_filter_subseq)
next
  case (admit key txid request paid r fee mtp pending m ad m')
  then show ?case using admit_payments [OF admit.hyps] by auto
next
  case (answer response m r b mr)
  then show ?case using sales_answer by (cases mr) (fastforce simp: open_payments_def)
next
  case (list l m r mr)
  then show ?case by (auto simp: open_payments_def market_list_def split: sum.splits if_splits)
next
  case (delist n ua m r mr)
  then show ?case by (auto simp: open_payments_def market_delist_def split: sum.splits if_splits)
next
  case (buy r n bob owner t held release_due in_flight c mtp m otp m')
  then show ?case using open_buy_payments by fastforce
next
  case (propose_list l owner c mtp m m' r)
  then show ?case using sales_propose(1) [OF propose_list] by (simp add: open_payments_def)
next
  case (propose_delist r n ua c mtp m m')
  then show ?case using sales_propose(2) [OF propose_delist] by (simp add: open_payments_def)
next
  case (relayed m r n)
  have "pay_key E (s\<lparr>s_phase := phase_relay (s_phase s)\<rparr>) = pay_key E s" for s :: "('a, 'b) sale"
    by (cases "s_phase s") (simp_all add: pay_key_def)
  then have "List.map_filter (pay_key E) (map (\<lambda>s. if s_name s = n then s\<lparr>s_phase := phase_relay (s_phase s)\<rparr> else s) ss)
      = List.map_filter (pay_key E) ss" for ss
    by (induction ss) (auto simp: map_filter_Cons split: option.splits)
  then show ?case by (simp add: open_payments_def market_relayed_def sale_relayed_def)
next
  case (challenge_relayed m r c)
  then show ?case by (simp add: open_payments_def challenge_relayed_def)
qed simp

text \<open>Payments that tell their sales apart: distinct, and none of them out of range.\<close>

definition payments_ok :: "('ua, 'cm) zenv \<Rightarrow> ('ua, 'cm) sale list \<Rightarrow> bool" where
  "payments_ok E ss \<longleftrightarrow>
     distinct (List.map_filter (pay_key E) ss) \<and> (\<forall>k\<in>set (List.map_filter (pay_key E) ss). snd k \<noteq> None)"

lemma payments_ok_step:
  "market_step E h s s' \<Longrightarrow> payments_ok E (sales (m_sales (fst s))) \<Longrightarrow> payments_ok E (sales (m_sales (fst s')))"
proof -
  assume step: "market_step E h s s'" and ok: "payments_ok E (sales (m_sales (fst s)))"
  from step_payments [OF step] show ?thesis
  proof
    assume sub: "subseq (open_payments E (fst s')) (open_payments E (fst s))"
    show ?thesis using subseq_distinct [OF sub] list_emb_set [OF sub] ok unfolding payments_ok_def open_payments_def by blast
  next
    assume "\<exists>k. open_payments E (fst s') = open_payments E (fst s) @ [k] \<and> k \<notin> set (open_payments E (fst s)) \<and> snd k \<noteq> None"
    then show ?thesis using ok by (auto simp: payments_ok_def open_payments_def)
  qed
qed

lemma payments_ok_erase: "payments_ok E (map sale_erase ss) = payments_ok E ss"
proof -
  have "pay_key E (sale_erase s) = pay_key E s" for s :: "('a, 'b) sale"
    by (cases "s_phase s") (simp_all add: pay_key_def sale_erase_def)
  then have "List.map_filter (pay_key E) (map sale_erase ss) = List.map_filter (pay_key E) ss"
    by (induction ss) (auto simp: map_filter_Cons split: option.splits)
  then show ?thesis by (simp add: payments_ok_def)
qed

text \<open>Every prefix of the log that a rollback can replay has such payments, so they survive rollbacks.\<close>

definition log_payments_ok :: "('ua, 'cm) zenv \<Rightarrow> (height \<times> ('ua, 'cm) market_event) list \<Rightarrow> bool" where
  "log_payments_ok E es \<longleftrightarrow> (\<forall>n. payments_ok E (fst (snd (view_log (filter (\<lambda>(k, _). k \<le> n) es)))))"

lemma view_payments:
  assumes "consistent s" and "\<forall>x\<in>set (m_events (fst s)). fst x \<le> n"
  shows "payments_ok E (fst (snd (view_log (filter (\<lambda>(k, _). k \<le> n) (m_events (fst s)))))) =
     payments_ok E (sales (m_sales (fst s)))"
proof -
  have "filter (\<lambda>(k, _). k \<le> n) (m_events (fst s)) = m_events (fst s)" using assms(2) by (auto simp: filter_id_conv)
  moreover have "view_log (m_events (fst s)) = market_view s" using assms(1) by (simp add: consistent_def)
  moreover have "fst (snd (market_view s)) = map sale_erase (sales (m_sales (fst s)))" by (cases s) (simp add: market_view_def)
  ultimately show ?thesis by (simp add: payments_ok_erase)
qed

lemma reach_payments: "market_reach E h s \<Longrightarrow> log_payments_ok E (m_events (fst s))"
proof (induction rule: market_reach.induct)
  case (new r h)
  then show ?case by (simp add: log_payments_ok_def market_new_def view_log_def payments_ok_def)
next
  case (step h s h' s')
  have s: "consistent s" "\<forall>x\<in>set (m_events (fst s)). fst x \<le> h'" using reach_log [OF step.hyps(1)] step.hyps(2) by auto
  have s': "consistent s'" "\<forall>x\<in>set (m_events (fst s')). fst x \<le> h'"
    using reach_log [OF market_reach.step [OF step.hyps]] by auto
  obtain es where es: "m_events (fst s') = m_events (fst s) @ map (Pair h') es"
    using step_logs [OF step.hyps(3) s(1)] by (auto simp: logs_def)
  have ok: "payments_ok E (sales (m_sales (fst s')))"
    using payments_ok_step [OF step.hyps(3)] step.IH view_payments [OF s] by (auto simp: log_payments_ok_def)
  have "payments_ok E (fst (snd (view_log (filter (\<lambda>(k, _). k \<le> n) (m_events (fst s'))))))" for n
  proof (cases "h' \<le> n")
    case True
    then have "\<forall>x\<in>set (m_events (fst s')). fst x \<le> n" using s'(2) by auto
    then show ?thesis using view_payments [OF s'(1)] ok by blast
  next
    case False
    then have "filter (\<lambda>(k, _). k \<le> n) (map (Pair h') es) = []" by (simp add: filter_empty_conv)
    then show ?thesis using step.IH by (simp add: es log_payments_ok_def)
  qed
  then show ?case by (simp add: log_payments_ok_def)
next
  case (truncate h m r n r')
  have "filter (\<lambda>(k, _). k \<le> a) (filter (\<lambda>(k, _). k \<le> n) (m_events m)) = filter (\<lambda>(k, _). k \<le> min a n) (m_events m)" for a
    by (auto intro: filter_cong)
  moreover have "payments_ok E (fst (snd (view_log (filter (\<lambda>(k, _). k \<le> min a n) (m_events m)))))" for a
    using truncate.IH unfolding log_payments_ok_def fst_conv by (rule spec)
  ultimately show ?case unfolding log_payments_ok_def events_truncate by metis
next
  case (seal h m r)
  have "filter (\<lambda>(k, _). k \<le> n) (m_events (seal_replayed_buys m)) =
      map (\<lambda>(h, e). (h, event_seal e)) (filter (\<lambda>(k, _). k \<le> n) (m_events m))" for n
    unfolding seal_events filter_map by (rule arg_cong [where f = "map _"], rule filter_cong) auto
  with seal.IH show ?case by (simp add: log_payments_ok_def seal_view_log)
qed

lemma asked_distinct:
  assumes "payments_ok E ss"
  shows "distinct (List.map_filter sale_asked ss)"
proof -
  have "List.map_filter (pay_key E) ss = map (map_prod id Some) (List.map_filter sale_asked ss)"
    if "\<forall>k\<in>set (List.map_filter (pay_key E) ss). snd k \<noteq> None"
    using that
  proof (induction ss)
    case (Cons s ss)
    then show ?case using total_of_exact [of E]
      by (cases "s_phase s") (auto simp: map_filter_Cons pay_key_def sale_asked_def)
  qed simp
  with assms show ?thesis by (metis distinct_map payments_ok_def)
qed

lemma map_filter_distinct_nth:
  assumes "distinct (List.map_filter f xs)" and "j < length xs" and "k < length xs" and "f (xs ! j) = Some y" and "f (xs ! k) = Some y"
  shows "j = k"
  using assms
proof (induction xs arbitrary: j k)
  case (Cons x xs)
  have "y \<in> set (List.map_filter f xs)" if "i < length xs" "f (xs ! i) = Some y" for i using that by (auto simp: set_map_filter)
  with Cons show ?case by (cases j; cases k) (auto simp: map_filter_Cons split: option.splits)
qed simp

text \<open>C11: A payment identifies its sale. In every state the market reaches, over rollbacks and restarts,
  two open unpaid sales never ask the same amount, price plus six-digit code, at the same address; so
  whatever the outputs of a block, an output pays at most one sale, and the order in which the sales
  look at a block's payments cannot decide who is paid.\<close>

theorem payments_identify_sales:
  assumes "market_reach E h (m, r)"
  shows "distinct (List.map_filter sale_asked (sales (m_sales m))) \<and>
    (\<forall>holder payments mtp i j k. j < length (sales (m_sales m)) \<and> k < length (sales (m_sales m)) \<and>
       pays holder payments mtp (sales (m_sales m) ! j) i \<and> pays holder payments mtp (sales (m_sales m) ! k) i \<longrightarrow> j = k)"
proof -
  have "payments_ok E (sales (m_sales m))"
    using reach_payments [OF assms] reach_log [OF assms] view_payments [of "(m, r)" h E] by (simp add: log_payments_ok_def)
  from asked_distinct [OF this] show ?thesis
    using map_filter_distinct_nth [of sale_asked "sales (m_sales m)"] by (auto simp: pays_def)
qed

theorem payments_identify_sales_witness:
  "List.map_filter sale_asked (sales (m_sales demo_bought)) = [(PublicKeyHash ''abc'', 100000007), (PublicKeyHash ''abc'', 100000009)] \<and>
   distinct (List.map_filter sale_asked (sales (m_sales demo_bought)))"
proof -
  have "List.map_filter sale_asked (sales (m_sales demo_bought)) = [(PublicKeyHash ''abc'', 100000007), (PublicKeyHash ''abc'', 100000009)]"
    by (simp add: demo_bought_def demo_buy_def sale_asked_def map_filter_Cons)
  with payments_identify_sales [OF demo_reach] show ?thesis by blast
qed

section \<open>What pays a sale\<close>

text \<open>A sale finds no payment exactly when every output that pays it is taken.\<close>

lemma matching_None:
  assumes "matching_payment E holder payments mtp used s = None" and "999999 \<le> max_money E" and "pays holder payments mtp s i"
  shows "used ! i"
proof -
  from assms(3) obtain c pay_to price expires_at rel where ph: "s_phase s = Paying c pay_to price expires_at rel"
    and p: "mtp < expires_at" "holder (s_name s) = Some (s_alice s)" "i < length payments"
      "payments ! i = (pay_to, price + code_value c mod 1000000)"
    by (cases "s_phase s") (auto simp: pays_def sale_asked_def)
  from assms(1) ph p(1,2) have "position (\<lambda>(index, addr, value). \<not> used ! index \<and> addr = pay_to \<and>
      payment_is_price_plus_otp E value price c = Some True) (enumerate 0 payments) = None"
    by (simp add: matching_payment_def)
  moreover have "(i, payments ! i) \<in> set (enumerate 0 payments)" using p(3) by (auto simp: in_set_enumerate_eq)
  ultimately show ?thesis using p(4) payment_exact [OF assms(2)] by (fastforce simp: position_None_iff)
qed

lemma matching_pays:
  assumes "matching_payment E holder payments mtp used s = Some (i, c)" and "999999 \<le> max_money E"
  shows "pays holder payments mtp s i" "\<not> used ! i" "\<exists>pay_to price e rel. s_phase s = Paying c pay_to price e rel"
  using matching_payment_Some [OF assms(1)] payment_exact [OF assms(2)]
  by (auto simp: pays_def sale_asked_def prod_eq_iff)

text \<open>A sale with the output it took, if any: what it becomes, and what the pass reports.\<close>

definition sale_settle :: "('ua, 'cm) sale \<Rightarrow> nat option \<Rightarrow> ('ua, 'cm) sale" where
  "sale_settle s taken = (case taken of None \<Rightarrow> s | Some _ \<Rightarrow> s\<lparr>s_phase := Paid\<rparr>)"

definition sale_report :: "('ua, 'cm) sale \<Rightarrow> nat option \<Rightarrow> (name \<times> otp_code) list" where
  "sale_report s taken = (case (taken, s_phase s) of (Some _, Paying c _ _ _ _) \<Rightarrow> [(s_name s, c)] | _ \<Rightarrow> [])"

lemma observe_matches:
  assumes "length used = length payments" and "999999 \<le> max_money E"
  shows "\<exists>taken. observe_loop E holder payments mtp used ss = (map2 sale_settle ss taken, concat (map2 sale_report ss taken)) \<and>
     list_all2 (\<lambda>s t. case t of Some i \<Rightarrow> pays holder payments mtp s i \<and> \<not> used ! i
       | None \<Rightarrow> \<forall>i. pays holder payments mtp s i \<longrightarrow> used ! i \<or> Some i \<in> set taken) ss taken \<and>
     distinct (List.map_filter (\<lambda>t. t) taken)"
  using assms(1)
proof (induction ss arbitrary: used)
  case (Cons s ss)
  show ?case
  proof (cases "matching_payment E holder payments mtp used s")
    case None
    obtain taken where t: "observe_loop E holder payments mtp used ss = (map2 sale_settle ss taken, concat (map2 sale_report ss taken))"
      "list_all2 (\<lambda>s t. case t of Some i \<Rightarrow> pays holder payments mtp s i \<and> \<not> used ! i
         | None \<Rightarrow> \<forall>i. pays holder payments mtp s i \<longrightarrow> used ! i \<or> Some i \<in> set taken) ss taken"
      "distinct (List.map_filter (\<lambda>t. t) taken)" using Cons by blast
    have "list_all2 (\<lambda>s t. case t of Some i \<Rightarrow> pays holder payments mtp s i \<and> \<not> used ! i
         | None \<Rightarrow> \<forall>i. pays holder payments mtp s i \<longrightarrow> used ! i \<or> Some i \<in> set (None # taken)) ss taken"
      using t(2) by (simp cong: option.case_cong)
    with t None matching_None [OF None assms(2)] show ?thesis
      by (intro exI [of _ "None # taken"]) (simp add: sale_settle_def sale_report_def map_filter_Cons)
  next
    case (Some ic)
    obtain i c where ic: "ic = (i, c)" by force
    let ?u = "used[i := True]"
    note m = matching_pays [OF Some [unfolded ic] assms(2)]
    have i: "i < length used" using m(1) Cons.prems by (simp add: pays_def)
    obtain taken where t: "observe_loop E holder payments mtp ?u ss = (map2 sale_settle ss taken, concat (map2 sale_report ss taken))"
      "list_all2 (\<lambda>s t. case t of Some j \<Rightarrow> pays holder payments mtp s j \<and> \<not> ?u ! j
         | None \<Rightarrow> \<forall>j. pays holder payments mtp s j \<longrightarrow> ?u ! j \<or> Some j \<in> set taken) ss taken"
      "distinct (List.map_filter (\<lambda>t. t) taken)" using Cons.IH [of ?u] Cons.prems by auto
    have free: "Some i \<notin> set taken"
    proof
      assume "Some i \<in> set taken"
      with t(2) obtain s' where "\<not> ?u ! i" by (fastforce simp: list_all2_conv_all_nth in_set_conv_nth)
      with i show False by simp
    qed
    have later: "list_all2 (\<lambda>s t. case t of Some j \<Rightarrow> pays holder payments mtp s j \<and> \<not> used ! j
         | None \<Rightarrow> \<forall>j. pays holder payments mtp s j \<longrightarrow> used ! j \<or> Some j \<in> set (Some i # taken)) ss taken"
      using t(2) i by (rule_tac list_all2_mono [OF t(2)]) (auto simp: nth_list_update split: option.splits if_splits)
    have "i \<notin> set (List.map_filter (\<lambda>t. t) taken)" using free by (auto simp: set_map_filter)
    with t later m Some ic show ?thesis
      by (intro exI [of _ "Some i # taken"]) (auto simp: sale_settle_def sale_report_def map_filter_Cons)
  qed
qed simp

text \<open>C13: A sale becomes paid exactly by its own payment. A block's outputs are matched to the open sales,
  no output to two sales: a sale with an output becomes Paid and is reported with its code, in order,
  and every other sale is left as it was; nothing else changes. A matched output pays the sale's
  listed address exactly its price plus its six-digit code, before the code expires and while the
  seller still holds the name. And a sale stays unpaid only if every output that pays it so was taken
  by another sale. The \<open>expect\<close> in the code's amount cannot fire: six digits are within the monetary
  range, which is the condition on it here.\<close>

theorem paid_only_by_exact_payment:
  assumes "999999 \<le> max_money E"
  shows "\<exists>taken. sale_observe E holder payments mtp q =
       (concat (map2 sale_report (sales q) taken), q\<lparr>sales := map2 sale_settle (sales q) taken\<rparr>) \<and>
     list_all2 (\<lambda>s t. case t of Some i \<Rightarrow> pays holder payments mtp s i
       | None \<Rightarrow> \<forall>i. pays holder payments mtp s i \<longrightarrow> Some i \<in> set taken) (sales q) taken \<and>
     distinct (List.map_filter (\<lambda>t. t) taken)"
proof -
  obtain taken where t: "observe_loop E holder payments mtp (replicate (length payments) False) (sales q) =
      (map2 sale_settle (sales q) taken, concat (map2 sale_report (sales q) taken))"
    "list_all2 (\<lambda>s t. case t of Some i \<Rightarrow> pays holder payments mtp s i \<and> \<not> replicate (length payments) False ! i
       | None \<Rightarrow> \<forall>i. pays holder payments mtp s i \<longrightarrow> replicate (length payments) False ! i \<or> Some i \<in> set taken) (sales q) taken"
    "distinct (List.map_filter (\<lambda>t. t) taken)"
    using observe_matches [of "replicate (length payments) False" payments E holder mtp "sales q"] assms by auto
  have "list_all2 (\<lambda>s t. case t of Some i \<Rightarrow> pays holder payments mtp s i
       | None \<Rightarrow> \<forall>i. pays holder payments mtp s i \<longrightarrow> Some i \<in> set taken) (sales q) taken"
    by (rule list_all2_mono [OF t(2)]) (auto simp: pays_def split: option.splits)
  with t show ?thesis by (auto simp: sale_observe_def)
qed

text \<open>One output pays Alice's sale, another pays more than it asks; Bob's is not paid.\<close>

theorem paid_only_by_exact_payment_witness:
  "sale_observe demo_env (\<lambda>_. Some ''u1abc'') [(PublicKeyHash ''abc'', 100000008), (PublicKeyHash ''abc'', 100000007)] 1000
       (m_sales demo_bought) =
     ([(demo_alice, OtpCode 7)], \<lparr>sales = [(demo_buy demo_alice 7)\<lparr>s_phase := Paid\<rparr>, demo_buy demo_bob 9]\<rparr>)"
proof -
  let ?outs = "[(PublicKeyHash ''abc'', 100000008), (PublicKeyHash ''abc'', 100000007)]" and ?holder = "\<lambda>_ :: name. Some ''u1abc''"
  have a: "pays ?holder ?outs 1000 (demo_buy demo_alice 7) i \<longleftrightarrow> i = 1" for i
    by (cases i) (auto simp: pays_def sale_asked_def demo_buy_def D_OTP_def less_Suc_eq nth_Cons split: nat.splits)
  have b: "\<not> pays ?holder ?outs 1000 (demo_buy demo_bob 9) i" for i
    by (cases i) (auto simp: pays_def sale_asked_def demo_buy_def D_OTP_def less_Suc_eq nth_Cons split: nat.splits)
  have q: "sales (m_sales demo_bought) = [demo_buy demo_alice 7, demo_buy demo_bob 9]" by (simp add: demo_bought_def)
  have "999999 \<le> max_money demo_env" by (simp add: demo_env_def)
  from paid_only_by_exact_payment [OF this, of ?holder ?outs 1000 "m_sales demo_bought", unfolded q] obtain taken where
    t: "sale_observe demo_env ?holder ?outs 1000 (m_sales demo_bought) =
       (concat (map2 sale_report [demo_buy demo_alice 7, demo_buy demo_bob 9] taken),
        (m_sales demo_bought)\<lparr>sales := map2 sale_settle [demo_buy demo_alice 7, demo_buy demo_bob 9] taken\<rparr>)"
     "list_all2 (\<lambda>s t. case t of Some i \<Rightarrow> pays ?holder ?outs 1000 s i
       | None \<Rightarrow> \<forall>i. pays ?holder ?outs 1000 s i \<longrightarrow> Some i \<in> set taken) [demo_buy demo_alice 7, demo_buy demo_bob 9] taken" by blast
  have "taken = [Some 1, None]" using t(2) a b by (auto simp: list_all2_Cons1 split: option.splits)
  with t(1) show ?thesis by (simp add: sale_report_def sale_settle_def demo_buy_def demo_bought_def)
qed

section \<open>An open buy freezes the name\<close>

lemma listing_other: "bt_ok (listings r) \<Longrightarrow> n \<noteq> k \<Longrightarrow> bt_get (bt_insert k l (listings r)) n = bt_get (listings r) n"
  by (simp add: bt_simps)

text \<open>C26: While a buy is open for a name no answer, however it was obtained, changes its listing or the
  sale itself, and no list, delist or second buy is accepted for it: a listing, a delisting or a
  relisting in flight is refused, and a second buyer is told the hold or refused.\<close>

theorem open_buy_freezes_listing:
  assumes "sale_is_open (m_sales m) n" and "bt_ok (listings r)"
    and "market_answer E response h (m, r) = Some (b, m', r')"
  shows "listing_of r' n = listing_of r n \<and> m_sales m' = m_sales m \<and>
    (\<forall>l. l_name l = n \<longrightarrow> (\<exists>e. market_list E l h (m, r) = Inl e)) \<and>
    market_delist n ua h (m, r) = Inl BuyOpen \<and>
    (\<exists>e. open_buy E r n bob owner t held rd pn c mtp h m = Some (Inl e))"
proof -
  have list: "listing_of r2 n = listing_of r n"
    if "market_list E l h (m2, r) = Inr (m3, r2)" "m_sales m2 = m_sales m" for l m2 m3 r2
  proof -
    have "l_name l \<noteq> n" using that assms(1) by (auto simp: market_list_def split: sum.splits if_splits)
    then show ?thesis using that assms(2)
      by (auto simp: market_list_def registry_list_def restore_listing_def listing_of_def bt_simps
          split: sum.splits if_splits option.splits)
  qed
  have delist: "listing_of r2 n = listing_of r n"
    if "market_delist k u h (m2, r) = Inr (m3, r2)" "m_sales m2 = m_sales m" for k u m2 m3 r2
  proof -
    have "k \<noteq> n" using that assms(1) by (auto simp: market_delist_def split: if_splits)
    then show ?thesis using that assms(2)
      by (auto simp: market_delist_def registry_delist_def remove_listing_def listing_of_def bt_simps
          split: sum.splits if_splits option.splits)
  qed
  have hit: "listing_of (snd (answer_hit E h i (m, r))) n = listing_of r n" for i
    unfolding answer_hit_def Let_def prod.case
    by (auto split: sum.splits challenge_kind.splits intro: list delist)
  have "listing_of r' n = listing_of r n"
    using assms(3) hit by (auto simp: market_answer_def split: if_splits option.splits) (metis snd_conv)+
  moreover have "\<exists>e. market_list E l h (m, r) = Inl e" if "l_name l = n" for l
    using that assms(1) by (auto simp: market_list_def split: sum.splits)
  ultimately show ?thesis
    using sales_answer [OF assms(3)] assms(1)
    by (auto simp: market_delist_def open_buy_def split: option.splits)
qed

theorem open_buy_freezes_listing_witness:
  "market_answer demo_env (mc_memo \<lparr>mc_kind = KindDelist demo_alice ''u1abc'', mc_code = OtpCode 7,
      mc_expires_at = 1, mc_relayed = True, mc_attempts = 0\<rparr>) 9 (demo_market, registry_new)
     = Some (False, demo_market, registry_new) \<and>
   market_delist demo_alice ''u1abc'' 9 (demo_market, registry_new) = Inl BuyOpen"
proof -
  have o: "sale_is_open (m_sales demo_market) demo_alice" by (simp add: sale_is_open_def)
  have ok: "bt_ok (listings (registry_new :: (string, bytes) registry))" by (simp add: registry_new_def)
  have a: "market_answer demo_env (mc_memo \<lparr>mc_kind = KindDelist demo_alice ''u1abc'', mc_code = OtpCode 7,
      mc_expires_at = 1, mc_relayed = True, mc_attempts = 0\<rparr>) 9 (demo_market, registry_new)
     = Some (False, demo_market, registry_new)"
    by (simp add: market_answer_def named_indices_def)
  from open_buy_freezes_listing [OF o ok a] a show ?thesis by blast
qed

section \<open>What a paid sale signs\<close>

text \<open>Every note the market signs hands a name from the seller who listed it to the buyer who paid:
  it belongs to a paid sale with no note in flight, the seller still holds the record the sale
  captured, and the note spends that record and keeps the captured term.\<close>

lemma poll_signs_only_paid_sales:
  assumes "nt \<in> set (fst (market_poll r pending h m))"
  shows "\<exists>s rec. s \<in> set (sales (m_sales m)) \<and> s_phase s = Paid \<and> \<not> pending (s_name s) \<and>
    record_of r (s_name s) = Some rec \<and> nr_ua rec = s_alice s \<and> nr_commitment rec = s_held s \<and>
    nt = NoteSale (s_name s) (s_bob s) (s_term s) (s_held s)"
proof -
  from assms obtain s where s: "s \<in> set (sales (m_sales m))" "fst (poll_one r pending s) = Some nt"
    by (auto simp: market_poll_def sale_poll_def set_map_filter)
  then show ?thesis
    by (auto simp: poll_one_def sale_transfer_def intro!: exI [of _ s] split: if_splits option.splits)
qed

definition demo_paid_market :: "(string, bytes) market" where
  "demo_paid_market = \<lparr>m_sales = \<lparr>sales = [demo_sale\<lparr>s_phase := Paid\<rparr>]\<rparr>, m_challenges = [], m_events = []\<rparr>"

definition demo_held_registry :: "(string, bytes) registry" where
  "demo_held_registry = registry_new\<lparr>records := [(demo_alice,
     \<lparr>nr_name = demo_alice, nr_action = ActClaim, nr_ua = ''u1abc'', nr_expires_at = Never,
      nr_commitment = demo_prev, nr_confirmed_height = 3, nr_release_deadline = 1800000000,
      nr_predecessor_nullifier = ''n1''\<rparr>)]\<rparr>"

end
