(* ===== verification/Code_Laws.thy ===== *)
theory Code_Laws
  imports Otp Demo_Env
begin

text \<open>
  Properties of the codes and of the terms they authorize: what a derived code binds, how a
  challenge is answered and how long it can be guessed at, and how prices are written and fall.
\<close>

section \<open>What a derived code binds\<close>

text \<open>The four derivations, by what each feeds the MAC.\<close>

datatype mac_input =
    MacBuy bytes bytes
  | MacList bytes bytes nat bytes
  | MacAuction bytes bytes auction_bind bytes
  | MacDelist bytes bytes

fun mac_message :: "mac_input \<Rightarrow> bytes" where
  "mac_message (MacBuy txid nm) = buy_msg txid nm"
| "mac_message (MacList txid nm price pay_to) = list_msg txid nm price pay_to"
| "mac_message (MacAuction txid nm terms pay_to) = auction_msg txid nm terms pay_to"
| "mac_message (MacDelist txid nm) = delist_msg txid nm"

text \<open>A 32-byte transaction id, a 20-byte address hash, 64-bit prices and 32-bit heights.\<close>

fun mac_sized :: "mac_input \<Rightarrow> bool" where
  "mac_sized (MacBuy txid nm) \<longleftrightarrow> length txid = 32"
| "mac_sized (MacList txid nm price pay_to) \<longleftrightarrow> length txid = 32 \<and> price < 256 ^ 8 \<and> length pay_to = 20"
| "mac_sized (MacAuction txid nm terms pay_to) \<longleftrightarrow>
     length txid = 32 \<and> length pay_to = 20 \<and> bind_start_price terms < 256 ^ 8 \<and>
     bind_min_price terms < 256 ^ 8 \<and> bind_start terms < 256 ^ 4 \<and> bind_end terms < 256 ^ 4"
| "mac_sized (MacDelist txid nm) \<longleftrightarrow> length txid = 32"

lemma list_msg_inject:
  assumes "list_msg t n p a = list_msg t' n' p' a'" and "length t = length t'" and "length a = length a'"
    and "p < 256 ^ 8" and "p' < 256 ^ 8"
  shows "t = t' \<and> n = n' \<and> p = p' \<and> a = a'"
proof -
  have "t @ n @ (be_bytes 8 p @ a) = t' @ n' @ (be_bytes 8 p' @ a')" using assms(1) by (simp add: list_msg_def)
  then have "t = t' \<and> n = n' \<and> be_bytes 8 p @ a = be_bytes 8 p' @ a'"
    by (rule framed_inject) (use assms in simp_all)
  then show ?thesis using be_bytes_inj [of 8 p p'] assms(4,5) by simp
qed

lemma auction_msg_inject:
  assumes "auction_msg t n b a = auction_msg t' n' b' a'" and "length t = length t'" and "length a = length a'"
    and "mac_sized (MacAuction t n b a)" and "mac_sized (MacAuction t' n' b' a')"
  shows "t = t' \<and> n = n' \<and> b = b' \<and> a = a'"
proof -
  let ?w = "\<lambda>b. be_bytes 8 (bind_start_price b) @ be_bytes 8 (bind_min_price b) @ be_bytes 4 (bind_start b)
       @ be_bytes 4 (bind_end b)"
  have "t @ n @ (?w b @ a) = t' @ n' @ (?w b' @ a')" using assms(1) by (simp add: auction_msg_def)
  then have e: "t = t' \<and> n = n' \<and> ?w b @ a = ?w b' @ a'"
    by (rule framed_inject) (use assms in simp_all)
  then have "bind_start_price b = bind_start_price b'" "bind_min_price b = bind_min_price b'"
    "bind_start b = bind_start b'" "bind_end b = bind_end b'" "a = a'"
    using be_bytes_inj [of 8 "bind_start_price b" "bind_start_price b'"] be_bytes_inj [of 8 "bind_min_price b" "bind_min_price b'"]
      be_bytes_inj [of 4 "bind_start b" "bind_start b'"] be_bytes_inj [of 4 "bind_end b" "bind_end b'"] assms(4,5)
    by simp_all
  then show ?thesis using e by simp
qed

text \<open>A code binds its verb and every term it authorizes: the byte strings fed to the MAC for a
  buy, a listing, an auction and a delisting coincide only for the same verb, transaction, name,
  prices, blocks and payment address.\<close>

lemma mac_message_injective:
  assumes "mac_sized x" and "mac_sized y" and "mac_message x = mac_message y"
  shows "x = y"
proof (cases x)
  case (MacBuy t n)
  then show ?thesis
    using assms by (cases y) (simp_all add: buy_msg_def list_msg_def auction_msg_def delist_msg_def)
next
  case (MacDelist t n)
  then show ?thesis
    using assms by (cases y) (simp_all add: buy_msg_def list_msg_def auction_msg_def delist_msg_def)
next
  case X: (MacList t n p a)
  show ?thesis
  proof (cases y)
    case (MacList t' n' p' a')
    then show ?thesis using X assms list_msg_inject [of t n p a t' n' p' a'] by simp
  qed (use X assms in \<open>simp_all add: buy_msg_def list_msg_def auction_msg_def delist_msg_def\<close>)
next
  case X: (MacAuction t n b a)
  show ?thesis
  proof (cases y)
    case (MacAuction t' n' b' a')
    then show ?thesis using X assms auction_msg_inject [of t n b a t' n' b' a'] by simp
  qed (use X assms in \<open>simp_all add: buy_msg_def list_msg_def auction_msg_def delist_msg_def\<close>)
qed

section \<open>Answering and guessing\<close>

text \<open>The right answer spends exactly its challenge: what \<open>complete\<close> returns was relayed, has the
  response's code, name, verb and address, is the only challenge that could have answered it, and
  is gone from the queue, while every other challenge stays as it was.\<close>

lemma right_answer_spends_challenge:
  assumes "otp_inv q" and "otp_complete response q = (Some ch, q')"
  shows "(ch, Relayed) \<in> set (challenges q) \<and> request_key (ch_request ch) = memo_key response \<and>
    code_value (ch_code ch) = code_value (om_code response) \<and>
    challenges q' = filter (\<lambda>x. fst x \<noteq> ch) (challenges q)"
proof -
  obtain i where i: "i < length (challenges q)" "challenges q ! i = (ch, Relayed)"
    "named_by response ch Relayed" "code_value (ch_code ch) = code_value (om_code response)"
    "challenges q' = remove_at i (challenges q)"
    using otp_complete_Some [OF assms(2)] by blast
  have d: "distinct (map fst (challenges q))"
    using assms(1) unfolding otp_inv_def by (metis distinct_map map_map)
  have "remove_at i xs = filter (\<lambda>x. fst x \<noteq> fst (xs ! i)) xs"
    if "distinct (map fst xs)" "i < length xs" for xs :: "('a otp_challenge \<times> challenge_state) list"
    using that
  proof (induction xs arbitrary: i)
    case (Cons x xs)
    have ne: "fst y \<noteq> fst x" if "y \<in> set xs" for y
      using Cons.prems(1) that by (metis distinct.simps(2) imageI list.set_map list.simps(9))
    show ?case
    proof (cases i)
      case 0
      have "filter (\<lambda>y. fst y \<noteq> fst x) xs = xs" by (intro filter_True) (use ne in blast)
      with 0 show ?thesis by simp
    next
      case (Suc k)
      then have "fst x \<noteq> fst (xs ! k)" using Cons.prems ne by (metis Suc_less_eq length_Cons nth_mem)
      with Suc Cons show ?thesis by simp
    qed
  qed simp
  with i d show ?thesis using nth_mem [OF i(1)] by (simp add: named_by_key)
qed

abbreviation demo_request :: "string request" where
  "demo_request \<equiv> ReqRelease demo_alice ''u1abc''"

abbreviation demo_challenge :: "string otp_challenge" where
  "demo_challenge \<equiv> \<lparr>ch_request = demo_request, ch_code = OtpCode 42, ch_expires_at = 2000, ch_attempts = 0\<rparr>"

abbreviation demo_otp_queue :: "string otp_queue" where
  "demo_otp_queue \<equiv> \<lparr>challenges = [(demo_challenge, Relayed)]\<rparr>"

lemma demo_otp_inv: "otp_inv demo_otp_queue"
  by (simp add: otp_inv_def MAX_ATTEMPTS_def)

text \<open>C29: A challenge survives at most five wrong answers: after six responses that name one verb,
  name and address and none of which was right, no challenge they name is left, whatever else the
  queue holds.\<close>

theorem guesses_are_bounded:
  assumes "otp_inv q" and "\<forall>x. x \<in> set rs \<longrightarrow> memo_key x = k" and "6 \<le> length rs"
    and "answer_all rs q = (cs, q')" and "\<forall>c. c \<in> set cs \<longrightarrow> c = None"
  shows "(ch, Relayed) \<in> set (challenges q') \<longrightarrow> request_key (ch_request ch) \<noteq> k"
proof
  assume ch: "(ch, Relayed) \<in> set (challenges q')"
  have "otp_inv q'" using otp_inv_answer_all [OF assms(1), of rs] assms(4) by simp
  then have lt: "ch_attempts ch < MAX_ATTEMPTS" using ch by (auto simp: otp_inv_def)
  have "\<forall>(ch, st)\<in>set (challenges q'). st = Relayed \<longrightarrow> request_key (ch_request ch) = k \<longrightarrow>
      0 + length rs \<le> ch_attempts ch"
    by (rule wrong_answers_counted [OF _ assms(4)]) (use assms in auto)
  with ch have "request_key (ch_request ch) = k \<longrightarrow> length rs \<le> ch_attempts ch" by auto
  with lt assms(3) show "request_key (ch_request ch) \<noteq> k" by (auto simp: MAX_ATTEMPTS_def)
qed

abbreviation demo_wrong :: "string otp_memo" where
  "demo_wrong \<equiv> (challenge_memo demo_challenge)\<lparr>om_code := OtpCode 43\<rparr>"

lemma demo_wrong_step:
  "n < 5 \<Longrightarrow> otp_complete demo_wrong \<lparr>challenges = [(demo_challenge\<lparr>ch_attempts := n\<rparr>, Relayed)]\<rparr>
     = (None, \<lparr>challenges = [(demo_challenge\<lparr>ch_attempts := Suc n\<rparr>, Relayed)]\<rparr>)"
  "otp_complete demo_wrong \<lparr>challenges = [(demo_challenge\<lparr>ch_attempts := 5\<rparr>, Relayed)]\<rparr> = (None, \<lparr>challenges = []\<rparr>)"
  by (simp_all add: otp_complete_def challenge_memo_def named_by_def attempt_def MAX_ATTEMPTS_def)

theorem guesses_are_bounded_witness:
  "snd (answer_all (replicate 6 demo_wrong) demo_otp_queue) = \<lparr>challenges = []\<rparr> \<and>
   (demo_challenge, Relayed) \<notin> set (challenges (snd (answer_all (replicate 6 demo_wrong) demo_otp_queue)))"
proof -
  have z: "demo_otp_queue = \<lparr>challenges = [(demo_challenge\<lparr>ch_attempts := 0\<rparr>, Relayed)]\<rparr>" by simp
  have a: "answer_all (replicate 6 demo_wrong) demo_otp_queue = (replicate 6 None, \<lparr>challenges = []\<rparr>)"
    unfolding z using demo_wrong_step(1) [of 0] demo_wrong_step(1) [of 1] demo_wrong_step(1) [of 2]
      demo_wrong_step(1) [of 3] demo_wrong_step(1) [of 4] demo_wrong_step(2)
    by (simp add: numeral_eq_Suc)
  have k: "\<forall>x. x \<in> set (replicate 6 demo_wrong) \<longrightarrow> memo_key x = memo_key demo_wrong" by simp
  have n: "\<forall>c. c \<in> set (replicate 6 (None :: string otp_challenge option)) \<longrightarrow> c = None" by simp
  have "request_key (ch_request demo_challenge) = memo_key demo_wrong"
    by (simp add: request_key_def memo_key_def challenge_memo_def)
  with guesses_are_bounded [OF demo_otp_inv k _ a n, of demo_challenge] a show ?thesis by simp
qed

text \<open>C35: Issuing a challenge never gets stuck: while fewer than a million challenges are open there is
  a code no response could confuse, and as soon as the random source draws such a code (and the
  deadline is a representable time) the request is challenged and the queue stays well formed.\<close>

theorem challenge_issue_terminates:
  assumes "otp_inv q" and "length (challenges q) < 1000000" and "ts_ok E (mtp + D_OTP)"
    and "{c. valid_code c} \<subseteq> set draws"
  shows "\<exists>q'. otp_admit E draws request mtp q = Some q' \<and> otp_inv q' \<and>
    (\<exists>ch st. (ch, st) \<in> set (challenges q') \<and> ch_request ch = request)"
proof (cases "list_ex (\<lambda>(ch, _). ch_request ch = request) (challenges q)")
  case True
  then show ?thesis using assms(1) by (auto simp: otp_admit_def list_ex_iff)
next
  case False
  let ?taken = "(\<lambda>x. code_value (ch_code (fst x))) ` set (challenges q)"
  have "card ?taken < card {..<1000000 :: nat}"
    using assms(2) card_image_le [of "set (challenges q)"] card_length [of "challenges q"]
    by (metis (no_types, lifting) List.finite_set card_lessThan le_less_trans)
  then obtain v where v: "v < 1000000" "v \<notin> ?taken"
    by (metis card_mono finite_imageI List.finite_set lessThan_iff not_le subsetI)
  then have "OtpCode v \<in> set draws" using assms(4) by (auto simp: valid_code_def)
  moreover have "\<not> code_taken q request (OtpCode v)"
    using v(2) by (force simp: code_taken_def list_ex_iff)
  ultimately obtain c where c: "find (\<lambda>c. \<not> code_taken q request c) draws = Some c"
    by (metis find_None_iff option.exhaust)
  let ?q = "q\<lparr>challenges := challenges q @
      [(\<lparr>ch_request = request, ch_code = c, ch_expires_at = mtp + D_OTP, ch_attempts = 0\<rparr>, Requested)]\<rparr>"
  have a: "otp_admit E draws request mtp q = Some ?q"
    using False c assms(3) by (simp add: otp_admit_def ts_from_seconds_def)
  with otp_inv_admit [OF assms(1) a] show ?thesis by (intro exI [of _ ?q]) auto
qed

theorem challenge_issue_terminates_witness:
  "\<exists>q'. otp_admit demo_env (map OtpCode [0..<1000000]) demo_request 1000 otp_new = Some q' \<and> otp_inv q'"
proof -
  have "{c. valid_code c} \<subseteq> set (map OtpCode [0..<1000000])"
    unfolding valid_code_def set_map set_upt by (metis (mono_tags, lifting) atLeastLessThan_iff image_eqI le0
        mem_Collect_eq otp_code.collapse subsetI)
  from challenge_issue_terminates [OF otp_inv_new _ _ this, of demo_env 1000 demo_request]
  show ?thesis by (auto simp: otp_new_def demo_env_def D_OTP_def)
qed

section \<open>Prices\<close>

text \<open>Every representable price prints as text that reads back as the same price, so a quoted
  price and the price the mint checks are the same number of zatoshis.\<close>

lemma zec_roundtrip:
  assumes "z \<le> max_money E" and "max_money E \<le> U64_MAX"
  shows "decode_zec E (encode_zec z) = Some z"
  using assms by (rule decode_encode_zec)

text \<open>C34: A falling clock quotes its start price on its start block and its minimum on its end block,
  never rises, stays between the two, and quotes nothing outside its span.\<close>

theorem clock_price_law:
  assumes "clk_start_price c \<le> max_money E" and "max_money E \<le> U64_MAX" and "clock_is_valid c"
  shows "price_at E c (clk_start c) = Some (clk_start_price c) \<and>
    price_at E c (clk_end c) = Some (clk_min_price c) \<and>
    (\<forall>h. price_at E c h \<noteq> None \<longleftrightarrow> clk_start c \<le> h \<and> h \<le> clk_end c) \<and>
    (\<forall>h k p q. price_at E c h = Some p \<longrightarrow> price_at E c k = Some q \<longrightarrow> h \<le> k \<longrightarrow>
       q \<le> p \<and> clk_min_price c \<le> q \<and> p \<le> clk_start_price c)"
proof (intro conjI)
  note iff = price_at_Some_iff [OF assms(1,2)]
  show "price_at E c (clk_start c) = Some (clk_start_price c)"
    using assms(3) by (simp add: iff clock_is_valid_def)
  show "price_at E c (clk_end c) = Some (clk_min_price c)"
    using assms(3) by (simp add: iff clock_is_valid_def)
  show "\<forall>h. price_at E c h \<noteq> None \<longleftrightarrow> clk_start c \<le> h \<and> h \<le> clk_end c"
    using assms(3) iff by auto
  show "\<forall>h k p q. price_at E c h = Some p \<longrightarrow> price_at E c k = Some q \<longrightarrow> h \<le> k \<longrightarrow>
       q \<le> p \<and> clk_min_price c \<le> q \<and> p \<le> clk_start_price c"
    using price_at_antimono [OF assms(1,2)] price_at_range [OF assms(1,2)] by blast
qed

theorem clock_price_law_witness:
  "price_at demo_env \<lparr>clk_start_price = 100, clk_min_price = 10, clk_start = 5, clk_end = 8\<rparr> 8 = Some 10"
proof -
  let ?c = "\<lparr>clk_start_price = 100, clk_min_price = 10, clk_start = 5, clk_end = 8\<rparr>"
  have h: "clk_start_price ?c \<le> max_money demo_env" "max_money demo_env \<le> U64_MAX" "clock_is_valid ?c"
    by (simp_all add: demo_env_def U64_MAX_def clock_is_valid_def)
  from clock_price_law [OF h] show ?thesis by simp
qed

end
