(* ===== verification/Treasury_Tx.thy ===== *)
theory Treasury_Tx
  imports Treasury Otp
begin

text \<open>
  The Treasury's payments: \<open>issue_refund\<close> and \<open>challenge\<close> of \<open>src/mint/treasury.rs\<close> and the
  relays \<open>relay\<close> and \<open>relay_buy\<close> of \<open>src/mint.rs\<close>. Proposing, building and storing a
  transaction belongs to \<open>zcash_client_backend\<close> and the wallet, submitting it to the node: these
  are the fields of a parameter record. What the code decides is the payment it asks for, the
  pools it allows, and what it makes of each answer. The properties of the refund queue and of
  the vault sweep close the theory.
\<close>

section \<open>Payments\<close>

datatype pool = Sapling | Ironwood

record 'ua payment =
  pay_recipient :: 'ua
  pay_amount :: zat
  pay_memo :: "bytes option"

text \<open>The answers of \<open>propose_transfer\<close> the code tells apart.\<close>

datatype ('e, 'p) proposed = Proposed 'p | NoFunds | ScanRequired | ProposeError 'e

record ('ua, 'e, 'p, 'tx) tx_env =
  payment_ok :: "'ua payment \<Rightarrow> 'e + unit"
  propose :: "'ua payment \<Rightarrow> pool \<Rightarrow> pool list \<Rightarrow> ('e, 'p) proposed"
  create_proposed :: "'p \<Rightarrow> 'e + txid"
  stored_tx :: "txid \<Rightarrow> 'tx option"
  submit_tx :: "'tx \<Rightarrow> bool"

definition CHALLENGE_RELAY_VALUE :: zat where
  "CHALLENGE_RELAY_VALUE = 0"

text \<open>Building and looking up: the common end of the two payments.\<close>

definition build_and_store :: "('ua, 'e, 'p, 'tx) tx_env \<Rightarrow> 'p \<Rightarrow> ('e build_failure + 'tx) may_panic" where
  "build_and_store T proposal =
     (case create_proposed T proposal of
        Inl e \<Rightarrow> Some (Inl (Transaction e))
      | Inr txid \<Rightarrow> map_option Inr (stored_tx T txid))"

definition refund_payment :: "('ua, 'cm) zenv \<Rightarrow> 'ua refund_request \<Rightarrow> 'ua payment may_panic" where
  "refund_payment E refund =
     (case rf_note refund of
        None \<Rightarrow> Some \<lparr>pay_recipient = rf_recipient refund, pay_amount = rf_amount refund, pay_memo = None\<rparr>
      | Some sentence \<Rightarrow>
          map_option (\<lambda>memo. \<lparr>pay_recipient = rf_recipient refund, pay_amount = rf_amount refund,
              pay_memo = Some memo\<rparr>) (memo_from_bytes E sentence))"

definition issue_refund ::
  "('ua, 'cm) zenv \<Rightarrow> ('ua, 'e, 'p, 'tx) tx_env \<Rightarrow> 'ua refund_request \<Rightarrow>
     ('e build_failure + 'tx option) may_panic" where
  "issue_refund E T refund =
     (case refund_payment E refund of
        None \<Rightarrow> None
      | Some payment \<Rightarrow>
          if pay_memo payment \<noteq> None \<and> payment_ok T payment \<noteq> Inr () then None
          else (case propose T payment Ironwood [Sapling, Ironwood] of
              NoFunds \<Rightarrow> Some (Inr None)
            | ScanRequired \<Rightarrow> Some (Inr None)
            | ProposeError e \<Rightarrow> Some (Inl (Proposal e))
            | Proposed proposal \<Rightarrow> map_option (map_sum id Some) (build_and_store T proposal)))"

text \<open>\<open>challenge\<close>: every failed proposal, too little money included, is an error of the build.
  \<open>unfunded\<close> and \<open>unscanned\<close> are the error values of those two answers.\<close>

definition treasury_challenge ::
  "('ua, 'cm) zenv \<Rightarrow> ('ua, 'e, 'p, 'tx) tx_env \<Rightarrow> 'e \<Rightarrow> 'e \<Rightarrow> 'ua \<Rightarrow> bytes \<Rightarrow> ('e build_failure + 'tx) may_panic" where
  "treasury_challenge E T unfunded unscanned controller memo =
     (let payment = \<lparr>pay_recipient = controller, pay_amount = CHALLENGE_RELAY_VALUE, pay_memo = Some memo\<rparr>;
          pool = (if ua_has_orchard E controller then Ironwood else Sapling)
      in case payment_ok T payment of
           Inl e \<Rightarrow> Some (Inl (Proposal e))
         | Inr _ \<Rightarrow>
             (case propose T payment pool [pool] of
                NoFunds \<Rightarrow> Some (Inl (Proposal unfunded))
              | ScanRequired \<Rightarrow> Some (Inl (Proposal unscanned))
              | ProposeError e \<Rightarrow> Some (Inl (Proposal e))
              | Proposed proposal \<Rightarrow> build_and_store T proposal))"

section \<open>Relays\<close>

definition relay_memo ::
  "('ua, 'cm) zenv \<Rightarrow> ('ua, 'e, 'p, 'tx) tx_env \<Rightarrow> 'e \<Rightarrow> 'e \<Rightarrow> 'ua \<Rightarrow> bytes \<Rightarrow> bool may_panic" where
  "relay_memo E T unfunded unscanned controller memo =
     (case treasury_challenge E T unfunded unscanned controller memo of
        None \<Rightarrow> None
      | Some (Inl _) \<Rightarrow> Some False
      | Some (Inr tx) \<Rightarrow> Some (submit_tx T tx))"

definition relay ::
  "('ua, 'cm) zenv \<Rightarrow> ('ua, 'e, 'p, 'tx) tx_env \<Rightarrow> 'e \<Rightarrow> 'e \<Rightarrow> 'ua \<Rightarrow> 'ua otp_memo \<Rightarrow> bool may_panic" where
  "relay E T unfunded unscanned controller challenge =
     (case otp_memo_encode E challenge of
        None \<Rightarrow> if is_claim (om_action challenge) then None else Some False
      | Some memo \<Rightarrow> relay_memo E T unfunded unscanned controller memo)"

definition relay_buy ::
  "('ua, 'cm) zenv \<Rightarrow> ('ua, 'e, 'p, 'tx) tx_env \<Rightarrow> 'e \<Rightarrow> 'e \<Rightarrow> 'ua buy_otp \<Rightarrow> bool may_panic" where
  "relay_buy E T unfunded unscanned otp =
     (case buy_otp_encode E otp of
        None \<Rightarrow> Some False
      | Some memo \<Rightarrow> relay_memo E T unfunded unscanned (bo_ua otp) memo)"

section \<open>Properties\<close>

lemma build_and_store_ok:
  "build_and_store T p = Some (Inr tx) \<longleftrightarrow> (\<exists>txid. create_proposed T p = Inr txid \<and> stored_tx T txid = Some tx)"
  by (auto simp: build_and_store_def split: sum.splits)

lemma treasury_challenge_ok:
  "treasury_challenge E T u s c memo = Some (Inr tx) \<longleftrightarrow>
     (let payment = \<lparr>pay_recipient = c, pay_amount = 0, pay_memo = Some memo\<rparr>;
          pool = (if ua_has_orchard E c then Ironwood else Sapling)
      in payment_ok T payment = Inr () \<and>
         (\<exists>p. propose T payment pool [pool] = Proposed p \<and> build_and_store T p = Some (Inr tx)))"
  by (auto simp: treasury_challenge_def Let_def CHALLENGE_RELAY_VALUE_def split: sum.splits proposed.splits)

lemma relay_memo_True:
  "relay_memo E T u s c memo = Some True \<longleftrightarrow>
     (\<exists>tx. treasury_challenge E T u s c memo = Some (Inr tx) \<and> submit_tx T tx)"
  by (auto simp: relay_memo_def split: option.splits sum.splits)

text \<open>A challenge counts as relayed only when the node took a built transaction that pays the
  controller nothing, carries exactly the challenge's memo, and spends and returns change in one
  pool, the one the controller's address receives in; every other outcome leaves it to be
  retried.\<close>

lemma relay_iff_submitted:
  "relay E T unfunded unscanned controller challenge = Some True \<longleftrightarrow>
     (\<exists>memo p txid tx.
        otp_memo_encode E challenge = Some memo \<and>
        (let payment = \<lparr>pay_recipient = controller, pay_amount = 0, pay_memo = Some memo\<rparr>;
             pool = (if ua_has_orchard E controller then Ironwood else Sapling)
         in payment_ok T payment = Inr () \<and> propose T payment pool [pool] = Proposed p) \<and>
        create_proposed T p = Inr txid \<and> stored_tx T txid = Some tx \<and> submit_tx T tx)"
proof (cases "otp_memo_encode E challenge")
  case (Some memo)
  then show ?thesis
    unfolding relay_def by (auto simp: relay_memo_True treasury_challenge_ok build_and_store_ok Let_def)
qed (simp add: relay_def)

text \<open>The refund queue keeps exact accounts: an admitted refund pays the refundable amount less
  one hundred marginal fees, and only when something is left; paying removes that one refund and
  no other; and truncation keeps exactly the refunds of the surviving blocks.\<close>

lemma refund_accounts:
  "mset (refunds_due (refund_admit_with_note E m txid ua n h z s q)) =
     mset (refunds_due q) +
       (if m * 100 \<le> max_money E \<and> m * 100 < z
        then {#\<lparr>rf_payment = txid, rf_recipient = ua, rf_amount = z - m * 100, rf_name = n,
                rf_height = h, rf_note = s\<rparr>#} else {#}) \<and>
   mset (refunds_due (refund_paid built q)) = mset (refunds_due q) - {#built#} \<and>
   refunds_due (refund_truncate_to a (refund_admit_with_note E m txid ua n h z s q)) =
     (if h \<le> a then refunds_due (refund_admit_with_note E m txid ua n h z s (refund_truncate_to a q))
      else refunds_due (refund_truncate_to a q))"
proof (intro conjI)
  have "refund_output E m z =
      (if m * 100 \<le> max_money E \<and> m * 100 < z then Some (z - m * 100) else None)"
    using refund_output_iff [of E m z] by (metis option.exhaust)
  then show "mset (refunds_due (refund_admit_with_note E m txid ua n h z s q)) =
     mset (refunds_due q) +
       (if m * 100 \<le> max_money E \<and> m * 100 < z
        then {#\<lparr>rf_payment = txid, rf_recipient = ua, rf_amount = z - m * 100, rf_name = n,
                rf_height = h, rf_note = s\<rparr>#} else {#})"
    by (simp add: refund_admit_with_note_def)
  show "mset (refunds_due (refund_paid built q)) = mset (refunds_due q) - {#built#}"
  proof (cases "position (\<lambda>x. x = built) (refunds_due q)")
    case None
    then have "built \<notin># mset (refunds_due q)" by (auto simp: position_None_iff)
    with None show ?thesis by (simp add: refund_paid_def diff_single_trivial)
  next
    case (Some i)
    with position_less [OF Some] position_holds [OF Some] show ?thesis
      by (simp add: refund_paid_def mset_remove_at)
  qed
  show "refunds_due (refund_truncate_to a (refund_admit_with_note E m txid ua n h z s q)) =
     (if h \<le> a then refunds_due (refund_admit_with_note E m txid ua n h z s (refund_truncate_to a q))
      else refunds_due (refund_truncate_to a q))"
    by (simp add: refund_truncate_to_def refund_admit_with_note_def split: option.splits)
qed

text \<open>The vault sweep leaves the operating float: a sweep is built exactly when the wallet could
  send at least the minimum and the reserve together, and then it pays the vault what it could
  send less the reserve of a hundredth of a ZEC.\<close>

lemma sweep_keeps_reserve:
  "sweep_to_vault send_max propose_transfer create lookup = Some (Inr (Some tx)) \<longleftrightarrow>
     (\<exists>z p txid. send_max = SendMax (Inr (Some z)) \<and> SWEEP_MINIMUM + SWEEP_RESERVE \<le> z \<and>
        propose_transfer (z - SWEEP_RESERVE) = Inr p \<and> create p = Inr txid \<and> lookup txid = Some tx)"
proof -
  have propose: "propose_vault_sweep send_max propose_transfer = Inr (Some p) \<longleftrightarrow>
      (\<exists>z. send_max = SendMax (Inr (Some z)) \<and> SWEEP_MINIMUM + SWEEP_RESERVE \<le> z \<and>
        propose_transfer (z - SWEEP_RESERVE) = Inr p)" for p
    by (auto simp: propose_vault_sweep_def zat_sub_def Let_def SWEEP_MINIMUM_def SWEEP_RESERVE_def
        split: send_max.splits sum.splits option.splits if_splits)
  have "sweep_to_vault send_max propose_transfer create lookup = Some (Inr (Some tx)) \<longleftrightarrow>
      (\<exists>p txid. propose_vault_sweep send_max propose_transfer = Inr (Some p) \<and> create p = Inr txid \<and>
        lookup txid = Some tx)"
    by (auto simp: sweep_to_vault_def split: sum.splits option.splits)
  then show ?thesis unfolding propose by blast
qed

end
