(* ===== verification/Registry_Inv.thy ===== *)
theory Registry_Inv
  imports Registry
begin

text \<open>
  The Registry's invariant, kept by every operation, and the rollback: truncating to a height
  gives the registry that had applied only the blocks up to it.
\<close>

section \<open>The invariant\<close>

definition live_entry :: "('ua, 'cm) name_record list \<Rightarrow> ('ua, 'cm) name_record option" where
  "live_entry rs = (if rs \<noteq> [] \<and> \<not> is_release (nr_action (last rs)) then Some (last rs) else None)"

definition history_ok :: "(name, ('ua, 'cm) name_record list) btree \<Rightarrow> bool" where
  "history_ok m \<longleftrightarrow>
     bt_ok m \<and>
     (\<forall>n rs. bt_get m n = Some rs \<longrightarrow>
        rs \<noteq> [] \<and> (\<forall>rec\<in>set rs. nr_name rec = n) \<and> sorted (map nr_confirmed_height rs))"

definition reg_inv :: "('ua, 'cm) registry \<Rightarrow> bool" where
  "reg_inv r \<longleftrightarrow>
     history_ok (history r) \<and> bt_ok (records r) \<and> bt_ok (listings r) \<and>
     (\<forall>n. record_of r n = live_entry (record_history r n))"

definition reg_at :: "height \<Rightarrow> ('ua, 'cm) registry \<Rightarrow> bool" where
  "reg_at t r \<longleftrightarrow>
     reg_inv r \<and> pool_at t (anchors r) \<and>
     (\<forall>n. \<forall>rec\<in>set (record_history r n). nr_confirmed_height rec \<le> t)"

lemma reg_at_inv: "reg_at t r \<Longrightarrow> reg_inv r"
  by (simp add: reg_at_def)

lemma reg_inv_ok: "reg_inv r \<Longrightarrow> bt_ok (history r) \<and> bt_ok (records r) \<and> bt_ok (listings r)"
  by (simp add: reg_inv_def history_ok_def)

lemma record_history_name:
  "reg_inv r \<Longrightarrow> rec \<in> set (record_history r n) \<Longrightarrow> nr_name rec = n"
  by (cases "bt_get (history r) n") (auto simp: reg_inv_def history_ok_def record_history_def)

lemma record_history_sorted: "reg_inv r \<Longrightarrow> sorted (map nr_confirmed_height (record_history r n))"
  by (cases "bt_get (history r) n") (auto simp: reg_inv_def history_ok_def record_history_def)

lemma record_of_last: "reg_inv r \<Longrightarrow> record_of r n = Some rec \<Longrightarrow> record_history r n \<noteq> [] \<and>
    rec = last (record_history r n) \<and> \<not> is_release (nr_action rec)"
  by (auto simp: reg_inv_def live_entry_def split: if_splits)

lemma record_of_name: "reg_inv r \<Longrightarrow> record_of r n = Some rec \<Longrightarrow> nr_name rec = n"
  using record_of_last record_history_name last_in_set by metis

lemma reg_at_record: "reg_at t r \<Longrightarrow> record_of r n = Some rec \<Longrightarrow> nr_confirmed_height rec \<le> t"
  using record_of_last reg_at_inv last_in_set unfolding reg_at_def by metis

section \<open>Setting a record\<close>

lemma history_set_record:
  assumes "bt_ok (history r)"
  shows "record_history (set_record rec r) n =
    (if n = nr_name rec then record_history r n @ [rec] else record_history r n)"
  using assms by (auto simp: set_record_def record_history_def bt_simps)

lemma record_set_record:
  assumes "bt_ok (records r)"
  shows "record_of (set_record rec r) n =
    (if n = nr_name rec then (if is_release (nr_action rec) then None else Some rec) else record_of r n)"
  using assms by (auto simp: set_record_def record_of_def bt_simps)

lemma reg_at_set_record:
  assumes "reg_at t r" and "t \<le> nr_confirmed_height rec"
  shows "reg_at (nr_confirmed_height rec) (set_record rec r)"
proof -
  let ?r = "set_record rec r"
  have inv: "reg_inv r" and ok: "bt_ok (history r)" "bt_ok (records r)" "bt_ok (listings r)"
    using assms(1) reg_inv_ok reg_at_inv by blast+
  have le: "\<forall>x\<in>set (record_history r n). nr_confirmed_height x \<le> nr_confirmed_height rec" for n
    using assms by (meson order_trans reg_at_def)
  have "history_ok (history ?r)" unfolding history_ok_def
  proof (intro conjI allI impI)
    show "bt_ok (history ?r)" using ok by (simp add: set_record_def bt.ok_upd)
    fix n rs
    assume "bt_get (history ?r) n = Some rs"
    then have rs: "rs = record_history ?r n" and n: "n = nr_name rec \<or> bt_get (history r) n = Some rs"
      using ok by (auto simp: record_history_def set_record_def bt_simps split: if_splits)
    have e: "rs = (if n = nr_name rec then record_history r n @ [rec] else record_history r n)"
      using rs by (simp only: history_set_record [OF ok(1)])
    have "bt_get (history r) n = Some rs \<Longrightarrow> rs \<noteq> []"
      using inv unfolding reg_inv_def history_ok_def by blast
    with n e show "rs \<noteq> []" by auto
    show "\<forall>x\<in>set rs. nr_name x = n"
      unfolding e using record_history_name [OF inv] by auto
    show "sorted (map nr_confirmed_height rs)"
      unfolding e using record_history_sorted [OF inv, of n] le [of n] by (auto simp: sorted_append)
  qed
  moreover have "record_of ?r n = live_entry (record_history ?r n)" for n
    unfolding history_set_record [OF ok(1)] record_set_record [OF ok(2)]
    using inv by (auto simp: live_entry_def reg_inv_def)
  moreover have "bt_ok (records ?r)" "bt_ok (listings ?r)"
    using ok by (simp_all add: set_record_def bt.ok_upd bt.ok_del)
  ultimately have "reg_inv ?r" by (simp add: reg_inv_def)
  moreover have "pool_at (nr_confirmed_height rec) (anchors ?r)"
    using assms pool_at_mono by (auto simp: reg_at_def set_record_def)
  ultimately show ?thesis
    using le by (auto simp: reg_at_def history_set_record [OF ok(1)] split: if_splits)
qed

lemma reg_at_mono: "reg_at t r \<Longrightarrow> t \<le> h \<Longrightarrow> reg_at h r"
  unfolding reg_at_def using pool_at_mono order_trans by blast

section \<open>Truncating histories\<close>

lemma get_truncate_history:
  "bt_ok m \<Longrightarrow> bt_get (truncate_history h m) n =
     (case bt_get m n of None \<Rightarrow> None
      | Some rs \<Rightarrow> if pop_above h rs = [] then None else Some (pop_above h rs))"
proof -
  assume "bt_ok m"
  then have d: "distinct (map fst (map (\<lambda>(n, rs). (n, pop_above h rs)) m))"
    using bt_ok_distinct by (auto simp: comp_def case_prod_beta)
  have "map_of (map (\<lambda>(n, rs). (n, pop_above h rs)) m) n = map_option (pop_above h) (map_of m n)"
    by (simp add: map_of_map)
  then show ?thesis
    unfolding truncate_history_def bt_get_def
    by (subst bt_get_filter [OF d]) (auto split: option.splits)
qed

lemma bt_ok_truncate_history: "bt_ok m \<Longrightarrow> bt_ok (truncate_history h m)"
proof -
  have "map fst (map (\<lambda>(n, rs). (n, pop_above h rs)) m) = map fst m" by auto
  then show "bt_ok m \<Longrightarrow> ?thesis"
    unfolding truncate_history_def by (intro bt_ok_filter) (simp only: bt_ok_def)
qed

lemma pop_above_append: "h < nr_confirmed_height rec \<Longrightarrow> pop_above h (rs @ [rec]) = pop_above h rs"
  by (simp add: pop_above_def)

lemma pop_above_id: "\<forall>rec\<in>set rs. nr_confirmed_height rec \<le> h \<Longrightarrow> pop_above h rs = rs"
  by (cases rs rule: rev_cases) (auto simp: pop_above_def)

lemma truncate_history_set_record:
  assumes "bt_ok (history r)" and "h < nr_confirmed_height rec"
  shows "truncate_history h (history (set_record rec r)) = truncate_history h (history r)"
proof (rule bt.ext_lookup)
  show "bt_ok (truncate_history h (history r))" using assms(1) by (rule bt_ok_truncate_history)
  have ok: "bt_ok (history (set_record rec r))" using assms(1) by (simp add: set_record_def bt.ok_upd)
  then show "bt_ok (truncate_history h (history (set_record rec r)))" by (rule bt_ok_truncate_history)
  show "bt_get (truncate_history h (history (set_record rec r))) = bt_get (truncate_history h (history r))"
  proof
    fix n
    have "pop_above h [rec] = []" "pop_above h [] = []" using assms(2) by (simp_all add: pop_above_def)
    then show "bt_get (truncate_history h (history (set_record rec r))) n
        = bt_get (truncate_history h (history r)) n"
      using get_truncate_history [OF ok] get_truncate_history [OF assms(1)] pop_above_append [OF assms(2)]
        assms(1)
      by (auto simp: set_record_def record_history_def bt_simps split: option.splits)
  qed
qed

lemma truncate_set_record:
  assumes "bt_ok (history r)" and "h < nr_confirmed_height rec"
  shows "truncate_to_height h (set_record rec r) = truncate_to_height h r"
  using truncate_history_set_record [OF assms]
  by (simp add: truncate_to_height_def Let_def) (simp add: set_record_def)

text \<open>Rebuilding the records from well-formed histories finds each name's live entry.\<close>

lemma rebuild_fold:
  assumes "distinct (map fst m)" and "\<forall>(n, rs)\<in>set m. \<forall>rec\<in>set rs. nr_name rec = n" and "bt_ok acc"
  defines "f \<equiv> \<lambda>(_ :: name, rs) acc. if rs \<noteq> [] \<and> \<not> is_release (nr_action (last rs))
         then bt_insert (nr_name (last rs)) (last rs) acc else acc"
  shows "bt_ok (fold f m acc) \<and> bt_get (fold f m acc) n =
      (case map_of m n of Some rs \<Rightarrow> (case live_entry rs of Some rec \<Rightarrow> Some rec | None \<Rightarrow> bt_get acc n)
       | None \<Rightarrow> bt_get acc n)"
  using assms(1-3)
proof (induction m arbitrary: acc)
  case (Cons x m)
  obtain k rs where x: "x = (k, rs)" by force
  have ok: "bt_ok (f x acc)" using Cons.prems(3) x by (simp add: f_def bt.ok_upd)
  have d: "distinct (map fst m)" "\<forall>(n, rs)\<in>set m. \<forall>rec\<in>set rs. nr_name rec = n"
    using Cons.prems by auto
  have nm: "rs \<noteq> [] \<Longrightarrow> nr_name (last rs) = k" using Cons.prems(2) x by simp
  have "bt_get (f x acc) n = (if n = k then (case live_entry rs of Some rec \<Rightarrow> Some rec | None \<Rightarrow> bt_get acc n)
      else bt_get acc n)"
    using nm Cons.prems(3) x by (auto simp: f_def live_entry_def bt_simps)
  moreover have "map_of m k = None"
    using Cons.prems(1) x by (simp add: map_of_eq_None_iff)
  ultimately show ?case using Cons.IH [OF d ok] x by (auto split: option.splits)
qed simp

lemma rebuild_records_ok:
  assumes "history_ok m"
  shows "bt_ok (rebuild_records m)"
    and "bt_get (rebuild_records m) n = (case bt_get m n of Some rs \<Rightarrow> live_entry rs | None \<Rightarrow> None)"
proof -
  have m: "distinct (map fst m)" "\<forall>(n, rs)\<in>set m. \<forall>rec\<in>set rs. nr_name rec = n"
    using assms bt_ok_distinct bt.entries_lookup unfolding history_ok_def by (blast, fastforce)
  show "bt_ok (rebuild_records m)"
    using rebuild_fold [OF m, of "[]"] by (simp add: rebuild_records_def)
  show "bt_get (rebuild_records m) n = (case bt_get m n of Some rs \<Rightarrow> live_entry rs | None \<Rightarrow> None)"
    using rebuild_fold [OF m, of "[]" n] by (auto simp: rebuild_records_def bt_get_def [of m] split: option.splits)
qed

lemma truncate_history_id:
  assumes "history_ok m" and "\<forall>n rs. bt_get m n = Some rs \<longrightarrow> (\<forall>rec\<in>set rs. nr_confirmed_height rec \<le> h)"
  shows "truncate_history h m = m"
proof (rule bt.ext_lookup)
  have ok: "bt_ok m" using assms(1) by (simp add: history_ok_def)
  then show "bt_ok m" "bt_ok (truncate_history h m)" by (simp_all add: bt_ok_truncate_history)
  show "bt_get (truncate_history h m) = bt_get m"
  proof
    fix n
    show "bt_get (truncate_history h m) n = bt_get m n"
      using get_truncate_history [OF ok, of h n] assms pop_above_id [of "the (bt_get m n)" h]
      by (cases "bt_get m n") (auto simp: history_ok_def)
  qed
qed

lemma truncate_reg_at:
  assumes "reg_at t r"
  shows "truncate_to_height t r = r"
proof -
  have h: "history_ok (history r)" and ok: "bt_ok (records r)"
    using assms by (auto simp: reg_at_def reg_inv_def)
  have le: "\<forall>n rs. bt_get (history r) n = Some rs \<longrightarrow> (\<forall>rec\<in>set rs. nr_confirmed_height rec \<le> t)"
    using assms by (auto simp: reg_at_def record_history_def split: option.splits)
      (metis option.simps(5))
  have "rebuild_records (history r) = records r"
  proof (rule bt.ext_lookup [OF rebuild_records_ok(1) [OF h] ok], rule ext)
    fix n
    have "bt_get (records r) n = live_entry (record_history r n)"
      using assms unfolding reg_at_def reg_inv_def record_of_def by blast
    then show "bt_get (rebuild_records (history r)) n = bt_get (records r) n"
      using rebuild_records_ok(2) [OF h, of n]
      by (cases "bt_get (history r) n") (simp_all add: record_history_def live_entry_def)
  qed
  then show ?thesis
    using truncate_history_id [OF h le] truncate_at assms
    by (simp add: truncate_to_height_def reg_at_def)
qed

section \<open>Every operation of a block advances the registry\<close>

definition advances :: "height \<Rightarrow> ('ua, 'cm) registry \<Rightarrow> ('ua, 'cm) registry \<Rightarrow> bool" where
  "advances h r r' \<longleftrightarrow>
     (\<forall>t n. reg_at t r \<longrightarrow> t \<le> h \<longrightarrow>
        reg_at h r' \<and> (n < h \<longrightarrow> truncate_to_height n r' = truncate_to_height n r))"

lemma advances_refl: "advances h r r"
  using reg_at_mono by (auto simp: advances_def)

lemma advances_trans: "advances h r r' \<Longrightarrow> advances h r' r'' \<Longrightarrow> advances h r r''"
  unfolding advances_def by (metis order_refl)

lemma advances_set_record: "nr_confirmed_height rec = h \<Longrightarrow> advances h r (set_record rec r)"
  unfolding advances_def
  using reg_at_set_record truncate_set_record reg_inv_ok reg_at_inv by metis

lemma advances_anchors:
  assumes "\<And>t. pool_at t (anchors r) \<Longrightarrow> t \<le> h \<Longrightarrow> pool_at h p"
    and "\<And>n. bt_ok (checkpoints (anchors r)) \<Longrightarrow> n < h \<Longrightarrow>
      pool_truncate_to n p = pool_truncate_to n (anchors r)"
  shows "advances h r (r\<lparr>anchors := p\<rparr>)"
  unfolding advances_def
proof (intro allI impI conjI)
  fix t n
  assume r: "reg_at t r" and t: "t \<le> h"
  then have p: "pool_at t (anchors r)" by (simp add: reg_at_def)
  have "record_of (r\<lparr>anchors := p\<rparr>) = record_of r" "record_history (r\<lparr>anchors := p\<rparr>) = record_history r"
    by (simp_all add: fun_eq_iff record_of_def record_history_def)
  with reg_at_mono [OF r t] assms(1) [OF p t] show "reg_at h (r\<lparr>anchors := p\<rparr>)"
    by (simp add: reg_at_def reg_inv_def)
  have "bt_ok (checkpoints (anchors r))" using p unfolding pool_at_def pool_inv_def by blast
  with assms(2) show "n < h \<Longrightarrow> truncate_to_height n (r\<lparr>anchors := p\<rparr>) = truncate_to_height n r"
    by (simp add: truncate_to_height_def)
qed

lemma advances_retire: "advances h r (registry_retire nfs s h r)"
  unfolding registry_retire_def
  by (rule advances_anchors) (simp_all add: pool_at_retire_spent truncate_retire_spent)

lemma advances_adopt: "advances h r (adopt_anchor h nf r)"
  unfolding adopt_anchor_def
  by (rule advances_anchors) (simp_all add: pool_at_adopt truncate_adopt)

lemma advances_mark_released: "advances h r (mark_released nfs h r)"
proof -
  have one: "advances h r (mark_released_one h n r)" for n and r :: "('a, 'b) registry"
    by (auto simp: mark_released_one_def advances_refl advances_set_record split: option.splits)
  have "advances h r (fold (mark_released_one h) ns r)" for ns and r :: "('a, 'b) registry"
  proof (induction ns arbitrary: r)
    case (Cons n ns)
    then show ?case using one advances_trans by fastforce
  qed (simp add: advances_refl)
  then show ?thesis by (simp add: mark_released_def)
qed

lemma advances_follow: "advances h r (follow_spends nfs h r)"
  unfolding follow_spends_def using advances_retire advances_mark_released advances_trans by blast

lemma record_create_height:
  "record_create E nt nf h mtp = Some rec \<Longrightarrow> nr_confirmed_height rec = h \<and> nr_name rec = note_name nt \<and>
     nr_action rec = note_action nt \<and> nr_predecessor_nullifier rec = nf \<and> nr_ua rec = note_ua nt \<and>
     nr_commitment rec = note_commitment E nt"
  by (auto simp: record_create_def)

lemma advances_accept_claim:
  assumes "accept_claim E nt nf successor nfs h mtp expiry r = Some (b, r')"
  shows "advances h r r'"
proof -
  have s: "advances h r (set_record rec (registry_retire nfs s h r))"
    if "record_create E nt nf h mtp = Some rec" for rec s
    using advances_trans [OF advances_retire advances_set_record] record_create_height [OF that] by blast
  have m: "advances h r (mark_released nfs h (registry_retire nfs s h r))" for s
    using advances_retire advances_mark_released advances_trans by blast
  show ?thesis
    using assms s m advances_retire
    by (auto simp: accept_claim_def Let_def split: if_splits)
qed

lemma advances_accept_successor:
  assumes "accept_successor E nt nf nfs h mtp r = Some (b, r')"
  shows "advances h r r'"
  using assms advances_follow advances_set_record record_create_height
  by (fastforce simp: accept_successor_def release_predecessor_def split: option.splits if_splits)

lemmas accept_defs = accept_update_def accept_release_def accept_sale_def

section \<open>The rollback\<close>

datatype ('ua, 'cm) reg_event =
    RegClaim "('ua, 'cm) name_note" nullifier "nullifier option" "nullifier list" timestamp height
  | RegSuccessor "('ua, 'cm) name_note" nullifier "nullifier list" timestamp
  | RegFollow "nullifier list"
  | RegAdopt nullifier

text \<open>What one event of a block at \<open>h\<close> does; a successor note goes to the acceptor of its verb.\<close>

definition reg_step ::
  "('ua, 'cm) zenv \<Rightarrow> height \<Rightarrow> ('ua, 'cm) reg_event \<Rightarrow> ('ua, 'cm) registry \<Rightarrow> ('ua, 'cm) registry option" where
  "reg_step E h e r =
     (case e of
        RegClaim nt nf s nfs mtp expiry \<Rightarrow> map_option snd (accept_claim E nt nf s nfs h mtp expiry r)
      | RegSuccessor nt nf nfs mtp \<Rightarrow>
          map_option snd
            (case note_action nt of
               ActUpdate \<Rightarrow> accept_update E nt nf nfs h mtp r
             | ActRelease \<Rightarrow> accept_release E nt nf nfs h mtp r
             | ActSale \<Rightarrow> accept_sale E nt nf nfs h mtp r
             | _ \<Rightarrow> None)
      | RegFollow nfs \<Rightarrow> Some (follow_spends nfs h r)
      | RegAdopt nf \<Rightarrow> Some (adopt_anchor h nf r))"

lemma advances_step: "reg_step E h e r = Some r' \<Longrightarrow> advances h r r'"
  by (auto simp: reg_step_def accept_defs advances_accept_claim advances_accept_successor
      advances_follow advances_adopt split: reg_event.splits action.splits)

lemma reg_at_new: "reg_at t registry_new"
  by (simp add: reg_at_def reg_inv_def history_ok_def registry_new_def pool_at_default record_of_def
      record_history_def live_entry_def)

interpretation reg: rewindable "reg_step E" truncate_to_height reg_at for E
proof unfold_locales
  fix t h n :: height and r r' :: "('a, 'b) registry" and e
  assume r: "reg_at t r"
  show "t \<le> h \<Longrightarrow> reg_at h r" using r reg_at_mono by blast
  show "t \<le> h \<Longrightarrow> reg_step E h e r = Some r' \<Longrightarrow> reg_at h r'"
    using r advances_step unfolding advances_def by blast
  show "t \<le> h \<Longrightarrow> n < h \<Longrightarrow> reg_step E h e r = Some r' \<Longrightarrow>
      truncate_to_height n r' = truncate_to_height n r"
    using r advances_step unfolding advances_def by blast
  show "truncate_to_height t r = r" by (rule truncate_reg_at [OF r])
qed

end
