(* ===== verification/Registry_Laws.thy ===== *)
theory Registry_Laws
  imports Registry_Inv Demo_Env
begin

text \<open>
  The Registry's contract: which confirmed transitions it accepts, that it always follows what
  the chain spent, that claim authority is conserved, and that a rollback forgets exactly the
  blocks above its target.
\<close>

section \<open>Following the spends\<close>

definition keyed_records :: "('ua, 'cm) registry \<Rightarrow> bool" where
  "keyed_records r \<longleftrightarrow> bt_ok (records r) \<and> (\<forall>n rec. record_of r n = Some rec \<longrightarrow> nr_name rec = n)"

lemma reg_inv_keyed: "reg_inv r \<Longrightarrow> keyed_records r"
  using reg_inv_ok record_of_name unfolding keyed_records_def by blast

lemma keyed_set_record: "keyed_records r \<Longrightarrow> keyed_records (set_record rec r)"
  by (auto simp: keyed_records_def record_set_record set_record_def [of _ r] bt.ok_upd bt.ok_del
      split: if_splits)
    (auto simp: record_of_def bt_simps split: if_splits)

lemma mark_one:
  assumes "keyed_records r"
  shows "keyed_records (mark_released_one h n r)"
    and "record_of (mark_released_one h n r) m = (if m = n then None else record_of r m)"
proof -
  have nm: "record_of r n = Some rec \<Longrightarrow> nr_name rec = n" for rec
    using assms by (simp add: keyed_records_def)
  have ok: "bt_ok (records r)" using assms by (simp add: keyed_records_def)
  show "keyed_records (mark_released_one h n r)"
    using assms by (auto simp: mark_released_one_def keyed_set_record split: option.splits)
  show "record_of (mark_released_one h n r) m = (if m = n then None else record_of r m)"
    using nm by (auto simp: mark_released_one_def record_set_record [OF ok] is_release_def
        split: option.splits)
qed

lemma fold_mark:
  "keyed_records r \<Longrightarrow> keyed_records (fold (mark_released_one h) ns r) \<and>
     record_of (fold (mark_released_one h) ns r) m = (if m \<in> set ns then None else record_of r m)"
proof (induction ns arbitrary: r)
  case (Cons n ns)
  then show ?case using mark_one [OF Cons.prems, of h n] by auto
qed simp

lemma names_spent_by_iff:
  "bt_ok (records r) \<Longrightarrow> n \<in> set (names_spent_by r nfs) \<longleftrightarrow>
     (\<exists>rec. record_of r n = Some rec \<and> nr_predecessor_nullifier rec \<in> set nfs)"
  using bt.select_keys [of "records r" n "\<lambda>_ rec. nr_predecessor_nullifier rec \<in> set nfs"]
  by (simp add: names_spent_by_def record_of_def)

lemma names_spent_by_anchors [simp]: "names_spent_by (registry_retire nfs s h r) = names_spent_by r"
  by (simp add: fun_eq_iff names_spent_by_def registry_retire_def)

lemma record_of_retire [simp]: "record_of (registry_retire nfs s h r) = record_of r"
  by (simp add: fun_eq_iff record_of_def registry_retire_def)

lemma keyed_retire [simp]: "keyed_records (registry_retire nfs s h r) \<longleftrightarrow> keyed_records r"
  unfolding keyed_records_def by (simp add: registry_retire_def record_of_def)

lemma record_mark_released:
  assumes "keyed_records r"
  shows "record_of (mark_released nfs h r) m =
    (case record_of r m of None \<Rightarrow> None
     | Some rec \<Rightarrow> if nr_predecessor_nullifier rec \<in> set nfs then None else Some rec)"
proof -
  have ok: "bt_ok (records r)" using assms by (simp add: keyed_records_def)
  show ?thesis
    using fold_mark [OF assms, of h "names_spent_by r nfs" m] names_spent_by_iff [OF ok, of m nfs]
    by (cases "record_of r m") (auto simp: mark_released_def)
qed

lemma anchors_set_record [simp]: "anchors (set_record rec r) = anchors r"
  by (simp add: set_record_def)

lemma anchors_mark_released [simp]: "anchors (mark_released nfs h r) = anchors r"
proof -
  have "anchors (fold (mark_released_one h) ns r) = anchors r" for ns and r :: "('a, 'b) registry"
    by (induction ns arbitrary: r) (auto simp: mark_released_one_def split: option.splits)
  then show ?thesis by (simp add: mark_released_def)
qed

lemma anchors_retire [simp]: "anchors (registry_retire nfs s h r) = retire_spent nfs s h (anchors r)"
  by (simp add: registry_retire_def)

text \<open>Nothing the nullifiers \<open>nfs\<close> spent is live in \<open>r\<close>.\<close>

definition follows :: "nullifier list \<Rightarrow> ('ua, 'cm) registry \<Rightarrow> bool" where
  "follows nfs r \<longleftrightarrow>
     (\<forall>n rec. record_of r n = Some rec \<longrightarrow> nr_predecessor_nullifier rec \<notin> set nfs) \<and>
     set (live (anchors r)) \<inter> set nfs = {}"

lemma follows_set_record:
  assumes "bt_ok (records r)" and "\<And>n rec. n \<noteq> nr_name new \<Longrightarrow> record_of r n = Some rec \<Longrightarrow>
      nr_predecessor_nullifier rec \<notin> set nfs"
    and "nr_predecessor_nullifier new \<notin> set nfs" and "set (live (anchors r)) \<inter> set nfs = {}"
  shows "follows nfs (set_record new r)"
  using assms by (auto simp: follows_def record_set_record [OF assms(1)] split: if_splits)

lemma follows_mark_released:
  assumes "keyed_records r" and "set (live (anchors r)) \<inter> set nfs = {}"
  shows "follows nfs (mark_released nfs h r)"
  using assms(2) by (auto simp: follows_def record_mark_released [OF assms(1)] split: option.splits if_splits)

lemma retire_disjoint:
  assumes "bs_ok (live p)" and "\<forall>s. successor = Some s \<longrightarrow> s \<notin> set nfs"
  shows "set (live (retire_spent nfs successor h p)) \<inter> set nfs = {}"
  using assms(2) by (cases successor) (auto simp: live_retire_spent [OF assms(1)])

lemma follow_spends_follows:
  assumes "reg_at t r"
  shows "follows nfs (follow_spends nfs h r)"
proof -
  have "bs_ok (live (anchors r))" using assms unfolding reg_at_def pool_at_def pool_inv_def by blast
  then have "set (live (retire_spent nfs None h (anchors r))) \<inter> set nfs = {}"
    by (rule retire_disjoint) simp
  then show ?thesis unfolding follow_spends_def
    by (intro follows_mark_released) (use assms in \<open>simp_all add: reg_inv_keyed reg_at_inv\<close>)
qed

lemma accept_successor_follows:
  assumes r: "reg_at t r" and a: "accept_successor E nt nf nfs h mtp r = Some (b, r')"
    and nf: "nf \<notin> set nfs"
  shows "follows nfs r'"
proof (cases "predecessor_spent r nt nfs")
  case None
  with a have "r' = follow_spends nfs h r" by (simp add: accept_successor_def)
  with follow_spends_follows [OF r] show ?thesis by simp
next
  case (Some rec)
  have ok: "bt_ok (records r)" using r reg_inv_ok reg_at_inv by blast
  from Some have sp: "names_spent_by r nfs = [note_name nt]"
    and an: "\<not> list_ex (pool_contains (anchors r)) nfs"
    by (auto simp: predecessor_spent_def Let_def split: if_splits)
  have other: "nr_predecessor_nullifier x \<notin> set nfs"
    if "n \<noteq> note_name nt" "record_of r n = Some x" for n x
    using names_spent_by_iff [OF ok, of n nfs] sp that by auto
  have dis: "set (live (anchors r)) \<inter> set nfs = {}"
    using an by (auto simp: list_ex_iff pool_contains_def)
  from a Some obtain new where new: "r' = set_record new r" "nr_name new = note_name nt"
    "nr_predecessor_nullifier new = nf"
    using record_create_height by (fastforce simp: accept_successor_def release_predecessor_def split: if_splits)
  show ?thesis unfolding new(1)
    by (rule follows_set_record [OF ok _ _ dis]) (use other new nf in auto)
qed

lemma accept_claim_follows:
  assumes r: "reg_at t r" and a: "accept_claim E nt nf successor nfs h mtp expiry r = Some (b, r')"
    and nf: "nf \<notin> set nfs" and s: "\<forall>s. successor = Some s \<longrightarrow> s \<notin> set nfs"
  shows "follows nfs r'"
proof -
  have k: "keyed_records r" and ok: "bt_ok (records r)"
    using r reg_inv_ok reg_at_inv reg_inv_keyed by blast+
  have ba: "bs_ok (live (anchors r))" using r unfolding reg_at_def pool_at_def pool_inv_def by blast
  define seated where "seated = (if length (filter (pool_contains (anchors r)) nfs) = 1 \<and>
     names_spent_by r nfs = [] \<and> record_of r (note_name nt) = None \<and>
     \<not> built_before_release E r (note_name nt) expiry then successor else None)"
  let ?r1 = "registry_retire nfs seated h r"
  have dis: "set (live (anchors ?r1)) \<inter> set nfs = {}"
    unfolding anchors_retire by (rule retire_disjoint [OF ba]) (use s in \<open>simp add: seated_def\<close>)
  have none: "nr_predecessor_nullifier rec \<notin> set nfs"
    if "names_spent_by r nfs = []" "record_of r n = Some rec" for n rec
    using names_spent_by_iff [OF ok, of n nfs] that by auto
  from a consider (m) "r' = mark_released nfs h ?r1"
    | (same) "r' = ?r1" "names_spent_by r nfs = []"
    | (new) new where "names_spent_by r nfs = []" "record_create E nt nf h mtp = Some new" "r' = set_record new ?r1"
    unfolding accept_claim_def Let_def seated_def [symmetric] by (auto split: if_splits)
  then show ?thesis
  proof cases
    case m
    then show ?thesis using follows_mark_released [OF _ dis] k by simp
  next
    case same
    then show ?thesis using none dis by (auto simp: follows_def)
  next
    case new
    have ok1: "bt_ok (records ?r1)" using ok by (simp add: registry_retire_def)
    show ?thesis unfolding new(3)
      by (rule follows_set_record [OF ok1 _ _ dis])
        (use none [OF new(1)] record_create_height [OF new(2)] nf in auto)
  qed
qed

fun event_nullifiers :: "('ua, 'cm) reg_event \<Rightarrow> nullifier list" where
  "event_nullifiers (RegClaim _ _ _ nfs _ _) = nfs"
| "event_nullifiers (RegSuccessor _ _ nfs _) = nfs"
| "event_nullifiers (RegFollow nfs) = nfs"
| "event_nullifiers (RegAdopt _) = []"

text \<open>The nullifiers of the notes an event creates.\<close>

fun event_created :: "('ua, 'cm) reg_event \<Rightarrow> nullifier set" where
  "event_created (RegClaim _ nf s _ _ _) = insert nf (set_option s)"
| "event_created (RegSuccessor _ nf _ _) = {nf}"
| "event_created (RegFollow _) = {}"
| "event_created (RegAdopt nf) = {nf}"

text \<open>C15: The registry follows the chain: after any confirmed transaction, whatever note it carried
  and whether or not that note was accepted, no name is still bound to a note the transaction
  spent and no anchor it spent still confers authority. (The transaction's new notes are not
  among the notes it spends.)\<close>

theorem spent_is_never_live:
  assumes "reg_at t r" and "reg_step E h e r = Some r'"
    and "event_created e \<inter> set (event_nullifiers e) = {}"
  shows "(\<forall>n rec. record_of r' n = Some rec \<longrightarrow> nr_predecessor_nullifier rec \<notin> set (event_nullifiers e)) \<and>
         set (live (anchors r')) \<inter> set (event_nullifiers e) = {}"
proof -
  have "follows (event_nullifiers e) r'"
  proof (cases e)
    case (RegClaim nt nf s nfs mtp expiry)
    then obtain b where "accept_claim E nt nf s nfs h mtp expiry r = Some (b, r')"
      using assms(2) by (auto simp: reg_step_def)
    from accept_claim_follows [OF assms(1) this] show ?thesis using assms(3) RegClaim by auto
  next
    case (RegSuccessor nt nf nfs mtp)
    then obtain b where "accept_successor E nt nf nfs h mtp r = Some (b, r')"
      using assms(2) by (auto simp: reg_step_def accept_defs split: action.splits)
    from accept_successor_follows [OF assms(1) this] show ?thesis using assms(3) RegSuccessor by auto
  next
    case (RegFollow nfs)
    then show ?thesis using assms(2) follow_spends_follows [OF assms(1)] by (auto simp: reg_step_def)
  next
    case (RegAdopt nf)
    then show ?thesis by (simp add: follows_def)
  qed
  then show ?thesis by (simp add: follows_def)
qed

section \<open>A concrete registry\<close>

abbreviation demo_adopted :: "(string, bytes) registry" where
  "demo_adopted \<equiv> adopt_anchor 1 ''a1'' registry_new"

abbreviation demo_claim_event :: "(string, bytes) reg_event" where
  "demo_claim_event \<equiv> RegClaim demo_claim ''n1'' (Some ''a2'') [''a1''] 1700000000 50"

lemma demo_adopted_at: "reg_at 1 demo_adopted"
  using reg_at_new [of 0] advances_adopt unfolding advances_def by (metis zero_le_one)

lemma demo_adopted_facts:
  "live (anchors demo_adopted) = [''a1'']" "record_of demo_adopted n = None"
  "records demo_adopted = []" "record_history demo_adopted n = []"
  by (simp_all add: adopt_anchor_def registry_new_def adopt_def pool_default_def adoption_closed_def
      is_full_def ANCHOR_POOL_SIZE_def bs_insert_def record_of_def record_history_def)

lemma demo_claim_step:
  "\<exists>r'. reg_step demo_env 2 demo_claim_event demo_adopted = Some r' \<and> record_of r' demo_alice \<noteq> None \<and>
     accept_claim demo_env demo_claim ''n1'' (Some ''a2'') [''a1''] 2 1700000000 50 demo_adopted = Some (True, r')"
proof -
  obtain rec where rec: "record_create demo_env demo_claim ''n1'' 2 1700000000 = Some rec"
    by (simp add: record_create_def ts_from_seconds_def demo_env_def LIVENESS_INTERVAL_def)
  have c: "accept_claim demo_env demo_claim ''n1'' (Some ''a2'') [''a1''] 2 1700000000 50 demo_adopted
      = Some (True, set_record rec (registry_retire [''a1''] (Some ''a2'') 2 demo_adopted))"
    using rec demo_adopted_facts
    by (simp add: accept_claim_def Let_def pool_contains_def built_before_release_def)
      (simp add: names_spent_by_def)
  have "bt_ok (records (registry_retire [''a1''] (Some ''a2'') 2 demo_adopted))"
    by (simp add: registry_retire_def demo_adopted_facts del: One_nat_def)
  then show ?thesis
    using c record_create_height [OF rec] by (simp add: reg_step_def record_set_record is_release_def)
qed

theorem spent_is_never_live_witness:
  "\<exists>r'. reg_step demo_env 2 demo_claim_event demo_adopted = Some r' \<and> record_of r' demo_alice \<noteq> None \<and>
     set (live (anchors r')) \<inter> {''a1''} = {}"
proof -
  obtain r' where r': "reg_step demo_env 2 demo_claim_event demo_adopted = Some r'"
    "record_of r' demo_alice \<noteq> None" using demo_claim_step by blast
  from spent_is_never_live [OF demo_adopted_at r'(1)] r' show ?thesis by auto
qed

section \<open>Rollback\<close>

text \<open>Rolling the registry back to height \<open>n\<close> gives exactly the registry that had applied only
  the events of blocks up to \<open>n\<close>: records, histories and the anchor pool.\<close>

lemma registry_rollback:
  assumes "reg_at t r" and "ascending_from t es" and "t \<le> n"
    and "run_steps (reg_step E) es r = Some r'"
  shows "run_steps (reg_step E) (takeWhile (\<lambda>e. fst e \<le> n) es) r = Some (truncate_to_height n r')"
  using assms by (rule reg.rollback)

text \<open>C18: At every height the names that are live are exactly those whose history ends in something
  other than a release, the live record is that last entry, and histories are ordered by
  height: this holds after any sequence of confirmed events.\<close>

theorem records_are_history_tips:
  assumes "ascending_from 0 es" and "run_steps (reg_step E) es registry_new = Some r"
  shows "record_of r n =
      (if record_history r n \<noteq> [] \<and> \<not> is_release (nr_action (last (record_history r n)))
       then Some (last (record_history r n)) else None) \<and>
    sorted (map nr_confirmed_height (record_history r n)) \<and>
    (\<forall>rec. rec \<in> set (record_history r n) \<longrightarrow> nr_name rec = n)"
proof -
  obtain m where m: "\<forall>e\<in>set es. fst e \<le> m" by (metis finite_imageI finite_nat_set_iff_bounded_le finite_set imageI)
  have "reg_at m r" by (rule reg.at_run [OF reg_at_new assms m le0])
  then have "reg_inv r" by (rule reg_at_inv)
  then show ?thesis
    using record_history_sorted record_history_name unfolding reg_inv_def live_entry_def by blast
qed

theorem records_are_history_tips_witness:
  "\<exists>r rec. run_steps (reg_step demo_env) [(1, RegAdopt ''a1''), (2, demo_claim_event)] registry_new = Some r \<and>
     record_of r demo_alice = Some rec \<and> rec = last (record_history r demo_alice)"
proof -
  obtain r' where r': "reg_step demo_env 2 demo_claim_event demo_adopted = Some r'"
    "record_of r' demo_alice \<noteq> None" using demo_claim_step by blast
  have a: "ascending_from 0 [(1, RegAdopt ''a1''), (2, demo_claim_event)]" by simp
  have run: "run_steps (reg_step demo_env) [(1, RegAdopt ''a1''), (2, demo_claim_event)] registry_new = Some r'"
    using r' by (simp add: reg_step_def [of _ _ "RegAdopt _"])
  from records_are_history_tips [OF a run, of demo_alice] run r' show ?thesis
    by (auto split: if_splits)
qed

section \<open>Which transitions are accepted\<close>

text \<open>The records after a rejected transition: the names whose notes were spent are gone.\<close>

definition without_spent :: "('ua, 'cm) registry \<Rightarrow> nullifier list \<Rightarrow> name \<Rightarrow> ('ua, 'cm) name_record option" where
  "without_spent r nfs m =
     (case record_of r m of None \<Rightarrow> None
      | Some rec \<Rightarrow> if nr_predecessor_nullifier rec \<in> set nfs then None else Some rec)"

lemma without_spent_none:
  "bt_ok (records r) \<Longrightarrow> names_spent_by r nfs = [] \<Longrightarrow> without_spent r nfs m = record_of r m"
  using names_spent_by_iff [of r m nfs] by (auto simp: without_spent_def split: option.splits)

text \<open>C1: The claim law. A confirmed claim is accepted if and only if its transaction creates a
  successor anchor, spends exactly one live anchor and no live name's note, the name is free, and
  the transaction was not built before the name's last release; then exactly that name gains the
  note's record. A rejected claim binds nothing and releases exactly the names it spent.\<close>

theorem claim_law:
  assumes "reg_inv r" and "note_action nt = ActClaim"
    and "accept_claim E nt nf successor nfs h mtp expiry r = Some (accepted, r')"
  shows "(accepted \<longleftrightarrow> successor \<noteq> None \<and> length (filter (pool_contains (anchors r)) nfs) = 1 \<and>
            names_spent_by r nfs = [] \<and> record_of r (note_name nt) = None \<and>
            \<not> built_before_release E r (note_name nt) expiry) \<and>
         record_of r' m =
           (if accepted \<and> m = note_name nt then record_create E nt nf h mtp else without_spent r nfs m)"
proof -
  have k: "keyed_records r" and ok: "bt_ok (records r)"
    using assms(1) reg_inv_ok reg_inv_keyed by blast+
  have ok1: "bt_ok (records (registry_retire nfs s h r))" for s using ok by (simp add: registry_retire_def)
  have mk: "record_of (mark_released nfs h (registry_retire nfs s h r)) m = without_spent r nfs m" for s
    using record_mark_released [of "registry_retire nfs s h r"] k by (simp add: without_spent_def)
  have rel: "record_create E nt nf h mtp = Some rec \<Longrightarrow> \<not> is_release (nr_action rec) \<and> nr_name rec = note_name nt"
    for rec using record_create_height assms(2) by (metis action.distinct(3) is_release_def)
  show ?thesis
    using assms(2,3) mk rel without_spent_none [OF ok]
    by (auto simp: accept_claim_def Let_def record_set_record [OF ok1] split: if_splits)
qed

theorem claim_law_witness:
  "\<exists>r'. accept_claim demo_env demo_claim ''n1'' (Some ''a2'') [''a1''] 2 1700000000 50 demo_adopted = Some (True, r') \<and>
     record_of r' demo_alice = record_create demo_env demo_claim ''n1'' 2 1700000000"
proof -
  obtain r' where c: "accept_claim demo_env demo_claim ''n1'' (Some ''a2'') [''a1''] 2 1700000000 50 demo_adopted
      = Some (True, r')" using demo_claim_step by blast
  have "note_action demo_claim = ActClaim" by simp
  from claim_law [OF reg_at_inv [OF demo_adopted_at] this c, of demo_alice] c show ?thesis by simp
qed


text \<open>C14: The law of updates, releases and sales. A confirmed successor note is accepted if and only
  if its transaction spends the name's live note and no other live name's note and no anchor,
  and the note names that live record as its predecessor; the name then carries the note's
  record, or none after a release. A rejected one releases exactly the names it spent.\<close>

theorem successor_law:
  assumes "reg_inv r" and "accept_successor E nt nf nfs h mtp r = Some (accepted, r')"
  shows "(accepted \<longleftrightarrow> names_spent_by r nfs = [note_name nt] \<and>
            set nfs \<inter> set (live (anchors r)) = {} \<and>
            map_option nr_commitment (record_of r (note_name nt)) = note_prev_rcm nt) \<and>
         record_of r' m =
           (if accepted \<and> m = note_name nt
            then (if is_release (note_action nt) then None else record_create E nt nf h mtp)
            else without_spent r nfs m)"
proof -
  have k: "keyed_records r" and ok: "bt_ok (records r)"
    using assms(1) reg_inv_ok reg_inv_keyed by blast+
  have an: "list_ex (pool_contains (anchors r)) nfs \<longleftrightarrow> set nfs \<inter> set (live (anchors r)) \<noteq> {}"
    by (auto simp: list_ex_iff pool_contains_def)
  have fs: "record_of (follow_spends nfs h r) m = without_spent r nfs m"
    using record_mark_released [of "registry_retire nfs None h r"] k
    by (simp add: follow_spends_def without_spent_def)
  show ?thesis
  proof (cases "predecessor_spent r nt nfs")
    case None
    then have "names_spent_by r nfs \<noteq> [note_name nt] \<or> set nfs \<inter> set (live (anchors r)) \<noteq> {} \<or>
        record_of r (note_name nt) = None"
      unfolding predecessor_spent_def an by (auto simp: Let_def split: if_splits)
    moreover have "record_of r (note_name nt) = None \<Longrightarrow> names_spent_by r nfs \<noteq> [note_name nt]"
      using names_spent_by_iff [OF ok, of "note_name nt" nfs] by auto
    ultimately show ?thesis using None assms(2) fs by (auto simp: accept_successor_def)
  next
    case (Some rec)
    then have p: "names_spent_by r nfs = [note_name nt]" "set nfs \<inter> set (live (anchors r)) = {}"
      "record_of r (note_name nt) = Some rec"
      unfolding predecessor_spent_def an by (auto simp: Let_def split: if_splits)
    have w: "without_spent r nfs m = (if m = note_name nt then None else record_of r m)"
      using names_spent_by_iff [OF ok, of m nfs] p(1)
      by (cases "record_of r m") (auto simp: without_spent_def)
    show ?thesis
    proof (cases "note_prev_rcm nt = Some (nr_commitment rec)")
      case True
      with Some assms(2) obtain new where new: "record_create E nt nf h mtp = Some new"
        "accepted" "r' = set_record new r" by (auto simp: accept_successor_def)
      with True p w record_create_height [OF new(1)] show ?thesis
        by (simp add: record_set_record [OF ok])
    next
      case False
      with Some assms(2) obtain new where new: "record_create E (NoteRelease (note_name nt) (nr_ua rec)
          (nr_commitment rec)) nf h mtp = Some new" "\<not> accepted" "r' = set_record new r"
        by (auto simp: accept_successor_def release_predecessor_def)
      with False p w record_create_height [OF new(1)] show ?thesis
        by (auto simp: record_set_record [OF ok] is_release_def)
    qed
  qed
qed

abbreviation demo_update_unbacked :: "(string, bytes) name_note" where
  "demo_update_unbacked \<equiv> NoteUpdate demo_alice ''u1xyz'' Never demo_prev"

theorem successor_law_witness:
  "\<exists>r'. accept_successor demo_env demo_update_unbacked ''n2'' [''a1''] 2 1700000000 demo_adopted = Some (False, r') \<and>
     record_of r' demo_alice = None"
proof -
  have c: "accept_successor demo_env demo_update_unbacked ''n2'' [''a1''] 2 1700000000 demo_adopted
      = Some (False, follow_spends [''a1''] 2 demo_adopted)"
    by (simp add: accept_successor_def predecessor_spent_def names_spent_by_def demo_adopted_facts del: One_nat_def)
  from successor_law [OF reg_at_inv [OF demo_adopted_at] c, of demo_alice] c show ?thesis
    by (simp add: without_spent_def demo_adopted_facts del: One_nat_def)
qed

section \<open>Claim authority\<close>

text \<open>C31: Claim authority is conserved: the pool never holds more than forty anchors, and once the
  ceremony has filled it no block event enlarges it or reopens adoption.\<close>

theorem authority_conserved:
  assumes "pool_at t p" and "t \<le> h" and "pool_step h e p = Some p'"
  shows "length (live p') \<le> ANCHOR_POOL_SIZE \<and>
    (adoption_closed p \<longrightarrow> adoption_closed p' \<and> length (live p') \<le> length (live p))"
proof -
  have "pool_at h p'" using pool.at_step [OF assms] .
  then have "length (live p') \<le> ANCHOR_POOL_SIZE" unfolding pool_at_def pool_inv_def by blast
  moreover have ok: "bs_ok (live p)" using assms(1) unfolding pool_at_def pool_inv_def by blast
  ultimately show ?thesis
    using assms(3) length_retire_spent(1) [OF ok]
    by (auto simp: pool_step_def adopt_closed adoption_closed_def split: pool_event.splits)
qed

theorem authority_conserved_witness:
  "\<exists>p'. pool_step 2 (PoolRetire [''a1''] (Some ''a2'')) (anchors demo_adopted) = Some p' \<and>
     length (live p') \<le> ANCHOR_POOL_SIZE"
proof -
  have p: "pool_at 1 (anchors demo_adopted)" using demo_adopted_at unfolding reg_at_def by blast
  obtain p' where p': "pool_step 2 (PoolRetire [''a1''] (Some ''a2'')) (anchors demo_adopted) = Some p'"
    by (simp add: pool_step_def)
  from authority_conserved [OF p _ p'] p' show ?thesis by auto
qed

text \<open>Truncating the anchor pool to a height gives exactly the pool that saw only the blocks up to
  that height, and the ceremony's completion is forgotten only with the block that completed it.\<close>

lemma pool_rollback:
  assumes "ascending_from 0 es" and "run_steps pool_step es pool_default = Some p"
  shows "run_steps pool_step (takeWhile (\<lambda>e. fst e \<le> n) es) pool_default = Some (pool_truncate_to n p)"
  by (rule pool.rollback [OF pool_at_default assms(1) le0 assms(2)])

end
