(* ===== verification/Median.thy ===== *)
theory Median
  imports Zns_Prelude
begin

text \<open>
  Order statistics: the element at index \<open>k\<close> of a sorted list, by counting. The median of the
  block clock (\<open>src/mint/mtp.rs\<close>) and the median of the exchange quotes (\<open>src/mint/pricing.rs\<close>)
  both sort and index; the lemmas here are what their properties rest on.
\<close>

lemma sorted_nth_count:
  assumes "sorted ys" and "k < length ys" and "\<And>x y. x \<le> y \<Longrightarrow> P y \<Longrightarrow> P x"
  shows "P (ys ! k) \<longleftrightarrow> k < length (filter P ys)"
  using assms(1,2)
proof (induction ys arbitrary: k)
  case (Cons y ys)
  show ?case
  proof (cases "P y")
    case True
    then show ?thesis using Cons by (cases k) auto
  next
    case False
    then have "\<not> P x" if "x \<in> set ys" for x using Cons.prems(1) assms(3) that by auto
    then have "filter P (y # ys) = []" using False by (simp add: filter_empty_conv)
    moreover have "\<not> P ((y # ys) ! k)"
      using False \<open>\<And>x. x \<in> set ys \<Longrightarrow> \<not> P x\<close> Cons.prems(2) by (cases k) auto
    ultimately show ?thesis by simp
  qed
qed simp

text \<open>\<open>k\<close> is below the number of elements under a bound exactly when the \<open>k\<close>-th smallest is.\<close>

lemma sort_nth_less: "k < length xs \<Longrightarrow> sort xs ! k < m \<longleftrightarrow> k < length (filter (\<lambda>x. x < m) xs)"
  using sorted_nth_count [of "sort xs" k "\<lambda>x. x < m"] by (simp add: filter_sort)

lemma sort_nth_le: "k < length xs \<Longrightarrow> sort xs ! k \<le> m \<longleftrightarrow> k < length (filter (\<lambda>x. x \<le> m) xs)"
  using sorted_nth_count [of "sort xs" k "\<lambda>x. x \<le> m"] by (simp add: filter_sort)

lemma sort_nth_in_set: "k < length xs \<Longrightarrow> sort xs ! k \<in> set xs"
  by (metis length_sort nth_mem set_sort)

text \<open>Dropping the first element changes a count by at most one.\<close>

lemma length_filter_tl:
  "length (filter p (tl xs)) \<le> length (filter p xs)"
  "length (filter p xs) \<le> Suc (length (filter p (tl xs)))"
  by (cases xs; simp)+

end
