(* ===== verification/Mtp.thy ===== *)
theory Mtp
  imports Median Demo_Env
begin

text \<open>
  \<open>src/mint/mtp.rs\<close>: the chain's clock, the median time past of the last eleven headers. A
  header time is a \<open>u32\<close>; whether it is a \<open>Timestamp\<close> is asked of the environment, and the
  \<open>expect\<close> on it is the panic. The birthday, a \<open>OnceLock\<close>, is an explicit optional value. The
  \<open>debug_assert\<close> of \<open>update\<close> is compiled out of a release build and has no counterpart.
\<close>

section \<open>State and operations\<close>

definition MTP_WINDOW :: nat where
  "MTP_WINDOW = 11"

definition MAX_TIME_SINCE_MEDIAN :: int where
  "MAX_TIME_SINCE_MEDIAN = 90 * 60"

record mtp_tracker =
  blocktimes :: "(height \<times> nat) list"

definition mtp_default :: mtp_tracker where
  "mtp_default = \<lparr>blocktimes = []\<rparr>"

definition mtp_born :: "timestamp \<Rightarrow> timestamp option \<Rightarrow> (timestamp option \<times> mtp_tracker) may_panic" where
  "mtp_born birthday lock =
     (case lock of
        None \<Rightarrow> Some (Some birthday, mtp_default)
      | Some incumbent \<Rightarrow> if incumbent = birthday then Some (lock, mtp_default) else None)"

definition mtp_update :: "height \<Rightarrow> nat \<Rightarrow> mtp_tracker \<Rightarrow> mtp_tracker" where
  "mtp_update height ts t =
     t\<lparr>blocktimes := (if length (blocktimes t) \<ge> MTP_WINDOW then tl (blocktimes t) else blocktimes t)
         @ [(height, ts)]\<rparr>"

definition mtp_current :: "('ua, 'cm) zenv \<Rightarrow> mtp_tracker \<Rightarrow> timestamp option may_panic" where
  "mtp_current E t =
     (if blocktimes t = [] then Some None
      else let stamps = sort (map snd (blocktimes t)) in
        map_option Some (ts_from_seconds E (int (stamps ! (length stamps div 2)))))"

text \<open>\<open>Duration::whole_days\<close> rounds towards zero.\<close>

definition whole_days :: "int \<Rightarrow> int" where
  "whole_days s = (if s < 0 then - (- s div 86400) else s div 86400)"

definition mtp_current_day ::
  "('ua, 'cm) zenv \<Rightarrow> timestamp option \<Rightarrow> mtp_tracker \<Rightarrow> int option may_panic" where
  "mtp_current_day E lock t =
     (case lock of
        None \<Rightarrow> None
      | Some birthday \<Rightarrow> map_option (map_option (\<lambda>mtp. whole_days (mtp - birthday))) (mtp_current E t))"

fun backfill_loop :: "(height \<Rightarrow> 'e + nat) \<Rightarrow> height list \<Rightarrow> mtp_tracker \<Rightarrow> ('e + unit) \<times> mtp_tracker" where
  "backfill_loop get_time [] t = (Inr (), t)"
| "backfill_loop get_time (h # hs) t =
     (case get_time h of
        Inl e \<Rightarrow> (Inl e, t)
      | Inr ts \<Rightarrow> backfill_loop get_time hs (mtp_update h ts t))"

definition mtp_backfill :: "height \<Rightarrow> (height \<Rightarrow> 'e + nat) \<Rightarrow> mtp_tracker \<Rightarrow> ('e + unit) \<times> mtp_tracker" where
  "mtp_backfill till get_time t = backfill_loop get_time [till - (MTP_WINDOW - 1)..<Suc till] t"

definition header_time_ok :: "('ua, 'cm) zenv \<Rightarrow> mtp_tracker \<Rightarrow> nat \<Rightarrow> (string + unit) may_panic" where
  "header_time_ok E t ts =
     map_option (\<lambda>cur. case cur of
         None \<Rightarrow> Inl ''preceding median unavailable''
       | Some median \<Rightarrow>
           if int ts \<le> median then Inl ''block time is not after the previous median''
           else if int ts > median + MAX_TIME_SINCE_MEDIAN
           then Inl ''block time is more than 90 minutes past the previous median''
           else Inr ())
       (mtp_current E t)"

definition mtp_truncate_to :: "height \<Rightarrow> mtp_tracker \<Rightarrow> mtp_tracker" where
  "mtp_truncate_to height t = t\<lparr>blocktimes := filter (\<lambda>(h, _). h \<le> height) (blocktimes t)\<rparr>"

text \<open>The loop's way along a chain: every block of \<open>hs\<close> in turn.\<close>

definition mtp_follow :: "(height \<Rightarrow> nat) \<Rightarrow> height list \<Rightarrow> mtp_tracker \<Rightarrow> mtp_tracker" where
  "mtp_follow time_of hs t = fold (\<lambda>h. mtp_update h (time_of h)) hs t"

section \<open>The window\<close>

lemma tracker_eqI: "blocktimes a = blocktimes b \<Longrightarrow> a = (b :: mtp_tracker)"
  by simp

lemma backfill_loop_follow:
  "backfill_loop (\<lambda>h. Inr (time_of h)) hs t = (Inr (), mtp_follow time_of hs t)"
  by (induction hs arbitrary: t) (simp_all add: mtp_follow_def)

text \<open>Following blocks keeps the last eleven.\<close>

lemma follow_window:
  assumes "length (blocktimes t) \<le> 11"
  shows "blocktimes (mtp_follow time_of hs t) =
     drop (length (blocktimes t) + length hs - 11) (blocktimes t @ map (\<lambda>h. (h, time_of h)) hs)"
  using assms
proof (induction hs arbitrary: t)
  case Nil
  then show ?case by (simp add: mtp_follow_def)
next
  case (Cons h hs)
  let ?t = "mtp_update h (time_of h) t"
  have len: "length (blocktimes ?t) \<le> 11" using Cons.prems by (auto simp: mtp_update_def MTP_WINDOW_def)
  have step: "mtp_follow time_of (h # hs) t = mtp_follow time_of hs ?t" by (simp add: mtp_follow_def)
  show ?case
  proof (cases "length (blocktimes t) = 11")
    case True
    then have "blocktimes ?t = drop 1 (blocktimes t) @ [(h, time_of h)]"
      by (simp add: mtp_update_def MTP_WINDOW_def drop_Suc)
    with Cons.IH [OF len] step True show ?thesis by simp
  next
    case False
    then have "blocktimes ?t = blocktimes t @ [(h, time_of h)]"
      using Cons.prems by (simp add: mtp_update_def MTP_WINDOW_def)
    with Cons.IH [OF len] step show ?thesis by simp
  qed
qed

lemma backfill_window:
  "blocktimes (mtp_follow time_of [till - 10..<Suc till] mtp_default) =
     map (\<lambda>h. (h, time_of h)) [till - 10..<Suc till]"
  by (subst follow_window) (simp_all add: mtp_default_def)

text \<open>The clock does not depend on how it was reached: following the chain block by block from any
  height gives the same window as rebuilding it from the headers at the new height, which is what
  a reorg does; the window is the last eleven headers of the chain.\<close>

lemma mtp_follow_is_backfill:
  assumes "start \<le> till"
  shows "mtp_follow time_of [Suc start..<Suc till] (snd (mtp_backfill start (\<lambda>h. Inr (time_of h)) mtp_default))
     = snd (mtp_backfill till (\<lambda>h. Inr (time_of h)) mtp_default) \<and>
   blocktimes (snd (mtp_backfill till (\<lambda>h. Inr (time_of h)) mtp_default)) =
     map (\<lambda>h. (h, time_of h)) [till - 10..<Suc till]"
proof -
  let ?t = "mtp_follow time_of [start - 10..<Suc start] mtp_default"
  let ?m = "map (\<lambda>h. (h, time_of h))"
  have b: "snd (mtp_backfill k (\<lambda>h. Inr (time_of h)) mtp_default) = mtp_follow time_of [k - 10..<Suc k] mtp_default" for k
    by (simp add: mtp_backfill_def backfill_loop_follow MTP_WINDOW_def)
  have "blocktimes ?t @ ?m [Suc start..<Suc till] = ?m [start - 10..<Suc till]"
    unfolding backfill_window using assms upt_add_eq_append [of "start - 10" "Suc start" "till - start"] by (simp del: upt_Suc flip: map_append)
  moreover have "length (blocktimes ?t) \<le> 11" unfolding backfill_window by simp
  ultimately have "blocktimes (mtp_follow time_of [Suc start..<Suc till] ?t) =
      drop (length [start - 10..<Suc till] - 11) (?m [start - 10..<Suc till])"
    using follow_window [of ?t time_of "[Suc start..<Suc till]"] by (metis length_append length_map)
  also have "\<dots> = ?m [till - 10..<Suc till]"
  proof -
    have "start - 10 + (length [start - 10..<Suc till] - 11) = till - 10" unfolding length_upt using assms by linarith
    then show ?thesis by (simp add: drop_map del: upt_Suc length_upt)
  qed
  finally have "blocktimes (mtp_follow time_of [Suc start..<Suc till] ?t) =
      blocktimes (mtp_follow time_of [till - 10..<Suc till] mtp_default)"
    unfolding backfill_window .
  then have "mtp_follow time_of [Suc start..<Suc till] ?t = mtp_follow time_of [till - 10..<Suc till] mtp_default"
    by (rule tracker_eqI)
  then show ?thesis unfolding b by (simp only: backfill_window)
qed

section \<open>The clock only moves forward\<close>

lemma current_median:
  assumes "mtp_current E t = Some (Some m)"
  defines "stamps \<equiv> map snd (blocktimes t)"
  shows "stamps \<noteq> []" and "m = int (sort stamps ! (length stamps div 2))"
  using assms by (auto simp: mtp_current_def ts_from_seconds_def Let_def split: if_splits)

text \<open>The two counts that place the median of the next window.\<close>

lemma next_window_counts:
  assumes "xs \<noteq> []" and "length xs \<le> 11" and "m = sort xs ! (length xs div 2)" and "m < x"
  defines "ys \<equiv> (if length xs \<ge> 11 then tl xs else xs) @ [x]"
  shows "m \<le> sort ys ! (length ys div 2)" and "sort ys ! (length ys div 2) \<le> (x::nat)"
proof -
  have k: "length xs div 2 < length xs" using assms(1) by (cases xs) auto
  have below: "length (filter (\<lambda>y. y < m) xs) \<le> length xs div 2"
    using sort_nth_less [OF k, of m] assms(3) by simp
  have upto: "length xs div 2 < length (filter (\<lambda>y. y \<le> m) xs)"
    using sort_nth_le [OF k, of m] assms(3) by simp
  have mono: "length (filter (\<lambda>y. y \<le> m) xs) \<le> length (filter (\<lambda>y. y \<le> x) xs)"
    by (rule filter_length_mono) (use assms(4) in auto)
  have k': "length ys div 2 < length ys" by (simp add: ys_def)
  have "length (filter (\<lambda>y. y < m) ys) \<le> length ys div 2"
    using below assms(4) length_filter_tl(1) [of "\<lambda>y. y < m" xs] by (auto simp: ys_def)
  then show "m \<le> sort ys ! (length ys div 2)" using sort_nth_less [OF k', of m] by simp
  have "length ys div 2 < length (filter (\<lambda>y. y \<le> x) ys)"
    using upto mono assms(2) length_filter_tl(2) [of "\<lambda>y. y \<le> x" xs] by (auto simp: ys_def)
  then show "sort ys ! (length ys div 2) \<le> x" using sort_nth_le [OF k', of x] by simp
qed

text \<open>C40: The chain's clock never runs backwards: when the next header passes the time check, the median
  after it is at least the median before and at most the header's own time, so a term that has
  ended and a challenge that has expired stay so along a chain.\<close>

theorem mtp_never_goes_back:
  assumes "header_time_ok E t ts = Some (Inr ())" and "length (blocktimes t) \<le> MTP_WINDOW"
    and "\<forall>s. s \<le> ts \<longrightarrow> ts_ok E (int s)"
  shows "\<exists>m m'. mtp_current E t = Some (Some m) \<and> mtp_current E (mtp_update h ts t) = Some (Some m') \<and>
     m \<le> m' \<and> m' \<le> int ts \<and> int ts \<le> m + MAX_TIME_SINCE_MEDIAN"
proof -
  obtain m where m: "mtp_current E t = Some (Some m)" "m < int ts" "int ts \<le> m + MAX_TIME_SINCE_MEDIAN"
    using assms(1) by (auto simp: header_time_ok_def split: option.splits if_splits)
  let ?xs = "map snd (blocktimes t)"
  let ?ys = "map snd (blocktimes (mtp_update h ts t))"
  have med: "?xs \<noteq> []" "m = int (sort ?xs ! (length ?xs div 2))" using current_median [OF m(1)] by auto
  have ys: "?ys = (if length ?xs \<ge> 11 then tl ?xs else ?xs) @ [ts]"
    by (simp add: mtp_update_def MTP_WINDOW_def map_tl)
  have lt: "sort ?xs ! (length ?xs div 2) < ts" using m(2) med(2) by simp
  have len: "length ?xs \<le> 11" using assms(2) by (simp add: MTP_WINDOW_def)
  have le: "sort ?xs ! (length ?xs div 2) \<le> sort ?ys ! (length ?ys div 2)" "sort ?ys ! (length ?ys div 2) \<le> ts"
    using next_window_counts [OF med(1) len refl lt] unfolding ys by auto
  have "mtp_current E (mtp_update h ts t) = Some (Some (int (sort ?ys ! (length ?ys div 2))))"
    using assms(3) le(2) ys by (auto simp: mtp_current_def ts_from_seconds_def Let_def)
  with m med(2) le show ?thesis by auto
qed

theorem mtp_never_goes_back_witness:
  "\<exists>m m'. mtp_current demo_env \<lparr>blocktimes = [(1, 100), (2, 250), (3, 200)]\<rparr> = Some (Some m) \<and>
     mtp_current demo_env (mtp_update 4 230 \<lparr>blocktimes = [(1, 100), (2, 250), (3, 200)]\<rparr>) = Some (Some m') \<and>
     m \<le> m' \<and> m' \<le> int 230 \<and> int 230 \<le> m + MAX_TIME_SINCE_MEDIAN"
proof (rule mtp_never_goes_back)
  show "header_time_ok demo_env \<lparr>blocktimes = [(1, 100), (2, 250), (3, 200)]\<rparr> 230 = Some (Inr ())"
    by (simp add: header_time_ok_def mtp_current_def ts_from_seconds_def demo_env_def MAX_TIME_SINCE_MEDIAN_def Let_def)
qed (simp_all add: MTP_WINDOW_def demo_env_def)

end
