(* ===== verification/Mint_Block.thy ===== *)
theory Mint_Block
  imports Registry_Laws Mtp Requests
begin

text \<open>
  Block application: \<open>apply_block\<close> of \<open>src/mint.rs\<close> with the two decryption passes of
  \<open>src/mint/note.rs\<close> it runs, \<open>decrypt_name_notes\<close> and \<open>decrypt_treasury_memos\<close>. A block is
  what the mint sees of it: for each transaction its id, its expiry height, its Ironwood actions
  as \<open>orchard\<close> opens them under the Registry's key, and its payments to the Treasury as
  \<open>zcash_client_backend\<close> decrypts them. The wallet (its cursor, its scan of a block, its commit
  and its store of Name Notes) is a parameter: an opaque state and a record of operations.
\<close>

section \<open>What a block shows\<close>

text \<open>A decrypted action: whether the recipient is the Registry's address at index 0, the memo,
  the value, and the note's ZNS commitment and nullifier as functions of the opening.\<close>

record ('cm, 'cmx) opened_action =
  oa_to_registry :: bool
  oa_memo :: bytes
  oa_value :: nat
  oa_zns_cmx :: "'cm \<Rightarrow> bytes \<Rightarrow> 'cmx option"
  oa_zns_nullifier :: "'cm \<Rightarrow> bytes \<Rightarrow> nullifier option"

record ('cm, 'cmx) ironwood_action =
  ia_cmx :: 'cmx
  ia_opened :: "('cm, 'cmx) opened_action option"

text \<open>An Ironwood bundle: whether it is version 3 with outputs enabled, and its actions. The two
  payment lists: whether the output is incoming, its value and its memo.\<close>

record ('cm, 'cmx) block_tx =
  bx_txid :: txid
  bx_expiry :: height
  bx_ironwood :: "(bool \<times> ('cm, 'cmx) ironwood_action list) option"
  bx_sapling_in :: "(bool \<times> zat \<times> bytes) list"
  bx_ironwood_in :: "(bool \<times> nat \<times> bytes) list"

record ('cm, 'cmx) block =
  blk_prev :: bytes
  blk_time :: nat
  blk_vtx :: "('cm, 'cmx) block_tx list"

section \<open>Name Notes\<close>

record ('ua, 'cm, 'cmx) decrypted_name_note =
  dn_txid :: txid
  dn_action_index :: nat
  dn_ordinal :: nat
  dn_cmx :: 'cmx
  dn_nullifier :: nullifier
  dn_memo :: bytes
  dn_payload :: "('ua, 'cm) name_note"

text \<open>One action; the memo decoder may panic, and so may the nullifier's \<open>expect\<close>.\<close>

definition authored :: "('ua, 'cm) zenv \<Rightarrow> ('ua, 'cm) name_note \<Rightarrow> ('cm, 'cmx) opened_action \<Rightarrow> 'cmx \<Rightarrow> bool" where
  "authored E payload opened cmx \<longleftrightarrow>
     oa_zns_cmx opened (note_rcm E payload) (note_psi E payload) = Some cmx \<and>
     oa_value opened = 0 \<and> oa_to_registry opened"

definition decrypt_action ::
  "('ua, 'cm) zenv \<Rightarrow> txid \<Rightarrow> nat \<Rightarrow> nat \<Rightarrow> ('cm, 'cmx) ironwood_action \<Rightarrow>
     ('ua, 'cm, 'cmx) decrypted_name_note list may_panic" where
  "decrypt_action E txid action_index ordinal act =
     (case ia_opened act of
        None \<Rightarrow> Some []
      | Some opened \<Rightarrow>
          (case note_decode E (oa_memo opened) of
             None \<Rightarrow> None
           | Some None \<Rightarrow> Some []
           | Some (Some payload) \<Rightarrow>
               if authored E payload opened (ia_cmx act)
               then map_option (\<lambda>nf.
                   [\<lparr>dn_txid = txid, dn_action_index = action_index, dn_ordinal = ordinal, dn_cmx = ia_cmx act,
                     dn_nullifier = nf, dn_memo = oa_memo opened, dn_payload = payload\<rparr>])
                 (oa_zns_nullifier opened (note_rcm E payload) (note_psi E payload))
               else Some []))"

fun decrypt_actions ::
  "('ua, 'cm) zenv \<Rightarrow> txid \<Rightarrow> bool \<Rightarrow> nat \<Rightarrow> nat \<Rightarrow> ('cm, 'cmx) ironwood_action list \<Rightarrow>
     ('ua, 'cm, 'cmx) decrypted_name_note list may_panic" where
  "decrypt_actions E txid capable i ordinal [] = Some []"
| "decrypt_actions E txid capable i ordinal (act # acts) =
     do {
       here \<leftarrow> (if capable then decrypt_action E txid i ordinal act else Some []);
       rest \<leftarrow> decrypt_actions E txid capable (Suc i) (Suc ordinal) acts;
       Some (here @ rest)
     }"

fun decrypt_txs ::
  "('ua, 'cm) zenv \<Rightarrow> nat \<Rightarrow> ('cm, 'cmx) block_tx list \<Rightarrow> ('ua, 'cm, 'cmx) decrypted_name_note list may_panic" where
  "decrypt_txs E ordinal [] = Some []"
| "decrypt_txs E ordinal (tx # txs) =
     (case bx_ironwood tx of
        None \<Rightarrow> decrypt_txs E ordinal txs
      | Some (capable, acts) \<Rightarrow>
          do {
            here \<leftarrow> decrypt_actions E (bx_txid tx) capable 0 ordinal acts;
            rest \<leftarrow> decrypt_txs E (ordinal + length acts) txs;
            Some (here @ rest)
          })"

definition decrypt_name_notes ::
  "('ua, 'cm) zenv \<Rightarrow> ('cm, 'cmx) block \<Rightarrow> ('ua, 'cm, 'cmx) decrypted_name_note list may_panic" where
  "decrypt_name_notes E b = decrypt_txs E 0 (blk_vtx b)"

section \<open>Treasury payments\<close>

fun ironwood_payments :: "('ua, 'cm) zenv \<Rightarrow> (bool \<times> nat \<times> bytes) list \<Rightarrow> (zat \<times> bytes) list may_panic" where
  "ironwood_payments E [] = Some []"
| "ironwood_payments E ((incoming, v, memo) # outs) =
     (if incoming
      then do { paid \<leftarrow> zat_from_u64 E v; rest \<leftarrow> ironwood_payments E outs; Some ((paid, memo) # rest) }
      else ironwood_payments E outs)"

definition treasury_payments :: "('ua, 'cm) zenv \<Rightarrow> ('cm, 'cmx) block_tx \<Rightarrow> (zat \<times> bytes) list may_panic" where
  "treasury_payments E tx =
     map_option (\<lambda>ironwood. map snd (filter fst (bx_sapling_in tx)) @ ironwood) (ironwood_payments E (bx_ironwood_in tx))"

fun decrypt_treasury_memos ::
  "('ua, 'cm) zenv \<Rightarrow> ('cm, 'cmx) block_tx list \<Rightarrow> (txid \<times> zat \<times> bytes) list may_panic" where
  "decrypt_treasury_memos E [] = Some []"
| "decrypt_treasury_memos E (tx # txs) =
     do {
       here \<leftarrow> treasury_payments E tx;
       rest \<leftarrow> decrypt_treasury_memos E txs;
       Some (map (\<lambda>(paid, memo). (bx_txid tx, paid, memo)) here @ rest)
     }"

section \<open>The confirmation pass\<close>

text \<open>A transaction as the scanner reports it: the nullifiers it spends, and of its outputs
  whether the account is the Registry's, the value, and the nullifier.\<close>

record scanned_tx =
  sx_txid :: txid
  sx_spends :: "nullifier list"
  sx_outputs :: "(bool \<times> nat \<times> nullifier option) list"

text \<open>\<open>notes_by_tx\<close> at one transaction.\<close>

definition notes_of ::
  "('ua, 'cm, 'cmx) decrypted_name_note list \<Rightarrow> txid \<Rightarrow> ('ua, 'cm, 'cmx) decrypted_name_note list" where
  "notes_of candidates txid = sort_key dn_action_index (filter (\<lambda>c. dn_txid c = txid) candidates)"

definition expiry_of :: "('cm, 'cmx) block_tx list \<Rightarrow> txid \<Rightarrow> height option" where
  "expiry_of vtx txid = map_of (rev (map (\<lambda>tx. (bx_txid tx, bx_expiry tx)) vtx)) txid"

definition registry_outputs :: "scanned_tx \<Rightarrow> (nat \<times> nullifier option) list" where
  "registry_outputs wtx = map snd (filter fst (sx_outputs wtx))"

definition ceremony_outputs :: "scanned_tx \<Rightarrow> nullifier list" where
  "ceremony_outputs wtx =
     map the (filter (\<lambda>nf. nf \<noteq> None) (map snd (filter (\<lambda>(v, _). v = 0) (registry_outputs wtx))))"

definition successor_anchor :: "scanned_tx \<Rightarrow> nullifier option" where
  "successor_anchor wtx =
     (case registry_outputs wtx of [(v, nf)] \<Rightarrow> if v = 0 then nf else None | _ \<Rightarrow> None)"

definition adopt_ceremony ::
  "height \<Rightarrow> scanned_tx \<Rightarrow> nat \<Rightarrow> ('ua, 'cm) registry \<Rightarrow> ('ua, 'cm) registry" where
  "adopt_ceremony height wtx name_notes r =
     (if is_ceremony_fill (length (ceremony_outputs wtx)) name_notes
      then fold (adopt_anchor height) (ceremony_outputs wtx) r else r)"

definition accept_candidate ::
  "('ua, 'cm) zenv \<Rightarrow> height \<Rightarrow> timestamp \<Rightarrow> ('cm, 'cmx) block_tx list \<Rightarrow> scanned_tx \<Rightarrow>
     ('ua, 'cm, 'cmx) decrypted_name_note \<Rightarrow> ('ua, 'cm) registry \<Rightarrow> (bool \<times> ('ua, 'cm) registry) may_panic" where
  "accept_candidate E height mtp vtx wtx c r =
     (if is_claim (note_action (dn_payload c))
      then Option.bind (expiry_of vtx (sx_txid wtx)) (\<lambda>expiry.
        accept_claim E (dn_payload c) (dn_nullifier c) (successor_anchor wtx) (sx_spends wtx) height mtp expiry r)
      else (case note_action (dn_payload c) of
          ActUpdate \<Rightarrow> accept_update E (dn_payload c) (dn_nullifier c) (sx_spends wtx) height mtp r
        | ActRelease \<Rightarrow> accept_release E (dn_payload c) (dn_nullifier c) (sx_spends wtx) height mtp r
        | ActSale \<Rightarrow> accept_sale E (dn_payload c) (dn_nullifier c) (sx_spends wtx) height mtp r
        | ActClaim \<Rightarrow> None
        | _ \<Rightarrow> Some (False, r)))"

definition confirm_tx ::
  "('ua, 'cm) zenv \<Rightarrow> height \<Rightarrow> timestamp \<Rightarrow> ('cm, 'cmx) block_tx list \<Rightarrow> ('ua, 'cm, 'cmx) decrypted_name_note list \<Rightarrow>
     scanned_tx \<Rightarrow> ('ua, 'cm) registry \<Rightarrow>
     (('ua, 'cm, 'cmx) decrypted_name_note list \<times> ('ua, 'cm) registry) may_panic" where
  "confirm_tx E height mtp vtx candidates wtx r =
     (let notes = notes_of candidates (sx_txid wtx);
          r1 = adopt_ceremony height wtx (length notes) r
      in case notes of
           [c] \<Rightarrow> map_option (\<lambda>(accepted, r2). (if accepted then [c] else [], r2))
                    (accept_candidate E height mtp vtx wtx c r1)
         | _ \<Rightarrow> Some ([], follow_spends (sx_spends wtx) height r1))"

fun confirm_txs ::
  "('ua, 'cm) zenv \<Rightarrow> height \<Rightarrow> timestamp \<Rightarrow> ('cm, 'cmx) block_tx list \<Rightarrow> ('ua, 'cm, 'cmx) decrypted_name_note list \<Rightarrow>
     scanned_tx list \<Rightarrow> ('ua, 'cm) registry \<Rightarrow>
     (('ua, 'cm, 'cmx) decrypted_name_note list \<times> ('ua, 'cm) registry) may_panic" where
  "confirm_txs E height mtp vtx candidates [] r = Some ([], r)"
| "confirm_txs E height mtp vtx candidates (wtx # wtxs) r =
     do {
       (here, r1) \<leftarrow> confirm_tx E height mtp vtx candidates wtx r;
       (rest, r2) \<leftarrow> confirm_txs E height mtp vtx candidates wtxs r1;
       Some (here @ rest, r2)
     }"

section \<open>Applying a block\<close>

text \<open>\<open>w_scan\<close>: the scanned transactions and the tree position before the block's first
  Ironwood action, or a panic; \<open>w_commit\<close>: \<open>put_blocks_marked\<close>; \<open>w_store\<close>: \<open>store_name_note\<close>.\<close>

record ('w, 'ua, 'cm, 'cmx) wallet_ops =
  w_tip :: "'w \<Rightarrow> height \<times> bytes"
  w_scan :: "'w \<Rightarrow> ('cm, 'cmx) block \<Rightarrow> (scanned_tx list \<times> nat) may_panic"
  w_commit :: "('cm, 'cmx) block \<Rightarrow> 'cmx list \<Rightarrow> 'w \<Rightarrow> 'w may_panic"
  w_store :: "height \<Rightarrow> nat \<Rightarrow> ('ua, 'cm, 'cmx) decrypted_name_note \<Rightarrow> 'w \<Rightarrow> 'w may_panic"

fun store_all ::
  "('w, 'ua, 'cm, 'cmx) wallet_ops \<Rightarrow> height \<Rightarrow> nat \<Rightarrow> ('ua, 'cm, 'cmx) decrypted_name_note list \<Rightarrow> 'w \<Rightarrow> 'w may_panic" where
  "store_all W height start [] w = Some w"
| "store_all W height start (c # cs) w =
     Option.bind (w_store W height (start + dn_ordinal c) c w) (store_all W height start cs)"

definition apply_block ::
  "('ua, 'cm) zenv \<Rightarrow> ('w, 'ua, 'cm, 'cmx) wallet_ops \<Rightarrow> height \<Rightarrow> ('cm, 'cmx) block \<Rightarrow> height \<Rightarrow>
     'w \<times> ('ua, 'cm) registry \<times> mtp_tracker \<Rightarrow>
     ((txid \<times> 'ua mint_inbound \<times> zat) list \<times> 'w \<times> ('ua, 'cm) registry \<times> mtp_tracker) may_panic" where
  "apply_block E W birthday b height = (\<lambda>(w, r, mtp).
     if height \<noteq> fst (w_tip W w) + 1 \<or> blk_prev b \<noteq> snd (w_tip W w) then None
     else do {
       candidates \<leftarrow> (if height \<ge> birthday then decrypt_name_notes E b else Some []);
       memos \<leftarrow> (if height \<ge> birthday then decrypt_treasury_memos E (blk_vtx b) else Some []);
       (scanned, start) \<leftarrow> w_scan W w b;
       let next_mtp = mtp_update height (blk_time b) mtp;
       median \<leftarrow> mtp_current E next_mtp;
       block_mtp \<leftarrow> median;
       (accepted, r') \<leftarrow> (if height < birthday then Some ([], r)
           else confirm_txs E height block_mtp (blk_vtx b) candidates scanned r);
       w1 \<leftarrow> w_commit W b (map dn_cmx accepted) w;
       w2 \<leftarrow> store_all W height start accepted w1;
       Some (map (\<lambda>(txid, paid, memo). (txid, inbound_decode E memo, paid)) memos, w2, r', next_mtp)
     })"

end
