(* ===== verification/Name_Note_Laws.thy ===== *)
theory Name_Note_Laws
  imports Demo_Env
begin

text \<open>
  The properties of \<open>src/mint/note.rs\<close> that the rest of the mint, and a resolver, rely on:
  the memo codec is a bijection between well-formed notes and the memos it accepts, the
  commitment's preimage determines the transition, the text fields have one spelling each,
  and an update can only carry, bank or upgrade an expiry.
\<close>

section \<open>Properties of the Name Note codec\<close>

text \<open>C27: A Name Note with a valid name, a valid expiry and an encodable address of at most 351
  bytes always encodes, into exactly 512 bytes, and decoding that memo gives the same note
  back: the memo on chain determines the transition, and the encoder never panics on it.\<close>

theorem note_codec_roundtrip:
  assumes "valid_note E nt" and "codec_ok E nt" and "length (ua_encode E (note_ua nt)) \<le> 351"
  shows "\<exists>memo. note_encode E nt = Some memo \<and> length memo = 512 \<and>
           note_decode E memo = Some (Some nt)"
proof -
  have "length (note_memo_string E nt) \<le> 512"
    using memo_string_length [OF assms(1)] assms(2,3)
    by (fastforce simp: codec_ok_def hex_codec_at_def)
  then obtain memo where memo: "note_encode E nt = Some memo" "length memo = 512"
    by (auto simp: note_encode_def Let_def pad_right_def)
  then have "note_decode E memo = Some (Some nt)"
    using note_decode_fields_encode [OF assms(1,2)] by (simp add: note_decode_def)
  with memo show ?thesis by blast
qed

theorem note_codec_roundtrip_witness:
  "\<exists>memo. note_encode demo_env demo_claim = Some memo \<and> length memo = 512 \<and>
     note_decode demo_env memo = Some (Some demo_claim)"
  by (rule note_codec_roundtrip [OF demo_claim_valid demo_claim_codec]) (simp add: demo_env_def)

text \<open>C28: Every memo the decoder accepts is byte for byte the encoding of the note it yields, and
  that note has a valid name and expiry: two different memos never decode to the same
  transition.\<close>

theorem note_decode_canonical:
  assumes "note_decode E memo = Some (Some nt)"
  shows "note_encode E nt = Some memo \<and> valid_note E nt \<and>
         (\<forall>memo'. note_decode E memo' = Some (Some nt) \<longrightarrow> memo' = memo)"
proof -
  have enc: "note_encode E nt = Some m \<and> note_decode_fields E m = Some nt"
    if "note_decode E m = Some (Some nt)" for m
    using that by (auto simp: note_decode_def split: option.splits if_splits)
  have "memo' = memo" if "note_decode E memo' = Some (Some nt)" for memo'
    using enc [OF assms] enc [OF that] by simp
  then show ?thesis using enc [OF assms] note_decode_fields_valid by blast
qed

definition demo_memo :: bytes where
  "demo_memo = the (note_encode demo_env demo_claim)"

lemma demo_memo_decodes: "note_decode demo_env demo_memo = Some (Some demo_claim)"
proof -
  obtain memo where "note_encode demo_env demo_claim = Some memo"
    using memo_string_length [OF demo_claim_valid] demo_claim_codec
    by (fastforce simp: note_encode_def Let_def codec_ok_def hex_codec_at_def demo_env_def)
  then show ?thesis
    using note_decode_fields_encode [OF demo_claim_valid demo_claim_codec]
    by (simp add: note_decode_def demo_memo_def)
qed

theorem note_decode_canonical_witness:
  "note_encode demo_env demo_claim = Some demo_memo \<and> valid_note demo_env demo_claim"
  using note_decode_canonical [OF demo_memo_decodes] by simp

text \<open>The preimage of a note's commitment under a derivation tag.\<close>

definition note_preimage :: "('ua, 'cm) zenv \<Rightarrow> bytes \<Rightarrow> ('ua, 'cm) name_note \<Rightarrow> bytes" where
  "note_preimage E tag nt =
     zns_preimage tag (action_as_str (note_action nt)) (as_str (note_name nt))
       (ua_encode E (note_ua nt)) (note_expiry_field nt) (note_prev_bytes E nt)"

lemma note_rcm_preimage:
  "note_rcm E nt = scalar_from_uniform E (blake2b512 E (note_preimage E ''rcm'' nt))"
  "note_psi E nt = base_from_uniform E (blake2b512 E (note_preimage E ''psi'' nt))"
  by (simp_all add: note_rcm_def note_psi_def zns_rcm_def zns_psi_def tagged_zns_hash_def
      note_preimage_def)

lemma note_eq_fields:
  assumes "note_action a = note_action b" and "note_name a = note_name b" and "note_ua a = note_ua b"
    and "note_expiry a = note_expiry b" and "note_prev_rcm a = note_prev_rcm b"
  shows "a = b"
  using assms by (cases a; cases b) (auto simp: note_expiry_def)

lemma preimage_fields_short:
  assumes "valid_note E nt" and "length (ua_encode E (note_ua nt)) < 2 ^ 32"
  shows "\<forall>f\<in>{''rcm'', action_as_str (note_action nt), as_str (note_name nt),
              ua_encode E (note_ua nt), note_expiry_field nt}. length f < 2 ^ 32"
proof -
  have "length (note_expiry_field nt) \<le> 19"
    unfolding note_expiry_field_eq by (rule length_expiry_field, rule valid_note_expiry, rule assms(1))
  moreover have "length (as_str (note_name nt)) \<le> 63"
    using assms(1) by (simp add: valid_note_def valid_name_iff)
  ultimately show ?thesis
    using assms(2) length_action_as_str [of "note_action nt"] by auto
qed

text \<open>C33: The bytes hashed into a commitment determine the whole transition: two well-formed notes
  whose preimages agree under one tag are the same note, whatever their field lengths (given that
  addresses and commitments have injective encodings).\<close>

theorem note_preimage_injective:
  assumes "valid_note E a" and "valid_note E b"
    and "length (ua_encode E (note_ua a)) < 2 ^ 32" and "length (ua_encode E (note_ua b)) < 2 ^ 32"
    and "inj (ua_encode E)" and "inj (cm_to_bytes E)"
    and "note_preimage E ''rcm'' a = note_preimage E ''rcm'' b"
  shows "a = b"
proof (rule note_eq_fields)
  have eqs: "action_as_str (note_action a) = action_as_str (note_action b)"
    "as_str (note_name a) = as_str (note_name b)"
    "ua_encode E (note_ua a) = ua_encode E (note_ua b)"
    "note_expiry_field a = note_expiry_field b"
    "note_prev_bytes E a = note_prev_bytes E b"
    using zns_preimage_inject [OF _ preimage_fields_short [OF assms(1,3)]
        preimage_fields_short [OF assms(2,4)]] assms(7)
    unfolding note_preimage_def by blast+
  show act: "note_action a = note_action b"
    using eqs(1) by (metis action_parse_as_str option.inject)
  show "note_name a = note_name b" using eqs(2) by (rule name.expand)
  show "note_ua a = note_ua b" using eqs(3) assms(5) by (simp add: inj_eq)
  show "note_expiry a = note_expiry b"
    using eqs(4) expiry_parse_field_bytes [OF valid_note_expiry [OF assms(1)]]
      expiry_parse_field_bytes [OF valid_note_expiry [OF assms(2)]]
    unfolding note_expiry_field_eq by (metis option.inject)
  have "note_prev_rcm a = None \<longleftrightarrow> note_prev_rcm b = None"
    using act by (simp add: note_prev_rcm_None_iff)
  then show "note_prev_rcm a = note_prev_rcm b"
    using eqs(5)
    by (cases "note_prev_rcm a"; cases "note_prev_rcm b")
      (simp_all add: note_prev_bytes_def inj_eq [OF assms(6)])
qed

theorem note_preimage_injective_witness:
  "note_preimage demo_env ''rcm'' demo_claim \<noteq> note_preimage demo_env ''rcm'' demo_release"
proof
  assume eq: "note_preimage demo_env ''rcm'' demo_claim
    = note_preimage demo_env ''rcm'' demo_release"
  have r: "valid_note demo_env demo_release"
    using demo_valid_name by (simp add: valid_note_def)
  have i: "inj (ua_encode demo_env)" "inj (cm_to_bytes demo_env)"
    by (simp_all add: inj_def demo_env_def)
  have l: "length (ua_encode demo_env (note_ua demo_claim)) < 2 ^ 32"
    "length (ua_encode demo_env (note_ua demo_release)) < 2 ^ 32"
    by (simp_all add: demo_env_def)
  have "demo_claim = demo_release"
    by (rule note_preimage_injective [OF demo_claim_valid r l i eq])
  then show False by simp
qed

text \<open>The expiry field has exactly one spelling per value: the parser accepts a text if and only
  if it is the printed form of a representable expiry (so \<open>01\<close>, \<open>+1\<close> and overlong digits
  are all refused).\<close>

lemma expiry_parse_iff:
  "expiry_parse E s = Some e \<longleftrightarrow> s = expiry_field_bytes e \<and> valid_expiry E e"
  using expiry_parse_canonical expiry_parse_field_bytes by blast

text \<open>The term grammar is exactly \<open>forever\<close> and one to ninety-nine years, each in one
  spelling.\<close>

lemma term_parse_iff:
  "term_parse s = Some t \<longleftrightarrow> s = term_text t \<and> valid_term t"
  using term_parse_Some term_parse_text by blast

text \<open>Extending a registration never shortens it, never gives a term to a name without fixed
  expiry, converts only a fixed term to forever, and never leaves an expiry more than
  ninety-nine years past the chain's clock.\<close>

lemma expiry_extend_law:
  assumes "expiry_extend E old t mtp = Some (Some new)"
    and "\<forall>n. t = Some (Years n) \<longrightarrow> valid_term (Years n)"
  shows "(old = Never \<longrightarrow> t = None \<and> new = Never) \<and>
         (\<forall>s. old = At s \<longrightarrow>
            (t = None \<and> new = old) \<or> (t = Some Forever \<and> new = Never) \<or>
            (\<exists>n s'. t = Some (Years n) \<and> new = At s' \<and> s' = s + int n * LIVENESS_INTERVAL \<and> s < s')) \<and>
         (\<forall>s'. new = At s' \<longrightarrow> s' \<le> mtp + 99 * LIVENESS_INTERVAL)"
proof -
  have "\<forall>s'. new = At s' \<longrightarrow> s' \<le> mtp + 99 * LIVENESS_INTERVAL"
    using expiry_extend_horizon assms(1) by (fastforce simp: MAX_TERM_YEARS_def)
  then show ?thesis
    using expiry_extend_cases [OF assms(1)] assms(2)
    by (auto simp: valid_term_def LIVENESS_INTERVAL_def)
qed

end
