(* ===== verification/Mint_Block_Laws.thy ===== *)
theory Mint_Block_Laws
  imports Mint_Block Name_Note_Laws
begin

text \<open>
  Properties of block application: which actions become Name Note candidates, and that the
  Registry of an applied chain can be rolled back block by block, whatever the blocks hold.
\<close>

section \<open>Candidates\<close>

definition authentic ::
  "('ua, 'cm) zenv \<Rightarrow> ('ua, 'cm, 'cmx) decrypted_name_note \<Rightarrow> ('cm, 'cmx) ironwood_action \<Rightarrow> bool" where
  "authentic E c act \<longleftrightarrow>
     (\<exists>opened. ia_opened act = Some opened \<and> dn_memo c = oa_memo opened \<and> dn_cmx c = ia_cmx act \<and>
        note_decode E (oa_memo opened) = Some (Some (dn_payload c)) \<and>
        oa_zns_cmx opened (note_rcm E (dn_payload c)) (note_psi E (dn_payload c)) = Some (ia_cmx act) \<and>
        oa_zns_nullifier opened (note_rcm E (dn_payload c)) (note_psi E (dn_payload c)) = Some (dn_nullifier c) \<and>
        oa_value opened = 0 \<and> oa_to_registry opened)"

definition block_actions :: "('cm, 'cmx) block_tx list \<Rightarrow> ('cm, 'cmx) ironwood_action list" where
  "block_actions vtx = concat (map (\<lambda>tx. case bx_ironwood tx of None \<Rightarrow> [] | Some (_, acts) \<Rightarrow> acts) vtx)"

lemma decrypt_action_mem:
  assumes "decrypt_action E txid i ordinal act = Some cs" and "c \<in> set cs"
  shows "authentic E c act \<and> dn_txid c = txid \<and> dn_action_index c = i \<and> dn_ordinal c = ordinal"
  using assms
  by (auto simp: decrypt_action_def authentic_def authored_def split: option.splits if_splits)

lemma decrypt_actions_mem:
  assumes "decrypt_actions E txid capable i ordinal acts = Some cs" and "c \<in> set cs"
  shows "capable \<and> (\<exists>k<length acts. authentic E c (acts ! k) \<and> dn_txid c = txid \<and>
     dn_action_index c = i + k \<and> dn_ordinal c = ordinal + k)"
  using assms
proof (induction acts arbitrary: i ordinal cs)
  case (Cons act acts)
  from Cons.prems obtain here rest where
    h: "(if capable then decrypt_action E txid i ordinal act else Some []) = Some here"
    and r: "decrypt_actions E txid capable (Suc i) (Suc ordinal) acts = Some rest" and cs: "cs = here @ rest"
    by (auto simp: Option.bind_eq_Some_conv split: if_splits)
  show ?case
  proof (cases "c \<in> set here")
    case True
    with h decrypt_action_mem have "capable \<and> authentic E c act \<and> dn_txid c = txid \<and> dn_action_index c = i \<and>
        dn_ordinal c = ordinal" by (fastforce split: if_splits)
    then show ?thesis by (auto intro!: exI [of _ 0])
  next
    case False
    with Cons.prems(2) cs have "c \<in> set rest" by simp
    from Cons.IH [OF r this] obtain k where "capable" "k < length acts" "authentic E c (acts ! k)" "dn_txid c = txid"
      "dn_action_index c = Suc i + k" "dn_ordinal c = Suc ordinal + k" by blast
    then show ?thesis by (auto intro!: exI [of _ "Suc k"])
  qed
qed simp

lemma decrypt_txs_mem:
  assumes "decrypt_txs E ordinal txs = Some cs" and "c \<in> set cs"
  shows "\<exists>tx acts j. tx \<in> set txs \<and> bx_txid tx = dn_txid c \<and> bx_ironwood tx = Some (True, acts) \<and>
     dn_action_index c < length acts \<and> authentic E c (acts ! dn_action_index c) \<and>
     dn_ordinal c = ordinal + j \<and> j < length (block_actions txs) \<and>
     block_actions txs ! j = acts ! dn_action_index c"
  using assms
proof (induction txs arbitrary: ordinal cs)
  case (Cons tx txs)
  show ?case
  proof (cases "bx_ironwood tx")
    case None
    with Cons show ?thesis by (fastforce simp: block_actions_def)
  next
    case (Some x)
    obtain capable acts where x: "x = (capable, acts)" by (cases x)
    have all: "block_actions (tx # txs) = acts @ block_actions txs" using Some x by (simp add: block_actions_def)
    from Cons.prems(1) Some x obtain here rest where h: "decrypt_actions E (bx_txid tx) capable 0 ordinal acts = Some here"
      and r: "decrypt_txs E (ordinal + length acts) txs = Some rest" and cs: "cs = here @ rest"
      by (auto simp: Option.bind_eq_Some_conv)
    show ?thesis
    proof (cases "c \<in> set here")
      case True
      from decrypt_actions_mem [OF h this] obtain k where k: "capable" "k < length acts" "authentic E c (acts ! k)"
        "dn_txid c = bx_txid tx" "dn_action_index c = k" "dn_ordinal c = ordinal + k" by auto
      then show ?thesis using Some x all by (intro exI [of _ tx] exI [of _ acts] exI [of _ k]) (simp add: nth_append)
    next
      case False
      with Cons.prems(2) cs have "c \<in> set rest" by simp
      from Cons.IH [OF r this] obtain tx' acts' j where "tx' \<in> set txs" "bx_txid tx' = dn_txid c"
        "bx_ironwood tx' = Some (True, acts')" "dn_action_index c < length acts'"
        "authentic E c (acts' ! dn_action_index c)" "dn_ordinal c = ordinal + length acts + j"
        "j < length (block_actions txs)" "block_actions txs ! j = acts' ! dn_action_index c" by blast
      then show ?thesis
        using all by (intro exI [of _ tx'] exI [of _ acts'] exI [of _ "length acts + j"]) (simp add: nth_append)
    qed
  qed
qed simp

text \<open>C37: Only authored notes reach the Registry: every candidate of a block is an action of a version 3
  bundle whose memo decodes to the candidate's transition, whose published commitment is the one
  that transition derives, with no value, sent to the Registry; and the candidate's ordinal is the
  action's place in the block's stream of commitments, which fixes its tree position.\<close>

theorem candidates_authentic:
  assumes "decrypt_name_notes E b = Some cs" and "c \<in> set cs"
  shows "\<exists>tx acts opened. tx \<in> set (blk_vtx b) \<and> bx_txid tx = dn_txid c \<and> bx_ironwood tx = Some (True, acts) \<and>
     dn_action_index c < length acts \<and> dn_ordinal c < length (block_actions (blk_vtx b)) \<and>
     block_actions (blk_vtx b) ! dn_ordinal c = acts ! dn_action_index c \<and>
     ia_opened (acts ! dn_action_index c) = Some opened \<and>
     note_decode E (oa_memo opened) = Some (Some (dn_payload c)) \<and>
     oa_zns_cmx opened (note_rcm E (dn_payload c)) (note_psi E (dn_payload c)) = Some (ia_cmx (acts ! dn_action_index c)) \<and>
     oa_value opened = 0 \<and> oa_to_registry opened"
  using decrypt_txs_mem [of E 0 "blk_vtx b" cs c] assms
  unfolding decrypt_name_notes_def authentic_def by fastforce

section \<open>Rolling back a chain\<close>

lemma advances_adopt_all: "advances h r (fold (adopt_anchor h) nfs r)"
proof (induction nfs arbitrary: r)
  case (Cons nf nfs)
  show ?case using Cons.IH [of "adopt_anchor h nf r"] advances_adopt advances_trans by fastforce
qed (simp add: advances_refl)

lemma advances_candidate:
  "accept_candidate E h mtp vtx wtx c r = Some (b, r') \<Longrightarrow> advances h r r'"
  by (auto simp: accept_candidate_def accept_defs advances_refl Option.bind_eq_Some_conv
      dest: advances_accept_claim advances_accept_successor split: if_splits action.splits)

lemma advances_confirm_tx:
  assumes "confirm_tx E h mtp vtx candidates wtx r = Some (acc, r')"
  shows "advances h r r'"
proof -
  let ?notes = "notes_of candidates (sx_txid wtx)"
  let ?r = "adopt_ceremony h wtx (length ?notes) r"
  have a: "advances h r ?r" by (simp add: adopt_ceremony_def advances_adopt_all advances_refl)
  have "advances h ?r r'"
    using assms by (auto simp: confirm_tx_def Let_def advances_follow dest: advances_candidate split: list.splits)
  with a show ?thesis by (rule advances_trans)
qed

lemma advances_confirm_txs:
  "confirm_txs E h mtp vtx candidates wtxs r = Some (acc, r') \<Longrightarrow> advances h r r'"
proof (induction wtxs arbitrary: r acc)
  case (Cons wtx wtxs)
  then show ?case
    using advances_confirm_tx advances_trans by (fastforce simp: Option.bind_eq_Some_conv)
qed (simp add: advances_refl)

lemma advances_apply_block:
  assumes "apply_block E W birthday b h (w, r, m) = Some (arrivals, w', r', m')"
  shows "advances h r r'"
  using assms advances_confirm_txs
  by (fastforce simp: apply_block_def Let_def advances_refl Option.bind_eq_Some_conv split: if_splits)

text \<open>The loop over the missing blocks, arrivals aside.\<close>

definition block_step ::
  "('ua, 'cm) zenv \<Rightarrow> ('w, 'ua, 'cm, 'cmx) wallet_ops \<Rightarrow> height \<Rightarrow> height \<Rightarrow> ('cm, 'cmx) block \<Rightarrow>
     'w \<times> ('ua, 'cm) registry \<times> mtp_tracker \<Rightarrow> ('w \<times> ('ua, 'cm) registry \<times> mtp_tracker) option" where
  "block_step E W birthday h b s = map_option snd (apply_block E W birthday b h s)"

lemma block_step_advances:
  "block_step E W birthday h b s = Some s' \<Longrightarrow> advances h (fst (snd s)) (fst (snd s'))"
  by (cases s; cases s') (auto simp: block_step_def dest: advances_apply_block)

lemma run_blocks_at:
  assumes "reg_at t (fst (snd s))" and "ascending_from t bs" and "run_steps (block_step E W birthday) bs s = Some s'"
    and "\<forall>x\<in>set bs. fst x \<le> n" and "t \<le> n"
  shows "reg_at n (fst (snd s'))"
  using assms
proof (induction bs arbitrary: s t)
  case Nil
  then show ?case using reg_at_mono by simp
next
  case (Cons x bs)
  obtain h b where x: "x = (h, b)" by force
  from Cons.prems(3) x obtain s1 where s1: "block_step E W birthday h b s = Some s1"
    "run_steps (block_step E W birthday) bs s1 = Some s'" by (auto simp: Option.bind_eq_Some_conv)
  have "reg_at h (fst (snd s1))"
    using block_step_advances [OF s1(1)] Cons.prems(1,2) x unfolding advances_def by auto
  then show ?case by (rule Cons.IH) (use Cons.prems x s1 in auto)
qed

lemma run_blocks_above:
  assumes "reg_at t (fst (snd s))" and "ascending_from t bs" and "run_steps (block_step E W birthday) bs s = Some s'"
    and "\<forall>x\<in>set bs. n < fst x"
  shows "truncate_to_height n (fst (snd s')) = truncate_to_height n (fst (snd s))"
  using assms
proof (induction bs arbitrary: s t)
  case (Cons x bs)
  obtain h b where x: "x = (h, b)" by force
  from Cons.prems(3) x obtain s1 where s1: "block_step E W birthday h b s = Some s1"
    "run_steps (block_step E W birthday) bs s1 = Some s'" by (auto simp: Option.bind_eq_Some_conv)
  have at: "reg_at h (fst (snd s1))"
    and eq: "truncate_to_height n (fst (snd s1)) = truncate_to_height n (fst (snd s))"
    using block_step_advances [OF s1(1)] Cons.prems x unfolding advances_def by auto
  from at have "truncate_to_height n (fst (snd s')) = truncate_to_height n (fst (snd s1))"
    by (rule Cons.IH) (use Cons.prems x s1 in auto)
  with eq show ?case by simp
qed simp

text \<open>C8: A reorg is exact: after applying any chain of blocks, whatever transactions, claims and
  unauthored notes they hold, truncating the Registry to height \<open>n\<close> gives the very Registry the
  mint had after the blocks up to \<open>n\<close>.\<close>

theorem chain_rollback:
  assumes "reg_at t r" and "ascending_from t bs" and "t \<le> n"
    and "run_steps (block_step E W birthday) bs (w, r, m) = Some (w', r', m')"
  shows "\<exists>wn mn. run_steps (block_step E W birthday) (takeWhile (\<lambda>x. fst x \<le> n) bs) (w, r, m) =
     Some (wn, truncate_to_height n r', mn)"
proof -
  let ?low = "takeWhile (\<lambda>x. fst x \<le> n) bs" and ?high = "dropWhile (\<lambda>x. fst x \<le> n) bs"
  have split: "bs = ?low @ ?high" by simp
  obtain wn rn mn where low: "run_steps (block_step E W birthday) ?low (w, r, m) = Some (wn, rn, mn)"
    and high: "run_steps (block_step E W birthday) ?high (wn, rn, mn) = Some (w', r', m')"
  proof -
    have "Option.bind (run_steps (block_step E W birthday) ?low (w, r, m)) (run_steps (block_step E W birthday) ?high) =
        Some (w', r', m')"
      using assms(4) run_steps_append [of "block_step E W birthday" ?low ?high "(w, r, m)"] by simp
    then show ?thesis using that by (auto simp: Option.bind_eq_Some_conv)
  qed
  have sorted: "sorted (t # map fst ?low @ map fst ?high)"
    using assms(2) by (simp only: ascending_from_def flip: map_append) simp
  have low_le: "\<forall>x\<in>set ?low. fst x \<le> n" by (meson set_takeWhileD)
  have asc_low: "ascending_from t ?low" using sorted by (auto simp: ascending_from_def sorted_append)
  have at: "reg_at n rn" using run_blocks_at [OF _ asc_low low low_le assms(3)] assms(1) by simp
  have high_gt: "\<forall>x\<in>set ?high. n < fst x"
  proof (cases ?high)
    case (Cons y ys)
    have "\<not> fst y \<le> n" using Cons by (metis dropWhile_eq_Cons_conv)
    moreover have "sorted (map fst ?high)" using sorted by (simp add: sorted_append)
    ultimately show ?thesis using Cons by auto
  next
    case Nil
    then show ?thesis by (metis empty_iff list.set(1))
  qed
  have asc_high: "ascending_from n ?high"
    using high_gt sorted by (auto simp: ascending_from_def sorted_append less_imp_le)
  have "truncate_to_height n r' = truncate_to_height n rn"
    using run_blocks_above [OF _ asc_high high high_gt] at by simp
  also have "\<dots> = rn" by (rule truncate_reg_at [OF at])
  finally show ?thesis using low by blast
qed

section \<open>A concrete chain\<close>

text \<open>A block at height 2 with one transaction, which claims \<open>alice\<close> by spending the anchor of the
  block before. Its Name Note opens to the claim, and its commitment is the trapdoor itself.\<close>

definition demo_opened :: "(bytes, bytes) opened_action" where
  "demo_opened = \<lparr>oa_to_registry = True, oa_memo = demo_memo, oa_value = 0,
     oa_zns_cmx = (\<lambda>rcm psi. Some rcm), oa_zns_nullifier = (\<lambda>rcm psi. Some ''n1'')\<rparr>"

definition demo_block :: "(bytes, bytes) block" where
  "demo_block = \<lparr>blk_prev = ''tip'', blk_time = 1700000000,
     blk_vtx = [\<lparr>bx_txid = ''tx'', bx_expiry = 50,
       bx_ironwood = Some (True, [\<lparr>ia_cmx = note_rcm demo_env demo_claim, ia_opened = Some demo_opened\<rparr>]),
       bx_sapling_in = [], bx_ironwood_in = []\<rparr>]\<rparr>"

definition demo_candidate :: "(string, bytes, bytes) decrypted_name_note" where
  "demo_candidate = \<lparr>dn_txid = ''tx'', dn_action_index = 0, dn_ordinal = 0, dn_cmx = note_rcm demo_env demo_claim,
     dn_nullifier = ''n1'', dn_memo = demo_memo, dn_payload = demo_claim\<rparr>"

definition demo_wallet :: "(unit, string, bytes, bytes) wallet_ops" where
  "demo_wallet = \<lparr>w_tip = (\<lambda>_. (1, ''tip'')),
     w_scan = (\<lambda>_ _. Some ([\<lparr>sx_txid = ''tx'', sx_spends = [''a1''], sx_outputs = [(True, 0, Some ''a2'')]\<rparr>], 0)),
     w_commit = (\<lambda>_ _ w. Some w), w_store = (\<lambda>_ _ _ w. Some w)\<rparr>"

lemma demo_decrypts: "decrypt_name_notes demo_env demo_block = Some [demo_candidate]"
  by (simp add: decrypt_name_notes_def demo_block_def decrypt_action_def demo_opened_def demo_memo_decodes
      authored_def demo_candidate_def)

theorem candidates_authentic_witness:
  "decrypt_name_notes demo_env demo_block = Some [demo_candidate] \<and>
   (\<exists>tx acts. tx \<in> set (blk_vtx demo_block) \<and> bx_txid tx = ''tx'' \<and> bx_ironwood tx = Some (True, acts) \<and>
      block_actions (blk_vtx demo_block) ! 0 = acts ! 0)"
  using candidates_authentic [OF demo_decrypts, of demo_candidate] demo_decrypts
  by (auto simp: demo_candidate_def)

lemma demo_block_step:
  "\<exists>r'. block_step demo_env demo_wallet 1 2 demo_block ((), demo_adopted, mtp_default) =
       Some ((), r', mtp_update 2 1700000000 mtp_default) \<and> record_of r' demo_alice \<noteq> None"
proof -
  obtain r' where r': "record_of r' demo_alice \<noteq> None"
    "accept_claim demo_env demo_claim ''n1'' (Some ''a2'') [''a1''] 2 1700000000 50 demo_adopted = Some (True, r')"
    using demo_claim_step by blast
  have mtp: "mtp_current demo_env (mtp_update 2 1700000000 mtp_default) = Some (Some 1700000000)"
    by (simp add: mtp_current_def mtp_update_def mtp_default_def ts_from_seconds_def demo_env_def MTP_WINDOW_def)
  have c: "confirm_txs demo_env 2 1700000000 (blk_vtx demo_block) [demo_candidate]
      [\<lparr>sx_txid = ''tx'', sx_spends = [''a1''], sx_outputs = [(True, 0, Some ''a2'')]\<rparr>] demo_adopted =
      Some ([demo_candidate], r')"
    using r'(2)
    by (simp add: confirm_tx_def notes_of_def demo_candidate_def adopt_ceremony_def ceremony_outputs_def
        is_ceremony_fill_def accept_candidate_def is_claim_def expiry_of_def demo_block_def successor_anchor_def
        registry_outputs_def del: One_nat_def)
  have memos: "decrypt_treasury_memos demo_env (blk_vtx demo_block) = Some []"
    by (simp add: demo_block_def treasury_payments_def)
  have "apply_block demo_env demo_wallet 1 demo_block 2 ((), demo_adopted, mtp_default) =
      Some ([], (), r', mtp_update 2 1700000000 mtp_default)"
    using demo_decrypts memos mtp c
    by (simp add: apply_block_def demo_wallet_def Let_def) (simp add: demo_block_def)
  with r'(1) show ?thesis by (auto simp: block_step_def)
qed

theorem chain_rollback_witness:
  "\<exists>r'. record_of r' demo_alice \<noteq> None \<and> truncate_to_height 1 r' = demo_adopted \<and>
     run_steps (block_step demo_env demo_wallet 1) [(2, demo_block)] ((), demo_adopted, mtp_default) =
       Some ((), r', mtp_update 2 1700000000 mtp_default)"
proof -
  obtain r' where r': "record_of r' demo_alice \<noteq> None"
    "run_steps (block_step demo_env demo_wallet 1) [(2, demo_block)] ((), demo_adopted, mtp_default) =
       Some ((), r', mtp_update 2 1700000000 mtp_default)"
    using demo_block_step by (fastforce simp del: One_nat_def)
  from chain_rollback [OF demo_adopted_at _ order_refl r'(2)] r' show ?thesis by auto
qed

end
