(* ===== verification/Note_Lifecycle.thy ===== *)
theory Note_Lifecycle
  imports Registry_Laws
begin

text \<open>
  \<open>NameNoteQueue::reconcile_seen\<close> of \<open>src/mint/note.rs\<close> and the life of an order against the
  Registry: from authorization through broadcast to observation, and back on a reorg. The run of
  the queue's operations is a step relation; its invariant is that a name has at most one
  unresolved order, and the last section shows that a reorg escapes it.
\<close>

section \<open>Reconciliation\<close>

definition order_confirmed ::
  "('ua, 'cm) zenv \<Rightarrow> ('ua, 'cm) registry \<Rightarrow> ('ua, 'cm) name_note \<Rightarrow> height \<Rightarrow> bool" where
  "order_confirmed E r nt origin =
     list_ex (\<lambda>rec. nr_confirmed_height rec \<ge> origin \<and> nr_commitment rec = note_commitment E nt)
       (record_history r (note_name nt))"

definition order_current :: "('ua, 'cm) registry \<Rightarrow> ('ua, 'cm) note_order \<Rightarrow> bool" where
  "order_current r = (\<lambda>(nt, _, st).
     if st = Seen \<or> is_claim (note_action nt) then True
     else (case record_of r (note_name nt) of
         Some rec \<Rightarrow> Some (nr_commitment rec) = note_prev_rcm nt
       | None \<Rightarrow> False))"

definition reconcile_seen ::
  "('ua, 'cm) zenv \<Rightarrow> ('ua, 'cm) registry \<Rightarrow> ('ua, 'cm) name_note_queue \<Rightarrow> ('ua, 'cm) name_note_queue" where
  "reconcile_seen E r q =
     q\<lparr>orders := filter (order_current r)
        (map (\<lambda>(nt, origin, st). (nt, origin, if order_confirmed E r nt origin then Seen else st)) (orders q))\<rparr>"

section \<open>The queue's run\<close>

inductive nnq_step ::
  "('ua, 'cm) zenv \<Rightarrow> ('ua, 'cm) name_note_queue \<Rightarrow> ('ua, 'cm) name_note_queue \<Rightarrow> bool" for E where
  admit: "nnq_step E q (snd (nnq_admit origin nt q))"
| sent: "mark_sent n expiry q = Some q' \<Longrightarrow> nnq_step E q q'"
| expire: "nnq_step E q (expire_sent tip q)"
| drop: "drop_note n q = Some q' \<Longrightarrow> nnq_step E q q'"
| reconcile: "nnq_step E q (reconcile_seen E r q)"

inductive_cases nnq_step_cases: "nnq_step E q q'"

lemma names_filter_map:
  assumes "\<And>nt origin st. \<exists>st'. f (nt, origin, st) = (nt, origin, st') \<and> (st = Seen \<longrightarrow> st' = Seen)"
    and "distinct (map (note_name \<circ> fst) (filter (\<lambda>(_, _, st). st \<noteq> Seen) os))"
  shows "distinct (map (note_name \<circ> fst) (filter (\<lambda>(_, _, st). st \<noteq> Seen) (map f os)))"
  using assms(2)
proof (induction os)
  case (Cons x os)
  obtain nt origin st where x: "x = (nt, origin, st)" by (cases x)
  obtain st' where f: "f x = (nt, origin, st')" "st = Seen \<longrightarrow> st' = Seen" using assms(1) x by blast
  have sub: "(note_name \<circ> fst) ` set (filter (\<lambda>(_, _, st). st \<noteq> Seen) (map f os))
      \<subseteq> (note_name \<circ> fst) ` set (filter (\<lambda>(_, _, st). st \<noteq> Seen) os)"
  proof
    fix n
    assume "n \<in> (note_name \<circ> fst) ` set (filter (\<lambda>(_, _, st). st \<noteq> Seen) (map f os))"
    then obtain y where y: "y \<in> set os" "snd (snd (f y)) \<noteq> Seen" "n = note_name (fst (f y))"
      unfolding case_prod_beta by auto
    obtain a b c where abc: "y = (a, b, c)" by (cases y)
    obtain c' where "f y = (a, b, c')" "c = Seen \<longrightarrow> c' = Seen" using assms(1) abc by blast
    with y abc show "n \<in> (note_name \<circ> fst) ` set (filter (\<lambda>(_, _, st). st \<noteq> Seen) os)"
      by (force simp: image_iff)
  qed
  show ?case using Cons x f sub by (cases "st = Seen"; cases "st' = Seen") auto
qed simp

lemma nnq_inv_reconcile:
  assumes "nnq_inv q"
  shows "nnq_inv (reconcile_seen E r q)"
proof -
  let ?f = "\<lambda>(nt, origin, st). (nt, origin, if order_confirmed E r nt origin then Seen else st)"
  have "nnq_inv (q\<lparr>orders := map ?f (orders q)\<rparr>)"
    using assms names_filter_map [of ?f "orders q"] by (auto simp: nnq_inv_def authorized_names_def)
  from nnq_inv_filter [OF this, of "order_current r"] show ?thesis by (simp add: reconcile_seen_def)
qed

lemma nnq_step_inv: "nnq_step E q q' \<Longrightarrow> nnq_inv q \<Longrightarrow> nnq_inv q'"
  by (erule nnq_step_cases) (auto intro: nnq_inv_ops nnq_inv_reconcile)

inductive nnq_run ::
  "('ua, 'cm) zenv \<Rightarrow> ('ua, 'cm) name_note_queue \<Rightarrow> ('ua, 'cm) name_note_queue \<Rightarrow> bool" for E where
  refl: "nnq_run E q q"
| step: "nnq_run E q q' \<Longrightarrow> nnq_step E q' q'' \<Longrightarrow> nnq_run E q q''"

lemma nnq_run_inv: "nnq_run E q q' \<Longrightarrow> nnq_inv q \<Longrightarrow> nnq_inv q'"
  by (induction rule: nnq_run.induct) (auto intro: nnq_step_inv)

text \<open>Between reorgs, from an empty queue and through any sequence of admissions, broadcasts,
  expiries, drops and reconciliations, a name never has two unresolved orders: admission order
  decides which transition owns the name.\<close>

lemma one_unresolved_order:
  assumes "nnq_run E nnq_default q"
  shows "distinct (authorized_names q)"
  using nnq_run_inv [OF assms nnq_inv_default] by (simp add: nnq_inv_def)

text \<open>After reconciliation every unresolved update, release or sale spends its name's live
  record, and no unresolved order already has its note confirmed at or after its origin: what
  the mint signs next is neither stale nor already mined.\<close>

lemma reconciled_orders_current:
  assumes "(nt, origin, st) \<in> set (orders (reconcile_seen E r q))" and "st \<noteq> Seen"
  shows "\<not> order_confirmed E r nt origin \<and>
    (is_claim (note_action nt) \<or>
     (\<exists>rec. record_of r (note_name nt) = Some rec \<and> note_prev_rcm nt = Some (nr_commitment rec)))"
  using assms
  by (auto simp: reconcile_seen_def order_current_def split: if_splits option.splits)

section \<open>What a reorg does to the queue\<close>

text \<open>The queue after a release of a live name was observed at height 7 and, in the same catch-up,
  a claim paid for at height 6 was admitted for the freed name.\<close>

definition reorg_queue :: "'ua \<Rightarrow> 'ua \<Rightarrow> 'cm \<Rightarrow> expiry \<Rightarrow> name \<Rightarrow> ('ua, 'cm) name_note_queue" where
  "reorg_queue alice bob prev e n =
     \<lparr>orders = [(NoteRelease n alice prev, 5, Seen), (NoteClaim n bob e, 6, Authorized)]\<rparr>"

text \<open>C36: A reorg escapes the one-order rule: a release observed at height 7 and a claim whose
  payment was mined at height 6 both become unresolved orders of one name when the chain
  rewinds to 6 and the release's record is live again; dropping the claim then removes the
  release instead.\<close>

theorem reorg_leaves_two_orders:
  assumes "record_of r n = Some rec" and "nr_commitment rec = prev"
    and "\<forall>x \<in> set (record_history r n). nr_commitment x = prev"
    and "note_commitment E (NoteRelease n alice prev) \<noteq> prev" and "note_commitment E (NoteClaim n bob e) \<noteq> prev"
  defines "q \<equiv> reconcile_seen E r (nnq_rewind_to 6 (reorg_queue alice bob prev e n))"
  shows "nnq_inv (reorg_queue alice bob prev e n) \<and>
    authorized_names q = [n, n] \<and>
    map_option orders (drop_note n q) = Some [(NoteClaim n bob e, 6, Authorized)]"
proof -
  have unseen: "\<not> order_confirmed E r (NoteRelease n alice prev) 5" "\<not> order_confirmed E r (NoteClaim n bob e) 6"
    using assms(3-5) by (auto simp: order_confirmed_def list_ex_iff)
  have q: "q = \<lparr>orders = [(NoteRelease n alice prev, 5, Authorized), (NoteClaim n bob e, 6, Authorized)]\<rparr>"
    unfolding q_def using assms(1,2) unseen
    by (simp add: reconcile_seen_def nnq_rewind_to_def reorg_queue_def order_current_def is_claim_def)
  show ?thesis
    unfolding q by (simp add: nnq_inv_def reorg_queue_def authorized_names_def drop_note_def owns_name_def)
qed

definition demo_record :: "(string, bytes) name_record" where
  "demo_record = \<lparr>nr_name = demo_alice, nr_action = ActClaim, nr_ua = ''u1abc'', nr_expires_at = Never,
     nr_commitment = demo_prev, nr_confirmed_height = 3, nr_release_deadline = 1800000000,
     nr_predecessor_nullifier = ''n1''\<rparr>"

lemma demo_commitment_not_prev: "note_commitment demo_env nt \<noteq> demo_prev"
proof -
  have "hd (note_commitment demo_env nt) = CHR 0x01"
    by (simp add: note_commitment_def note_rcm_def zns_rcm_def demo_env_def)
  moreover have "hd demo_prev = CHR 0x07" by (simp add: demo_prev_def)
  ultimately show ?thesis by auto
qed

theorem reorg_leaves_two_orders_witness:
  "authorized_names (reconcile_seen demo_env (set_record demo_record registry_new)
      (nnq_rewind_to 6 (reorg_queue ''u1abc'' ''u1xyz'' demo_prev Never demo_alice))) = [demo_alice, demo_alice]"
proof -
  let ?r = "set_record demo_record (registry_new :: (string, bytes) registry)"
  have ok: "bt_ok (records (registry_new :: (string, bytes) registry))"
    "bt_ok (history (registry_new :: (string, bytes) registry))" by (simp_all add: registry_new_def)
  have 1: "record_of ?r demo_alice = Some demo_record"
    by (simp add: record_set_record [OF ok(1)] demo_record_def is_release_def)
  have 2: "nr_commitment demo_record = demo_prev" by (simp add: demo_record_def)
  have 3: "\<forall>x\<in>set (record_history ?r demo_alice). nr_commitment x = demo_prev"
    by (simp add: history_set_record [OF ok(2)] demo_record_def)
      (simp add: record_history_def registry_new_def)
  show ?thesis
    using reorg_leaves_two_orders [OF 1 2 3 demo_commitment_not_prev demo_commitment_not_prev,
        of "''u1abc''" "''u1xyz''" Never] by blast
qed

end
