(* ===== verification/Presale.thy ===== *)
theory Presale
  imports Codes Btree_Map
begin

text \<open>
  The protected-names table of \<open>src/mint/presale.rs\<close> (the access codes and their key are in
  \<open>Codes\<close>): the rows the pre-sale service returns, their coalescing into a table, the
  completeness test of a read, and the installation of a read that may have failed. Fetching is
  HTTP; its outcome is an argument, and so are \<open>serde_json\<close>'s parser of the body and decoder of
  one row.
\<close>

section \<open>The table\<close>

datatype protection_status = Unprotected | WithExpiry timestamp | ProtectedForever

record protected_row =
  row_name :: string
  row_expiry_at :: "timestamp option"

type_synonym protected_names = "(name, protection_status) btree"

definition protection_status_of :: "protected_names \<Rightarrow> name \<Rightarrow> protection_status" where
  "protection_status_of t n = (case bt_get t n of Some st \<Rightarrow> st | None \<Rightarrow> Unprotected)"

definition is_protected :: "protected_names \<Rightarrow> name \<Rightarrow> timestamp \<Rightarrow> bool" where
  "is_protected t n mtp =
     (case protection_status_of t n of
        Unprotected \<Rightarrow> False
      | ProtectedForever \<Rightarrow> True
      | WithExpiry ts \<Rightarrow> mtp < ts)"

text \<open>The stronger of two stored terms; \<open>Unprotected\<close> is never stored, and meeting it is the
  \<open>unreachable!\<close>.\<close>

fun strongest :: "protection_status \<Rightarrow> protection_status \<Rightarrow> protection_status may_panic" where
  "strongest ProtectedForever _ = Some ProtectedForever"
| "strongest _ ProtectedForever = Some ProtectedForever"
| "strongest (WithExpiry held) (WithExpiry got) = Some (WithExpiry (max held got))"
| "strongest Unprotected _ = None"
| "strongest _ Unprotected = None"

definition row_status :: "protected_row \<Rightarrow> protection_status" where
  "row_status row = (case row_expiry_at row of Some ts \<Rightarrow> WithExpiry ts | None \<Rightarrow> ProtectedForever)"

fun from_rows :: "protected_row list \<Rightarrow> protected_names \<Rightarrow> protected_names may_panic" where
  "from_rows [] t = Some t"
| "from_rows (row # rows) t =
     (case name_parse (row_name row) of
        None \<Rightarrow> from_rows rows t
      | Some n \<Rightarrow>
          (case bt_get t n of
             None \<Rightarrow> from_rows rows (bt_insert n (row_status row) t)
           | Some held \<Rightarrow>
               (case strongest held (row_status row) of
                  None \<Rightarrow> None
                | Some st \<Rightarrow> from_rows rows (bt_insert n st t))))"

section \<open>Reading\<close>

datatype fetch_error = Unavailable | Unconfirmed

definition complete ::
  "protected_row list \<Rightarrow> nat \<Rightarrow> nat option \<Rightarrow> (fetch_error + protected_names) may_panic" where
  "complete rows landed tot =
     (case tot of
        Some n \<Rightarrow> if n = landed then map_option Inr (from_rows rows []) else Some (Inl Unconfirmed)
      | None \<Rightarrow> Some (Inl Unconfirmed))"

definition decode_rows ::
  "(bytes \<Rightarrow> 'e + 'json list) \<Rightarrow> ('json \<Rightarrow> protected_row option) \<Rightarrow> bytes \<Rightarrow> 'e + protected_row list \<times> nat" where
  "decode_rows from_slice from_value body =
     (case from_slice body of
        Inl e \<Rightarrow> Inl e
      | Inr values \<Rightarrow> Inr (map the (filter (\<lambda>r. r \<noteq> None) (map from_value values)), length values))"

text \<open>\<open>fetch\<close>, given what \<open>fetch_rows\<close> brought back.\<close>

definition fetch ::
  "(protected_row list \<times> nat \<times> nat option) option \<Rightarrow> (fetch_error + protected_names) may_panic" where
  "fetch read =
     (case read of None \<Rightarrow> Some (Inl Unavailable) | Some (rows, landed, tot) \<Rightarrow> complete rows landed tot)"

text \<open>\<open>PendingRead::install\<close>; a panic of the read is the panic of the pass.\<close>

definition install :: "(fetch_error + protected_names) may_panic \<Rightarrow> protected_names \<Rightarrow> protected_names may_panic" where
  "install read names = map_option (\<lambda>res. case res of Inr fresh \<Rightarrow> fresh | Inl _ \<Rightarrow> names) read"

section \<open>Lemmas\<close>

definition stored_ok :: "protected_names \<Rightarrow> bool" where
  "stored_ok t \<longleftrightarrow> bt_ok t \<and> (\<forall>n. bt_get t n \<noteq> Some Unprotected)"

definition protects :: "protected_row list \<Rightarrow> name \<Rightarrow> timestamp \<Rightarrow> bool" where
  "protects rows n mtp \<longleftrightarrow>
     (\<exists>row\<in>set rows. name_parse (row_name row) = Some n \<and>
        (case row_expiry_at row of None \<Rightarrow> True | Some ts \<Rightarrow> mtp < ts))"

lemma strongest_stored:
  assumes "a \<noteq> Unprotected" and "b \<noteq> Unprotected"
  obtains c where "strongest a b = Some c" and "c \<noteq> Unprotected"
    and "\<And>mtp. (case c of Unprotected \<Rightarrow> False | ProtectedForever \<Rightarrow> True | WithExpiry ts \<Rightarrow> mtp < ts) \<longleftrightarrow>
       (case a of Unprotected \<Rightarrow> False | ProtectedForever \<Rightarrow> True | WithExpiry ts \<Rightarrow> mtp < ts) \<or>
       (case b of Unprotected \<Rightarrow> False | ProtectedForever \<Rightarrow> True | WithExpiry ts \<Rightarrow> mtp < ts)"
  using assms by (cases a; cases b) (auto simp: less_max_iff_disj)

lemma row_status_stored: "row_status row \<noteq> Unprotected"
  by (simp add: row_status_def split: option.splits)

lemma from_rows_step:
  assumes "stored_ok t" and "name_parse (row_name row) = Some k"
  obtains st where "from_rows (row # rows) t = from_rows rows (bt_insert k st t)" and "st \<noteq> Unprotected"
    and "\<And>mtp. is_protected (bt_insert k st t) n mtp \<longleftrightarrow> is_protected t n mtp \<or> protects [row] n mtp"
proof (cases "bt_get t k")
  case None
  show ?thesis
  proof (rule that [of "row_status row"])
    show "from_rows (row # rows) t = from_rows rows (bt_insert k (row_status row) t)" using None assms by simp
    show "is_protected (bt_insert k (row_status row) t) n mtp \<longleftrightarrow> is_protected t n mtp \<or> protects [row] n mtp" for mtp
      using None assms
      by (auto simp: is_protected_def protection_status_of_def protects_def row_status_def stored_ok_def bt_get_insert
          split: option.splits)
  qed (rule row_status_stored)
next
  case (Some held)
  then have "held \<noteq> Unprotected" using assms(1) by (auto simp: stored_ok_def)
  then obtain c where c: "strongest held (row_status row) = Some c" "c \<noteq> Unprotected"
    "\<And>mtp. (case c of Unprotected \<Rightarrow> False | ProtectedForever \<Rightarrow> True | WithExpiry ts \<Rightarrow> mtp < ts) \<longleftrightarrow>
       (case held of Unprotected \<Rightarrow> False | ProtectedForever \<Rightarrow> True | WithExpiry ts \<Rightarrow> mtp < ts) \<or>
       (case row_status row of Unprotected \<Rightarrow> False | ProtectedForever \<Rightarrow> True | WithExpiry ts \<Rightarrow> mtp < ts)"
    using strongest_stored row_status_stored by metis
  show ?thesis
  proof (rule that [of c])
    show "from_rows (row # rows) t = from_rows rows (bt_insert k c t)" using Some assms c(1) by simp
    show "is_protected (bt_insert k c t) n mtp \<longleftrightarrow> is_protected t n mtp \<or> protects [row] n mtp" for mtp
      using Some assms c(3) [of mtp]
      by (auto simp: is_protected_def protection_status_of_def protects_def row_status_def stored_ok_def bt_get_insert
          split: option.splits)
  qed (rule c(2))
qed

lemma from_rows_ok:
  assumes "stored_ok t"
  shows "\<exists>t'. from_rows rows t = Some t' \<and> stored_ok t' \<and>
     (\<forall>mtp. is_protected t' n mtp \<longleftrightarrow> is_protected t n mtp \<or> protects rows n mtp)"
  using assms
proof (induction rows arbitrary: t)
  case Nil
  then show ?case by (simp add: protects_def)
next
  case (Cons row rows)
  have split: "protects (row # rows) n mtp \<longleftrightarrow> protects [row] n mtp \<or> protects rows n mtp" for mtp
    by (auto simp: protects_def)
  show ?case
  proof (cases "name_parse (row_name row)")
    case None
    then have "\<not> protects [row] n mtp" for mtp by (simp add: protects_def)
    with None Cons split show ?thesis by simp
  next
    case (Some k)
    then obtain st where st: "from_rows (row # rows) t = from_rows rows (bt_insert k st t)" "st \<noteq> Unprotected"
      "\<And>mtp. is_protected (bt_insert k st t) n mtp \<longleftrightarrow> is_protected t n mtp \<or> protects [row] n mtp"
      using from_rows_step [OF Cons.prems Some, of rows n] by metis
    have "stored_ok (bt_insert k st t)"
      using Cons.prems st(2) by (simp add: stored_ok_def bt_ok_insert bt_get_insert)
    from Cons.IH [OF this] st(1,3) split show ?thesis by auto
  qed
qed

section \<open>Properties\<close>

text \<open>The protection table says what the pre-sale sold: a read is installed only when every
  counted row landed, building it never panics, and then a name is protected at a time exactly
  when some row of that name never expires or expires later; any other read leaves the last table
  standing.\<close>

lemma protection_is_the_rows:
  "\<exists>t. install (fetch read) old = Some t \<and>
     (case read of
        Some (rows, landed, Some tot) \<Rightarrow>
          if tot = landed
          then \<forall>n mtp. is_protected t n mtp \<longleftrightarrow>
            (\<exists>row. row \<in> set rows \<and> name_parse (row_name row) = Some n \<and>
               (case row_expiry_at row of None \<Rightarrow> True | Some ts \<Rightarrow> mtp < ts))
          else t = old
      | _ \<Rightarrow> t = old)"
proof -
  have empty: "stored_ok []" by (simp add: stored_ok_def)
  have table: "\<exists>t. from_rows rows [] = Some t \<and>
      (\<forall>n mtp. is_protected t n mtp \<longleftrightarrow>
        (\<exists>row. row \<in> set rows \<and> name_parse (row_name row) = Some n \<and>
           (case row_expiry_at row of None \<Rightarrow> True | Some ts \<Rightarrow> mtp < ts)))" for rows
  proof -
    obtain t where t: "from_rows rows [] = Some t" using from_rows_ok [OF empty] by blast
    have "is_protected t n mtp \<longleftrightarrow> protects rows n mtp" for n mtp
      using from_rows_ok [OF empty, of rows n] t by (simp add: is_protected_def protection_status_of_def)
    with t show ?thesis unfolding protects_def by blast
  qed
  show ?thesis
  proof (cases read)
    case (Some x)
    obtain rows landed tot where x: "x = (rows, landed, tot)" by (cases x)
    show ?thesis
      using table [of rows] Some x by (cases tot) (auto simp: fetch_def complete_def install_def)
  qed (simp add: fetch_def install_def)
qed

end
