(* ===== verification/Pricing.thy ===== *)
theory Pricing
  imports Median Name_Note Demo_Env
begin

text \<open>
  \<open>src/mint/pricing.rs\<close>: the aggregation of exchange quotes, the USD schedule of names, and the
  oracle that publishes one rate a day. \<open>rust_decimal\<close> is a parameter: a linearly ordered type
  with the operations the code uses, of which addition, multiplication and division panic out of
  range. Fetching is HTTP; what a venue's response yields is an argument.
\<close>

section \<open>Decimals\<close>

text \<open>\<open>d_ceil_u64\<close> is \<open>u64::try_from(x.ceil()).ok()\<close>.\<close>

record 'd dec_env =
  d_of_nat :: "nat \<Rightarrow> 'd"
  d_add :: "'d \<Rightarrow> 'd \<Rightarrow> 'd may_panic"
  d_mul :: "'d \<Rightarrow> 'd \<Rightarrow> 'd may_panic"
  d_div :: "'d \<Rightarrow> 'd \<Rightarrow> 'd may_panic"
  d_ceil_u64 :: "'d \<Rightarrow> nat option"

section \<open>Quotes and their aggregation\<close>

definition TRUSTED :: string where
  "TRUSTED = ''gemini''"

definition MIN_DAY_SUCCESS_PERCENT :: nat where
  "MIN_DAY_SUCCESS_PERCENT = 50"

definition MAX_USD_PRICE :: nat where
  "MAX_USD_PRICE = 1000000"

definition plausible :: "'d::linorder dec_env \<Rightarrow> 'd \<Rightarrow> bool" where
  "plausible D price \<longleftrightarrow> d_of_nat D 1 < price \<and> price < d_of_nat D MAX_USD_PRICE"

text \<open>\<open>fetch_last\<close>, given the decimal its response holds, if any.\<close>

definition fetch_last :: "'d::linorder dec_env \<Rightarrow> 'd option \<Rightarrow> 'd option" where
  "fetch_last D response =
     (case response of Some price \<Rightarrow> if plausible D price then Some price else None | None \<Rightarrow> None)"

definition aggregate :: "'d::linorder dec_env \<Rightarrow> (string \<times> 'd) list \<Rightarrow> 'd option may_panic" where
  "aggregate D quotes =
     (if length quotes = 0 then Some None
      else if length quotes = 1 \<or> length quotes = 2
      then Some (map_option snd (find (\<lambda>(nm, _). nm = TRUSTED) quotes))
      else
        let rates = sort (map snd quotes); mid = length rates div 2
        in if length rates mod 2 = 1 then Some (Some (rates ! mid))
           else map_option Some
             (Option.bind (d_add D (rates ! (mid - 1)) (rates ! mid)) (\<lambda>s. d_div D s (d_of_nat D 2))))"

text \<open>\<open>fetch_round\<close>: the venues' outcomes in the order they finish.\<close>

definition fetch_round :: "'d::linorder dec_env \<Rightarrow> (string \<times> 'd option) list \<Rightarrow> 'd option may_panic" where
  "fetch_round D responses =
     aggregate D (concat (map (\<lambda>(nm, response).
         case fetch_last D response of Some rate \<Rightarrow> [(nm, rate)] | None \<Rightarrow> []) responses))"

section \<open>The schedule\<close>

definition ANNUAL_USD :: "nat list" where
  "ANNUAL_USD = [10000, 2500, 800, 400, 100]"

definition MINIMUM_USD :: nat where
  "MINIMUM_USD = 20"

definition FOREVER_MULTIPLE :: nat where
  "FOREVER_MULTIPLE = 3"

text \<open>The empty name's index is out of bounds.\<close>

definition annual_usd :: "name \<Rightarrow> nat may_panic" where
  "annual_usd n =
     (let len = length (as_str n) in
      if len \<le> length ANNUAL_USD then (if len = 0 then None else Some (ANNUAL_USD ! (len - 1)))
      else Some MINIMUM_USD)"

definition forever_usd :: "name \<Rightarrow> nat may_panic" where
  "forever_usd n = map_option (\<lambda>usd. usd * FOREVER_MULTIPLE) (annual_usd n)"

text \<open>\<open>annual * years\<close> is a \<open>u64\<close> product, which wraps; the product with the rate is checked.\<close>

definition quote_at :: "('ua, 'cm) zenv \<Rightarrow> zat \<Rightarrow> name \<Rightarrow> reg_term \<Rightarrow> zat option may_panic" where
  "quote_at E rate n t =
     map_option (\<lambda>usd. if usd * rate > U64_MAX then None else zat_from_u64 E (usd * rate))
       (case t of
          Forever \<Rightarrow> forever_usd n
        | Years years \<Rightarrow> map_option (\<lambda>usd. usd * years mod 2 ^ 64) (annual_usd n))"

section \<open>The oracle\<close>

record 'd price_oracle =
  daily_rate :: zat
  current_day :: int
  acc_sum :: 'd
  acc_seconds :: nat
  last_price :: 'd
  last_ts :: int
  rounds_attempted :: nat
  rounds_seen :: nat

definition COIN :: nat where
  "COIN = 100000000"

definition zats_per_usd :: "('ua, 'cm) zenv \<Rightarrow> 'd::linorder dec_env \<Rightarrow> 'd \<Rightarrow> zat option may_panic" where
  "zats_per_usd E D usd_per_zec =
     (if usd_per_zec \<le> d_of_nat D 0 then Some None
      else map_option (\<lambda>x. Option.bind (d_ceil_u64 D x) (zat_from_u64 E)) (d_div D (d_of_nat D COIN) usd_per_zec))"

definition oracle_new ::
  "('ua, 'cm) zenv \<Rightarrow> 'd::linorder dec_env \<Rightarrow> 'd \<Rightarrow> int \<Rightarrow> timestamp \<Rightarrow> 'd price_oracle may_panic" where
  "oracle_new E D initial_price today now =
     Option.bind (zats_per_usd E D initial_price) (map_option (\<lambda>rate.
       \<lparr>daily_rate = rate, current_day = today, acc_sum = d_of_nat D 0, acc_seconds = 0,
        last_price = initial_price, last_ts = now, rounds_attempted = 0, rounds_seen = 0\<rparr>))"

definition oracle_current :: "'d price_oracle \<Rightarrow> zat" where
  "oracle_current o1 = daily_rate o1"

text \<open>The rollover: publish when the day earned it, then start the new day empty.\<close>

definition day_landed :: "'d price_oracle \<Rightarrow> bool" where
  "day_landed o1 \<longleftrightarrow>
     acc_seconds o1 > 0 \<and> rounds_seen o1 * 100 \<ge> rounds_attempted o1 * MIN_DAY_SUCCESS_PERCENT"

definition day_rate :: "('ua, 'cm) zenv \<Rightarrow> 'd::linorder dec_env \<Rightarrow> 'd price_oracle \<Rightarrow> zat option may_panic" where
  "day_rate E D o1 =
     Option.bind (d_div D (acc_sum o1) (d_of_nat D (acc_seconds o1))) (zats_per_usd E D)"

definition roll_over ::
  "('ua, 'cm) zenv \<Rightarrow> 'd::linorder dec_env \<Rightarrow> int \<Rightarrow> 'd price_oracle \<Rightarrow> 'd price_oracle may_panic" where
  "roll_over E D today o1 =
     (if today > current_day o1
      then map_option (\<lambda>published.
          o1\<lparr>daily_rate := (case published of Some rate \<Rightarrow> rate | None \<Rightarrow> daily_rate o1),
             acc_sum := d_of_nat D 0, acc_seconds := 0, rounds_attempted := 0, rounds_seen := 0,
             current_day := today\<rparr>)
        (if day_landed o1 then day_rate E D o1 else Some None)
      else Some o1)"

definition sat_succ_u32 :: "nat \<Rightarrow> nat" where
  "sat_succ_u32 n = min (n + 1) U32_MAX"

definition accumulate ::
  "('ua, 'cm) zenv \<Rightarrow> 'd::linorder dec_env \<Rightarrow> 'd option \<Rightarrow> int \<Rightarrow> timestamp \<Rightarrow> 'd price_oracle \<Rightarrow> 'd price_oracle may_panic" where
  "accumulate E D price today now o0 =
     (if now < last_ts o0 then Some o0
      else Option.bind (roll_over E D today o0) (\<lambda>o1.
        let o2 = o1\<lparr>rounds_attempted := sat_succ_u32 (rounds_attempted o1)\<rparr> in
        (case price of
           None \<Rightarrow> Some o2
         | Some p \<Rightarrow>
             if p \<le> d_of_nat D 0 then Some o2
             else
               let elapsed = nat (now - last_ts o2) in
               Option.bind (d_mul D (last_price o2) (d_of_nat D elapsed)) (\<lambda>w.
                 map_option (\<lambda>s.
                     o2\<lparr>acc_sum := s, acc_seconds := acc_seconds o2 + elapsed, last_price := p, last_ts := now,
                        rounds_seen := sat_succ_u32 (rounds_seen o2)\<rparr>)
                   (d_add D (acc_sum o2) w)))))"

definition oracle_quote :: "('ua, 'cm) zenv \<Rightarrow> 'd price_oracle \<Rightarrow> name \<Rightarrow> reg_term \<Rightarrow> zat option may_panic" where
  "oracle_quote E o1 n t = quote_at E (oracle_current o1) n t"

section \<open>The median of the quotes\<close>

text \<open>What the code relies on of decimals here: adding two plausible prices and halving the sum are in
  the crate's range, so neither panics. Nothing is assumed of how the crate rounds: a sum that needs
  more than a decimal's 96 bits loses its last places.\<close>

definition halving_in_range :: "'d::linorder dec_env \<Rightarrow> bool" where
  "halving_in_range D \<longleftrightarrow>
     (\<forall>a b. plausible D a \<and> plausible D b \<longrightarrow> Option.bind (d_add D a b) (\<lambda>s. d_div D s (d_of_nat D 2)) \<noteq> None)"

lemma minority_left:
  assumes "length (filter p xs) > length (filter q xs)"
  shows "\<exists>x. x \<in> set xs \<and> p x \<and> \<not> q x"
proof (rule ccontr)
  assume "\<nexists>x. x \<in> set xs \<and> p x \<and> \<not> q x"
  then have "length (filter p xs) \<le> length (filter q xs)" by (intro filter_length_mono) auto
  with assms show False by simp
qed

lemma honest_below:
  assumes "k < length xs" and "length (filter (\<lambda>x. bad x) xs) \<le> k"
  shows "\<exists>x. x \<in> set xs \<and> \<not> bad x \<and> snd x \<le> sort (map snd xs) ! k"
proof -
  have "k < length (filter (\<lambda>x. x \<le> sort (map snd xs) ! k) (map snd xs))"
    using sort_nth_le [of k "map snd xs" "sort (map snd xs) ! k"] assms(1) by simp
  then have "length (filter (\<lambda>x. bad x) xs) < length (filter (\<lambda>x. snd x \<le> sort (map snd xs) ! k) xs)"
    using assms(2) by (simp add: filter_map comp_def)
  from minority_left [OF this] show ?thesis by blast
qed

lemma honest_above:
  assumes "k < length xs" and "length (filter (\<lambda>x. bad x) xs) < length xs - k"
  shows "\<exists>x. x \<in> set xs \<and> \<not> bad x \<and> sort (map snd xs) ! k \<le> snd x"
proof -
  let ?m = "sort (map snd xs) ! k"
  have "length (filter (\<lambda>x. x < ?m) (map snd xs)) \<le> k"
    using sort_nth_less [of k "map snd xs" ?m] assms(1) by simp
  then have "length (filter (\<lambda>x. snd x < ?m) xs) \<le> k" by (simp add: filter_map comp_def)
  moreover have "length (filter (\<lambda>x. snd x < ?m) xs) + length (filter (\<lambda>x. \<not> snd x < ?m) xs) = length xs"
    by (rule sum_length_filter_compl)
  ultimately have "length (filter (\<lambda>x. bad x) xs) < length (filter (\<lambda>x. \<not> snd x < ?m) xs)"
    using assms(2) by linarith
  from minority_left [OF this] show ?thesis by (metis not_less)
qed

text \<open>A minority of hostile venues cannot move the rate: with three or more quotes of which fewer than
  half are bad, the one or two middle quotes lie between two honest ones, whatever the bad ones say.
  An odd number publishes the middle quote, an even one the halved sum of the two.\<close>

lemma median_resists_minority:
  assumes "3 \<le> length quotes" and "\<forall>x. x \<in> set quotes \<longrightarrow> plausible D (snd x)" and "halving_in_range D"
    and "2 * length (filter (\<lambda>x. bad x) quotes) < length quotes"
  shows "\<exists>r a b lo hi. aggregate D quotes = Some (Some r) \<and> lo \<in> set quotes \<and> hi \<in> set quotes \<and>
     \<not> bad lo \<and> \<not> bad hi \<and> snd lo \<le> a \<and> a \<le> b \<and> b \<le> snd hi \<and>
     (if odd (length quotes) then a = r \<and> b = r
      else \<exists>s. d_add D a b = Some s \<and> d_div D s (d_of_nat D 2) = Some r)"
proof -
  let ?n = "length quotes" and ?rates = "sort (map snd quotes)"
  let ?a = "?rates ! ((?n - 1) div 2)" and ?b = "?rates ! (?n div 2)"
  have in_set: "?rates ! k \<in> snd ` set quotes" if "k < ?n" for k
    using sort_nth_in_set [of k "map snd quotes"] that by simp
  obtain lo where lo: "lo \<in> set quotes" "\<not> bad lo" "snd lo \<le> ?a"
  proof -
    have "(?n - 1) div 2 < ?n" "length (filter (\<lambda>x. bad x) quotes) \<le> (?n - 1) div 2" using assms(1,4) by linarith+
    from honest_below [OF this] show ?thesis using that by blast
  qed
  obtain hi where hi: "hi \<in> set quotes" "\<not> bad hi" "?b \<le> snd hi"
  proof -
    have "?n div 2 < ?n" "length (filter (\<lambda>x. bad x) quotes) < ?n - ?n div 2" using assms(1,4) by linarith+
    from honest_above [OF this] show ?thesis using that by blast
  qed
  have ab: "?a \<le> ?b" using sorted_nth_mono [of ?rates] assms(1) by simp
  have "\<exists>r. aggregate D quotes = Some (Some r) \<and> (if odd ?n then ?a = r \<and> ?b = r
      else \<exists>s. d_add D ?a ?b = Some s \<and> d_div D s (d_of_nat D 2) = Some r)"
  proof (cases "odd ?n")
    case True
    then have "(?n - 1) div 2 = ?n div 2" "?n mod 2 = 1" by presburger+
    with True assms(1) show ?thesis by (auto simp: aggregate_def Let_def)
  next
    case False
    then have half: "(?n - 1) div 2 = ?n div 2 - 1" "?n mod 2 = 0" using assms(1) by presburger+
    have "plausible D ?a" "plausible D ?b"
      using in_set [of "(?n - 1) div 2"] in_set [of "?n div 2"] assms(1,2) by fastforce+
    with assms(3) obtain s m where "d_add D ?a ?b = Some s" "d_div D s (d_of_nat D 2) = Some m"
      unfolding halving_in_range_def by (fastforce simp: Option.bind_eq_Some_conv)
    with False half assms(1) show ?thesis by (auto simp: aggregate_def Let_def)
  qed
  with lo hi ab show ?thesis by blast
qed

text \<open>Whole dollars, with halving rounded down: enough of a decimal for a concrete run.\<close>

definition demo_dec :: "nat dec_env" where
  "demo_dec = \<lparr>d_of_nat = (\<lambda>n. n), d_add = (\<lambda>a b. Some (a + b)), d_mul = (\<lambda>a b. Some (a * b)),
     d_div = (\<lambda>a b. if b = 0 then None else Some (a div b)), d_ceil_u64 = Some\<rparr>"

section \<open>The published rate\<close>

text \<open>The published rate moves only at a rollover that earned it: folding a round changes it exactly
  when the round's day is later, its clock has not been rewound behind the last priced round, and
  the finished day has billed time and at least half of its attempts priced; then it is the rate
  of that day's time-weighted average, if that is a representable amount. A rewound clock changes
  nothing at all.\<close>

lemma rate_changes_only_at_rollover:
  assumes "accumulate E D price today now o0 = Some o1"
  shows "daily_rate o1 =
     (if last_ts o0 \<le> now \<and> current_day o0 < today \<and> 0 < acc_seconds o0 \<and>
         rounds_attempted o0 \<le> 2 * rounds_seen o0
      then (case the (Option.bind (d_div D (acc_sum o0) (d_of_nat D (acc_seconds o0))) (zats_per_usd E D)) of
              Some rate \<Rightarrow> rate | None \<Rightarrow> daily_rate o0)
      else daily_rate o0) \<and>
   current_day o1 = (if now < last_ts o0 then current_day o0 else max today (current_day o0)) \<and>
   (now < last_ts o0 \<longrightarrow> o1 = o0)"
proof (cases "now < last_ts o0")
  case False
  obtain r where r: "roll_over E D today o0 = Some r"
    using assms False by (auto simp: accumulate_def Option.bind_eq_Some_conv)
  have keep: "daily_rate o1 = daily_rate r" "current_day o1 = current_day r"
    using assms False r by (auto simp: accumulate_def Let_def Option.bind_eq_Some_conv split: option.splits if_splits)
  have landed: "day_landed o0 \<longleftrightarrow> 0 < acc_seconds o0 \<and> rounds_attempted o0 \<le> 2 * rounds_seen o0"
    by (auto simp: day_landed_def MIN_DAY_SUCCESS_PERCENT_def)
  show ?thesis
  proof (cases "current_day o0 < today")
    case True
    with r keep False landed show ?thesis
      by (auto simp: roll_over_def day_rate_def split: if_splits)
  next
    case sameday: False
    with r keep False show ?thesis by (auto simp: roll_over_def max_def)
  qed
qed (use assms in \<open>simp add: accumulate_def\<close>)

section \<open>The schedule\<close>

definition tariff :: "nat \<Rightarrow> nat" where
  "tariff len = (if len = 1 then 10000 else if len = 2 then 2500 else if len = 3 then 800
     else if len = 4 then 400 else if len = 5 then 100 else 20)"

lemma annual_usd_valid:
  assumes "valid_name n"
  shows "annual_usd n = Some (tariff (length (as_str n)))"
proof (cases "length (as_str n) \<le> 5")
  case True
  moreover have "length (as_str n) \<noteq> 0" using assms by (simp add: valid_name_iff)
  ultimately have "length (as_str n) = 1 \<or> length (as_str n) = 2 \<or> length (as_str n) = 3 \<or>
      length (as_str n) = 4 \<or> length (as_str n) = 5" by linarith
  then show ?thesis by (auto simp: annual_usd_def ANNUAL_USD_def tariff_def)
qed (simp add: annual_usd_def ANNUAL_USD_def MINIMUM_USD_def tariff_def)

lemma tariff_bounds: "20 \<le> tariff len \<and> tariff len \<le> 10000"
  by (simp add: tariff_def)

text \<open>The price of a name: for every valid name and term the quote never panics or wraps; it is the
  yearly dollar price of the name's length times the years, three years for a registration without
  end, times the rate, and there is no quote exactly when that is not an amount of money.\<close>

lemma quote_law:
  assumes "valid_name n" and "valid_term t" and "max_money E \<le> U64_MAX"
  shows "quote_at E rate n t =
     Some (let usd = tariff (length (as_str n)) * (case t of Forever \<Rightarrow> 3 | Years k \<Rightarrow> k) in
           if usd * rate \<le> max_money E then Some (usd * rate) else None)"
proof -
  have a: "annual_usd n = Some (tariff (length (as_str n)))" by (rule annual_usd_valid [OF assms(1)])
  have small: "tariff (length (as_str n)) * k mod 2 ^ 64 = tariff (length (as_str n)) * k" if "k \<le> 99" for k :: nat
  proof -
    have "tariff (length (as_str n)) * k \<le> 10000 * 99" using tariff_bounds that by (meson mult_le_mono)
    then show ?thesis by simp
  qed
  show ?thesis
  proof (cases t)
    case Forever
    then show ?thesis
      using a assms(3) by (simp add: quote_at_def forever_usd_def FOREVER_MULTIPLE_def zat_from_u64_def Let_def)
  next
    case (Years k)
    then have "k \<le> 99" using assms(2) by (simp add: valid_term_def MAX_TERM_YEARS_def)
    with Years a assms(3) small show ?thesis by (simp add: quote_at_def zat_from_u64_def Let_def)
  qed
qed

end
