(* ===== verification/Run_Loop.thy ===== *)
theory Run_Loop
  imports Market_Safety Note_Lifecycle Code_Laws Presale Pricing Mint_Block
begin

text \<open>
  The run loop of \<open>src/main.rs\<close>: what the mint does with each block's arrivals, at each tip, and
  on a reorg, over the state its queues and faculties hold together. The parts that leave the
  process (fetching, proving, submitting) enter as the outcomes they return; every decision the
  loop takes on them is here. A panic of any part is a panic of the pass.
\<close>

section \<open>State\<close>

record ('ua, 'cm, 'd) mint_state =
  ms_registry :: "('ua, 'cm) registry"
  ms_name_notes :: "('ua, 'cm) name_note_queue"
  ms_challenges :: "'ua otp_queue"
  ms_market :: "('ua, 'cm) market"
  ms_requests :: "'ua request_queue"
  ms_refunds :: "'ua refund_queue"
  ms_oracle :: "'d price_oracle"
  ms_mtp :: mtp_tracker
  ms_protected :: protected_names
  ms_fee :: zat

definition refund ::
  "('ua, 'cm) zenv \<Rightarrow> txid \<Rightarrow> 'ua \<Rightarrow> name \<Rightarrow> height \<Rightarrow> zat \<Rightarrow> ('ua, 'cm, 'd) mint_state \<Rightarrow> ('ua, 'cm, 'd) mint_state" where
  "refund E txid ua n h amount s = s\<lparr>ms_refunds := refund_admit E (ms_fee s) txid ua n h amount (ms_refunds s)\<rparr>"

text \<open>\<open>name_notes.admit(..)\<close> and, when it takes the order, \<open>challenges.drop_challenges(name)\<close>.\<close>

definition admit_order ::
  "height \<Rightarrow> ('ua, 'cm) name_note \<Rightarrow> ('ua, 'cm, 'd) mint_state \<Rightarrow> bool \<times> ('ua, 'cm, 'd) mint_state" where
  "admit_order origin nt s =
     (case nnq_admit origin nt (ms_name_notes s) of
        (True, q) \<Rightarrow> (True, s\<lparr>ms_name_notes := q,
            ms_challenges := drop_challenges (note_name nt) (ms_challenges s)\<rparr>)
      | (False, q) \<Rightarrow> (False, s\<lparr>ms_name_notes := q\<rparr>))"

section \<open>Arrivals\<close>

definition arrive_market ::
  "('ua, 'cm) zenv \<Rightarrow> derivation_key \<Rightarrow> height \<Rightarrow> timestamp \<Rightarrow> txid \<Rightarrow> 'ua market_request \<Rightarrow> zat \<Rightarrow>
     ('ua, 'cm, 'd) mint_state \<Rightarrow> ('ua, 'cm, 'd) mint_state may_panic" where
  "arrive_market E key h mtp txid request paid s =
     map_option (\<lambda>(admitted, m).
         let s1 = s\<lparr>ms_market := m\<rparr>;
             s2 = (case ad_opened admitted of
                     Some n \<Rightarrow> s1\<lparr>ms_challenges := drop_challenges n (ms_challenges s1)\<rparr> | None \<Rightarrow> s1)
         in case ad_returned admitted of
              Some back \<Rightarrow> s2\<lparr>ms_refunds := refund_admit_with_note E (ms_fee s2) txid (ri_recipient back) (ri_name back)
                  h paid (Some (ri_note back)) (ms_refunds s2)\<rparr>
            | None \<Rightarrow> s2)
       (market_admit E key txid request paid (ms_registry s) (ms_fee s) h mtp (note_pending (ms_name_notes s)) (ms_market s))"

text \<open>What goes back of a payment whose code was right: nothing once a term is paid for,
  everything without a term, \<open>None\<close> when the payment does not cover the term.\<close>

definition response_rest ::
  "('ua, 'cm) zenv \<Rightarrow> 'd price_oracle \<Rightarrow> 'ua request \<Rightarrow> zat \<Rightarrow> zat option may_panic" where
  "response_rest E o1 request paid =
     (case request of
        ReqUpdate n ua (Some t) \<Rightarrow>
          map_option (\<lambda>quote. case quote of Some price \<Rightarrow> if paid \<ge> price then Some 0 else None | None \<Rightarrow> None)
            (oracle_quote E o1 n t)
      | _ \<Rightarrow> Some (Some paid))"

definition authorize_response ::
  "('ua, 'cm) zenv \<Rightarrow> ('ua, 'cm) registry \<Rightarrow> 'ua otp_challenge \<Rightarrow> timestamp \<Rightarrow> ('ua, 'cm) name_note option may_panic" where
  "authorize_response E r sent mtp =
     (case ch_request sent of
        ReqUpdate _ _ _ \<Rightarrow> authorize_update E r sent mtp
      | _ \<Rightarrow> Some (authorize_release r sent))"

text \<open>The transition a completed challenge asks for.\<close>

definition apply_response ::
  "('ua, 'cm) zenv \<Rightarrow> height \<Rightarrow> timestamp \<Rightarrow> txid \<Rightarrow> 'ua otp_memo \<Rightarrow> 'ua otp_challenge \<Rightarrow> zat \<Rightarrow>
     ('ua, 'cm, 'd) mint_state \<Rightarrow> ('ua, 'cm, 'd) mint_state may_panic" where
  "apply_response E h mtp txid response sent paid s =
     (let n = request_name (ch_request sent) in
      Option.bind (response_rest E (ms_oracle s) (ch_request sent) paid) (\<lambda>rest_opt.
        (case rest_opt of
           None \<Rightarrow> Some (refund E txid (om_ua response) n h paid s)
         | Some rest \<Rightarrow>
             if note_pending (ms_name_notes s) n then Some (refund E txid (om_ua response) n h paid s)
             else if is_claim (request_action (ch_request sent)) then Some s
             else map_option (\<lambda>authorized.
               (case authorized of
                  None \<Rightarrow> refund E txid (om_ua response) n h paid s
                | Some nt \<Rightarrow>
                    let s1 = snd (admit_order h nt s)
                    in if rest > 0 then refund E txid (om_ua response) n h rest s1 else s1))
               (authorize_response E (ms_registry s) sent mtp))))"

definition arrive_response ::
  "('ua, 'cm) zenv \<Rightarrow> height \<Rightarrow> timestamp \<Rightarrow> txid \<Rightarrow> 'ua otp_memo \<Rightarrow> zat \<Rightarrow>
     ('ua, 'cm, 'd) mint_state \<Rightarrow> ('ua, 'cm, 'd) mint_state may_panic" where
  "arrive_response E h mtp txid response paid s =
     (if is_list (om_action response) \<or> is_delist (om_action response) \<or> is_auction (om_action response)
      then map_option (\<lambda>(_, m, r).
          refund E txid (om_ua response) (om_name response) h paid (s\<lparr>ms_market := m, ms_registry := r\<rparr>))
        (market_answer E response h (ms_market s, ms_registry s))
      else if \<not> allows_transition (ms_market s) (om_name response)
      then Some (refund E txid (om_ua response) (om_name response) h paid
        (s\<lparr>ms_challenges := drop_challenges (om_name response) (ms_challenges s)\<rparr>))
      else (case otp_complete response (ms_challenges s) of
          (None, q) \<Rightarrow> Some (refund E txid (om_ua response) (om_name response) h paid (s\<lparr>ms_challenges := q\<rparr>))
        | (Some sent, q) \<Rightarrow> apply_response E h mtp txid response sent paid (s\<lparr>ms_challenges := q\<rparr>)))"

definition arrive ::
  "('ua, 'cm) zenv \<Rightarrow> derivation_key \<Rightarrow> height \<Rightarrow> timestamp \<Rightarrow> txid \<times> 'ua mint_inbound \<times> zat \<Rightarrow>
     ('ua, 'cm, 'd) mint_state \<Rightarrow> ('ua, 'cm, 'd) mint_state may_panic" where
  "arrive E key h mtp = (\<lambda>(txid, inbound, paid) s.
     (case inbound of
        InMarket request \<Rightarrow> arrive_market E key h mtp txid request paid s
      | InRequest request \<Rightarrow> Some (s\<lparr>ms_requests := request_record txid request paid h (ms_requests s)\<rparr>)
      | InResponse response \<Rightarrow> arrive_response E h mtp txid response paid s
      | Unrecognized \<Rightarrow> Some s))"

fun arrivals ::
  "('ua, 'cm) zenv \<Rightarrow> derivation_key \<Rightarrow> height \<Rightarrow> timestamp \<Rightarrow> (txid \<times> 'ua mint_inbound \<times> zat) list \<Rightarrow>
     ('ua, 'cm, 'd) mint_state \<Rightarrow> ('ua, 'cm, 'd) mint_state may_panic" where
  "arrivals E key h mtp [] s = Some s"
| "arrivals E key h mtp (a # as) s = Option.bind (arrive E key h mtp a s) (arrivals E key h mtp as)"

text \<open>After \<open>apply_block\<close>: the rest of the catch-up loop's body. \<open>payments\<close> are the block's
  transparent payments.\<close>

definition after_block ::
  "('ua, 'cm) zenv \<Rightarrow> derivation_key \<Rightarrow> height \<Rightarrow> (transparent_address \<times> zat) list \<Rightarrow>
     (txid \<times> 'ua mint_inbound \<times> zat) list \<Rightarrow> ('ua, 'cm, 'd) mint_state \<Rightarrow> ('ua, 'cm, 'd) mint_state may_panic" where
  "after_block E key h payments inbound s =
     do {
       let s1 = s\<lparr>ms_name_notes := reconcile_seen E (ms_registry s) (ms_name_notes s)\<rparr>;
       median \<leftarrow> mtp_current E (ms_mtp s1);
       mtp \<leftarrow> median;
       let s2 = s1\<lparr>ms_challenges := otp_expire mtp (ms_challenges s1)\<rparr>;
       let (m, r) = market_reconcile h (market_expire mtp h (ms_market s2, ms_registry s2));
       s3 \<leftarrow> arrivals E key h mtp inbound (s2\<lparr>ms_market := m, ms_registry := r\<rparr>);
       Some (s3\<lparr>ms_market := market_observe E (\<lambda>n. map_option nr_ua (record_of (ms_registry s3) n)) payments mtp h
         (ms_market s3)\<rparr>)
     }"

section \<open>Reorgs\<close>

text \<open>\<open>header_time\<close> answers the clock's reads; a failed read is the panic.\<close>

definition rewind_state ::
  "('ua, 'cm) zenv \<Rightarrow> height \<Rightarrow> (height \<Rightarrow> 'e + nat) \<Rightarrow> ('ua, 'cm, 'd) mint_state \<Rightarrow> ('ua, 'cm, 'd) mint_state may_panic" where
  "rewind_state E rewound header_time s =
     (case mtp_backfill rewound header_time mtp_default of
        (Inl _, _) \<Rightarrow> None
      | (Inr _, clock) \<Rightarrow>
          do {
            median \<leftarrow> mtp_current E clock;
            mtp \<leftarrow> median;
            let (m, r) = market_expire mtp rewound
              (market_truncate_to rewound (ms_market s, truncate_to_height rewound (ms_registry s)));
            Some (s\<lparr>ms_registry := r, ms_mtp := clock, ms_challenges := otp_new, ms_market := m,
              ms_name_notes := reconcile_seen E r (nnq_rewind_to rewound (ms_name_notes s)),
              ms_requests := request_truncate_to rewound (ms_requests s),
              ms_refunds := refund_truncate_to rewound (ms_refunds s)\<rparr>)
          })"

section \<open>Deciding requests\<close>

text \<open>A claim's payment: \<open>mtp\<close> is the tip's median, \<open>rate\<close> the rate when the request was first
  seen, \<open>h\<close> the block that carried it.\<close>

definition decide_claim ::
  "('ua, 'cm) zenv \<Rightarrow> derivation_key \<Rightarrow> zat \<Rightarrow> timestamp \<Rightarrow> txid \<Rightarrow> name \<Rightarrow> 'ua \<Rightarrow> reg_term \<Rightarrow> access_code option \<Rightarrow>
     zat \<Rightarrow> height \<Rightarrow> ('ua, 'cm, 'd) mint_state \<Rightarrow> ('ua, 'cm, 'd) mint_state may_panic" where
  "decide_claim E key rate mtp txid n ua t c paid h s =
     (let protected = is_protected (ms_protected s) n mtp in
      if protected \<and> c = None then Some (refund E txid ua n h paid s)
      else map_option (\<lambda>quote.
        (case quote of
           None \<Rightarrow> s
         | Some price \<Rightarrow>
             if paid < price then refund E txid ua n h paid s
             else if protected \<and> \<not> key_accepts E key n c
             then refund E txid ua n h
               (case zat_sub paid (access_code_penalty price) of Some z \<Rightarrow> z | None \<Rightarrow> 0) s
             else (case authorize_claim E (ms_registry s) n ua t mtp of
                 None \<Rightarrow> if \<not> is_available (ms_registry s) n then refund E txid ua n h paid s else s
               | Some nt \<Rightarrow>
                   (case admit_order h nt s of
                      (True, s1) \<Rightarrow> s1
                    | (False, s1) \<Rightarrow> refund E txid ua n h paid s1))))
        (quote_at E rate n t))"

text \<open>A request to be challenged; \<open>draws\<close> is the random source of the challenge's code.\<close>

definition decide_challenge ::
  "('ua, 'cm) zenv \<Rightarrow> otp_code list \<Rightarrow> height \<Rightarrow> timestamp \<Rightarrow> 'ua request \<Rightarrow> zat \<Rightarrow>
     ('ua, 'cm, 'd) mint_state \<Rightarrow> ('ua, 'cm, 'd) mint_state may_panic" where
  "decide_challenge E draws target mtp request paid s =
     (if \<not> allows_transition (ms_market s) (request_name request) then Some s
      else if authorize_challenge (ms_registry s) (ms_name_notes s) request target mtp = None then Some s
      else if (case zat_mul E (ms_fee s) FEE_ACTIONS of None \<Rightarrow> True | Some fee \<Rightarrow> paid < fee) then Some s
      else map_option (\<lambda>q. s\<lparr>ms_challenges := q\<rparr>) (otp_admit E draws request mtp (ms_challenges s)))"

definition decide_request ::
  "('ua, 'cm) zenv \<Rightarrow> derivation_key \<Rightarrow> (txid \<Rightarrow> otp_code list) \<Rightarrow> zat \<Rightarrow> height \<Rightarrow> timestamp \<Rightarrow>
     txid \<times> 'ua request \<times> zat \<times> height \<Rightarrow> ('ua, 'cm, 'd) mint_state \<Rightarrow> ('ua, 'cm, 'd) mint_state may_panic" where
  "decide_request E key draws rate target mtp = (\<lambda>(txid, request, paid, h) s.
     let s1 = s\<lparr>ms_requests := request_resolved txid (ms_requests s)\<rparr> in
     (case request of
        ReqClaim n ua t c \<Rightarrow> decide_claim E key rate mtp txid n ua t c paid h s1
      | _ \<Rightarrow> decide_challenge E (draws txid) target mtp request paid s1))"

fun each :: "('x \<Rightarrow> 's \<Rightarrow> 's may_panic) \<Rightarrow> 'x list \<Rightarrow> 's \<Rightarrow> 's may_panic" where
  "each f [] s = Some s"
| "each f (x # xs) s = Option.bind (f x s) (each f xs)"

definition decide_requests ::
  "('ua, 'cm) zenv \<Rightarrow> derivation_key \<Rightarrow> (txid \<Rightarrow> otp_code list) \<Rightarrow> zat \<Rightarrow> height \<Rightarrow> timestamp \<Rightarrow>
     ('ua, 'cm, 'd) mint_state \<Rightarrow> ('ua, 'cm, 'd) mint_state may_panic" where
  "decide_requests E key draws rate target mtp s =
     each (decide_request E key draws rate target mtp) (request_pending (ms_requests s)) s"

section \<open>Relays\<close>

text \<open>The three relay loops; \<open>sent\<close> and \<open>sent_buy\<close> are what \<open>relay\<close> and \<open>relay_buy\<close> return.\<close>

definition relay_requested ::
  "('ua \<Rightarrow> 'ua otp_memo \<Rightarrow> bool may_panic) \<Rightarrow> height \<Rightarrow> timestamp \<Rightarrow> 'ua otp_challenge \<Rightarrow>
     ('ua, 'cm, 'd) mint_state \<Rightarrow> ('ua, 'cm, 'd) mint_state may_panic" where
  "relay_requested sent target mtp pending s =
     (if \<not> allows_transition (ms_market s) (request_name (ch_request pending)) then Some s
      else (case authorize_challenge (ms_registry s) (ms_name_notes s) (ch_request pending) target mtp of
          None \<Rightarrow> Some s
        | Some rec \<Rightarrow>
            map_option (\<lambda>ok. if ok then s\<lparr>ms_challenges := challenge_issued pending (ms_challenges s)\<rparr> else s)
              (sent (nr_ua rec) (challenge_memo pending))))"

definition relay_market ::
  "('ua \<Rightarrow> 'ua otp_memo \<Rightarrow> bool may_panic) \<Rightarrow> 'ua otp_memo \<Rightarrow>
     ('ua, 'cm, 'd) mint_state \<Rightarrow> ('ua, 'cm, 'd) mint_state may_panic" where
  "relay_market sent challenge s =
     map_option (\<lambda>ok. if ok then s\<lparr>ms_market := challenge_relayed (om_code challenge) (ms_market s)\<rparr> else s)
       (sent (om_ua challenge) challenge)"

definition relay_buys ::
  "('ua buy_otp \<Rightarrow> bool may_panic) \<Rightarrow> 'ua buy_otp \<Rightarrow> ('ua, 'cm, 'd) mint_state \<Rightarrow> ('ua, 'cm, 'd) mint_state may_panic" where
  "relay_buys sent_buy otp s =
     map_option (\<lambda>ok. if ok then s\<lparr>ms_market := market_relayed (bo_name otp) (ms_market s)\<rparr> else s) (sent_buy otp)"

definition relays ::
  "('ua, 'cm) zenv \<Rightarrow> ('ua \<Rightarrow> 'ua otp_memo \<Rightarrow> bool may_panic) \<Rightarrow> ('ua buy_otp \<Rightarrow> bool may_panic) \<Rightarrow> height \<Rightarrow> timestamp \<Rightarrow>
     ('ua, 'cm, 'd) mint_state \<Rightarrow> ('ua, 'cm, 'd) mint_state may_panic" where
  "relays E sent sent_buy target mtp s =
     do {
       s1 \<leftarrow> each (relay_requested sent target mtp) (otp_requested (ms_challenges s)) s;
       s2 \<leftarrow> each (relay_market sent) (unrelayed_challenges E
           (\<lambda>n. map_option nr_ua (challengeable_record (ms_registry s1) (ms_name_notes s1) n target mtp)) (ms_market s1)) s1;
       each (relay_buys sent_buy) (market_unrelayed (ms_market s2)) s2
     }"

section \<open>Orders\<close>

definition poll_sales :: "height \<Rightarrow> ('ua, 'cm, 'd) mint_state \<Rightarrow> ('ua, 'cm, 'd) mint_state" where
  "poll_sales tip s =
     (case market_poll (ms_registry s) (note_pending (ms_name_notes s)) tip (ms_market s) of
        (notes, m) \<Rightarrow> fold (\<lambda>nt s. snd (admit_order tip nt s)) notes (s\<lparr>ms_market := m\<rparr>))"

definition drop_due_update ::
  "timestamp \<Rightarrow> ('ua, 'cm) name_note \<Rightarrow> ('ua, 'cm, 'd) mint_state \<Rightarrow> ('ua, 'cm, 'd) mint_state may_panic" where
  "drop_due_update mtp nt s =
     (if is_update (note_action nt) \<and>
         (case record_of (ms_registry s) (note_name nt) of Some rec \<Rightarrow> is_release_due rec mtp | None \<Rightarrow> False)
      then map_option (\<lambda>q. s\<lparr>ms_name_notes := q\<rparr>) (drop_note (note_name nt) (ms_name_notes s))
      else Some s)"

definition lifecycle_release ::
  "height \<Rightarrow> name \<times> ('ua, 'cm) name_note \<Rightarrow> ('ua, 'cm, 'd) mint_state \<Rightarrow> ('ua, 'cm, 'd) mint_state" where
  "lifecycle_release tip = (\<lambda>(n, nt) s.
     if note_pending (ms_name_notes s) n \<or> \<not> allows_transition (ms_market s) n then s
     else snd (admit_order tip nt s))"

text \<open>The authority an order spends: \<open>Inl True\<close> drops the order, \<open>Inl False\<close> leaves it for the next
  tip.\<close>

definition order_authority ::
  "(nullifier \<Rightarrow> bool) \<Rightarrow> ('ua, 'cm) registry \<Rightarrow> ('ua, 'cm) name_note \<Rightarrow> bool + nullifier" where
  "order_authority spendable r nt =
     (if is_claim (note_action nt)
      then (if \<not> is_available r (note_name nt) then Inl True
            else (case spendable_claim_anchor spendable r of Some nf \<Rightarrow> Inr nf | None \<Rightarrow> Inl False))
      else (case Option.bind (record_of r (note_name nt)) (\<lambda>rec. record_nullifier rec nt) of
          Some nf \<Rightarrow> Inr nf
        | None \<Rightarrow> Inl True))"

text \<open>\<open>send\<close> builds and submits: \<open>Some (Some e)\<close> when the node took a transaction that expires at
  \<open>e\<close>, \<open>Some None\<close> when it was not built or refused.\<close>

definition sign_order ::
  "(nullifier \<Rightarrow> bool) \<Rightarrow> (('ua, 'cm) name_note \<Rightarrow> nullifier \<Rightarrow> height option may_panic) \<Rightarrow> ('ua, 'cm) name_note \<Rightarrow>
     ('ua, 'cm, 'd) mint_state \<Rightarrow> ('ua, 'cm, 'd) mint_state may_panic" where
  "sign_order spendable send nt s =
     (case order_authority spendable (ms_registry s) nt of
        Inl True \<Rightarrow> map_option (\<lambda>q. s\<lparr>ms_name_notes := q\<rparr>) (drop_note (note_name nt) (ms_name_notes s))
      | Inl False \<Rightarrow> Some s
      | Inr nf \<Rightarrow>
          Option.bind (send nt nf) (\<lambda>res.
            (case res of
               None \<Rightarrow> Some s
             | Some expiry \<Rightarrow>
                 map_option (\<lambda>q. s\<lparr>ms_name_notes := q\<rparr>) (mark_sent (note_name nt) expiry (ms_name_notes s)))))"

text \<open>The wallet changes with every send, so what it can spend and what is built are the wallet's
  answers at each order: \<open>spendable i\<close> and \<open>send i\<close> are those at the loop's \<open>i\<close>-th order.\<close>

definition orders_pass ::
  "(nat \<Rightarrow> nullifier \<Rightarrow> bool) \<Rightarrow> (nat \<Rightarrow> ('ua, 'cm) name_note \<Rightarrow> nullifier \<Rightarrow> height option may_panic) \<Rightarrow> height \<Rightarrow> timestamp \<Rightarrow>
     ('ua, 'cm, 'd) mint_state \<Rightarrow> ('ua, 'cm, 'd) mint_state may_panic" where
  "orders_pass spendable send tip mtp s =
     do {
       let s1 = poll_sales tip s;
       let s2 = s1\<lparr>ms_name_notes := expire_sent tip (ms_name_notes s1)\<rparr>;
       s3 \<leftarrow> each (drop_due_update mtp) (authorized_notes (ms_name_notes s2)) s2;
       let s4 = fold (lifecycle_release tip) (releases_due (ms_registry s3) mtp) s3;
       each (\<lambda>(i, nt). sign_order (spendable i) (send i) nt) (enumerate 0 (authorized_notes (ms_name_notes s4))) s4
     }"

section \<open>The tip pass\<close>

text \<open>The refunds due; \<open>pay\<close> says whether the refund was built and the node took it.\<close>

definition pay_refund ::
  "('ua refund_request \<Rightarrow> bool may_panic) \<Rightarrow> 'ua refund_request \<Rightarrow>
     ('ua, 'cm, 'd) mint_state \<Rightarrow> ('ua, 'cm, 'd) mint_state may_panic" where
  "pay_refund pay built s =
     map_option (\<lambda>ok. if ok then s\<lparr>ms_refunds := refund_paid built (ms_refunds s)\<rparr> else s) (pay built)"

definition sweep_due :: "int \<Rightarrow> int \<Rightarrow> ('ua, 'cm, 'd) mint_state \<Rightarrow> bool" where
  "sweep_due today previous_day s \<longleftrightarrow> today > previous_day \<and> refund_is_empty (ms_refunds s)"

text \<open>What the pass reads from outside, by the names of the loop. \<open>confirmed\<close>: the exact tip is
  still the applied one; a tip that moved and a node that does not answer both end the pass there.
  The answers of the wallet, the builder and the node to the orders and the refunds are those at the
  \<open>i\<close>-th of them.\<close>

record ('ua, 'cm, 'd) tip_inputs =
  ti_round :: "'d option"
  ti_presale :: "(fetch_error + protected_names) may_panic"
  ti_confirmed :: bool
  ti_fee :: "unit + zat"
  ti_draws :: "txid \<Rightarrow> otp_code list"
  ti_sent :: "'ua \<Rightarrow> 'ua otp_memo \<Rightarrow> bool may_panic"
  ti_sent_buy :: "'ua buy_otp \<Rightarrow> bool may_panic"
  ti_spendable :: "nat \<Rightarrow> nullifier \<Rightarrow> bool"
  ti_send :: "nat \<Rightarrow> ('ua, 'cm) name_note \<Rightarrow> nullifier \<Rightarrow> height option may_panic"
  ti_pay :: "nat \<Rightarrow> 'ua refund_request \<Rightarrow> bool may_panic"

definition tip_pass ::
  "('ua, 'cm) zenv \<Rightarrow> 'd::linorder dec_env \<Rightarrow> derivation_key \<Rightarrow> timestamp option \<Rightarrow> height \<Rightarrow> ('ua, 'cm, 'd) tip_inputs \<Rightarrow>
     ('ua, 'cm, 'd) mint_state \<Rightarrow> ('ua, 'cm, 'd) mint_state may_panic" where
  "tip_pass E D key birthday tip ti s =
     do {
       median \<leftarrow> mtp_current E (ms_mtp s);
       mtp \<leftarrow> median;
       day \<leftarrow> mtp_current_day E birthday (ms_mtp s);
       today \<leftarrow> day;
       names \<leftarrow> install (ti_presale ti) (ms_protected s);
       let rate = oracle_current (ms_oracle s);
       o1 \<leftarrow> accumulate E D (ti_round ti) today mtp (ms_oracle s);
       let s1 = s\<lparr>ms_protected := names, ms_oracle := o1\<rparr>;
       (if \<not> ti_confirmed ti then Some s1
        else do {
          let s2 = s1\<lparr>ms_fee := (case ti_fee ti of Inr rule \<Rightarrow> rule | Inl _ \<Rightarrow> ms_fee s1)\<rparr>;
          s3 \<leftarrow> decide_requests E key (ti_draws ti) rate (tip + 1) mtp s2;
          s4 \<leftarrow> relays E (ti_sent ti) (ti_sent_buy ti) (tip + 1) mtp s3;
          s5 \<leftarrow> orders_pass (ti_spendable ti) (ti_send ti) tip mtp s4;
          each (\<lambda>(i, built). pay_refund (ti_pay ti i) built) (enumerate 0 (refund_due tip (ms_refunds s5))) s5
        })
     }"

end
