(* ===== verification/Run_Loop_Laws.thy ===== *)
theory Run_Loop_Laws
  imports Run_Loop
begin

text \<open>
  Properties of the run loop: what an arriving memo can do to a name, how a paid claim is decided,
  and that the order bookkeeping of a pass never panics and keeps one unresolved order per name.
\<close>

section \<open>What moves a name\<close>

lemma refund_keeps [simp]:
  "ms_name_notes (refund E txid ua n h z s) = ms_name_notes s" "ms_registry (refund E txid ua n h z s) = ms_registry s"
  "ms_market (refund E txid ua n h z s) = ms_market s" "ms_challenges (refund E txid ua n h z s) = ms_challenges s"
  "ms_fee (refund E txid ua n h z s) = ms_fee s"
  by (simp_all add: refund_def)

lemma admit_order_notes:
  "ms_name_notes (snd (admit_order h nt s)) = snd (nnq_admit h nt (ms_name_notes s))"
  by (simp add: admit_order_def split: prod.splits bool.splits)

lemma nnq_admit_orders:
  "orders (snd (nnq_admit h nt q)) =
     (if note_pending q (note_name nt) then orders q else orders q @ [(nt, h, Authorized)])"
  by (simp add: nnq_admit_def)

lemma arrive_market_notes:
  "arrive_market E key h mtp txid request paid s = Some s' \<Longrightarrow> ms_name_notes s' = ms_name_notes s"
  by (auto simp: arrive_market_def Let_def split: option.splits)

text \<open>A note authorized for a challenge is that challenge's transition of the live record.\<close>

lemma authorize_response_note:
  assumes "authorize_response E r sent mtp = Some (Some nt)"
  shows "\<exists>rec. record_of r (request_name (ch_request sent)) = Some rec \<and> note_name nt = request_name (ch_request sent) \<and>
     note_action nt = request_action (ch_request sent) \<and> note_ua nt = request_ua (ch_request sent) \<and>
     note_prev_rcm nt = Some (nr_commitment rec) \<and>
     (if is_release (note_action nt) then nr_ua rec = note_ua nt else \<not> is_release_due rec mtp)"
  using assms
  by (auto simp: authorize_response_def authorize_update_def authorize_release_def is_release_def
      split: request.splits option.splits if_splits)

lemma apply_response_orders:
  assumes "apply_response E h mtp txid response sent paid s = Some s'"
    and "x \<in> set (orders (ms_name_notes s'))" and "x \<notin> set (orders (ms_name_notes s))"
  shows "\<exists>nt rest. x = (nt, h, Authorized) \<and> \<not> note_pending (ms_name_notes s) (request_name (ch_request sent)) \<and>
     authorize_response E (ms_registry s) sent mtp = Some (Some nt) \<and>
     response_rest E (ms_oracle s) (ch_request sent) paid = Some (Some rest)"
proof -
  obtain rest_opt where rest: "response_rest E (ms_oracle s) (ch_request sent) paid = Some rest_opt"
    using assms(1) by (auto simp: apply_response_def Let_def Option.bind_eq_Some_conv)
  show ?thesis
  proof (cases "rest_opt = None \<or> note_pending (ms_name_notes s) (request_name (ch_request sent)) \<or>
      is_claim (request_action (ch_request sent))")
    case True
    with assms rest show ?thesis by (auto simp: apply_response_def Let_def split: if_splits option.splits)
  next
    case False
    then obtain z auth where z: "rest_opt = Some z" "authorize_response E (ms_registry s) sent mtp = Some auth"
      using assms(1) rest by (auto simp: apply_response_def Let_def)
    with False assms rest show ?thesis
      by (cases auth)
        (auto simp: apply_response_def Let_def admit_order_notes nnq_admit_orders split: if_splits)
  qed
qed

text \<open>C2: Only an answered challenge moves a name: when an arriving memo adds an order, it is a response
  that names a relayed challenge by verb, name and address and carries its code; no buy holds the
  name and no order is pending for it; and the order is that challenge's update or release of the
  name's live record: an update of a name that is not due for release, to the address the challenge
  bound, its term paid for; or a release by the address that holds the name.\<close>

theorem only_answered_challenges_move_names:
  assumes "arrive E key h mtp (txid, inbound, paid) s = Some s'"
    and "x \<in> set (orders (ms_name_notes s'))" and "x \<notin> set (orders (ms_name_notes s))"
  shows "\<exists>response ch rec nt rest. inbound = InResponse response \<and> x = (nt, h, Authorized) \<and>
     (ch, Relayed) \<in> set (challenges (ms_challenges s)) \<and> request_key (ch_request ch) = memo_key response \<and>
     code_value (ch_code ch) = code_value (om_code response) \<and>
     note_name nt = om_name response \<and> note_action nt = om_action response \<and> note_ua nt = om_ua response \<and>
     allows_transition (ms_market s) (om_name response) \<and> \<not> note_pending (ms_name_notes s) (om_name response) \<and>
     record_of (ms_registry s) (om_name response) = Some rec \<and> note_prev_rcm nt = Some (nr_commitment rec) \<and>
     (if is_release (note_action nt) then nr_ua rec = note_ua nt else \<not> is_release_due rec mtp) \<and>
     response_rest E (ms_oracle s) (ch_request ch) paid = Some (Some rest)"
proof -
  obtain response where response: "inbound = InResponse response" "arrive_response E h mtp txid response paid s = Some s'"
    using assms arrive_market_notes by (fastforce simp: arrive_def split: mint_inbound.splits)
  obtain sent q where c: "otp_complete response (ms_challenges s) = (Some sent, q)"
    "allows_transition (ms_market s) (om_name response)"
    "apply_response E h mtp txid response sent paid (s\<lparr>ms_challenges := q\<rparr>) = Some s'"
    using response(2) assms(2,3) by (auto simp: arrive_response_def split: if_splits prod.splits option.splits)
  obtain nt rest where nt: "x = (nt, h, Authorized)" "\<not> note_pending (ms_name_notes s) (request_name (ch_request sent))"
    "authorize_response E (ms_registry s) sent mtp = Some (Some nt)"
    "response_rest E (ms_oracle s) (ch_request sent) paid = Some (Some rest)"
    using apply_response_orders [OF c(3), of x] assms(2,3) by auto
  obtain i where i: "i < length (challenges (ms_challenges s))" "challenges (ms_challenges s) ! i = (sent, Relayed)"
    "named_by response sent Relayed" "code_value (ch_code sent) = code_value (om_code response)"
    using otp_complete_Some [OF c(1)] by blast
  have mem: "(sent, Relayed) \<in> set (challenges (ms_challenges s))" using i(1,2) nth_mem by metis
  have key: "request_key (ch_request sent) = memo_key response" using i(3) by (simp add: named_by_key)
  obtain rec where "record_of (ms_registry s) (request_name (ch_request sent)) = Some rec"
    "note_name nt = request_name (ch_request sent)" "note_action nt = request_action (ch_request sent)"
    "note_ua nt = request_ua (ch_request sent)" "note_prev_rcm nt = Some (nr_commitment rec)"
    "if is_release (note_action nt) then nr_ua rec = note_ua nt else \<not> is_release_due rec mtp"
    using authorize_response_note [OF nt(3)] by blast
  moreover have "request_name (ch_request sent) = om_name response" "request_action (ch_request sent) = om_action response"
    "request_ua (ch_request sent) = om_ua response" using i(3) by (auto simp: named_by_def)
  ultimately show ?thesis using response(1) nt mem key i(4) c(2) by auto
qed

text \<open>A concrete state: \<open>alice\<close> is held, her release is challenged and relayed.\<close>

definition demo_state :: "(string, bytes, nat) mint_state" where
  "demo_state = \<lparr>ms_registry = demo_held_registry, ms_name_notes = nnq_default, ms_challenges = demo_otp_queue,
     ms_market = market_new, ms_requests = requests_default, ms_refunds = refunds_default,
     ms_oracle = \<lparr>daily_rate = 2500000, current_day = 1, acc_sum = 0, acc_seconds = 0, last_price = 40, last_ts = 0,
       rounds_attempted = 0, rounds_seen = 0\<rparr>,
     ms_mtp = mtp_default, ms_protected = [], ms_fee = 5000\<rparr>"

lemma demo_response:
  "\<exists>s'. arrive demo_env ''k'' 9 1700000000 (''tx'', InResponse (challenge_memo demo_challenge), 600000) demo_state = Some s' \<and>
     orders (ms_name_notes s') = [(demo_release, 9, Authorized)]"
proof -
  have c: "otp_complete (challenge_memo demo_challenge) demo_otp_queue = (Some demo_challenge, \<lparr>challenges = []\<rparr>)"
    by (simp add: otp_complete_def challenge_memo_def named_by_def attempt_def remove_at_def)
  have a: "authorize_response demo_env demo_held_registry demo_challenge 1700000000 = Some (Some demo_release)"
    by (simp add: authorize_response_def authorize_release_def demo_held_registry_def record_of_def bt_get_def)
  show ?thesis
    using c a
    by (simp add: arrive_def arrive_response_def is_list_def is_delist_def is_auction_def challenge_memo_def demo_state_def
        allows_transition_def market_new_def sale_is_open_def sales_new_def apply_response_def response_rest_def
        admit_order_notes nnq_admit_orders note_pending_def nnq_default_def is_claim_def)
qed

theorem only_answered_challenges_move_names_witness:
  "\<exists>s' response ch. arrive demo_env ''k'' 9 1700000000 (''tx'', InResponse (challenge_memo demo_challenge), 600000) demo_state
       = Some s' \<and> orders (ms_name_notes s') = [(demo_release, 9, Authorized)] \<and>
     (ch, Relayed) \<in> set (challenges (ms_challenges demo_state)) \<and> request_key (ch_request ch) = memo_key response \<and>
     code_value (ch_code ch) = code_value (om_code response)"
proof -
  obtain s' where s': "arrive demo_env ''k'' 9 1700000000 (''tx'', InResponse (challenge_memo demo_challenge), 600000) demo_state
      = Some s'" "orders (ms_name_notes s') = [(demo_release, 9, Authorized)]" using demo_response by blast
  have "(demo_release, 9, Authorized) \<in> set (orders (ms_name_notes s'))"
    "(demo_release, 9, Authorized) \<notin> set (orders (ms_name_notes demo_state))"
    using s'(2) by (simp_all add: demo_state_def nnq_default_def)
  from only_answered_challenges_move_names [OF s'(1) this] s' show ?thesis by blast
qed

section \<open>Deciding a claim\<close>

lemma claim_note_name: "authorize_claim E r n ua t mtp = Some nt \<Longrightarrow> note_name nt = n"
  by (auto simp: authorize_claim_def split: if_splits)

lemma authorize_claim_Some:
  "authorize_claim E r n ua t mtp = Some nt \<longleftrightarrow>
     is_available r n \<and> (\<exists>e. claim_expiry E t mtp = Some e \<and> nt = NoteClaim n ua e)"
  by (auto simp: authorize_claim_def)

text \<open>The law a claim is decided by: what it takes for the claim to become an order ending at \<open>e\<close>.\<close>

definition claim_granted ::
  "('ua, 'cm) zenv \<Rightarrow> derivation_key \<Rightarrow> timestamp \<Rightarrow> name \<Rightarrow> reg_term \<Rightarrow> access_code option \<Rightarrow> zat \<Rightarrow> zat option \<Rightarrow>
     ('ua, 'cm, 'd) mint_state \<Rightarrow> expiry \<Rightarrow> bool" where
  "claim_granted E key mtp n t c paid quote s e \<longleftrightarrow>
     (\<exists>price. quote = Some price \<and> price \<le> paid) \<and>
     (is_protected (ms_protected s) n mtp \<longrightarrow> key_accepts E key n c) \<and> is_available (ms_registry s) n \<and>
     claim_expiry E t mtp = Some e \<and> \<not> note_pending (ms_name_notes s) n"

lemma claim_refund_bounded:
  assumes "z \<le> paid"
  shows "ms_refunds (refund E txid ua n h z s) = ms_refunds s \<or>
      (\<exists>b. refunds_due (ms_refunds (refund E txid ua n h z s)) = refunds_due (ms_refunds s) @ [b] \<and>
         rf_recipient b = ua \<and> rf_payment b = txid \<and> rf_amount b + ms_fee s * FEE_ACTIONS \<le> paid)"
  using assms
  by (auto simp: refund_def refund_admit_def refund_admit_with_note_def refund_output_iff FEE_ACTIONS_def
      split: option.splits)

text \<open>A claim whose law does not hold leaves the orders alone and returns at most what was paid.\<close>

lemma claim_refused:
  assumes "quote_at E rate n t = Some quote" and "\<nexists>e. claim_granted E key mtp n t c paid quote s e"
  shows "\<exists>s'. decide_claim E key rate mtp txid n ua t c paid h s = Some s' \<and> ms_name_notes s' = ms_name_notes s \<and>
      (s' = s \<or> (\<exists>z\<le>paid. s' = refund E txid ua n h z s))"
proof (cases "authorize_claim E (ms_registry s) n ua t mtp")
  case None
  then show ?thesis
    using assms(1) by (auto simp: decide_claim_def Let_def zat_sub_def split: option.splits) (metis diff_le_self)+
next
  case (Some nt)
  from authorize_claim_Some [THEN iffD1, OF Some] obtain e
    where e: "is_available (ms_registry s) n" "claim_expiry E t mtp = Some e" "nt = NoteClaim n ua e" by blast
  show ?thesis
  proof (cases "note_pending (ms_name_notes s) n")
    case True
    then show ?thesis
      using Some e(3) assms(1) unfolding decide_claim_def Let_def admit_order_def nnq_admit_def zat_sub_def
      by (cases quote) (auto intro: exI [of _ "paid - access_code_penalty (the quote)"])
  next
    case np: False
    with assms(2) e have "quote = None \<or> (\<exists>price. quote = Some price \<and>
        (paid < price \<or> is_protected (ms_protected s) n mtp \<and> \<not> key_accepts E key n c))"
      by (auto simp: claim_granted_def not_less)
    then show ?thesis
      using assms(1) unfolding decide_claim_def Let_def zat_sub_def
      by (cases quote) (auto intro: exI [of _ "paid - access_code_penalty (the quote)"])
  qed
qed

lemma claim_ordered:
  assumes "quote_at E rate n t = Some quote" and "claim_granted E key mtp n t c paid quote s e"
  shows "decide_claim E key rate mtp txid n ua t c paid h s =
      Some (s\<lparr>ms_name_notes := (ms_name_notes s)\<lparr>orders := orders (ms_name_notes s) @ [(NoteClaim n ua e, h, Authorized)]\<rparr>,
        ms_challenges := drop_challenges n (ms_challenges s)\<rparr>)"
proof -
  have code: "key_accepts E key n None = False" by (simp add: key_accepts_def)
  have "authorize_claim E (ms_registry s) n ua t mtp = Some (NoteClaim n ua e)"
    using assms(2) by (intro authorize_claim_Some [THEN iffD2]) (auto simp: claim_granted_def)
  moreover obtain price where "quote = Some price" "price \<le> paid" "\<not> note_pending (ms_name_notes s) n"
    "is_protected (ms_protected s) n mtp \<Longrightarrow> key_accepts E key n c" using assms(2) by (auto simp: claim_granted_def)
  ultimately show ?thesis
    using assms(1) code by (auto simp: decide_claim_def Let_def admit_order_def nnq_admit_def)
qed

text \<open>C16: A paid claim is decided once and fairly: given its quote, a claim becomes an order exactly
  when the payment covers the quote, a protected name comes with its code, the name is free, its
  term ends at a representable time and no order is pending for the name; then nothing is
  returned. Otherwise no order is made, and at most one refund is queued, to the claimant and of
  no more than was paid less the refund fee.\<close>

theorem claim_decision:
  assumes "quote_at E rate n t = Some quote"
  shows "\<exists>s'. decide_claim E key rate mtp txid n ua t c paid h s = Some s' \<and>
     (\<forall>e. claim_granted E key mtp n t c paid quote s e \<longrightarrow>
         orders (ms_name_notes s') = orders (ms_name_notes s) @ [(NoteClaim n ua e, h, Authorized)] \<and>
        ms_refunds s' = ms_refunds s) \<and>
     ((\<nexists>e. claim_granted E key mtp n t c paid quote s e) \<longrightarrow> ms_name_notes s' = ms_name_notes s \<and>
        (ms_refunds s' = ms_refunds s \<or>
         (\<exists>b. refunds_due (ms_refunds s') = refunds_due (ms_refunds s) @ [b] \<and> rf_recipient b = ua \<and>
            rf_payment b = txid \<and> rf_amount b + ms_fee s * FEE_ACTIONS \<le> paid)))"
proof (cases "\<exists>e. claim_granted E key mtp n t c paid quote s e")
  case True
  then obtain e where g: "claim_granted E key mtp n t c paid quote s e" by blast
  have "e' = e" if "claim_granted E key mtp n t c paid quote s e'" for e'
    using that g by (simp add: claim_granted_def)
  with True claim_ordered [OF assms g, of txid ua h] show ?thesis by (intro exI conjI) (assumption, auto)
next
  case False
  with claim_refused [OF assms False, of txid ua h] claim_refund_bounded [of _ paid E txid ua n h s] show ?thesis by metis
qed

theorem claim_decision_witness:
  "\<exists>s'. decide_claim demo_env ''k'' 2500000 1700000000 ''tx'' demo_alice ''u1abc'' (Years 2) None 500000000 9
       (demo_state\<lparr>ms_registry := registry_new\<rparr>) = Some s' \<and>
     ms_refunds s' = ms_refunds demo_state \<and> orders (ms_name_notes s') \<noteq> []"
proof -
  let ?s = "demo_state\<lparr>ms_registry := registry_new\<rparr>"
  have q: "quote_at demo_env 2500000 demo_alice (Years 2) = Some (Some 500000000)"
    by (simp add: quote_at_def annual_usd_def ANNUAL_USD_def zat_from_u64_def demo_env_def width_defs)
  obtain e where e: "claim_expiry demo_env (Years 2) 1700000000 = Some e"
    by (auto simp: claim_expiry_def term_duration_def ts_from_seconds_def demo_env_def LIVENESS_INTERVAL_def)
  have g: "claim_granted demo_env ''k'' 1700000000 demo_alice (Years 2) None 500000000 (Some 500000000) ?s e"
    using e by (simp add: claim_granted_def demo_state_def is_protected_def protection_status_of_def is_available_def
        record_of_def registry_new_def note_pending_def nnq_default_def)
  obtain s' where "decide_claim demo_env ''k'' 2500000 1700000000 ''tx'' demo_alice ''u1abc'' (Years 2) None 500000000 9 ?s
      = Some s'"
    and "\<And>e. claim_granted demo_env ''k'' 1700000000 demo_alice (Years 2) None 500000000 (Some 500000000) ?s e \<Longrightarrow>
       orders (ms_name_notes s') = orders (ms_name_notes ?s) @ [(NoteClaim demo_alice ''u1abc'' e, 9, Authorized)] \<and>
       ms_refunds s' = ms_refunds ?s"
    using claim_decision [OF q, where key = "''k''" and mtp = 1700000000 and txid = "''tx''" and ua = "''u1abc''" and
        c = None and paid = 500000000 and h = 9 and s = ?s] by blast
  with g show ?thesis by (intro exI [of _ s']) auto
qed

section \<open>The orders of a pass\<close>

text \<open>How many unresolved orders a name has, and how many of them are authorized: dropping or sending an
  order of a name takes at most one from either, and none from another name's.\<close>

definition owned_count :: "name \<Rightarrow> ('ua, 'cm) name_note_queue \<Rightarrow> nat" where
  "owned_count n q = length (filter (owns_name n) (orders q))"

definition authorized_count :: "name \<Rightarrow> ('ua, 'cm) name_note_queue \<Rightarrow> nat" where
  "authorized_count n q = length (filter (authorized_for n) (orders q))"

lemma authorized_notes_count: "length (filter (\<lambda>nt. note_name nt = n) (authorized_notes q)) = authorized_count n q"
  unfolding authorized_notes_def authorized_count_def filter_map length_map filter_filter
  by (rule arg_cong [where f = length], rule filter_cong) (auto simp: authorized_for_def)

lemma authorized_available:
  assumes "0 < authorized_count n q"
  shows "drop_note n q \<noteq> None" "mark_sent n e q \<noteq> None"
proof -
  obtain x where x: "x \<in> set (orders q)" "authorized_for n x" using assms by (auto simp: authorized_count_def filter_empty_conv)
  then show "mark_sent n e q \<noteq> None" by (auto simp: mark_sent_def list_ex_iff)
  from x have "note_pending q n" by (force simp: note_pending_def list_ex_iff owns_name_def authorized_for_def)
  then show "drop_note n q \<noteq> None" using drop_note_not_panic by blast
qed

lemma remove_first_count:
  assumes "position p xs = Some i"
  shows "\<exists>x\<in>set xs. p x \<and> length (filter Q (remove_at i xs)) + (if Q x then 1 else 0) = length (filter Q xs)"
  using assms
proof (induction xs arbitrary: i)
  case (Cons a xs)
  show ?case
  proof (cases "p a")
    case True
    then show ?thesis using Cons.prems by (intro bexI [of _ a]) auto
  next
    case False
    then obtain j where j: "position p xs = Some j" "i = Suc j" using Cons.prems by auto
    from Cons.IH [OF j(1)] show ?thesis by (auto simp: j(2))
  qed
qed simp

lemma drop_note_counts:
  assumes "drop_note n q = Some q'"
  shows "authorized_count m q - (if m = n then 1 else 0) \<le> authorized_count m q'" "owned_count m q' \<le> owned_count m q"
proof -
  obtain i where i: "position (owns_name n) (orders q) = Some i" "orders q' = remove_at i (orders q)"
    using assms by (auto simp: drop_note_def split: option.splits)
  obtain x where x: "x \<in> set (orders q)" "owns_name n x" "authorized_count m q' + (if authorized_for m x then 1 else 0) = authorized_count m q"
    using remove_first_count [OF i(1), of "authorized_for m"] unfolding authorized_count_def i(2) by blast
  have "authorized_for m x \<Longrightarrow> m = n" using x(2) by (auto simp: authorized_for_def owns_name_def)
  with x(3) show "authorized_count m q - (if m = n then 1 else 0) \<le> authorized_count m q'" by (auto split: if_splits)
  show "owned_count m q' \<le> owned_count m q"
    using remove_first_count [OF i(1), of "owns_name m"] i(2) by (auto simp: owned_count_def)
qed

lemma mark_sent_counts:
  assumes "mark_sent n e q = Some q'"
  shows "authorized_count m q - (if m = n then 1 else 0) \<le> authorized_count m q'" "owned_count m q' = owned_count m q"
proof -
  have "length (filter (authorized_for m) xs) - (if m = n then 1 else 0) \<le>
      length (filter (authorized_for m) (update_first (authorized_for n) (\<lambda>(nt, origin, _). (nt, origin, Sent e)) xs))"
    "length (filter (owns_name m) (update_first (authorized_for n) (\<lambda>(nt, origin, _). (nt, origin, Sent e)) xs)) =
      length (filter (owns_name m) xs)" for xs :: "('a, 'b) note_order list"
    by (induction xs) (auto simp: authorized_for_def owns_name_def)
  then show "authorized_count m q - (if m = n then 1 else 0) \<le> authorized_count m q'" "owned_count m q' = owned_count m q"
    using assms by (auto simp: mark_sent_def authorized_count_def owned_count_def split: if_splits)
qed

text \<open>A queue after operations that add an order to a name only when it has none.\<close>

definition no_second_order :: "('ua, 'cm) name_note_queue \<Rightarrow> ('ua, 'cm) name_note_queue \<Rightarrow> bool" where
  "no_second_order q q' \<longleftrightarrow> (\<forall>n. owned_count n q' \<le> max 1 (owned_count n q))"

lemma no_second_order_trans: "no_second_order q q' \<Longrightarrow> no_second_order q' q'' \<Longrightarrow> no_second_order q q''"
  unfolding no_second_order_def by (meson max.boundedI max.cobounded1 order_trans)

lemma no_second_order_ops:
  "no_second_order q q" "no_second_order q (snd (nnq_admit origin nt q))" "no_second_order q (expire_sent tip q)"
proof -
  show "no_second_order q (snd (nnq_admit origin nt q))"
    by (auto simp: no_second_order_def nnq_admit_def owned_count_def note_pending_def list_ex_iff owns_name_def filter_empty_conv)
  have "filter (owns_name n) (map (\<lambda>(nt, origin, st).
       (nt, origin, case st of Sent expiry \<Rightarrow> if sat_add_u32 tip 1 \<ge> expiry then Authorized else st | _ \<Rightarrow> st)) xs) =
     map (\<lambda>(nt, origin, st).
       (nt, origin, case st of Sent expiry \<Rightarrow> if sat_add_u32 tip 1 \<ge> expiry then Authorized else st | _ \<Rightarrow> st)) (filter (owns_name n) xs)"
    for n and xs :: "('a, 'b) note_order list"
    by (induction xs) (auto simp: owns_name_def split: name_note_state.splits if_splits)
  then show "no_second_order q (expire_sent tip q)" by (simp add: no_second_order_def owned_count_def expire_sent_def)
qed (simp add: no_second_order_def)

text \<open>A loop over authorized orders, each of whose steps keeps the queue or drops or sends an order of its
  own name, runs to its end, however many orders a name has.\<close>

definition own_order_step ::
  "('ua, 'cm) name_note \<Rightarrow> ('ua, 'cm, 'd) mint_state \<Rightarrow> ('ua, 'cm, 'd) mint_state \<Rightarrow> bool" where
  "own_order_step nt s s' \<longleftrightarrow>
     ms_name_notes s' = ms_name_notes s \<or> drop_note (note_name nt) (ms_name_notes s) = Some (ms_name_notes s') \<or>
     (\<exists>e. mark_sent (note_name nt) e (ms_name_notes s) = Some (ms_name_notes s'))"

lemma own_order_counts:
  assumes "own_order_step nt s s'"
  shows "authorized_count m (ms_name_notes s) - (if m = note_name nt then 1 else 0) \<le> authorized_count m (ms_name_notes s') \<and>
     owned_count m (ms_name_notes s') \<le> owned_count m (ms_name_notes s)"
  using assms unfolding own_order_step_def
proof (elim disjE exE)
  assume d: "drop_note (note_name nt) (ms_name_notes s) = Some (ms_name_notes s')"
  show ?thesis using drop_note_counts [OF d] by blast
next
  fix e assume m: "mark_sent (note_name nt) e (ms_name_notes s) = Some (ms_name_notes s')"
  show ?thesis using mark_sent_counts [OF m] by simp
qed simp

lemma each_orders:
  assumes "\<And>x s. 0 < authorized_count (note_name (g x)) (ms_name_notes s) \<Longrightarrow> \<exists>s'. f x s = Some s' \<and> own_order_step (g x) s s'"
    and "\<And>n. length (filter (\<lambda>nt. note_name nt = n) (map g xs)) \<le> authorized_count n (ms_name_notes s)"
  shows "\<exists>s'. each f xs s = Some s' \<and> no_second_order (ms_name_notes s) (ms_name_notes s')"
  using assms(2)
proof (induction xs arbitrary: s)
  case (Cons x xs)
  have "0 < authorized_count (note_name (g x)) (ms_name_notes s)" using Cons.prems [of "note_name (g x)"] by simp
  from assms(1) [OF this] obtain s1 where s1: "f x s = Some s1" "own_order_step (g x) s s1" by blast
  have "length (filter (\<lambda>nt. note_name nt = n) (map g xs)) \<le> authorized_count n (ms_name_notes s1)" for n
    using Cons.prems [of n] own_order_counts [OF s1(2), of n] by (auto split: if_splits)
  from Cons.IH [OF this] obtain s2 where "each f xs s1 = Some s2" "no_second_order (ms_name_notes s1) (ms_name_notes s2)" by blast
  moreover have "no_second_order (ms_name_notes s) (ms_name_notes s1)"
    using own_order_counts [OF s1(2)] by (simp add: no_second_order_def le_max_iff_disj)
  ultimately show ?case using s1(1) no_second_order_trans by (intro exI [of _ s2]) (simp, blast)
qed (simp add: no_second_order_ops)

lemma drop_due_update_step:
  assumes "0 < authorized_count (note_name nt) (ms_name_notes s)"
  shows "\<exists>s'. drop_due_update mtp nt s = Some s' \<and> own_order_step nt s s'"
  using authorized_available(1) [OF assms] by (auto simp: drop_due_update_def own_order_step_def)

lemma sign_order_step:
  assumes "0 < authorized_count (note_name nt) (ms_name_notes s)" and "\<And>nf. send nt nf \<noteq> None"
  shows "\<exists>s'. sign_order spendable send nt s = Some s' \<and> own_order_step nt s s'"
proof (cases "order_authority spendable (ms_registry s) nt")
  case (Inl b)
  then show ?thesis using authorized_available(1) [OF assms(1)] by (cases b) (auto simp: sign_order_def own_order_step_def)
next
  case (Inr nf)
  obtain res where "send nt nf = Some res" using assms(2) by fastforce
  then show ?thesis using Inr authorized_available(2) [OF assms(1)]
    by (cases res) (fastforce simp: sign_order_def own_order_step_def)+
qed

lemma admits_no_second:
  "no_second_order (ms_name_notes s) (ms_name_notes (fold (\<lambda>nt s. snd (admit_order tip nt s)) nts s))"
proof (induction nts arbitrary: s)
  case (Cons nt nts)
  have "no_second_order (ms_name_notes s) (ms_name_notes (snd (admit_order tip nt s)))"
    by (simp add: admit_order_notes no_second_order_ops)
  from no_second_order_trans [OF this Cons.IH] show ?case by simp
qed (simp add: no_second_order_ops)

lemma poll_no_second: "no_second_order (ms_name_notes s) (ms_name_notes (poll_sales tip s))"
proof -
  obtain nts m where "market_poll (ms_registry s) (note_pending (ms_name_notes s)) tip (ms_market s) = (nts, m)" by (rule prod.exhaust)
  then show ?thesis using admits_no_second [of "s\<lparr>ms_market := m\<rparr>" tip nts] by (simp add: poll_sales_def)
qed

lemma lifecycle_no_second: "no_second_order (ms_name_notes s) (ms_name_notes (fold (lifecycle_release tip) xs s))"
proof (induction xs arbitrary: s)
  case (Cons x xs)
  have "no_second_order (ms_name_notes s) (ms_name_notes (lifecycle_release tip x s))"
    by (cases x) (simp add: lifecycle_release_def admit_order_notes no_second_order_ops)
  with Cons.IH show ?case using no_second_order_trans by (simp, blast)
qed (simp add: no_second_order_ops)

text \<open>C17: The orders of a tip pass never trip over each other. From any queue, also one that a reorg left
  with two unresolved orders of a name, polling paid sales, expiring broadcasts, dropping due updates,
  admitting lifecycle releases and signing every authorized order runs to its end: neither dropping
  nor marking an order ever finds its order gone. And the pass gives no name a second order: a name
  has at most one unresolved order after it, or at most as many as before. The wallet, the builder
  and the node may answer differently at every order; the condition is that building and
  submitting a transaction does not itself panic.\<close>

theorem orders_pass_total:
  assumes "\<forall>i nt nf. send i nt nf \<noteq> None"
  shows "\<exists>s'. orders_pass spendable send tip mtp s = Some s' \<and>
     (\<forall>n. length (filter (owns_name n) (orders (ms_name_notes s'))) \<le>
        max 1 (length (filter (owns_name n) (orders (ms_name_notes s)))))"
proof -
  let ?s1 = "poll_sales tip s"
  let ?s2 = "?s1\<lparr>ms_name_notes := expire_sent tip (ms_name_notes ?s1)\<rparr>"
  have i2: "no_second_order (ms_name_notes s) (ms_name_notes ?s2)"
    using no_second_order_trans [OF poll_no_second no_second_order_ops(3)] by simp
  obtain s3 where s3: "each (drop_due_update mtp) (authorized_notes (ms_name_notes ?s2)) ?s2 = Some s3"
    "no_second_order (ms_name_notes ?s2) (ms_name_notes s3)"
    using each_orders [where f = "drop_due_update mtp" and g = "\<lambda>nt. nt", OF drop_due_update_step,
      of "authorized_notes (ms_name_notes ?s2)" ?s2] authorized_notes_count by (metis list.map_ident order_refl)
  let ?s4 = "fold (lifecycle_release tip) (releases_due (ms_registry s3) mtp) s3"
  let ?sign = "\<lambda>(i, nt). sign_order (spendable i) (send i) nt" and ?nts = "authorized_notes (ms_name_notes ?s4)"
  have "\<exists>s'. each ?sign (enumerate 0 ?nts) ?s4 = Some s' \<and> no_second_order (ms_name_notes ?s4) (ms_name_notes s')"
  proof (rule each_orders [where g = snd])
    show "\<exists>s'. ?sign x s = Some s' \<and> own_order_step (snd x) s s'"
      if "0 < authorized_count (note_name (snd x)) (ms_name_notes s)" for x and s :: "('a, 'b, 'c) mint_state"
      using sign_order_step [OF that] assms by (cases x) simp
  qed (simp add: authorized_notes_count)
  then obtain s5 where
    s5: "each ?sign (enumerate 0 ?nts) ?s4 = Some s5" "no_second_order (ms_name_notes ?s4) (ms_name_notes s5)" by blast
  have "no_second_order (ms_name_notes s) (ms_name_notes s5)"
    using no_second_order_trans [OF no_second_order_trans [OF i2 s3(2)] no_second_order_trans [OF lifecycle_no_second s5(2)]] .
  then show ?thesis using s3(1) s5(1) by (simp add: orders_pass_def Let_def no_second_order_def owned_count_def)
qed

text \<open>A queue a reorg left with two orders of one name, whose sends the builder answers in turn.\<close>

theorem orders_pass_total_witness:
  "\<exists>s'. orders_pass (\<lambda>i nf. i = 0) (\<lambda>i nt nf. Some (if i = 0 then Some 50 else None)) 10 1900000000
       (demo_state\<lparr>ms_name_notes := \<lparr>orders = [(NoteClaim demo_alice ''u1abc'' Never, 6, Authorized), (NoteRelease demo_alice ''u1abc'' ''cm'', 6, Authorized)]\<rparr>\<rparr>) = Some s' \<and>
     length (filter (owns_name demo_alice) (orders (ms_name_notes s'))) \<le> 2"
proof -
  let ?s = "demo_state\<lparr>ms_name_notes := \<lparr>orders = [(NoteClaim demo_alice ''u1abc'' Never, 6, Authorized), (NoteRelease demo_alice ''u1abc'' ''cm'', 6, Authorized)]\<rparr>\<rparr>"
  have "length (filter (owns_name demo_alice) (orders (ms_name_notes ?s))) = 2" by (simp add: owns_name_def)
  moreover have "\<forall>i nt nf. Some (if i = (0::nat) then Some (50::nat) else None) \<noteq> None" by simp
  ultimately show ?thesis
    using orders_pass_total [of "\<lambda>i nt nf. Some (if i = 0 then Some 50 else None)" "\<lambda>i nf. i = 0" 10 1900000000 ?s]
    by (metis max.absorb2 one_le_numeral)
qed

end
