(* ===== verification/Zebra.thy ===== *)
theory Zebra
  imports Names Codes
begin

text \<open>
  The seam between the mint and its Zebra node: \<open>src/zcash.rs\<close> and \<open>src/zcash/chain.rs\<close>,
  \<open>mempool.rs\<close> and \<open>submit.rs\<close>. What the network does is an argument: one \<^emph>\<open>outcome\<close> per
  request, or the list of outcomes that the attempts of a retry loop meet, in order. A loop
  that has met only outcomes it retries on has not returned, the value \<open>None\<close>. The decoders
  of third-party crates (JSON, hex, consensus parsers) are arguments too.
\<close>

section \<open>The error policy (\<open>src/zcash.rs\<close>)\<close>

datatype grpc_code = CodeNotFound | CodeUnavailable | CodeCancelled | CodeDeadlineExceeded | CodeOther nat

record rpc_error =
  rpc_code :: int
  rpc_message :: string
  rpc_data :: "string option"

datatype transport_error =
    ClientError
  | HyperError
  | TimeoutError
  | BadNodeData string
  | BadCheckpoint string
  | NotOnBestChain
  | RpcFailed rpc_error
  | TonicStatus grpc_code

definition is_already_in_mempool :: "rpc_error \<Rightarrow> bool" where
  "is_already_in_mempool e \<longleftrightarrow> rpc_message e = ''transaction already exists in mempool''"

fun not_on_best_chain :: "transport_error \<Rightarrow> transport_error" where
  "not_on_best_chain (RpcFailed e) = (if rpc_code e = - 8 then NotOnBestChain else RpcFailed e)"
| "not_on_best_chain (TonicStatus c) = (if c = CodeNotFound then NotOnBestChain else TonicStatus c)"
| "not_on_best_chain e = e"

fun is_retryable :: "transport_error \<Rightarrow> bool" where
  "is_retryable ClientError = True"
| "is_retryable HyperError = True"
| "is_retryable TimeoutError = True"
| "is_retryable (BadNodeData _) = True"
| "is_retryable (BadCheckpoint _) = True"
| "is_retryable NotOnBestChain = False"
| "is_retryable (RpcFailed _) = False"
| "is_retryable (TonicStatus c) = (c \<in> {CodeUnavailable, CodeCancelled, CodeDeadlineExceeded})"

fun map_err :: "('e \<Rightarrow> 'f) \<Rightarrow> 'e + 'a \<Rightarrow> 'f + 'a" where
  "map_err f (Inl e) = Inl (f e)"
| "map_err f (Inr a) = Inr a"

fun and_then :: "'e + 'a \<Rightarrow> ('a \<Rightarrow> 'e + 'b) \<Rightarrow> 'e + 'b" where
  "and_then (Inl e) f = Inl e"
| "and_then (Inr a) f = f a"

definition ok_or :: "'e \<Rightarrow> 'a option \<Rightarrow> 'e + 'a" where
  "ok_or e r = (case r of None \<Rightarrow> Inl e | Some a \<Rightarrow> Inr a)"

text \<open>A loop that repeats a request while its error is one it waits out, with a pause between
  attempts: the first answer that ends the loop, or \<open>None\<close> while every attempt so far was
  waited out.\<close>

fun retry_loop :: "('e \<Rightarrow> bool) \<Rightarrow> ('e + 'a) list \<Rightarrow> ('e + 'a) option" where
  "retry_loop again [] = None"
| "retry_loop again (Inr a # rest) = Some (Inr a)"
| "retry_loop again (Inl e # rest) = (if again e then retry_loop again rest else Some (Inl e))"

section \<open>The JSON-RPC dialect\<close>

definition MAX_BLOCK_BYTES :: nat where
  "MAX_BLOCK_BYTES = 2000000"

definition MAX_RESPONSE_BYTES :: nat where
  "MAX_RESPONSE_BYTES = 4 * MAX_BLOCK_BYTES"

datatype http_outcome = HttpElapsed | HttpRefused | HttpBroken | HttpBody bytes

fun round_trip :: "http_outcome \<Rightarrow> transport_error + bytes" where
  "round_trip HttpElapsed = Inl TimeoutError"
| "round_trip HttpRefused = Inl ClientError"
| "round_trip HttpBroken = Inl HyperError"
| "round_trip (HttpBody b) =
     (if length b \<le> MAX_RESPONSE_BYTES then Inr b else Inl (BadNodeData ''response exceeds the size cap''))"

type_synonym 'r rpc_parser = "bytes \<Rightarrow> ('r option \<times> rpc_error option) option"

definition send_request :: "string \<Rightarrow> 'r rpc_parser \<Rightarrow> http_outcome \<Rightarrow> transport_error + 'r option" where
  "send_request type_name parse outcome =
     and_then (round_trip outcome) (\<lambda>body.
     and_then (ok_or (BadNodeData type_name) (parse body)) (\<lambda>(result, error).
     (case error of Some e \<Rightarrow> Inl (RpcFailed e) | None \<Rightarrow> Inr result)))"

section \<open>Submission (\<open>src/zcash/submit.rs\<close>)\<close>

datatype submit_outcome = Accepted | Rejected transport_error

definition rpc_send :: "string rpc_parser \<Rightarrow> http_outcome \<Rightarrow> transport_error + string" where
  "rpc_send parse outcome =
     and_then (send_request ''alloc::string::String'' parse outcome)
       (ok_or (BadNodeData ''sendrawtransaction returned null''))"

definition send_transaction ::
  "string rpc_parser \<Rightarrow> (string \<Rightarrow> txid option) \<Rightarrow> txid \<Rightarrow> http_outcome \<Rightarrow> transport_error + submit_outcome" where
  "send_transaction parse from_hex txid outcome =
     (case rpc_send parse outcome of
        Inr returned \<Rightarrow>
          (case from_hex returned of
             Some t \<Rightarrow> if t = txid then Inr Accepted
               else Inr (Rejected (BadNodeData ''sendrawtransaction named a different transaction''))
           | None \<Rightarrow> Inr (Rejected (BadNodeData ''sendrawtransaction named a different transaction'')))
      | Inl e \<Rightarrow>
          if (case e of RpcFailed r \<Rightarrow> is_already_in_mempool r | _ \<Rightarrow> False) then Inr Accepted
          else if is_retryable e then Inl e
          else Inr (Rejected e))"

fun submit ::
  "string rpc_parser \<Rightarrow> (string \<Rightarrow> txid option) \<Rightarrow> txid \<Rightarrow> http_outcome list \<Rightarrow> bool option" where
  "submit parse from_hex txid [] = None"
| "submit parse from_hex txid (x # rest) =
     (case send_transaction parse from_hex txid x of
        Inr Accepted \<Rightarrow> Some True
      | Inr (Rejected _) \<Rightarrow> Some False
      | Inl _ \<Rightarrow> submit parse from_hex txid rest)"

section \<open>The best chain (\<open>src/zcash/chain.rs\<close>)\<close>

definition block_hash_from_display :: "bytes \<Rightarrow> bytes option" where
  "block_hash_from_display b = (if length b = 32 then Some (rev b) else None)"

definition block_request_at_height :: "height \<Rightarrow> bytes" where
  "block_request_at_height h = be_bytes 4 h"

definition tip_height_hash :: "nat \<times> bytes \<Rightarrow> transport_error + (height \<times> bytes)" where
  "tip_height_hash = (\<lambda>(h, hash).
     and_then (ok_or (BadNodeData ''tip hash length'') (block_hash_from_display hash)) (\<lambda>b. Inr (h, b)))"

text \<open>\<open>Indexer.GetBlock\<close> answers with the block's bytes and its hash in display order, or with
  a status.\<close>

definition block_and_hash :: "grpc_code + (bytes \<times> bytes) \<Rightarrow> transport_error + (bytes \<times> bytes)" where
  "block_and_hash answer = map_err (\<lambda>c. not_on_best_chain (TonicStatus c)) answer"

definition block_from_wire ::
  "(bytes \<Rightarrow> 'b option) \<Rightarrow> ('b \<Rightarrow> height) \<Rightarrow> bytes \<Rightarrow> height \<Rightarrow> transport_error + 'b" where
  "block_from_wire read claimed_height data height =
     and_then (ok_or (BadNodeData ''indexer block parse'') (read data)) (\<lambda>b.
       if claimed_height b \<noteq> height
       then Inl (BadNodeData ''indexer block answered a different height than requested'')
       else Inr b)"

definition get_block ::
  "(bytes \<Rightarrow> 'b option) \<Rightarrow> ('b \<Rightarrow> height) \<Rightarrow> height \<Rightarrow> grpc_code + (bytes \<times> bytes) \<Rightarrow> transport_error + 'b" where
  "get_block read claimed_height height answer =
     and_then (block_and_hash answer) (\<lambda>(data, _). block_from_wire read claimed_height data height)"

definition get_block_hash :: "grpc_code + (bytes \<times> bytes) \<Rightarrow> transport_error + bytes" where
  "get_block_hash answer =
     and_then (block_and_hash answer) (\<lambda>(_, hash).
       ok_or (BadNodeData ''indexer block hash length'') (block_hash_from_display hash))"

record blockchain_info =
  bi_blocks :: nat
  bi_bestblockhash :: string

definition info_canonical_tip :: "('ua, 'cm) zenv \<Rightarrow> blockchain_info \<Rightarrow> transport_error + (height \<times> bytes)" where
  "info_canonical_tip E info =
     and_then (ok_or (BadNodeData ''bestblockhash hex'') (hex_decode E (bi_bestblockhash info))) (\<lambda>display.
     and_then (ok_or (BadNodeData ''bestblockhash length'') (block_hash_from_display display)) (\<lambda>hash.
     Inr (bi_blocks info, hash)))"

definition get_blockchain_info :: "blockchain_info rpc_parser \<Rightarrow> http_outcome \<Rightarrow> transport_error + blockchain_info" where
  "get_blockchain_info parse outcome =
     and_then (send_request ''zns_mint::zcash::chain::BlockchainInfo'' parse outcome)
       (ok_or (BadNodeData ''getblockchaininfo returned null''))"

definition exact_tip ::
  "('ua, 'cm) zenv \<Rightarrow> blockchain_info rpc_parser \<Rightarrow> http_outcome \<Rightarrow> transport_error + (height \<times> bytes)" where
  "exact_tip E parse outcome = and_then (get_blockchain_info parse outcome) (info_canonical_tip E)"

definition canonical_tip ::
  "('ua, 'cm) zenv \<Rightarrow> blockchain_info rpc_parser \<Rightarrow> http_outcome list \<Rightarrow> (transport_error + (height \<times> bytes)) option" where
  "canonical_tip E parse outcomes = retry_loop is_retryable (map (exact_tip E parse) outcomes)"

text \<open>The tip session: what the stream delivers, and whether the session reopens it.\<close>

datatype tip_push = Pushed "nat \<times> bytes" | PushFailed | PushEnded

definition next_tip ::
  "('ua, 'cm) zenv \<Rightarrow> blockchain_info rpc_parser \<Rightarrow> tip_push \<Rightarrow> http_outcome list \<Rightarrow>
     bool \<times> (transport_error + (height \<times> bytes)) option" where
  "next_tip E parse push outcomes =
     (case push of
        Pushed p \<Rightarrow>
          (case tip_height_hash p of
             Inr tip \<Rightarrow> (False, Some (Inr tip))
           | Inl _ \<Rightarrow> (False, canonical_tip E parse outcomes))
      | PushFailed \<Rightarrow> (True, canonical_tip E parse outcomes)
      | PushEnded \<Rightarrow> (True, canonical_tip E parse outcomes))"

definition header_time_once ::
  "('ua, 'cm) zenv \<Rightarrow> string rpc_parser \<Rightarrow> (bytes \<Rightarrow> nat option) \<Rightarrow> http_outcome \<Rightarrow> transport_error + nat" where
  "header_time_once E parse read outcome =
     and_then (map_err not_on_best_chain (send_request ''alloc::string::String'' parse outcome)) (\<lambda>result.
     and_then (ok_or (BadNodeData ''getblockheader returned null'') result) (\<lambda>raw.
     and_then (ok_or (BadNodeData ''getblockheader hex'') (hex_decode E raw)) (\<lambda>bytes.
     ok_or (BadNodeData ''getblockheader header'') (read bytes))))"

definition header_time ::
  "('ua, 'cm) zenv \<Rightarrow> string rpc_parser \<Rightarrow> (bytes \<Rightarrow> nat option) \<Rightarrow> http_outcome list \<Rightarrow>
     (transport_error + nat) option" where
  "header_time E parse read outcomes =
     retry_loop (\<lambda>e. is_retryable e \<or> e = NotOnBestChain) (map (header_time_once E parse read) outcomes)"

record subtree_info =
  st_root :: string
  st_end_height :: nat

record subtrees_response =
  sr_pool :: string
  sr_start_index :: nat
  sr_subtrees :: "subtree_info list"

fun subtree_roots ::
  "('ua, 'cm) zenv \<Rightarrow> (bytes \<Rightarrow> 'h option) \<Rightarrow> subtree_info list \<Rightarrow> transport_error + (height \<times> 'h) list" where
  "subtree_roots E read [] = Inr []"
| "subtree_roots E read (entry # rest) =
     and_then (ok_or (BadNodeData ''z_getsubtreesbyindex root hex'') (hex_decode E (st_root entry))) (\<lambda>b.
       if length b \<noteq> 32 then Inl (BadNodeData ''z_getsubtreesbyindex root length'')
       else and_then (ok_or (BadNodeData ''z_getsubtreesbyindex root parse'') (read b)) (\<lambda>node.
       and_then (subtree_roots E read rest) (\<lambda>roots. Inr ((st_end_height entry, node) # roots))))"

definition subtrees_response_to_roots ::
  "('ua, 'cm) zenv \<Rightarrow> (bytes \<Rightarrow> 'h option) \<Rightarrow> subtrees_response \<Rightarrow> string \<Rightarrow> nat \<Rightarrow>
     transport_error + (height \<times> 'h) list" where
  "subtrees_response_to_roots E read response expected_pool expected_start_index =
     (if sr_pool response \<noteq> expected_pool
      then Inl (BadNodeData ''z_getsubtreesbyindex answered a different pool than requested'')
      else if sr_start_index response \<noteq> expected_start_index
      then Inl (BadNodeData ''z_getsubtreesbyindex answered a different start_index than requested'')
      else subtree_roots E read (sr_subtrees response))"

definition get_subtree_roots ::
  "('ua, 'cm) zenv \<Rightarrow> subtrees_response rpc_parser \<Rightarrow> (bytes \<Rightarrow> 'h option) \<Rightarrow> string \<Rightarrow> nat \<Rightarrow> http_outcome \<Rightarrow>
     transport_error + (height \<times> 'h) list" where
  "get_subtree_roots E parse read pool start_index outcome =
     and_then (send_request ''zns_mint::zcash::chain::SubtreesResponse'' parse outcome) (\<lambda>result.
     and_then (ok_or (BadNodeData ''z_getsubtreesbyindex returned null'') result) (\<lambda>response.
     subtrees_response_to_roots E read response pool start_index))"

text \<open>The tree state of the three pools, as the final states the node sends; a frontier is what
  the tree crate reads from them.\<close>

record tree_state_response =
  ts_height :: nat
  ts_hash :: string
  ts_sapling :: "string option"
  ts_orchard :: "string option"
  ts_ironwood :: "string option"

record ('fs, 'fo) chain_state =
  cs_height :: height
  cs_hash :: bytes
  cs_sapling :: 'fs
  cs_orchard :: 'fo
  cs_ironwood :: 'fo

definition decode_tree ::
  "('ua, 'cm) zenv \<Rightarrow> (bytes \<Rightarrow> 'f option) \<Rightarrow> string \<Rightarrow> string \<Rightarrow> transport_error + 'f" where
  "decode_tree E read hex_state label =
     and_then (ok_or (BadCheckpoint (label @ '' tree hex decode failed'')) (hex_decode E hex_state)) (\<lambda>b.
     ok_or (BadCheckpoint (label @ '' tree decode failed'')) (read b))"

definition chain_state_from_rpc_response ::
  "('ua, 'cm) zenv \<Rightarrow> (bytes \<Rightarrow> 'fs option) \<Rightarrow> (bytes \<Rightarrow> 'fo option) \<Rightarrow> tree_state_response \<Rightarrow>
     transport_error + ('fs, 'fo) chain_state" where
  "chain_state_from_rpc_response E read_sapling read_orchard response =
     and_then (ok_or (BadNodeData ''missing Sapling finalState'') (ts_sapling response)) (\<lambda>s.
     and_then (decode_tree E read_sapling s ''Sapling'') (\<lambda>sapling.
     and_then (ok_or (BadNodeData ''missing Orchard finalState'') (ts_orchard response)) (\<lambda>o'.
     and_then (decode_tree E read_orchard o' ''Orchard'') (\<lambda>orchard.
     and_then (ok_or (BadNodeData ''missing Ironwood finalState'') (ts_ironwood response)) (\<lambda>i.
     and_then (decode_tree E read_orchard i ''Ironwood'') (\<lambda>ironwood.
     and_then (ok_or (BadNodeData ''invalid hash hex'') (hex_decode E (ts_hash response))) (\<lambda>display.
     and_then (ok_or (BadNodeData ''malformed 32-byte hash'') (block_hash_from_display display)) (\<lambda>hash.
     Inr \<lparr>cs_height = ts_height response, cs_hash = hash, cs_sapling = sapling, cs_orchard = orchard,
          cs_ironwood = ironwood\<rparr>))))))))"

definition chain_state_at ::
  "('ua, 'cm) zenv \<Rightarrow> tree_state_response rpc_parser \<Rightarrow> (bytes \<Rightarrow> 'fs option) \<Rightarrow> (bytes \<Rightarrow> 'fo option) \<Rightarrow>
     height \<Rightarrow> http_outcome \<Rightarrow> transport_error + ('fs, 'fo) chain_state" where
  "chain_state_at E parse read_sapling read_orchard height outcome =
     and_then (map_err not_on_best_chain
         (send_request ''zns_mint::zcash::chain::TreeStateResponse'' parse outcome)) (\<lambda>result.
     and_then (ok_or (BadNodeData ''z_gettreestate returned null'') result) (\<lambda>response.
       if ts_height response \<noteq> height
       then Inl (BadNodeData ''z_gettreestate answered a different height than requested'')
       else chain_state_from_rpc_response E read_sapling read_orchard response))"

section \<open>The mempool (\<open>src/zcash/mempool.rs\<close>)\<close>

datatype mempool_change_kind = MempoolAdded | MempoolInvalidated | MempoolMined

definition mempool_event ::
  "mempool_change_kind option \<times> bytes option \<Rightarrow> transport_error + (mempool_change_kind \<times> txid)" where
  "mempool_event = (\<lambda>(kind, hash).
     and_then (ok_or (BadNodeData ''mempool change type'') kind) (\<lambda>k.
     and_then (ok_or (BadNodeData ''mempool tx hash'') hash) (\<lambda>b. Inr (k, rev b))))"

definition get_raw_transaction ::
  "('ua, 'cm) zenv \<Rightarrow> string rpc_parser \<Rightarrow> (bytes \<Rightarrow> 't option) \<Rightarrow> http_outcome \<Rightarrow> transport_error + 't option" where
  "get_raw_transaction E parse read outcome =
     (case send_request ''alloc::string::String'' parse outcome of
        Inr (Some hex_str) \<Rightarrow>
          and_then (ok_or (BadNodeData ''getrawtransaction hex'') (hex_decode E hex_str)) (\<lambda>b.
          and_then (ok_or (BadNodeData ''getrawtransaction parse'') (read b)) (\<lambda>tx. Inr (Some tx)))
      | Inr None \<Rightarrow> Inr None
      | Inl e \<Rightarrow> if (case e of RpcFailed r \<Rightarrow> rpc_code r = - 5 | _ \<Rightarrow> False) then Inr None else Inl e)"

text \<open>\<open>MempoolSession::next\<close> over what the streams deliver: a failed or ended stream is
  reopened and read again.\<close>

fun mempool_next :: "(transport_error + 'ev) option list \<Rightarrow> 'ev option" where
  "mempool_next [] = None"
| "mempool_next (Some (Inr event) # rest) = Some event"
| "mempool_next (Some (Inl e) # rest) = mempool_next rest"
| "mempool_next (None # rest) = mempool_next rest"

section \<open>Laws\<close>

lemma and_then_Inr: "and_then r f = Inr b \<longleftrightarrow> (\<exists>a. r = Inr a \<and> f a = Inr b)"
  by (cases r) auto

lemma and_then_Inl: "and_then r f = Inl e \<longleftrightarrow> r = Inl e \<or> (\<exists>a. r = Inr a \<and> f a = Inl e)"
  by (cases r) auto

lemma map_err_Inr: "map_err f r = Inr a \<longleftrightarrow> r = Inr a"
  by (cases r) auto

lemma map_err_Inl: "map_err f r = Inl e \<longleftrightarrow> (\<exists>d. r = Inl d \<and> e = f d)"
  by (cases r) auto

lemma ok_or_Inr: "ok_or e r = Inr a \<longleftrightarrow> r = Some a"
  by (cases r) (auto simp: ok_or_def)

lemma ok_or_Inl: "ok_or e r = Inl d \<longleftrightarrow> r = None \<and> d = e"
  by (cases r) (auto simp: ok_or_def)

lemmas result_simps = and_then_Inr and_then_Inl map_err_Inr map_err_Inl ok_or_Inr ok_or_Inl

text \<open>The first element that fails a test, and what holds of it.\<close>

definition first_failing :: "('x \<Rightarrow> bool) \<Rightarrow> ('x \<Rightarrow> bool) \<Rightarrow> 'x list \<Rightarrow> bool" where
  "first_failing p q xs \<longleftrightarrow> (\<exists>pre x post. xs = pre @ x # post \<and> (\<forall>y\<in>set pre. p y) \<and> \<not> p x \<and> q x)"

lemma first_failing_Nil [simp]: "\<not> first_failing p q []"
  by (simp add: first_failing_def)

lemma first_failing_Cons [simp]: "first_failing p q (y # xs) \<longleftrightarrow> (if p y then first_failing p q xs else q y)"
proof (cases "p y")
  case True
  have "first_failing p q xs" if "first_failing p q (y # xs)"
  proof -
    from that True obtain pre x post where "xs = pre @ x # post" "\<forall>z\<in>set pre. p z" "\<not> p x" "q x"
      unfolding first_failing_def by (auto simp: Cons_eq_append_conv)
    then show ?thesis unfolding first_failing_def by blast
  qed
  moreover have "first_failing p q (y # xs)" if "first_failing p q xs"
  proof -
    from that obtain pre x post where "xs = pre @ x # post" "\<forall>z\<in>set pre. p z" "\<not> p x" "q x"
      unfolding first_failing_def by blast
    with True have "y # xs = (y # pre) @ x # post" "\<forall>z\<in>set (y # pre). p z" by auto
    with \<open>\<not> p x\<close> \<open>q x\<close> show ?thesis unfolding first_failing_def by blast
  qed
  ultimately show ?thesis using True by auto
next
  case False
  have "q y" if "first_failing p q (y # xs)"
    using that False unfolding first_failing_def by (auto simp: Cons_eq_append_conv)
  moreover have "first_failing p q (y # xs)" if "q y"
    using that False unfolding first_failing_def by (intro exI [of _ "[]"] exI [of _ y] exI [of _ xs]) simp
  ultimately show ?thesis using False by auto
qed

text \<open>A retry loop returns exactly the first answer it does not wait out.\<close>

lemma retry_loop_Some_iff:
  "retry_loop again xs = Some r \<longleftrightarrow> first_failing (\<lambda>x. \<exists>e. x = Inl e \<and> again e) (\<lambda>x. x = r) xs"
  by (induction again xs rule: retry_loop.induct) auto

lemma retry_loop_None_iff: "retry_loop again xs = None \<longleftrightarrow> (\<forall>x\<in>set xs. \<exists>e. x = Inl e \<and> again e)"
  by (induction again xs rule: retry_loop.induct) auto

text \<open>A tip race is neither retried nor produced by anything but the node's own verdict.\<close>

lemma not_on_best_chain_eq:
  "not_on_best_chain e = NotOnBestChain \<longleftrightarrow>
     e = NotOnBestChain \<or> e = TonicStatus CodeNotFound \<or> (\<exists>r. e = RpcFailed r \<and> rpc_code r = - 8)"
  by (cases e) auto

lemma retryable_not_on_best_chain: "is_retryable (not_on_best_chain e) \<longleftrightarrow> is_retryable e"
  by (cases e) auto

lemma get_block_height: "get_block read claimed h answer = Inr b \<Longrightarrow> claimed b = h"
  by (auto simp: get_block_def block_from_wire_def result_simps split: if_splits)

lemma chain_state_at_height: "chain_state_at E parse rs ro h outcome = Inr s \<Longrightarrow> cs_height s = h"
  by (auto simp: chain_state_at_def chain_state_from_rpc_response_def result_simps split: if_splits)

lemma block_request_inj:
  assumes "block_request_at_height h = block_request_at_height h'" and "h \<le> U32_MAX" and "h' \<le> U32_MAX"
  shows "h = h'"
proof -
  have "h < 256 ^ 4" and "h' < 256 ^ 4" using assms(2,3) by (simp_all add: U32_MAX_def)
  then show ?thesis using be_bytes_inj assms(1) unfolding block_request_at_height_def by blast
qed

lemma send_transaction_error: "send_transaction parse fh t x = Inl e \<longleftrightarrow> rpc_send parse x = Inl e \<and> is_retryable e"
  by (auto simp: send_transaction_def split: sum.splits option.splits if_splits transport_error.splits)

lemma send_transaction_accepted:
  "send_transaction parse fh t x = Inr Accepted \<longleftrightarrow>
     (\<exists>returned. rpc_send parse x = Inr returned \<and> fh returned = Some t) \<or>
     (\<exists>r. rpc_send parse x = Inl (RpcFailed r) \<and> is_already_in_mempool r)"
  by (auto simp: send_transaction_def split: sum.splits option.splits if_splits transport_error.splits)

lemma submit_step:
  "submit parse fh t (x # rest) =
     (if \<exists>e. rpc_send parse x = Inl e \<and> is_retryable e then submit parse fh t rest
      else Some (send_transaction parse fh t x = Inr Accepted))"
  using send_transaction_error [of parse fh t x]
  by (auto split: sum.splits submit_outcome.splits)

text \<open>C23: Broadcasting decides. \<open>submit\<close> waits out exactly the answers that settle nothing (no
  connection, a broken or oversized body, a timeout, an unreadable or empty envelope) and returns
  at the first answer that settles the matter: true if the node named this transaction or said it
  already holds it, false at any other verdict.\<close>

theorem submit_decides:
  "submit parse fh t xs = Some b \<longleftrightarrow>
     (\<exists>pre x post. xs = pre @ x # post \<and>
        (\<forall>y\<in>set pre. \<exists>e. rpc_send parse y = Inl e \<and> is_retryable e) \<and>
        \<not> (\<exists>e. rpc_send parse x = Inl e \<and> is_retryable e) \<and>
        (b \<longleftrightarrow> (\<exists>returned. rpc_send parse x = Inr returned \<and> fh returned = Some t) \<or>
              (\<exists>r. rpc_send parse x = Inl (RpcFailed r) \<and> is_already_in_mempool r)))"
proof -
  have "submit parse fh t xs = Some b \<longleftrightarrow>
      first_failing (\<lambda>y. \<exists>e. rpc_send parse y = Inl e \<and> is_retryable e)
        (\<lambda>x. b = (send_transaction parse fh t x = Inr Accepted)) xs"
    by (induction xs) (auto simp: submit_step simp del: submit.simps(2))
  then show ?thesis by (simp add: first_failing_def send_transaction_accepted)
qed

definition demo_answer :: "string rpc_parser" where
  "demo_answer body =
     (if body = ''lost'' then None
      else if body = ''held''
      then Some (None, Some \<lparr>rpc_code = - 1, rpc_message = ''transaction already exists in mempool'', rpc_data = None\<rparr>)
      else Some (Some body, None))"

theorem submit_decides_witness:
  "submit demo_answer Some ''t'' [HttpElapsed, HttpBody ''lost'', HttpBody ''held''] = Some True \<and>
   (\<exists>pre x post. [HttpElapsed, HttpBody ''lost'', HttpBody ''held''] = pre @ x # post \<and>
      rpc_send demo_answer x \<noteq> Inl TimeoutError)"
proof -
  have "submit demo_answer Some ''t'' [HttpElapsed, HttpBody ''lost'', HttpBody ''held''] = Some True"
    by (simp add: send_transaction_def rpc_send_def send_request_def demo_answer_def ok_or_def
        is_already_in_mempool_def MAX_RESPONSE_BYTES_def MAX_BLOCK_BYTES_def)
  moreover from this [unfolded submit_decides] show ?thesis
    using calculation by fastforce
qed

end
