(* ===== verification/Assemble.thy ===== *)
theory Assemble
  imports Anchor_Pool Demo_Env Zebra "HOL-Library.Multiset"
begin

text \<open>
  \<open>src/mint/note/assemble.rs\<close>, the construction of a Name Note transaction, and the fee rule of
  \<open>src/zcash/fees.rs\<close>. The wallet's answers, the ZIP 317 fee of an action count and the
  transaction builder are the fields of a parameter record; the model is what \<open>prepare\<close> asks for
  and in which order it stages it. An error is a value, an \<open>expect\<close> a panic.
\<close>

section \<open>The node's fee\<close>

record standard_fee =
  sf_standard_fee :: nat
  sf_version :: nat

text \<open>A fee rule is its marginal fee; the grace actions and sizes are ZIP 317's.\<close>

definition into_rule :: "('ua, 'cm) zenv \<Rightarrow> standard_fee \<Rightarrow> transport_error + zat" where
  "into_rule E sf =
     (if sf_version sf \<noteq> 0 then Inl (BadNodeData ''unsupported fee estimator version'')
      else (case zat_from_u64 E (sf_standard_fee sf) of
          None \<Rightarrow> Inl (BadNodeData ''invalid standard fee'')
        | Some fee \<Rightarrow> if fee > 0 then Inr fee else Inl (BadNodeData ''invalid standard fee'')))"

section \<open>Errors and the parameters\<close>

datatype 'e prepare_error =
    AuthorityUnavailable
  | FeeUnfunded
  | WitnessUnavailable
  | AnchorUnavailable
  | PredecessorClosed
  | Tree_Error 'e
  | Fee_Error 'e
  | Memo_Error 'e
  | Builder_Error 'e

record 'id received_note =
  rn_id :: 'id
  rn_value :: nat

datatype ('id, 'path, 'cm) builder_op =
    SpendAnchor "'id received_note" 'path
  | SpendName "'id received_note" 'path 'cm bytes
  | SpendFee "'id received_note" 'path
  | OutName bytes 'cm bytes
  | OutAnchor
  | OutChange zat

text \<open>\<open>name_memo\<close> is \<open>get_memo\<close> when it is a \<open>Memo::Future\<close>, \<open>fee_required\<close> the fee of a count
  of Ironwood actions at the target height.\<close>

record ('id, 'path, 'cm, 'root, 'b, 'tx, 'e) asm_env =
  note_by_nullifier :: "nullifier \<Rightarrow> 'id received_note option"
  treasury_notes :: "'id received_note list"
  witness_of :: "'id received_note \<Rightarrow> 'e + 'path option"
  tip_anchor :: "'e + 'root option"
  name_memo :: "'id \<Rightarrow> 'e + bytes option"
  fee_required :: "nat \<Rightarrow> 'e + zat"
  builder_new :: "'root \<Rightarrow> 'b"
  builder_add :: "('id, 'path, 'cm) builder_op \<Rightarrow> 'b \<Rightarrow> 'e + 'b"
  builder_build :: "'b \<Rightarrow> 'e + 'tx"

text \<open>The \<open>?\<close> operator under possible panics.\<close>

definition try_bind :: "('e + 'a) may_panic \<Rightarrow> ('a \<Rightarrow> ('e + 'c) may_panic) \<Rightarrow> ('e + 'c) may_panic" where
  "try_bind x f = (case x of None \<Rightarrow> None | Some (Inl e) \<Rightarrow> Some (Inl e) | Some (Inr a) \<Rightarrow> f a)"

section \<open>The parts of \<open>prepare\<close>\<close>

definition witness_at ::
  "('id, 'path, 'cm, 'root, 'b, 'tx, 'e) asm_env \<Rightarrow> 'id received_note \<Rightarrow> 'e prepare_error + 'path" where
  "witness_at A nt =
     (case witness_of A nt of
        Inl e \<Rightarrow> Inl (Tree_Error e)
      | Inr None \<Rightarrow> Inl WitnessUnavailable
      | Inr (Some path) \<Rightarrow> Inr path)"

definition note_zatoshis :: "('ua, 'cm) zenv \<Rightarrow> 'id received_note \<Rightarrow> zat may_panic" where
  "note_zatoshis E nt = zat_from_u64 E (rn_value nt)"

definition predecessor_opening ::
  "('ua, 'cm) zenv \<Rightarrow> ('id, 'path, 'cm, 'root, 'b, 'tx, 'e) asm_env \<Rightarrow> 'id received_note \<Rightarrow>
     ('e prepare_error + 'cm \<times> bytes) may_panic" where
  "predecessor_opening E A nt =
     (case name_memo A (rn_id nt) of
        Inl e \<Rightarrow> Some (Inl (Memo_Error e))
      | Inr None \<Rightarrow> Some (Inl PredecessorClosed)
      | Inr (Some memo) \<Rightarrow>
          map_option (\<lambda>payload. case payload of
              None \<Rightarrow> Inl PredecessorClosed
            | Some p \<Rightarrow> Inr (note_rcm E p, note_psi E p)) (note_decode E memo))"

definition asm_fee ::
  "('id, 'path, 'cm, 'root, 'b, 'tx, 'e) asm_env \<Rightarrow> nat \<Rightarrow> 'e prepare_error + zat" where
  "asm_fee A actions = (case fee_required A actions of Inl e \<Rightarrow> Inl (Fee_Error e) | Inr f \<Rightarrow> Inr f)"

definition fixed_spends :: nat where
  "fixed_spends = 1"

definition fixed_outputs :: "('ua, 'cm) name_note \<Rightarrow> nat" where
  "fixed_outputs nt = (if is_claim (note_action nt) then 3 else 2)"

definition action_count :: "nat \<Rightarrow> nat \<Rightarrow> nat" where
  "action_count outputs fee_notes = max (max (fixed_spends + fee_notes) outputs) 2"

text \<open>The funding loop: \<open>rest\<close> are the candidates not yet taken.\<close>

fun fee_loop ::
  "('ua, 'cm) zenv \<Rightarrow> ('id, 'path, 'cm, 'root, 'b, 'tx, 'e) asm_env \<Rightarrow> nat \<Rightarrow> 'id received_note list \<Rightarrow> zat \<Rightarrow>
     ('id received_note \<times> 'path) list \<Rightarrow>
     ('e prepare_error + zat \<times> zat \<times> ('id received_note \<times> 'path) list) may_panic" where
  "fee_loop E A outputs rest funding taken =
     (case asm_fee A (action_count outputs (length taken)) of
        Inl e \<Rightarrow> Some (Inl e)
      | Inr f \<Rightarrow>
          if funding \<ge> f then Some (Inr (f, funding, taken))
          else (case rest of
              [] \<Rightarrow> Some (Inl FeeUnfunded)
            | candidate # rest' \<Rightarrow>
                (case Option.bind (note_zatoshis E candidate) (zat_add E funding) of
                   None \<Rightarrow> None
                 | Some funding' \<Rightarrow>
                     (case witness_at A candidate of
                        Inl e \<Rightarrow> Some (Inl e)
                      | Inr path \<Rightarrow> fee_loop E A outputs rest' funding' (taken @ [(candidate, path)])))))"

declare fee_loop.simps [simp del]

definition fee_candidates ::
  "('id, 'path, 'cm, 'root, 'b, 'tx, 'e) asm_env \<Rightarrow> 'id received_note \<Rightarrow> 'id received_note list" where
  "fee_candidates A authority =
     sort_key (\<lambda>nt. - int (rn_value nt)) (filter (\<lambda>nt. rn_id nt \<noteq> rn_id authority) (treasury_notes A))"

fun stage ::
  "('id, 'path, 'cm, 'root, 'b, 'tx, 'e) asm_env \<Rightarrow> ('id, 'path, 'cm) builder_op list \<Rightarrow> 'b \<Rightarrow> 'e prepare_error + 'b" where
  "stage A [] b = Inr b"
| "stage A (x # xs) b = (case builder_add A x b of Inl e \<Rightarrow> Inl (Builder_Error e) | Inr b' \<Rightarrow> stage A xs b')"

definition stage_authority ::
  "('ua, 'cm) zenv \<Rightarrow> ('id, 'path, 'cm, 'root, 'b, 'tx, 'e) asm_env \<Rightarrow> ('ua, 'cm) name_note \<Rightarrow>
     'id received_note \<Rightarrow> 'path \<Rightarrow> ('e prepare_error + ('id, 'path, 'cm) builder_op) may_panic" where
  "stage_authority E A nt authority path =
     (if is_claim (note_action nt) then Some (Inr (SpendAnchor authority path))
      else try_bind (predecessor_opening E A authority) (\<lambda>(rcm, psi).
        Some (Inr (SpendName authority path rcm psi))))"

definition outputs_of :: "('ua, 'cm) zenv \<Rightarrow> ('ua, 'cm) name_note \<Rightarrow> bytes \<Rightarrow> zat \<Rightarrow> ('id, 'path, 'cm) builder_op list" where
  "outputs_of E nt memo change =
     [OutName memo (note_rcm E nt) (note_psi E nt)] @
     (if is_claim (note_action nt) then [OutAnchor] else []) @
     (if change > 0 then [OutChange change] else [])"

definition prepare ::
  "('ua, 'cm) zenv \<Rightarrow> ('id, 'path, 'cm, 'root, 'b, 'tx, 'e) asm_env \<Rightarrow> ('ua, 'cm) name_note \<Rightarrow> nullifier \<Rightarrow>
     ('e prepare_error + 'tx \<times> zat) may_panic" where
  "prepare E A nt authority_nf =
     (case note_by_nullifier A authority_nf of
        None \<Rightarrow> Some (Inl AuthorityUnavailable)
      | Some authority \<Rightarrow>
          try_bind (fee_loop E A (fixed_outputs nt) (fee_candidates A authority) 0 []) (\<lambda>(fee, funding, fee_notes).
          (case zat_sub funding fee of None \<Rightarrow> None | Some change \<Rightarrow>
          (case tip_anchor A of
             Inl e \<Rightarrow> Some (Inl (Tree_Error e))
           | Inr None \<Rightarrow> Some (Inl AnchorUnavailable)
           | Inr (Some root) \<Rightarrow>
               try_bind (Some (witness_at A authority)) (\<lambda>path.
               try_bind (stage_authority E A nt authority path) (\<lambda>spend.
               try_bind (Some (stage A (spend # map (\<lambda>(fee_note, p). SpendFee fee_note p) fee_notes) (builder_new A root))) (\<lambda>b.
               (case note_encode E nt of None \<Rightarrow> None | Some memo \<Rightarrow>
               try_bind (Some (stage A (outputs_of E nt memo change) b)) (\<lambda>b'.
               (case builder_build A b' of
                  Inl e \<Rightarrow> Some (Inl (Builder_Error e))
                | Inr tx \<Rightarrow> Some (Inr (tx, fee))))))))))))"

section \<open>Lemmas\<close>

lemma try_bind_Inr:
  "try_bind x f = Some (Inr y) \<longleftrightarrow> (\<exists>a. x = Some (Inr a) \<and> f a = Some (Inr y))"
  by (auto simp: try_bind_def split: option.splits sum.splits)

text \<open>The case distinctions of \<open>prepare\<close>, read off a result.\<close>

lemma prepare_cases:
  "(case x of None \<Rightarrow> Some (Inl e) | Some a \<Rightarrow> f a) = Some (Inr y) \<longleftrightarrow> (\<exists>a. x = Some a \<and> f a = Some (Inr y))"
  "(case x of None \<Rightarrow> None | Some a \<Rightarrow> f a) = Some (Inr y) \<longleftrightarrow> (\<exists>a. x = Some a \<and> f a = Some (Inr y))"
  "(case z of Inl e \<Rightarrow> Some (Inl (h e)) | Inr w \<Rightarrow> g w) = Some (Inr y) \<longleftrightarrow> (\<exists>w. z = Inr w \<and> g w = Some (Inr y))"
  by (auto split: option.splits sum.splits)

lemma stage_append: "stage A (xs @ ys) b = (case stage A xs b of Inl e \<Rightarrow> Inl e | Inr b' \<Rightarrow> stage A ys b')"
  by (induction xs arbitrary: b) (auto split: sum.splits)

text \<open>What the loop has when it stops: a shortest prefix of the candidates that pays for itself, each
  with its witness.\<close>

lemma fee_loop_Inr:
  assumes "fee_loop E A outputs rest funding taken = Some (Inr (f, total', chosen))"
  shows "\<exists>k paths. k \<le> length rest \<and> chosen = taken @ zip (take k rest) paths \<and>
     list_all2 (\<lambda>c p. witness_of A c = Inr (Some p)) (take k rest) paths \<and>
     total' = funding + sum_list (map rn_value (take k rest)) \<and> f \<le> total' \<and>
     fee_required A (action_count outputs (length taken + k)) = Inr f \<and>
     (\<forall>j<k. \<exists>g. fee_required A (action_count outputs (length taken + j)) = Inr g \<and>
        funding + sum_list (map rn_value (take j rest)) < g)"
  using assms
proof (induction rest arbitrary: funding taken)
  case Nil
  then show ?case
    by (auto simp: fee_loop.simps [where rest = "[]"] asm_fee_def split: sum.splits if_splits)
next
  case (Cons c rest)
  obtain g where g: "fee_required A (action_count outputs (length taken)) = Inr g"
    using Cons.prems by (auto simp: fee_loop.simps [where rest = "c # rest"] asm_fee_def split: sum.splits)
  show ?case
  proof (cases "g \<le> funding")
    case True
    with Cons.prems g have "f = g" "total' = funding" "chosen = taken"
      by (auto simp: fee_loop.simps [where rest = "c # rest"] asm_fee_def)
    with True g show ?thesis by (intro exI [of _ 0] exI [of _ "[]"]) simp
  next
    case False
    from Cons.prems g False obtain path where
      rec: "fee_loop E A outputs rest (funding + rn_value c) (taken @ [(c, path)]) = Some (Inr (f, total', chosen))"
      and path: "witness_of A c = Inr (Some path)"
      by (auto simp: fee_loop.simps [where rest = "c # rest"] asm_fee_def note_zatoshis_def zat_defs witness_at_def
          split: sum.splits if_splits option.splits)
    from Cons.IH [OF rec] obtain k paths where k: "k \<le> length rest"
      "chosen = taken @ (c, path) # zip (take k rest) paths"
      "list_all2 (\<lambda>c p. witness_of A c = Inr (Some p)) (take k rest) paths"
      "total' = funding + rn_value c + sum_list (map rn_value (take k rest))" "f \<le> total'"
      "fee_required A (action_count outputs (length taken + Suc k)) = Inr f"
      "\<And>j. j < k \<Longrightarrow> \<exists>g. fee_required A (action_count outputs (length taken + Suc j)) = Inr g \<and>
         funding + rn_value c + sum_list (map rn_value (take j rest)) < g"
      by auto
    have "\<exists>g. fee_required A (action_count outputs (length taken + j)) = Inr g \<and>
        funding + sum_list (map rn_value (take j (c # rest))) < g" if "j < Suc k" for j
      using that g False k(7) by (cases j) (auto simp: add.assoc)
    with k path show ?thesis by (intro exI [of _ "Suc k"] exI [of _ "path # paths"]) (simp add: add.assoc)
  qed
qed

text \<open>The candidates are the Treasury's other notes, largest first.\<close>

lemma fee_candidates_sorted:
  "mset (fee_candidates A authority) = mset (filter (\<lambda>c. rn_id c \<noteq> rn_id authority) (treasury_notes A))"
  "sorted_wrt (\<lambda>x y. rn_value x \<ge> rn_value y) (fee_candidates A authority)"
  using sorted_sort_key [of "\<lambda>c. - int (rn_value c)" "filter (\<lambda>c. rn_id c \<noteq> rn_id authority) (treasury_notes A)"]
  by (simp_all add: fee_candidates_def sorted_map)

text \<open>Staging hands the operations to the builder one after the other, in order.\<close>

lemma stage_chain:
  assumes "stage A ops b = Inr b'"
  shows "\<exists>bs. length bs = Suc (length ops) \<and> bs ! 0 = b \<and> bs ! length ops = b' \<and>
     (\<forall>i<length ops. builder_add A (ops ! i) (bs ! i) = Inr (bs ! Suc i))"
  using assms
proof (induction ops arbitrary: b)
  case Nil
  then show ?case by (intro exI [of _ "[b]"]) simp
next
  case (Cons x ops)
  then obtain c where c: "builder_add A x b = Inr c" "stage A ops c = Inr b'" by (auto split: sum.splits)
  from Cons.IH [OF c(2)] obtain bs where "length bs = Suc (length ops)" "bs ! 0 = c" "bs ! length ops = b'"
    "\<forall>i<length ops. builder_add A (ops ! i) (bs ! i) = Inr (bs ! Suc i)" by blast
  with c(1) show ?case by (intro exI [of _ "b # bs"]) (auto simp: nth_Cons split: nat.splits)
qed

text \<open>The spend of the authority, by the kind of the action.\<close>

lemma stage_authority_Inr:
  assumes "stage_authority E A nt authority path = Some (Inr spend)"
  shows "if is_claim (note_action nt) then spend = SpendAnchor authority path
     else \<exists>m p. name_memo A (rn_id authority) = Inr (Some m) \<and> note_decode E m = Some (Some p) \<and>
        spend = SpendName authority path (note_rcm E p) (note_psi E p)"
  using assms
  by (auto simp: stage_authority_def try_bind_Inr predecessor_opening_def split: if_splits sum.splits option.splits)

section \<open>Properties\<close>

text \<open>C38: A built Name Note transaction balances and pays no more than it must. Its fee notes are the
  shortest prefix, largest first, of the Treasury's notes other than the authority whose value covers
  the ZIP 317 fee of the transaction it funds, of as many actions as the larger of its spends and its
  outputs, the change always counted; their value is exactly the fee plus the change. What the builder was given,
  one operation after the other on a builder at the wallet's anchor, is: the spend of the authority, an
  anchor for a claim and otherwise the predecessor opened with the trapdoors its own memo derives; the
  fee notes, each with its witness; the Name Note under its encoding and its trapdoors; a successor
  anchor for a claim and for nothing else; and the change when there is any.\<close>

theorem prepare_balances:
  assumes "prepare E A nt nf = Some (Inr (tx, fee))"
  shows "\<exists>authority path spend cands k paths change memo root ops bs.
     note_by_nullifier A nf = Some authority \<and> witness_of A authority = Inr (Some path) \<and>
     (if is_claim (note_action nt) then spend = SpendAnchor authority path
      else \<exists>m p. name_memo A (rn_id authority) = Inr (Some m) \<and> note_decode E m = Some (Some p) \<and>
         spend = SpendName authority path (note_rcm E p) (note_psi E p)) \<and>
     mset cands = mset (filter (\<lambda>c. rn_id c \<noteq> rn_id authority) (treasury_notes A)) \<and>
     sorted_wrt (\<lambda>x y. rn_value x \<ge> rn_value y) cands \<and> k \<le> length cands \<and>
     list_all2 (\<lambda>c p. witness_of A c = Inr (Some p)) (take k cands) paths \<and>
     sum_list (map rn_value (take k cands)) = fee + change \<and>
     fee_required A (max (1 + k) (if is_claim (note_action nt) then 3 else 2)) = Inr fee \<and>
     (\<forall>j<k. \<exists>g. fee_required A (max (1 + j) (if is_claim (note_action nt) then 3 else 2)) = Inr g \<and>
        sum_list (map rn_value (take j cands)) < g) \<and>
     note_encode E nt = Some memo \<and> tip_anchor A = Inr (Some root) \<and>
     ops = spend # map2 SpendFee (take k cands) paths @
       [OutName memo (note_rcm E nt) (note_psi E nt)] @
       (if is_claim (note_action nt) then [OutAnchor] else []) @
       (if change > 0 then [OutChange change] else []) \<and>
     length bs = Suc (length ops) \<and> bs ! 0 = builder_new A root \<and>
     (\<forall>i<length ops. builder_add A (ops ! i) (bs ! i) = Inr (bs ! Suc i)) \<and>
     builder_build A (bs ! length ops) = Inr tx"
proof -
  let ?claim = "is_claim (note_action nt)"
  from assms obtain authority funding chosen change root path spend b memo b' where
    p: "note_by_nullifier A nf = Some authority"
    "fee_loop E A (fixed_outputs nt) (fee_candidates A authority) 0 [] = Some (Inr (fee, funding, chosen))"
    "zat_sub funding fee = Some change" "stage_authority E A nt authority path = Some (Inr spend)"
    "stage A (spend # map (\<lambda>(fee_note, p). SpendFee fee_note p) chosen) (builder_new A root) = Inr b"
    "note_encode E nt = Some memo" "stage A (outputs_of E nt memo change) b = Inr b'"
    "builder_build A b' = Inr tx" "tip_anchor A = Inr (Some root)" "witness_at A authority = Inr path"
    unfolding prepare_def by (auto simp: try_bind_Inr prepare_cases simp del: stage.simps)
  define cands where "cands = fee_candidates A authority"
  have count: "action_count (fixed_outputs nt) j = max (1 + j) (if ?claim then 3 else 2)" for j
    by (simp add: action_count_def fixed_outputs_def fixed_spends_def)
  from fee_loop_Inr [OF p(2), folded cands_def] obtain k paths where k: "k \<le> length cands"
    "chosen = zip (take k cands) paths" "list_all2 (\<lambda>c p. witness_of A c = Inr (Some p)) (take k cands) paths"
    "funding = sum_list (map rn_value (take k cands))" and
    fee: "fee_required A (max (1 + k) (if ?claim then 3 else 2)) = Inr fee"
    "\<forall>j<k. \<exists>g. fee_required A (max (1 + j) (if ?claim then 3 else 2)) = Inr g \<and>
        sum_list (map rn_value (take j cands)) < g"
    by (auto simp: count)
  have sum: "sum_list (map rn_value (take k cands)) = fee + change"
    using p(3) k(4) by (auto simp: zat_sub_def split: if_splits)
  have path: "witness_of A authority = Inr (Some path)"
    using p(10) by (auto simp: witness_at_def split: sum.splits option.splits)
  let ?ops = "spend # map2 SpendFee (take k cands) paths @ [OutName memo (note_rcm E nt) (note_psi E nt)] @
       (if ?claim then [OutAnchor] else []) @ (if change > 0 then [OutChange change] else [])"
  have "stage A ?ops (builder_new A root) = Inr b'"
    using p(5,7) stage_append [of A "spend # map2 SpendFee (take k cands) paths"] k(2) by (simp add: outputs_of_def)
  from stage_chain [OF this] p(8) obtain bs where
    "length bs = Suc (length ?ops)" "bs ! 0 = builder_new A root"
    "\<forall>i<length ?ops. builder_add A (?ops ! i) (bs ! i) = Inr (bs ! Suc i)"
    "builder_build A (bs ! length ?ops) = Inr tx"
    by blast
  with p(1,6,9) path stage_authority_Inr [OF p(4)] fee_candidates_sorted [of A authority, folded cands_def]
    k(1,3) sum fee
  show ?thesis by blast
qed

definition demo_asm ::
  "(nat, unit, bytes, unit, (nat, unit, bytes) builder_op list, (nat, unit, bytes) builder_op list, unit) asm_env" where
  "demo_asm = \<lparr>note_by_nullifier = (\<lambda>nf. if nf = ''anchor'' then Some \<lparr>rn_id = 9, rn_value = 0\<rparr> else None),
     treasury_notes = [\<lparr>rn_id = 1, rn_value = 4000\<rparr>, \<lparr>rn_id = 2, rn_value = 20000\<rparr>],
     witness_of = (\<lambda>_. Inr (Some ())), tip_anchor = Inr (Some ()), name_memo = (\<lambda>_. Inr None),
     fee_required = (\<lambda>k. Inr (5000 * k)), builder_new = (\<lambda>_. []), builder_add = (\<lambda>x b. Inr (b @ [x])),
     builder_build = Inr\<rparr>"

lemma demo_claim_encodes: "\<exists>memo. note_encode demo_env demo_claim = Some memo"
  using memo_string_length [OF demo_claim_valid] demo_claim_codec
  by (fastforce simp: note_encode_def Let_def codec_ok_def hex_codec_at_def demo_env_def)

lemma demo_fee_loop:
  "fee_loop demo_env demo_asm 3 (fee_candidates demo_asm \<lparr>rn_id = 9, rn_value = 0\<rparr>) 0 [] =
     Some (Inr (15000, 20000, [(\<lparr>rn_id = 2, rn_value = 20000\<rparr>, ())]))"
proof -
  have "fee_candidates demo_asm \<lparr>rn_id = 9, rn_value = 0\<rparr> =
      [\<lparr>rn_id = 2, rn_value = 20000\<rparr>, \<lparr>rn_id = 1, rn_value = 4000\<rparr>]"
    by (simp add: fee_candidates_def demo_asm_def)
  then show ?thesis
    by (simp add: fee_loop.simps asm_fee_def action_count_def fixed_spends_def demo_asm_def note_zatoshis_def
        zat_defs demo_env_def witness_at_def)
qed

lemma demo_prepare: "\<exists>tx. prepare demo_env demo_asm demo_claim ''anchor'' = Some (Inr (tx, 15000))"
proof -
  obtain memo where memo: "note_encode demo_env demo_claim = Some memo" using demo_claim_encodes by blast
  have a: "note_by_nullifier demo_asm ''anchor'' = Some \<lparr>rn_id = 9, rn_value = 0\<rparr>" "tip_anchor demo_asm = Inr (Some ())"
    "witness_at demo_asm nt = Inr ()" "builder_build demo_asm b = Inr b" "fixed_outputs demo_claim = 3" for nt b
    by (simp_all add: demo_asm_def witness_at_def fixed_outputs_def is_claim_def)
  have st: "stage demo_asm xs b = Inr (b @ xs)" for xs b
    by (induction xs arbitrary: b) (simp_all add: demo_asm_def)
  show ?thesis
    unfolding prepare_def a
    by (simp add: demo_fee_loop try_bind_def zat_sub_def a stage_authority_def is_claim_def st memo del: stage.simps)
qed

text \<open>The demonstration builder lists what it was given.\<close>

lemma demo_chain:
  assumes "\<forall>i<length ops. builder_add demo_asm (ops ! i) (bs ! i) = Inr (bs ! Suc i)"
    "bs ! 0 = builder_new demo_asm root" "i \<le> length ops"
  shows "bs ! i = take i ops"
  using assms(3)
proof (induction i)
  case (Suc i)
  then have "bs ! i = take i ops" by simp
  moreover have "builder_add demo_asm (ops ! i) (bs ! i) = Inr (bs ! Suc i)" using Suc.prems assms(1) by auto
  ultimately show ?case using Suc.prems by (simp add: demo_asm_def take_Suc_conv_app_nth)
qed (use assms(2) in \<open>simp add: demo_asm_def\<close>)

lemma demo_candidates:
  assumes "mset cands = mset (filter (\<lambda>c. rn_id c \<noteq> 9) (treasury_notes demo_asm))"
    "sorted_wrt (\<lambda>x y. rn_value x \<ge> rn_value y) cands"
  shows "cands = [\<lparr>rn_id = 2, rn_value = 20000\<rparr>, \<lparr>rn_id = 1, rn_value = 4000\<rparr>]"
proof -
  from assms(1) have m: "mset cands = {#\<lparr>rn_id = 1, rn_value = 4000\<rparr>, \<lparr>rn_id = 2, rn_value = 20000\<rparr>#}"
    by (simp add: demo_asm_def)
  then have "length cands = 2" by (metis size_mset size_add_mset size_empty One_nat_def Suc_1)
  then obtain x y where xy: "cands = [x, y]" by (auto simp: numeral_2_eq_2 length_Suc_conv)
  from m assms(2) show ?thesis unfolding xy by (auto simp: add_eq_conv_ex)
qed

theorem prepare_balances_witness:
  "\<exists>tx memo. prepare demo_env demo_asm demo_claim ''anchor'' = Some (Inr (tx, 15000)) \<and>
     note_encode demo_env demo_claim = Some memo \<and>
     tx = [SpendAnchor \<lparr>rn_id = 9, rn_value = 0\<rparr> (), SpendFee \<lparr>rn_id = 2, rn_value = 20000\<rparr> (),
       OutName memo (note_rcm demo_env demo_claim) (note_psi demo_env demo_claim), OutAnchor, OutChange 5000]"
proof -
  obtain tx where tx: "prepare demo_env demo_asm demo_claim ''anchor'' = Some (Inr (tx, 15000))"
    using demo_prepare by blast
  have claim: "is_claim (note_action demo_claim)" by (simp add: is_claim_def)
  from prepare_balances [OF tx] obtain authority path spend cands k paths change memo root ops bs where
    p: "note_by_nullifier demo_asm ''anchor'' = Some authority" "spend = SpendAnchor authority path"
    "mset cands = mset (filter (\<lambda>c. rn_id c \<noteq> rn_id authority) (treasury_notes demo_asm))"
    "sorted_wrt (\<lambda>x y. rn_value x \<ge> rn_value y) cands" "k \<le> length cands"
    "list_all2 (\<lambda>c p. witness_of demo_asm c = Inr (Some p)) (take k cands) paths"
    "sum_list (map rn_value (take k cands)) = 15000 + change"
    "\<forall>j<k. \<exists>g. fee_required demo_asm (max (1 + j) 3) = Inr g \<and> sum_list (map rn_value (take j cands)) < g"
    "note_encode demo_env demo_claim = Some memo"
    "ops = spend # map2 SpendFee (take k cands) paths @
       [OutName memo (note_rcm demo_env demo_claim) (note_psi demo_env demo_claim)] @
       [OutAnchor] @ (if change > 0 then [OutChange change] else [])"
    "bs ! 0 = builder_new demo_asm root"
    "\<forall>i<length ops. builder_add demo_asm (ops ! i) (bs ! i) = Inr (bs ! Suc i)"
    "builder_build demo_asm (bs ! length ops) = Inr tx"
    by (simp only: claim if_True) blast
  have a: "authority = \<lparr>rn_id = 9, rn_value = 0\<rparr>" using p(1) by (simp add: demo_asm_def)
  have c: "cands = [\<lparr>rn_id = 2, rn_value = 20000\<rparr>, \<lparr>rn_id = 1, rn_value = 4000\<rparr>]"
    using demo_candidates p(3,4) a by simp
  have "k \<noteq> 0" using p(7) by (intro notI) simp
  moreover have "\<not> 1 < k" using p(8) by (force simp: c demo_asm_def)
  ultimately have k: "k = 1" by simp
  have "paths = [()]" using p(6) by (auto simp: k c list_all2_Cons1)
  moreover have "tx = ops"
    using demo_chain [OF p(12,11), of "length ops"] p(13) by (simp add: demo_asm_def)
  ultimately show ?thesis using tx p(2,7,9,10) a by (simp add: k c)
qed

end
