(* ===== verification/Wallet.thy ===== *)
theory Wallet
  imports Registry Zebra "HOL-Library.Product_Lexorder"
begin

text \<open>
  The in-memory wallet: \<open>src/wallet.rs\<close>, \<open>src/wallet/write.rs\<close> and \<open>src/wallet/trees.rs\<close>. The
  state is the struct's tables, each a \<open>BTreeMap\<close>. The note commitment trees are those of the
  \<open>shardtree\<close> crate: an opaque type and a record of the operations the wallet calls, whose
  errors are text. A tree is a value, so the code's discipline of working on a clone and
  publishing it at the end is the ordinary use of the old and the new value. An operation
  returns a wallet error or the new wallet; an error leaves the wallet as it was. An \<open>expect\<close>
  that fails is \<open>None\<close>.
\<close>

section \<open>Identifiers\<close>

type_synonym account = nat

definition TREASURY_ACCOUNT :: account where
  "TREASURY_ACCOUNT = 0"

definition REGISTRY_ACCOUNT :: account where
  "REGISTRY_ACCOUNT = 1"

text \<open>The pools of outputs, in the order of the library's \<open>PoolType\<close>.\<close>

datatype pool_type = PoolTransparent | PoolSapling | PoolOrchard | PoolIronwood

fun pool_rank :: "pool_type \<Rightarrow> nat" where
  "pool_rank PoolTransparent = 0"
| "pool_rank PoolSapling = 1"
| "pool_rank PoolOrchard = 2"
| "pool_rank PoolIronwood = 3"

instantiation pool_type :: linorder
begin

definition less_eq_pool_type :: "pool_type \<Rightarrow> pool_type \<Rightarrow> bool" where
  "less_eq_pool_type a b \<longleftrightarrow> pool_rank a \<le> pool_rank b"

definition less_pool_type :: "pool_type \<Rightarrow> pool_type \<Rightarrow> bool" where
  "less_pool_type a b \<longleftrightarrow> pool_rank a < pool_rank b"

instance
proof
  fix a b :: pool_type
  assume "a \<le> b" and "b \<le> a"
  then show "a = b" by (cases a; cases b) (simp_all add: less_eq_pool_type_def)
qed (auto simp: less_eq_pool_type_def less_pool_type_def)

end

text \<open>\<open>NoteId\<close> and \<open>OutputRef\<close>: transaction, pool, output index; a note's reference is its id.\<close>

type_synonym note_id = "txid \<times> pool_type \<times> nat"
type_synonym output_ref = note_id

definition nid_txid :: "note_id \<Rightarrow> txid" where
  "nid_txid i = fst i"

definition u16_index :: "nat \<Rightarrow> nat option" where
  "u16_index i = (if i < 2 ^ 16 then Some i else None)"

definition next_height :: "height \<Rightarrow> height" where
  "next_height h = (if h < U32_MAX then h + 1 else U32_MAX)"

section \<open>The library's types\<close>

datatype key_scope = ScopeExternal | ScopeInternal
datatype tx_status = Mined height | NotInMainChain | TxidNotRecognized
datatype marking = MarkNone | MarkMarked | MarkReference
datatype retention = Ephemeral | Checkpoint height marking | Marked | Reference
datatype memo = MemoFuture bytes | MemoKnown bytes

record block_metadata =
  bm_height :: height
  bm_hash :: bytes
  bm_sapling :: "nat option"
  bm_orchard :: "nat option"
  bm_ironwood :: "nat option"

record 'n wallet_output =
  wo_index :: nat
  wo_ephemeral_key :: bytes
  wo_note :: 'n
  wo_value :: nat
  wo_value_pool :: pool_type
  wo_is_change :: bool
  wo_position :: nat
  wo_nf :: "nullifier option"
  wo_account :: account
  wo_scope :: "key_scope option"

record raw_tx =
  rt_txid :: txid
  rt_expiry :: height
  rt_sapling_spends :: "nullifier list"
  rt_ironwood_spends :: "nullifier list"

datatype recipient = RecipientShielded pool_type | RecipientInternal pool_type | RecipientOther

record sent_output =
  so_index :: nat
  so_recipient :: recipient
  so_value :: zat
  so_memo :: "bytes option"

record sent_tx =
  stx_tx :: raw_tx
  stx_outputs :: "sent_output list"

text \<open>What the scanner reports of a transaction and of a block.\<close>

record 'n wallet_tx =
  wt_txid :: txid
  wt_index :: nat
  wt_sapling_outputs :: "'n wallet_output list"
  wt_orchard_outputs :: "'n wallet_output list"
  wt_ironwood_outputs :: "'n wallet_output list"
  wt_sapling_spends :: "nullifier list"
  wt_ironwood_spends :: "nullifier list"

record 'h scanned_bundles =
  sb_commitments :: "('h \<times> retention) list"
  sb_final_tree_size :: nat

record ('h, 'n) scanned_block =
  sc_height :: height
  sc_hash :: bytes
  sc_sapling :: "'h scanned_bundles"
  sc_orchard :: "'h scanned_bundles"
  sc_ironwood :: "'h scanned_bundles"
  sc_txs :: "'n wallet_tx list"

definition to_block_metadata :: "('h, 'n) scanned_block \<Rightarrow> block_metadata" where
  "to_block_metadata b =
     \<lparr>bm_height = sc_height b, bm_hash = sc_hash b, bm_sapling = Some (sb_final_tree_size (sc_sapling b)),
      bm_orchard = Some (sb_final_tree_size (sc_orchard b)), bm_ironwood = Some (sb_final_tree_size (sc_ironwood b))\<rparr>"

text \<open>The tree operations the wallet calls; \<open>t_witness\<close> gives the root that a path computes from
  a leaf.\<close>

record ('t, 'h, 'f) tree_ops =
  t_empty :: 't
  t_append :: "'h \<Rightarrow> retention \<Rightarrow> 't \<Rightarrow> string + 't"
  t_checkpoint :: "height \<Rightarrow> 't \<Rightarrow> string + (bool \<times> 't)"
  t_has_checkpoint :: "'t \<Rightarrow> height \<Rightarrow> bool"
  t_min_checkpoint :: "'t \<Rightarrow> height option"
  t_max_checkpoint :: "'t \<Rightarrow> height option"
  t_truncate :: "height \<Rightarrow> 't \<Rightarrow> string + (bool \<times> 't)"
  t_drop_checkpoints :: "height \<Rightarrow> 't \<Rightarrow> 't"
  t_insert_frontier :: "'f \<Rightarrow> retention \<Rightarrow> 't \<Rightarrow> string + 't"
  t_insert_root :: "nat \<Rightarrow> 'h \<Rightarrow> 't \<Rightarrow> string + 't"
  t_max_leaf :: "'t \<Rightarrow> string + nat option"
  t_witness :: "nat \<Rightarrow> height \<Rightarrow> 't \<Rightarrow> string + ('h \<Rightarrow> 'h) option"
  t_root_at :: "height \<Rightarrow> 't \<Rightarrow> string + 'h option"
  t_frontier_size :: "'f \<Rightarrow> nat"

section \<open>Errors and state\<close>

datatype wallet_error =
    FixedAccountsOnly
  | AccountUnknown account
  | ChainDiscontinuity height
  | TruncationTargetUnavailable height
  | CommitmentTree string
  | BalanceError
  | UnspendableFunds
  | UnexpectedOrchardReceive
  | InvalidNameNote string
  | RescanUnsupported

record ('t, 'n, 'k) wallet =
  w_birthdays :: "(account, height) btree"
  w_ufvks :: "(account, 'k) btree"
  w_zebra_tip :: "height option"
  w_blocks :: "(height, block_metadata) btree"
  w_seed :: block_metadata
  w_transactions :: "(txid, raw_tx) btree"
  w_statuses :: "(txid, tx_status) btree"
  w_indices :: "(txid, nat) btree"
  w_trusted :: "txid bset"
  w_sapling_notes :: "(note_id, 'n wallet_output) btree"
  w_ironwood_notes :: "(note_id, 'n wallet_output) btree"
  w_memos :: "(note_id, memo) btree"
  w_sapling_spends :: "(note_id, txid) btree"
  w_ironwood_spends :: "(note_id, txid) btree"
  w_sapling_nullifiers :: "(nullifier, note_id) btree"
  w_ironwood_nullifiers :: "(nullifier, note_id) btree"
  w_sent_outputs :: "(txid, sent_output list) btree"
  w_locks :: "(output_ref, nat \<times> height) btree"
  w_sapling_tree :: 't
  w_sapling_ends :: "(nat, height) btree"
  w_orchard_tree :: 't
  w_orchard_ends :: "(nat, height) btree"
  w_ironwood_tree :: 't
  w_ironwood_ends :: "(nat, height) btree"

definition bt_has :: "('k, 'v) btree \<Rightarrow> 'k \<Rightarrow> bool" where
  "bt_has m k \<longleftrightarrow> bt_get m k \<noteq> None"

definition bt_last :: "('k, 'v) btree \<Rightarrow> ('k \<times> 'v) option" where
  "bt_last m = (if m = [] then None else Some (last m))"

section \<open>Construction and the cursor (\<open>src/wallet.rs\<close>)\<close>

text \<open>\<open>block_metadata\<close> panics when a tree size does not fit \<open>u32\<close>.\<close>

definition block_metadata_of :: "('t, 'h, 'f) tree_ops \<Rightarrow> ('f, 'f) chain_state \<Rightarrow> block_metadata may_panic" where
  "block_metadata_of T s =
     (if t_frontier_size T (cs_sapling s) \<le> U32_MAX \<and> t_frontier_size T (cs_orchard s) \<le> U32_MAX
         \<and> t_frontier_size T (cs_ironwood s) \<le> U32_MAX
      then Some \<lparr>bm_height = cs_height s, bm_hash = cs_hash s, bm_sapling = Some (t_frontier_size T (cs_sapling s)),
        bm_orchard = Some (t_frontier_size T (cs_orchard s)), bm_ironwood = Some (t_frontier_size T (cs_ironwood s))\<rparr>
      else None)"

text \<open>The completed shard roots behind the origin, each at its index; a root whose shard ended
  after the origin is passed over.\<close>

fun insert_roots ::
  "('t, 'h, 'f) tree_ops \<Rightarrow> height \<Rightarrow> (height \<times> 'h) list \<Rightarrow> nat \<Rightarrow> 't \<times> (nat, height) btree \<Rightarrow>
     string + ('t \<times> (nat, height) btree)" where
  "insert_roots T origin [] index (t, ends) = Inr (t, ends)"
| "insert_roots T origin ((end_height, root) # roots) index (t, ends) =
     (if end_height > origin then insert_roots T origin roots (index + 1) (t, ends)
      else and_then (t_insert_root T index root t) (\<lambda>t'.
        insert_roots T origin roots (index + 1) (t', bt_insert index end_height ends)))"

definition wallet_new ::
  "('t, 'h, 'f) tree_ops \<Rightarrow> (account \<times> 'k) list \<Rightarrow> ('f, 'f) chain_state \<Rightarrow> (height \<times> 'h) list \<Rightarrow> (height \<times> 'h) list \<Rightarrow>
     (string + ('t, 'n, 'k) wallet) may_panic" where
  "wallet_new T keys s sapling_roots ironwood_roots =
     (let ufvks = fold (\<lambda>(a, k). bt_insert a k) keys [];
          origin = Checkpoint (cs_height s) MarkReference in
      map_option (\<lambda>seed.
        and_then (t_insert_frontier T (cs_sapling s) origin (t_empty T)) (\<lambda>sapling.
        and_then (t_insert_frontier T (cs_orchard s) origin (t_empty T)) (\<lambda>orchard.
        and_then (t_insert_frontier T (cs_ironwood s) origin (t_empty T)) (\<lambda>ironwood.
        and_then (insert_roots T (cs_height s) sapling_roots 0 (sapling, [])) (\<lambda>(sapling', sapling_ends).
        and_then (insert_roots T (cs_height s) ironwood_roots 0 (ironwood, [])) (\<lambda>(ironwood', ironwood_ends).
        Inr \<lparr>w_birthdays = map (\<lambda>(a, _). (a, next_height (cs_height s))) ufvks, w_ufvks = ufvks, w_zebra_tip = None,
          w_blocks = [], w_seed = seed, w_transactions = [], w_statuses = [], w_indices = [], w_trusted = [],
          w_sapling_notes = [], w_ironwood_notes = [], w_memos = [], w_sapling_spends = [], w_ironwood_spends = [],
          w_sapling_nullifiers = [], w_ironwood_nullifiers = [], w_sent_outputs = [], w_locks = [],
          w_sapling_tree = sapling', w_sapling_ends = sapling_ends, w_orchard_tree = orchard, w_orchard_ends = [],
          w_ironwood_tree = ironwood', w_ironwood_ends = ironwood_ends\<rparr>))))))
      (block_metadata_of T s))"

definition wallet_tip :: "('t, 'n, 'k) wallet \<Rightarrow> block_metadata" where
  "wallet_tip w = (case bt_last (w_blocks w) of Some (_, m) \<Rightarrow> m | None \<Rightarrow> w_seed w)"

definition block_metadata_at :: "('t, 'n, 'k) wallet \<Rightarrow> height \<Rightarrow> block_metadata option" where
  "block_metadata_at w h =
     (case bt_get (w_blocks w) h of
        Some m \<Rightarrow> Some m
      | None \<Rightarrow> if h = bm_height (w_seed w) then Some (w_seed w) else None)"

definition block_hash_at :: "('t, 'n, 'k) wallet \<Rightarrow> height \<Rightarrow> bytes option" where
  "block_hash_at w h =
     (case bt_get (w_blocks w) h of
        Some m \<Rightarrow> Some (bm_hash m)
      | None \<Rightarrow> if h = bm_height (w_seed w) then Some (bm_hash (w_seed w)) else None)"

definition sync_status :: "('t, 'n, 'k) wallet \<Rightarrow> height \<Rightarrow> bool \<times> nat" where
  "sync_status w network_tip =
     (bm_height (wallet_tip w) = network_tip, network_tip - bm_height (wallet_tip w))"

definition expired_unmined_at :: "('t, 'n, 'k) wallet \<Rightarrow> txid \<Rightarrow> height \<Rightarrow> bool" where
  "expired_unmined_at w txid network_tip =
     ((case bt_get (w_statuses w) txid of Some (Mined _) \<Rightarrow> False | _ \<Rightarrow> True) \<and>
      (case bt_get (w_transactions w) txid of
         None \<Rightarrow> False | Some tx \<Rightarrow> rt_expiry tx > 0 \<and> rt_expiry tx \<le> network_tip))"

definition birthday_of :: "('t, 'n, 'k) wallet \<Rightarrow> account \<Rightarrow> height option" where
  "birthday_of w a = bt_get (w_birthdays w) a"

definition wallet_birthday :: "('t, 'n, 'k) wallet \<Rightarrow> height option" where
  "wallet_birthday w = (if w_birthdays w = [] then None else Some (Min (set (map snd (w_birthdays w)))))"

section \<open>Locks\<close>

definition output_account :: "('t, 'n, 'k) wallet \<Rightarrow> output_ref \<Rightarrow> account option" where
  "output_account w out =
     (case out of (txid, pool, index) \<Rightarrow>
        (case pool of
           PoolSapling \<Rightarrow> Option.bind (u16_index index)
             (\<lambda>i. map_option wo_account (bt_get (w_sapling_notes w) (txid, PoolSapling, i)))
         | PoolIronwood \<Rightarrow> Option.bind (u16_index index)
             (\<lambda>i. map_option wo_account (bt_get (w_ironwood_notes w) (txid, PoolIronwood, i)))
         | PoolTransparent \<Rightarrow> None
         | PoolOrchard \<Rightarrow> None))"

definition is_foreign_lock_active :: "('t, 'n, 'k) wallet \<Rightarrow> output_ref \<Rightarrow> nat \<Rightarrow> bool" where
  "is_foreign_lock_active w out owner =
     (case bt_get (w_locks w) out of
        Some (existing, expiry) \<Rightarrow> existing \<noteq> owner \<and> expiry > bm_height (wallet_tip w)
      | None \<Rightarrow> False)"

definition lock_outputs ::
  "output_ref list \<Rightarrow> nat \<Rightarrow> height \<Rightarrow> ('t, 'n, 'k) wallet \<Rightarrow> output_ref + (nat \<times> ('t, 'n, 'k) wallet)" where
  "lock_outputs outputs owner expiry w =
     (case find (\<lambda>out. output_account w out = None \<or> is_foreign_lock_active w out owner) outputs of
        Some out \<Rightarrow> Inl out
      | None \<Rightarrow> Inr (length outputs, w\<lparr>w_locks := fold (\<lambda>out. bt_insert out (owner, expiry)) outputs (w_locks w)\<rparr>))"

definition unlock_output :: "output_ref \<Rightarrow> nat \<Rightarrow> ('t, 'n, 'k) wallet \<Rightarrow> bool \<times> ('t, 'n, 'k) wallet" where
  "unlock_output out owner w =
     (case bt_get (w_locks w) out of
        Some (existing, _) \<Rightarrow> if existing = owner then (True, w\<lparr>w_locks := bt_remove out (w_locks w)\<rparr>) else (False, w)
      | None \<Rightarrow> (False, w))"

definition clear_locked_outputs :: "account \<Rightarrow> ('t, 'n, 'k) wallet \<Rightarrow> nat \<times> ('t, 'n, 'k) wallet" where
  "clear_locked_outputs a w =
     (let outputs = filter (\<lambda>out. output_account w out = Some a) (map fst (w_locks w)) in
      (length outputs, w\<lparr>w_locks := fold bt_remove outputs (w_locks w)\<rparr>))"

definition get_locked_outputs :: "('t, 'n, 'k) wallet \<Rightarrow> account \<Rightarrow> output_ref list" where
  "get_locked_outputs w a =
     map fst (filter (\<lambda>(out, _, expiry). output_account w out = Some a \<and> expiry \<ge> next_height (bm_height (wallet_tip w)))
       (w_locks w))"

section \<open>Truncation\<close>

definition lower_account_birthdays :: "account list \<Rightarrow> height \<Rightarrow> ('t, 'n, 'k) wallet \<Rightarrow> ('t, 'n, 'k) wallet" where
  "lower_account_birthdays accounts new_birthday w =
     w\<lparr>w_birthdays := map (\<lambda>(a, b). (a, if a \<in> set accounts \<and> new_birthday < b then new_birthday else b))
        (w_birthdays w)\<rparr>"

definition retained_floor :: "('t, 'h, 'f) tree_ops \<Rightarrow> ('t, 'n, 'k) wallet \<Rightarrow> height option" where
  "retained_floor T w =
     (case (t_min_checkpoint T (w_sapling_tree w), t_min_checkpoint T (w_orchard_tree w),
            t_min_checkpoint T (w_ironwood_tree w)) of
        (Some a, Some b, Some c) \<Rightarrow> Some (max a (max b c))
      | _ \<Rightarrow> None)"

definition common_truncation_height :: "('t, 'n, 'k) wallet \<Rightarrow> height \<Rightarrow> height option" where
  "common_truncation_height w max_height =
     map_option fst (bt_last (filter (\<lambda>(h, _). h \<le> max_height) (w_blocks w)))"

definition try_truncate_trees_to ::
  "('t, 'h, 'f) tree_ops \<Rightarrow> height \<Rightarrow> ('t, 'n, 'k) wallet \<Rightarrow> wallet_error + (bool \<times> ('t, 'n, 'k) wallet)" where
  "try_truncate_trees_to T height w =
     (if \<not> (t_has_checkpoint T (w_sapling_tree w) height \<and> t_has_checkpoint T (w_orchard_tree w) height
            \<and> t_has_checkpoint T (w_ironwood_tree w) height)
      then Inr (False, w)
      else
        and_then (map_err CommitmentTree (t_truncate T height (w_sapling_tree w))) (\<lambda>(ok1, sapling).
        if \<not> ok1 then Inr (False, w) else
        and_then (map_err CommitmentTree (t_truncate T height (w_orchard_tree w))) (\<lambda>(ok2, orchard).
        if \<not> ok2 then Inr (False, w) else
        and_then (map_err CommitmentTree (t_truncate T height (w_ironwood_tree w))) (\<lambda>(ok3, ironwood).
        if \<not> ok3 then Inr (False, w) else
        Inr (True, w\<lparr>w_sapling_tree := sapling, w_orchard_tree := orchard, w_ironwood_tree := ironwood\<rparr>)))))"

definition mined_above :: "('t, 'n, 'k) wallet \<Rightarrow> height \<Rightarrow> txid \<Rightarrow> bool" where
  "mined_above w height txid = (case bt_get (w_statuses w) txid of Some (Mined h) \<Rightarrow> h > height | _ \<Rightarrow> False)"

fun unmine :: "height \<Rightarrow> tx_status \<Rightarrow> tx_status" where
  "unmine height (Mined h) = (if h > height then NotInMainChain else Mined h)"
| "unmine height s = s"

definition drop_orphaned :: "height \<Rightarrow> ('t, 'n, 'k) wallet \<Rightarrow> ('t, 'n, 'k) wallet" where
  "drop_orphaned height w =
     (let orphaned = mined_above w height;
          sapling_notes = bt_retain (\<lambda>i _. \<not> orphaned (nid_txid i)) (w_sapling_notes w);
          ironwood_notes = bt_retain (\<lambda>i _. \<not> orphaned (nid_txid i)) (w_ironwood_notes w);
          scanned_only = (\<lambda>txid. orphaned txid \<and> \<not> bt_has (w_transactions w) txid)
      in w\<lparr>w_sapling_notes := sapling_notes,
                 w_ironwood_notes := ironwood_notes,
                 w_sapling_nullifiers := bt_retain (\<lambda>_ i. \<not> orphaned (nid_txid i)) (w_sapling_nullifiers w),
                 w_ironwood_nullifiers := bt_retain (\<lambda>_ i. \<not> orphaned (nid_txid i)) (w_ironwood_nullifiers w),
                 w_memos := bt_retain (\<lambda>i _. \<not> orphaned (nid_txid i)) (w_memos w),
                 w_indices := bt_retain (\<lambda>txid _. \<not> orphaned txid) (w_indices w),
                 w_sent_outputs := bt_retain (\<lambda>txid _. bt_has (w_transactions w) txid \<or> \<not> orphaned txid) (w_sent_outputs w),
                 w_sapling_spends := bt_retain (\<lambda>i txid. bt_has sapling_notes i \<and> \<not> scanned_only txid) (w_sapling_spends w),
                 w_ironwood_spends := bt_retain (\<lambda>i txid. bt_has ironwood_notes i \<and> \<not> scanned_only txid) (w_ironwood_spends w),
                 w_statuses := map (\<lambda>(txid, s). (txid, unmine height s)) (w_statuses w),
                 w_sapling_ends := bt_retain (\<lambda>_ e. e \<le> height) (w_sapling_ends w),
                 w_orchard_ends := bt_retain (\<lambda>_ e. e \<le> height) (w_orchard_ends w),
                 w_ironwood_ends := bt_retain (\<lambda>_ e. e \<le> height) (w_ironwood_ends w),
                 w_blocks := bt_retain (\<lambda>h _. h \<le> height) (w_blocks w)\<rparr>)"

definition drop_applied_above :: "height \<Rightarrow> ('t, 'n, 'k) wallet \<Rightarrow> ('t, 'n, 'k) wallet" where
  "drop_applied_above height w =
     (let w1 = drop_orphaned height w in
      w1\<lparr>w_locks := bt_retain (\<lambda>out _. output_account w1 out \<noteq> None) (w_locks w1)\<rparr>)"

definition truncate_to_origin ::
  "('t, 'h, 'f) tree_ops \<Rightarrow> height \<Rightarrow> ('t, 'n, 'k) wallet \<Rightarrow> wallet_error + (height \<times> ('t, 'n, 'k) wallet)" where
  "truncate_to_origin T max_height w =
     (let origin = bm_height (w_seed w) in
      if max_height \<ge> origin
      then and_then (try_truncate_trees_to T origin w) (\<lambda>(done', w').
        if done' then Inr (origin, drop_applied_above origin w')
        else Inl (TruncationTargetUnavailable max_height))
      else Inl (TruncationTargetUnavailable max_height))"

definition wallet_truncate_to_height ::
  "('t, 'h, 'f) tree_ops \<Rightarrow> height \<Rightarrow> ('t, 'n, 'k) wallet \<Rightarrow> wallet_error + (height \<times> ('t, 'n, 'k) wallet)" where
  "wallet_truncate_to_height T max_height w =
     (case common_truncation_height w max_height of
        None \<Rightarrow> if w_blocks w = [] then Inr (max_height, w) else truncate_to_origin T max_height w
      | Some target \<Rightarrow>
          and_then (try_truncate_trees_to T target w) (\<lambda>(done', w').
            if \<not> done' then Inl (TruncationTargetUnavailable target)
            else Inr (target, drop_applied_above target w')))"

definition wallet_truncate_to ::
  "('t, 'h, 'f) tree_ops \<Rightarrow> height \<Rightarrow> ('t, 'n, 'k) wallet \<Rightarrow> wallet_error + (block_metadata \<times> ('t, 'n, 'k) wallet)" where
  "wallet_truncate_to T max_height w =
     and_then (wallet_truncate_to_height T max_height w) (\<lambda>(height, w').
     and_then (ok_or (TruncationTargetUnavailable height) (block_metadata_at w' height)) (\<lambda>m. Inr (m, w')))"

definition update_chain_tip :: "height \<Rightarrow> ('t, 'n, 'k) wallet \<Rightarrow> ('t, 'n, 'k) wallet" where
  "update_chain_tip tip w = w\<lparr>w_zebra_tip := Some tip\<rparr>"

text \<open>The restored boundary of one tree.\<close>

definition restore_tree :: "('t, 'h, 'f) tree_ops \<Rightarrow> height \<Rightarrow> 'f \<Rightarrow> 't \<Rightarrow> wallet_error + 't" where
  "restore_tree T height frontier t =
     map_err CommitmentTree (t_insert_frontier T frontier (Checkpoint height MarkNone) (t_drop_checkpoints T height t))"

definition truncate_to_chain_state ::
  "('t, 'h, 'f) tree_ops \<Rightarrow> ('f, 'f) chain_state \<Rightarrow> ('t, 'n, 'k) wallet \<Rightarrow> (wallet_error + ('t, 'n, 'k) wallet) may_panic" where
  "truncate_to_chain_state T s w =
     (let height = cs_height s in
      if (case bt_get (w_blocks w) height of Some m \<Rightarrow> bm_hash m \<noteq> cs_hash s | None \<Rightarrow> False)
      then Some (Inl (ChainDiscontinuity height))
      else if w_blocks w = [] \<or> bm_height (wallet_tip w) \<le> height then Some (Inr (update_chain_tip height w))
      else
        (case
           and_then (restore_tree T height (cs_sapling s) (w_sapling_tree w)) (\<lambda>sapling.
           and_then (restore_tree T height (cs_orchard s) (w_orchard_tree w)) (\<lambda>orchard.
           and_then (restore_tree T height (cs_ironwood s) (w_ironwood_tree w)) (\<lambda>ironwood.
           and_then (map_err CommitmentTree (t_truncate T height sapling)) (\<lambda>(ok1, sapling').
           if \<not> ok1 then Inl (TruncationTargetUnavailable height) else
           and_then (map_err CommitmentTree (t_truncate T height orchard)) (\<lambda>(ok2, orchard').
           if \<not> ok2 then Inl (TruncationTargetUnavailable height) else
           and_then (map_err CommitmentTree (t_truncate T height ironwood)) (\<lambda>(ok3, ironwood').
           if \<not> ok3 then Inl (TruncationTargetUnavailable height) else
           Inr (drop_applied_above height
             (w\<lparr>w_sapling_tree := sapling', w_orchard_tree := orchard', w_ironwood_tree := ironwood'\<rparr>)))))))) of
           Inl e \<Rightarrow> Some (Inl e)
         | Inr w' \<Rightarrow>
             if w_blocks w' = []
             then map_option (\<lambda>seed. Inr (update_chain_tip height (w'\<lparr>w_seed := seed\<rparr>))) (block_metadata_of T s)
             else Some (Inr (update_chain_tip height w'))))"

datatype rewind_error = RewindDataSource wallet_error | RewindBeyondBirthdays "(account \<times> height) list"

definition rewind_to_chain_state ::
  "('t, 'h, 'f) tree_ops \<Rightarrow> ('f, 'f) chain_state \<Rightarrow> account list \<Rightarrow> ('t, 'n, 'k) wallet \<Rightarrow>
     rewind_error + ('t, 'n, 'k) wallet" where
  "rewind_to_chain_state T s reset w =
     (let new_birthday = next_height (cs_height s); target = cs_height s in
      case find (\<lambda>a. \<not> bt_has (w_ufvks w) a) reset of
        Some a \<Rightarrow> Inl (RewindDataSource (AccountUnknown a))
      | None \<Rightarrow>
          if reset = [] \<and> w_birthdays w \<noteq> [] \<and> list_all (\<lambda>(_, b). b > new_birthday) (w_birthdays w)
          then Inl (RewindBeyondBirthdays (w_birthdays w))
          else if bm_height (wallet_tip w) \<le> target then Inr (lower_account_birthdays reset new_birthday w)
          else (case retained_floor T w of
              None \<Rightarrow> Inr (lower_account_birthdays reset new_birthday w)
            | Some floor' \<Rightarrow>
                let data_height = max target floor' in
                and_then (map_err RewindDataSource (try_truncate_trees_to T data_height w)) (\<lambda>(done', w').
                  if \<not> done' then Inl (RewindDataSource (TruncationTargetUnavailable data_height))
                  else Inr (lower_account_birthdays reset new_birthday (drop_applied_above data_height w')))))"

end
