(* ===== verification/Wallet_Write.thy ===== *)
theory Wallet_Write
  imports Wallet
begin

text \<open>
  What enters the wallet: scanned blocks (\<open>put_blocks_marked\<close>), Name Notes (\<open>store_name_note\<close>),
  transactions the mint built or saw (\<open>store_transactions_to_be_sent\<close>, \<open>store_decrypted_tx\<close>) and
  completed subtree roots, from \<open>src/wallet/write.rs\<close> and \<open>src/wallet/trees.rs\<close>. The library's
  \<open>Memo::from_bytes\<close> is the argument \<open>parse\<close>.
\<close>

section \<open>Trees\<close>

definition ensure_block_checkpoint :: "('t, 'h, 'f) tree_ops \<Rightarrow> height \<Rightarrow> 't \<Rightarrow> wallet_error + 't" where
  "ensure_block_checkpoint T height t =
     (if t_has_checkpoint T t height then Inr t
      else if (case t_max_checkpoint T t of Some m \<Rightarrow> m \<ge> height | None \<Rightarrow> False) then Inl (ChainDiscontinuity height)
      else and_then (map_err CommitmentTree (t_checkpoint T height t)) (\<lambda>(added, t').
        if \<not> added then Inl (ChainDiscontinuity height) else Inr t'))"

fun append_commitments ::
  "('t, 'h, 'f) tree_ops \<Rightarrow> 'h list \<Rightarrow> ('h \<times> retention) list \<Rightarrow> 't \<Rightarrow> wallet_error + 't" where
  "append_commitments T marks [] t = Inr t"
| "append_commitments T marks ((commitment, ret) # rest) t =
     and_then (map_err CommitmentTree (t_append T commitment (if commitment \<in> set marks then Marked else ret) t))
       (append_commitments T marks rest)"

definition append_block_commitments ::
  "('t, 'h, 'f) tree_ops \<Rightarrow> 'h scanned_bundles \<Rightarrow> height \<Rightarrow> 'h list \<Rightarrow> 't \<Rightarrow> wallet_error + 't" where
  "append_block_commitments T bundles height marks t =
     and_then (append_commitments T marks (sb_commitments bundles) t) (\<lambda>t1.
     and_then (map_err CommitmentTree (t_max_leaf T t1)) (\<lambda>leaf.
       if leaf \<noteq> (if sb_final_tree_size bundles = 0 then None else Some (sb_final_tree_size bundles - 1))
       then Inl (ChainDiscontinuity height)
       else ensure_block_checkpoint T height t1))"

fun append_blocks ::
  "('t, 'h, 'f) tree_ops \<Rightarrow> 'h list \<Rightarrow> ('h, 'n) scanned_block list \<Rightarrow> 't \<times> 't \<times> 't \<Rightarrow> wallet_error + ('t \<times> 't \<times> 't)" where
  "append_blocks T marks [] ts = Inr ts"
| "append_blocks T marks (b # bs) (sapling, orchard, ironwood) =
     and_then (append_block_commitments T (sc_sapling b) (sc_height b) [] sapling) (\<lambda>sapling'.
     and_then (append_block_commitments T (sc_orchard b) (sc_height b) [] orchard) (\<lambda>orchard'.
     and_then (append_block_commitments T (sc_ironwood b) (sc_height b) marks ironwood) (\<lambda>ironwood'.
     append_blocks T marks bs (sapling', orchard', ironwood'))))"

section \<open>Scanned blocks\<close>

text \<open>The received outputs of one pool of one transaction: the note and, when it has one, its
  nullifier.\<close>

fun insert_outputs ::
  "txid \<Rightarrow> pool_type \<Rightarrow> 'n wallet_output list \<Rightarrow> (note_id, 'n wallet_output) btree \<times> (nullifier, note_id) btree \<Rightarrow>
     ((note_id, 'n wallet_output) btree \<times> (nullifier, note_id) btree) may_panic" where
  "insert_outputs txid pool [] (notes, nfs) = Some (notes, nfs)"
| "insert_outputs txid pool (out # outs) (notes, nfs) =
     Option.bind (u16_index (wo_index out)) (\<lambda>i.
       insert_outputs txid pool outs
         (bt_insert (txid, pool, i) out notes,
          (case wo_nf out of Some nf \<Rightarrow> bt_insert nf (txid, pool, i) nfs | None \<Rightarrow> nfs)))"

definition receive_tx :: "height \<Rightarrow> 'n wallet_tx \<Rightarrow> ('t, 'n, 'k) wallet \<Rightarrow> ('t, 'n, 'k) wallet may_panic" where
  "receive_tx height wtx w =
     do {
       (sapling, sapling_nfs) \<leftarrow> insert_outputs (wt_txid wtx) PoolSapling (wt_sapling_outputs wtx)
         (w_sapling_notes w, w_sapling_nullifiers w);
       (ironwood, ironwood_nfs) \<leftarrow> insert_outputs (wt_txid wtx) PoolIronwood (wt_ironwood_outputs wtx)
         (w_ironwood_notes w, w_ironwood_nullifiers w);
       Some (w\<lparr>w_statuses := bt_insert (wt_txid wtx) (Mined height) (w_statuses w),
               w_indices := bt_insert (wt_txid wtx) (wt_index wtx) (w_indices w),
               w_sapling_notes := sapling, w_sapling_nullifiers := sapling_nfs,
               w_ironwood_notes := ironwood, w_ironwood_nullifiers := ironwood_nfs\<rparr>)
     }"

definition record_spends ::
  "(nullifier, note_id) btree \<Rightarrow> txid \<Rightarrow> nullifier list \<Rightarrow> (note_id, txid) btree \<Rightarrow> (note_id, txid) btree" where
  "record_spends nullifiers txid nfs spends =
     fold (\<lambda>nf m. case bt_get nullifiers nf of Some i \<Rightarrow> bt_insert i txid m | None \<Rightarrow> m) nfs spends"

definition spend_tx :: "'n wallet_tx \<Rightarrow> ('t, 'n, 'k) wallet \<Rightarrow> ('t, 'n, 'k) wallet" where
  "spend_tx wtx w =
     w\<lparr>w_sapling_spends := record_spends (w_sapling_nullifiers w) (wt_txid wtx) (wt_sapling_spends wtx) (w_sapling_spends w),
       w_ironwood_spends := record_spends (w_ironwood_nullifiers w) (wt_txid wtx) (wt_ironwood_spends wtx) (w_ironwood_spends w)\<rparr>"

fun receive_txs :: "height \<Rightarrow> 'n wallet_tx list \<Rightarrow> ('t, 'n, 'k) wallet \<Rightarrow> ('t, 'n, 'k) wallet may_panic" where
  "receive_txs height [] w = Some w"
| "receive_txs height (wtx # wtxs) w = Option.bind (receive_tx height wtx w) (receive_txs height wtxs)"

definition put_block :: "('h, 'n) scanned_block \<Rightarrow> ('t, 'n, 'k) wallet \<Rightarrow> ('t, 'n, 'k) wallet may_panic" where
  "put_block b w =
     map_option (\<lambda>w1.
         let w2 = fold spend_tx (sc_txs b) w1 in
         w2\<lparr>w_blocks := bt_insert (sc_height b) (to_block_metadata b) (w_blocks w2)\<rparr>)
       (receive_txs (sc_height b) (sc_txs b) w)"

fun put_all :: "('h, 'n) scanned_block list \<Rightarrow> ('t, 'n, 'k) wallet \<Rightarrow> ('t, 'n, 'k) wallet may_panic" where
  "put_all [] w = Some w"
| "put_all (b # bs) w = Option.bind (put_block b w) (put_all bs)"

text \<open>The continuity checks, before any change.\<close>

fun broken_link :: "('h, 'n) scanned_block list \<Rightarrow> height option" where
  "broken_link (a # b # bs) =
     (if next_height (sc_height a) \<noteq> sc_height b then Some (sc_height b) else broken_link (b # bs))"
| "broken_link bs = None"

definition continuity ::
  "block_metadata \<Rightarrow> ('h, 'n) scanned_block list \<Rightarrow> ('t, 'n, 'k) wallet \<Rightarrow> wallet_error option" where
  "continuity from_tip bs w =
     (if next_height (bm_height from_tip) \<noteq> sc_height (hd bs) then Some (ChainDiscontinuity (sc_height (hd bs)))
      else (case broken_link bs of
          Some h \<Rightarrow> Some (ChainDiscontinuity h)
        | None \<Rightarrow>
            (case bt_last (w_blocks w) of
               Some (applied, m) \<Rightarrow>
                 if applied = bm_height from_tip \<and> bm_hash m = bm_hash from_tip then None
                 else Some (ChainDiscontinuity applied)
             | None \<Rightarrow>
                 if bm_height from_tip \<noteq> bm_height (w_seed w) \<or> bm_hash from_tip \<noteq> bm_hash (w_seed w)
                 then Some (ChainDiscontinuity (bm_height from_tip)) else None)))"

definition put_blocks_marked ::
  "('t, 'h, 'f) tree_ops \<Rightarrow> block_metadata \<Rightarrow> ('h, 'n) scanned_block list \<Rightarrow> 'h list \<Rightarrow> ('t, 'n, 'k) wallet \<Rightarrow>
     (wallet_error + ('t, 'n, 'k) wallet) may_panic" where
  "put_blocks_marked T from_tip bs marks w =
     (if bs = [] then Some (Inr w)
      else (case continuity from_tip bs w of
          Some e \<Rightarrow> Some (Inl e)
        | None \<Rightarrow>
            if list_ex (\<lambda>b. list_ex (\<lambda>wtx. wt_orchard_outputs wtx \<noteq> []) (sc_txs b)) bs
            then Some (Inl UnexpectedOrchardReceive)
            else (case append_blocks T marks bs (w_sapling_tree w, w_orchard_tree w, w_ironwood_tree w) of
                Inl e \<Rightarrow> Some (Inl e)
              | Inr (sapling, orchard, ironwood) \<Rightarrow>
                  map_option (\<lambda>w1. Inr
                      (case bt_last (w_blocks w1) of
                         Some (applied, _) \<Rightarrow> update_chain_tip applied w1 | None \<Rightarrow> w1))
                    (put_all bs (w\<lparr>w_sapling_tree := sapling, w_orchard_tree := orchard, w_ironwood_tree := ironwood\<rparr>)))))"

definition put_blocks ::
  "('t, 'h, 'f) tree_ops \<Rightarrow> ('f, 'f) chain_state \<Rightarrow> ('h, 'n) scanned_block list \<Rightarrow> ('t, 'n, 'k) wallet \<Rightarrow>
     (wallet_error + ('t, 'n, 'k) wallet) may_panic" where
  "put_blocks T s bs w = Option.bind (block_metadata_of T s) (\<lambda>m. put_blocks_marked T m bs [] w)"

section \<open>Name Notes\<close>

definition ironwood_witness ::
  "('t, 'h, 'f) tree_ops \<Rightarrow> ('t, 'n, 'k) wallet \<Rightarrow> nat \<Rightarrow> height \<Rightarrow> string + ('h \<Rightarrow> 'h) option" where
  "ironwood_witness T w pos anchor_height = t_witness T pos anchor_height (w_ironwood_tree w)"

definition ironwood_anchor ::
  "('t, 'h, 'f) tree_ops \<Rightarrow> ('t, 'n, 'k) wallet \<Rightarrow> height \<Rightarrow> string + 'h option" where
  "ironwood_anchor T w anchor_height = t_root_at T anchor_height (w_ironwood_tree w)"

text \<open>A Name Note to store; \<open>nn_leaf\<close> is the tree leaf of the note's ZNS commitment, \<open>None\<close> when
  that is the identity.\<close>

record ('n, 'h) name_note_entry =
  nn_height :: height
  nn_position :: nat
  nn_txid :: txid
  nn_action_index :: nat
  nn_note :: 'n
  nn_value :: nat
  nn_leaf :: "'h option"
  nn_nullifier :: nullifier
  nn_ephemeral_key :: bytes
  nn_memo :: bytes

definition name_note_output :: "('n, 'h) name_note_entry \<Rightarrow> 'n wallet_output" where
  "name_note_output e =
     \<lparr>wo_index = nn_action_index e, wo_ephemeral_key = nn_ephemeral_key e, wo_note = nn_note e, wo_value = nn_value e,
      wo_value_pool = PoolIronwood, wo_is_change = False, wo_position = nn_position e, wo_nf = Some (nn_nullifier e),
      wo_account = REGISTRY_ACCOUNT, wo_scope = Some ScopeExternal\<rparr>"

definition name_note_tx_error :: "('t, 'n, 'k) wallet \<Rightarrow> height \<Rightarrow> txid \<Rightarrow> string option" where
  "name_note_tx_error w height txid =
     (if \<not> bt_has (w_blocks w) height then Some ''height is not an applied block''
      else (case bt_get (w_statuses w) txid of
          Some (Mined mined) \<Rightarrow> if mined = height then None else Some ''txid is mined at a different height''
        | Some _ \<Rightarrow> Some ''txid is not mined in the main chain''
        | None \<Rightarrow> Some ''txid was not applied with put_blocks''))"

definition name_note_leaf_error ::
  "('t, 'h, 'f) tree_ops \<Rightarrow> ('t, 'n, 'k) wallet \<Rightarrow> ('n, 'h) name_note_entry \<Rightarrow> wallet_error option" where
  "name_note_leaf_error T w e =
     (case ironwood_witness T w (nn_position e) (nn_height e) of
        Inl err \<Rightarrow> Some (CommitmentTree err)
      | Inr None \<Rightarrow> Some (InvalidNameNote ''no Ironwood witness at position for this height'')
      | Inr (Some root_of) \<Rightarrow>
          (case nn_leaf e of
             None \<Rightarrow> Some (InvalidNameNote ''ZNS commitment is the identity'')
           | Some leaf \<Rightarrow>
               (case ironwood_anchor T w (nn_height e) of
                  Inl err \<Rightarrow> Some (CommitmentTree err)
                | Inr None \<Rightarrow> Some (InvalidNameNote ''no Ironwood anchor at height for binding check'')
                | Inr (Some anchor) \<Rightarrow>
                    if root_of leaf \<noteq> anchor
                    then Some (InvalidNameNote ''note commitment does not match tree root at height'')
                    else None)))"

definition same_name_note :: "'n wallet_output \<Rightarrow> ('n, 'h) name_note_entry \<Rightarrow> bool" where
  "same_name_note existing e \<longleftrightarrow>
     wo_position existing = nn_position e \<and> wo_nf existing = Some (nn_nullifier e) \<and> wo_note existing = nn_note e \<and>
     wo_ephemeral_key existing = nn_ephemeral_key e \<and> wo_value_pool existing = PoolIronwood \<and>
     wo_account existing = REGISTRY_ACCOUNT \<and> wo_scope existing = Some ScopeExternal"

definition store_name_note ::
  "('ua, 'cm) zenv \<Rightarrow> ('t, 'h, 'f) tree_ops \<Rightarrow> ('n, 'h) name_note_entry \<Rightarrow> ('t, 'n, 'k) wallet \<Rightarrow>
     wallet_error + ('t, 'n, 'k) wallet" where
  "store_name_note E T e w =
     (case name_note_tx_error w (nn_height e) (nn_txid e) of
        Some why \<Rightarrow> Inl (InvalidNameNote why)
      | None \<Rightarrow>
          (case u16_index (nn_action_index e) of
             None \<Rightarrow> Inl (InvalidNameNote ''Ironwood action index does not fit u16'')
           | Some i \<Rightarrow>
               let id = (nn_txid e, PoolIronwood, i) in
               if (case bt_get (w_ironwood_nullifiers w) (nn_nullifier e) of Some owner \<Rightarrow> owner \<noteq> id | None \<Rightarrow> False)
               then Inl (InvalidNameNote ''nullifier already identifies a different Ironwood note'')
               else (case name_note_leaf_error T w e of
                   Some err \<Rightarrow> Inl err
                 | None \<Rightarrow>
                     (case bt_get (w_ironwood_notes w) id of
                        Some existing \<Rightarrow>
                          if \<not> same_name_note existing e then Inl (InvalidNameNote ''NoteId exists with divergent fields'')
                          else (case memo_from_bytes E (nn_memo e) of
                              None \<Rightarrow> Inl (InvalidNameNote ''memo bytes are not valid MemoBytes'')
                            | Some m \<Rightarrow>
                                if bt_get (w_memos w) id \<noteq> Some (MemoFuture m)
                                then Inl (InvalidNameNote ''NoteId exists with divergent memo'')
                                else Inr w)
                      | None \<Rightarrow>
                          (case memo_from_bytes E (nn_memo e) of
                             None \<Rightarrow> Inl (InvalidNameNote ''memo bytes are not valid MemoBytes'')
                           | Some m \<Rightarrow>
                               Inr (w\<lparr>w_ironwood_notes := bt_insert id (name_note_output e) (w_ironwood_notes w),
                                      w_ironwood_nullifiers := bt_insert (nn_nullifier e) id (w_ironwood_nullifiers w),
                                      w_memos := bt_insert id (MemoFuture m) (w_memos w)\<rparr>))))))"

section \<open>Transactions\<close>

fun insert_memos ::
  "(bytes \<Rightarrow> memo option) \<Rightarrow> txid \<Rightarrow> pool_type \<Rightarrow> (nat \<times> bytes) list \<Rightarrow> (note_id, memo) btree \<Rightarrow>
     (note_id, memo) btree may_panic" where
  "insert_memos parse txid pool [] m = Some m"
| "insert_memos parse txid pool ((index, b) # outs) m =
     (case parse b of
        None \<Rightarrow> insert_memos parse txid pool outs m
      | Some mm \<Rightarrow> Option.bind (u16_index index) (\<lambda>i. insert_memos parse txid pool outs (bt_insert (txid, pool, i) mm m)))"

definition or_insert :: "'k::linorder \<Rightarrow> 'v \<Rightarrow> ('k, 'v) btree \<Rightarrow> ('k, 'v) btree" where
  "or_insert k v m = (case bt_get m k of Some _ \<Rightarrow> m | None \<Rightarrow> bt_insert k v m)"

definition store_decrypted_tx ::
  "(bytes \<Rightarrow> memo option) \<Rightarrow> raw_tx \<Rightarrow> height option \<Rightarrow> (nat \<times> bytes) list \<Rightarrow> (nat \<times> bytes) list \<Rightarrow>
     ('t, 'n, 'k) wallet \<Rightarrow> ('t, 'n, 'k) wallet may_panic" where
  "store_decrypted_tx parse tx mined sapling_outs ironwood_outs w =
     do {
       let txid = rt_txid tx;
       m1 \<leftarrow> insert_memos parse txid PoolSapling sapling_outs (w_memos w);
       m2 \<leftarrow> insert_memos parse txid PoolIronwood ironwood_outs m1;
       Some (w\<lparr>w_transactions := bt_insert txid tx (w_transactions w),
               w_statuses := (case mined of
                   Some h \<Rightarrow> bt_insert txid (Mined h) (w_statuses w)
                 | None \<Rightarrow> or_insert txid NotInMainChain (w_statuses w)),
               w_memos := m2\<rparr>)
     }"

definition set_tx_trust :: "txid \<Rightarrow> bool \<Rightarrow> ('t, 'n, 'k) wallet \<Rightarrow> ('t, 'n, 'k) wallet" where
  "set_tx_trust txid trusted w =
     w\<lparr>w_trusted := snd (if trusted then bs_insert txid (w_trusted w) else bs_remove txid (w_trusted w))\<rparr>"

definition set_transaction_status :: "txid \<Rightarrow> tx_status \<Rightarrow> ('t, 'n, 'k) wallet \<Rightarrow> ('t, 'n, 'k) wallet" where
  "set_transaction_status txid s w = w\<lparr>w_statuses := bt_insert txid s (w_statuses w)\<rparr>"

definition sent_memo :: "(bytes \<Rightarrow> memo option) \<Rightarrow> txid \<Rightarrow> sent_output \<Rightarrow> (note_id, memo) btree \<Rightarrow> (note_id, memo) btree" where
  "sent_memo parse txid out m =
     (case so_recipient out of
        RecipientOther \<Rightarrow> m
      | RecipientShielded pool \<Rightarrow>
          (case (u16_index (so_index out), Option.bind (so_memo out) parse) of
             (Some i, Some mm) \<Rightarrow> bt_insert (txid, pool, i) mm m | _ \<Rightarrow> m)
      | RecipientInternal pool \<Rightarrow>
          (case (u16_index (so_index out), Option.bind (so_memo out) parse) of
             (Some i, Some mm) \<Rightarrow> bt_insert (txid, pool, i) mm m | _ \<Rightarrow> m))"

text \<open>The spends of a raw bundle: each known nullifier marks its note spent and frees its lock.\<close>

definition spend_and_unlock ::
  "(nullifier, note_id) btree \<Rightarrow> txid \<Rightarrow> nullifier list \<Rightarrow> (note_id, txid) btree \<times> (output_ref, nat \<times> height) btree \<Rightarrow>
     (note_id, txid) btree \<times> (output_ref, nat \<times> height) btree" where
  "spend_and_unlock nullifiers txid nfs st =
     fold (\<lambda>nf (spends, locks).
         case bt_get nullifiers nf of
           Some i \<Rightarrow> (bt_insert i txid spends, bt_remove i locks)
         | None \<Rightarrow> (spends, locks)) nfs st"

definition store_sent :: "(bytes \<Rightarrow> memo option) \<Rightarrow> sent_tx \<Rightarrow> ('t, 'n, 'k) wallet \<Rightarrow> ('t, 'n, 'k) wallet" where
  "store_sent parse sent w =
     (let tx = stx_tx sent; txid = rt_txid tx;
          (sapling_spends, locks1) = spend_and_unlock (w_sapling_nullifiers w) txid (rt_sapling_spends tx)
            (w_sapling_spends w, w_locks w);
          (ironwood_spends, locks2) = spend_and_unlock (w_ironwood_nullifiers w) txid (rt_ironwood_spends tx)
            (w_ironwood_spends w, locks1)
      in w\<lparr>w_transactions := bt_insert txid tx (w_transactions w),
           w_statuses := or_insert txid NotInMainChain (w_statuses w),
           w_sent_outputs := bt_insert txid (stx_outputs sent) (w_sent_outputs w),
           w_memos := fold (sent_memo parse txid) (stx_outputs sent) (w_memos w),
           w_sapling_spends := sapling_spends,
           w_ironwood_spends := ironwood_spends,
           w_locks := locks2\<rparr>)"

definition store_transactions_to_be_sent ::
  "(bytes \<Rightarrow> memo option) \<Rightarrow> sent_tx list \<Rightarrow> ('t, 'n, 'k) wallet \<Rightarrow> ('t, 'n, 'k) wallet" where
  "store_transactions_to_be_sent parse txs w = fold (store_sent parse) txs w"

definition record_sent :: "(bytes \<Rightarrow> memo option) \<Rightarrow> raw_tx \<Rightarrow> ('t, 'n, 'k) wallet \<Rightarrow> ('t, 'n, 'k) wallet" where
  "record_sent parse tx w = store_transactions_to_be_sent parse [\<lparr>stx_tx = tx, stx_outputs = []\<rparr>] w"

section \<open>Subtree roots (\<open>src/wallet/trees.rs\<close>)\<close>

fun insert_subtree_roots :: "('t, 'h, 'f) tree_ops \<Rightarrow> nat \<Rightarrow> (height \<times> 'h) list \<Rightarrow> 't \<Rightarrow> string + 't" where
  "insert_subtree_roots T index [] t = Inr t"
| "insert_subtree_roots T index ((_, root) # roots) t =
     and_then (t_insert_root T index root t) (insert_subtree_roots T (index + 1) roots)"

fun insert_ends :: "nat \<Rightarrow> (height \<times> 'h) list \<Rightarrow> (nat, height) btree \<Rightarrow> (nat, height) btree" where
  "insert_ends index [] m = m"
| "insert_ends index ((end_height, _) # roots) m = insert_ends (index + 1) roots (bt_insert index end_height m)"

definition put_sapling_subtree_roots ::
  "('t, 'h, 'f) tree_ops \<Rightarrow> nat \<Rightarrow> (height \<times> 'h) list \<Rightarrow> ('t, 'n, 'k) wallet \<Rightarrow> string + ('t, 'n, 'k) wallet" where
  "put_sapling_subtree_roots T start roots w =
     and_then (insert_subtree_roots T start roots (w_sapling_tree w)) (\<lambda>t.
     Inr (w\<lparr>w_sapling_tree := t, w_sapling_ends := insert_ends start roots (w_sapling_ends w)\<rparr>))"

definition put_orchard_subtree_roots ::
  "('t, 'h, 'f) tree_ops \<Rightarrow> nat \<Rightarrow> (height \<times> 'h) list \<Rightarrow> ('t, 'n, 'k) wallet \<Rightarrow> string + ('t, 'n, 'k) wallet" where
  "put_orchard_subtree_roots T start roots w =
     and_then (insert_subtree_roots T start roots (w_orchard_tree w)) (\<lambda>t.
     Inr (w\<lparr>w_orchard_tree := t, w_orchard_ends := insert_ends start roots (w_orchard_ends w)\<rparr>))"

definition put_ironwood_subtree_roots ::
  "('t, 'h, 'f) tree_ops \<Rightarrow> nat \<Rightarrow> (height \<times> 'h) list \<Rightarrow> ('t, 'n, 'k) wallet \<Rightarrow> string + ('t, 'n, 'k) wallet" where
  "put_ironwood_subtree_roots T start roots w =
     and_then (insert_subtree_roots T start roots (w_ironwood_tree w)) (\<lambda>t.
     Inr (w\<lparr>w_ironwood_tree := t, w_ironwood_ends := insert_ends start roots (w_ironwood_ends w)\<rparr>))"

end
