(* ===== verification/Wallet_Input.thy ===== *)
theory Wallet_Input
  imports Wallet_Write
begin

text \<open>
  What the wallet can spend: \<open>src/wallet/input.rs\<close>, the input source of the transaction builder,
  and the note reads and balance buckets of \<open>src/wallet/read.rs\<close> that share its rules. Locks are
  filtered by a policy of the library: the owners it may override, and which locked notes it
  prefers.
\<close>

section \<open>Spends, confirmations, locks\<close>

definition unmined_spend_still_blocks :: "('t, 'n, 'k) wallet \<Rightarrow> txid \<Rightarrow> height \<Rightarrow> bool" where
  "unmined_spend_still_blocks w txid target =
     (case bt_get (w_transactions w) txid of
        None \<Rightarrow> True
      | Some tx \<Rightarrow> rt_expiry tx = 0 \<or> rt_expiry tx \<ge> target)"

definition spend_confirms_or_blocks :: "('t, 'n, 'k) wallet \<Rightarrow> txid \<Rightarrow> height \<Rightarrow> bool" where
  "spend_confirms_or_blocks w txid target =
     (case bt_get (w_statuses w) txid of
        Some (Mined _) \<Rightarrow> True
      | Some NotInMainChain \<Rightarrow> unmined_spend_still_blocks w txid target
      | Some TxidNotRecognized \<Rightarrow> unmined_spend_still_blocks w txid target
      | None \<Rightarrow> True)"

definition sapling_note_is_spent :: "('t, 'n, 'k) wallet \<Rightarrow> note_id \<Rightarrow> height \<Rightarrow> bool" where
  "sapling_note_is_spent w i target =
     (case bt_get (w_sapling_spends w) i of None \<Rightarrow> False | Some txid \<Rightarrow> spend_confirms_or_blocks w txid target)"

definition ironwood_note_is_spent :: "('t, 'n, 'k) wallet \<Rightarrow> note_id \<Rightarrow> height \<Rightarrow> bool" where
  "ironwood_note_is_spent w i target =
     (case bt_get (w_ironwood_spends w) i of None \<Rightarrow> False | Some txid \<Rightarrow> spend_confirms_or_blocks w txid target)"

record confirmations_policy =
  cp_trusted :: nat
  cp_untrusted :: nat

definition CONFIRMATIONS :: confirmations_policy where
  "CONFIRMATIONS = \<lparr>cp_trusted = 1, cp_untrusted = 1\<rparr>"

definition required_confirmations :: "('t, 'n, 'k) wallet \<Rightarrow> txid \<Rightarrow> bool \<Rightarrow> confirmations_policy \<Rightarrow> nat" where
  "required_confirmations w txid is_change policy =
     (if is_change \<or> txid \<in> set (w_trusted w) then cp_trusted policy else cp_untrusted policy)"

record locked_input_policy =
  lp_overridable :: "nat list"
  lp_admits_locked :: bool
  lp_prefers_locked :: bool

definition EXCLUDE_LOCKED :: locked_input_policy where
  "EXCLUDE_LOCKED = \<lparr>lp_overridable = [], lp_admits_locked = False, lp_prefers_locked = False\<rparr>"

datatype lock_filter = Unfiltered | LockPolicy locked_input_policy

definition lock_admits :: "('t, 'n, 'k) wallet \<Rightarrow> output_ref \<Rightarrow> height \<Rightarrow> lock_filter \<Rightarrow> bool" where
  "lock_admits w out target lf =
     (case bt_get (w_locks w) out of
        None \<Rightarrow> True
      | Some (owner, expiry) \<Rightarrow>
          if expiry < target then True
          else (case lf of Unfiltered \<Rightarrow> True | LockPolicy p \<Rightarrow> owner \<in> set (lp_overridable p)))"

definition lock_is_live :: "('t, 'n, 'k) wallet \<Rightarrow> output_ref \<Rightarrow> height \<Rightarrow> bool" where
  "lock_is_live w out target = (case bt_get (w_locks w) out of None \<Rightarrow> False | Some (_, expiry) \<Rightarrow> expiry \<ge> target)"

text \<open>The comparison of two notes by their lock tier, as the rank the preferred tier sorts by.\<close>

definition lock_tier :: "('t, 'n, 'k) wallet \<Rightarrow> height \<Rightarrow> lock_filter \<Rightarrow> note_id \<Rightarrow> nat" where
  "lock_tier w target lf i =
     (case lf of
        Unfiltered \<Rightarrow> 0
      | LockPolicy p \<Rightarrow>
          if \<not> lp_admits_locked p then 0
          else if lp_prefers_locked p then (if lock_is_live w i target then 0 else 1)
          else (if lock_is_live w i target then 1 else 0))"

definition mined_height :: "('t, 'n, 'k) wallet \<Rightarrow> txid \<Rightarrow> height option" where
  "mined_height w txid = (case bt_get (w_statuses w) txid of Some (Mined h) \<Rightarrow> Some h | _ \<Rightarrow> None)"

definition confirmations_satisfied ::
  "('t, 'n, 'k) wallet \<Rightarrow> txid \<Rightarrow> bool \<Rightarrow> height \<Rightarrow> confirmations_policy \<Rightarrow> bool" where
  "confirmations_satisfied w txid is_change target policy =
     (case mined_height w txid of
        Some mined \<Rightarrow> target - required_confirmations w txid is_change policy \<ge> mined
      | None \<Rightarrow> False)"

section \<open>Eligible notes\<close>

record 'n received_note =
  rn_id :: note_id
  rn_note :: 'n
  rn_value :: nat
  rn_scope :: key_scope
  rn_position :: nat
  rn_mined :: "height option"

definition received_note :: "('t, 'n, 'k) wallet \<Rightarrow> note_id \<Rightarrow> 'n wallet_output \<Rightarrow> 'n received_note option" where
  "received_note w i out =
     map_option (\<lambda>scope. \<lparr>rn_id = i, rn_note = wo_note out, rn_value = wo_value out, rn_scope = scope,
         rn_position = wo_position out, rn_mined = mined_height w (nid_txid i)\<rparr>) (wo_scope out)"

definition sapling_received_note :: "('t, 'n, 'k) wallet \<Rightarrow> note_id \<Rightarrow> 'n received_note option" where
  "sapling_received_note w i = Option.bind (bt_get (w_sapling_notes w) i) (received_note w i)"

definition ironwood_received_note :: "('t, 'n, 'k) wallet \<Rightarrow> note_id \<Rightarrow> 'n received_note option" where
  "ironwood_received_note w i = Option.bind (bt_get (w_ironwood_notes w) i) (received_note w i)"

definition counts_as_change :: "'n wallet_output \<Rightarrow> bool" where
  "counts_as_change out \<longleftrightarrow> wo_is_change out \<or> wo_scope out = Some ScopeInternal"

text \<open>The test the two lanes share; they differ in the table that says whether a note is spent.\<close>

definition eligible ::
  "('t, 'n, 'k) wallet \<Rightarrow> (note_id \<Rightarrow> height \<Rightarrow> bool) \<Rightarrow> account \<Rightarrow> height \<Rightarrow> confirmations_policy option \<Rightarrow> note_id list \<Rightarrow>
     lock_filter \<Rightarrow> note_id \<Rightarrow> 'n wallet_output \<Rightarrow> bool" where
  "eligible w spent a target policy exclude lf i out \<longleftrightarrow>
     wo_account out = a \<and> i \<notin> set exclude \<and> wo_scope out \<noteq> None \<and> \<not> spent i target \<and> lock_admits w i target lf \<and>
     (case policy of None \<Rightarrow> True
        | Some p \<Rightarrow> confirmations_satisfied w (nid_txid i) (counts_as_change out) target p)"

definition sort_eligible ::
  "('t, 'n, 'k) wallet \<Rightarrow> height \<Rightarrow> lock_filter \<Rightarrow> 'n received_note list \<Rightarrow> 'n received_note list" where
  "sort_eligible w target lf = sort_key (\<lambda>r. (lock_tier w target lf (rn_id r), rn_position r))"

definition eligible_sapling ::
  "('t, 'n, 'k) wallet \<Rightarrow> account \<Rightarrow> height \<Rightarrow> confirmations_policy option \<Rightarrow> note_id list \<Rightarrow> lock_filter \<Rightarrow>
     'n received_note list" where
  "eligible_sapling w a target policy exclude lf =
     sort_eligible w target lf
       (List.map_filter (\<lambda>(i, _). sapling_received_note w i)
         (filter (\<lambda>(i, out). eligible w (sapling_note_is_spent w) a target policy exclude lf i out) (w_sapling_notes w)))"

definition eligible_ironwood ::
  "('t, 'n, 'k) wallet \<Rightarrow> account \<Rightarrow> height \<Rightarrow> confirmations_policy option \<Rightarrow> note_id list \<Rightarrow> lock_filter \<Rightarrow>
     'n received_note list" where
  "eligible_ironwood w a target policy exclude lf =
     sort_eligible w target lf
       (List.map_filter (\<lambda>(i, _). ironwood_received_note w i)
         (filter (\<lambda>(i, out). eligible w (ironwood_note_is_spent w) a target policy exclude lf i out) (w_ironwood_notes w)))"

section \<open>Selection\<close>

definition MARGINAL_FEE :: zat where
  "MARGINAL_FEE = 5000"

datatype max_spend_mode = MaxSpendable | Everything
datatype target_value = AtLeast zat | AllFunds max_spend_mode

definition leftover ::
  "('t, 'n, 'k) wallet \<Rightarrow> (note_id \<Rightarrow> height \<Rightarrow> bool) \<Rightarrow> account \<Rightarrow> height \<Rightarrow> note_id list \<Rightarrow> note_id list \<Rightarrow>
     note_id \<times> 'n wallet_output \<Rightarrow> bool" where
  "leftover w spent a target exclude chosen = (\<lambda>(i, out).
     wo_account out = a \<and> i \<notin> set exclude \<and> wo_scope out \<noteq> None \<and> wo_value out > MARGINAL_FEE \<and>
     \<not> spent i target \<and> i \<notin> set chosen)"

definition everything_spendable ::
  "('t, 'n, 'k) wallet \<Rightarrow> account \<Rightarrow> pool_type list \<Rightarrow> height \<Rightarrow> confirmations_policy \<Rightarrow> note_id list \<Rightarrow> lock_filter \<Rightarrow> bool" where
  "everything_spendable w a sources target policy exclude lf =
     list_all (\<lambda>pool. case pool of
         PoolSapling \<Rightarrow> \<not> list_ex (leftover w (sapling_note_is_spent w) a target exclude
             (map rn_id (eligible_sapling w a target (Some policy) exclude lf))) (w_sapling_notes w)
       | PoolIronwood \<Rightarrow> \<not> list_ex (leftover w (ironwood_note_is_spent w) a target exclude
             (map rn_id (eligible_ironwood w a target (Some policy) exclude lf))) (w_ironwood_notes w)
       | _ \<Rightarrow> True) sources"

fun wants :: "target_value \<Rightarrow> zat \<Rightarrow> bool" where
  "wants (AtLeast t) accumulated = (accumulated < t)"
| "wants (AllFunds _) accumulated = True"

text \<open>One pool's loop: dust is skipped; the note that is not wanted is still added to the running
  total before the loop ends; a total above the money supply panics. A note's value outside the
  money supply panics too.\<close>

fun take_notes ::
  "('ua, 'cm) zenv \<Rightarrow> target_value \<Rightarrow> 'n received_note list \<Rightarrow> zat \<Rightarrow> ('n received_note list \<times> zat) may_panic" where
  "take_notes E tv [] accumulated = Some ([], accumulated)"
| "take_notes E tv (r # rs) accumulated =
     Option.bind (zat_from_u64 E (rn_value r)) (\<lambda>value.
       if value \<le> MARGINAL_FEE then take_notes E tv rs accumulated
       else Option.bind (zat_add E accumulated value) (\<lambda>total'.
         if \<not> wants tv accumulated then Some ([], total')
         else map_option (\<lambda>(chosen, acc). (r # chosen, acc)) (take_notes E tv rs total')))"

fun draw_pools ::
  "('ua, 'cm) zenv \<Rightarrow> ('t, 'n, 'k) wallet \<Rightarrow> account \<Rightarrow> target_value \<Rightarrow> height \<Rightarrow> confirmations_policy \<Rightarrow> note_id list \<Rightarrow>
     lock_filter \<Rightarrow> pool_type list \<Rightarrow> zat \<Rightarrow> ('n received_note list \<times> 'n received_note list) may_panic" where
  "draw_pools E w a tv target policy exclude lf [] accumulated = Some ([], [])"
| "draw_pools E w a tv target policy exclude lf (pool # pools) accumulated =
     (case pool of
        PoolSapling \<Rightarrow>
          Option.bind (take_notes E tv (eligible_sapling w a target (Some policy) exclude lf) accumulated)
            (\<lambda>(chosen, acc). map_option (\<lambda>(s, i). (chosen @ s, i))
               (draw_pools E w a tv target policy exclude lf pools acc))
      | PoolIronwood \<Rightarrow>
          Option.bind (take_notes E tv (eligible_ironwood w a target (Some policy) exclude lf) accumulated)
            (\<lambda>(chosen, acc). map_option (\<lambda>(s, i). (s, chosen @ i))
               (draw_pools E w a tv target policy exclude lf pools acc))
      | _ \<Rightarrow> draw_pools E w a tv target policy exclude lf pools accumulated)"

definition select_spendable_notes ::
  "('ua, 'cm) zenv \<Rightarrow> ('t, 'n, 'k) wallet \<Rightarrow> account \<Rightarrow> target_value \<Rightarrow> pool_type list \<Rightarrow> height \<Rightarrow> confirmations_policy \<Rightarrow>
     note_id list \<Rightarrow> lock_filter \<Rightarrow> (wallet_error + ('n received_note list \<times> 'n received_note list)) may_panic" where
  "select_spendable_notes E w a tv sources target policy exclude lf =
     (if \<not> bt_has (w_ufvks w) a then Some (Inl (AccountUnknown a))
      else if tv = AllFunds Everything \<and> \<not> everything_spendable w a sources target policy exclude lf
      then Some (Inl UnspendableFunds)
      else map_option Inr (draw_pools E w a tv target policy exclude lf sources 0))"

fun unspent_pools ::
  "('t, 'n, 'k) wallet \<Rightarrow> account \<Rightarrow> height \<Rightarrow> note_id list \<Rightarrow> lock_filter \<Rightarrow> pool_type list \<Rightarrow>
     'n received_note list \<times> 'n received_note list" where
  "unspent_pools w a target exclude lf [] = ([], [])"
| "unspent_pools w a target exclude lf (pool # pools) =
     (case unspent_pools w a target exclude lf pools of (s, i) \<Rightarrow>
        (case pool of
           PoolSapling \<Rightarrow> (eligible_sapling w a target None exclude lf @ s, i)
         | PoolIronwood \<Rightarrow> (s, eligible_ironwood w a target None exclude lf @ i)
         | _ \<Rightarrow> (s, i)))"

definition select_unspent_notes ::
  "('t, 'n, 'k) wallet \<Rightarrow> account \<Rightarrow> pool_type list \<Rightarrow> height \<Rightarrow> note_id list \<Rightarrow> lock_filter \<Rightarrow>
     wallet_error + ('n received_note list \<times> 'n received_note list)" where
  "select_unspent_notes w a sources target exclude lf =
     (if \<not> bt_has (w_ufvks w) a then Inl (AccountUnknown a)
      else Inr (unspent_pools w a target exclude lf sources))"

definition get_spendable_note ::
  "('t, 'n, 'k) wallet \<Rightarrow> txid \<Rightarrow> pool_type \<Rightarrow> nat \<Rightarrow> height \<Rightarrow> lock_filter \<Rightarrow> 'n received_note option" where
  "get_spendable_note w txid pool index target lf =
     Option.bind (u16_index index) (\<lambda>idx.
       let i = (txid, pool, idx) in
       (case pool of
          PoolSapling \<Rightarrow>
            if sapling_note_is_spent w i target \<or> \<not> lock_admits w i target lf \<or> mined_height w txid = None then None
            else sapling_received_note w i
        | PoolIronwood \<Rightarrow>
            if ironwood_note_is_spent w i target \<or> \<not> lock_admits w i target lf \<or> mined_height w txid = None then None
            else ironwood_received_note w i
        | _ \<Rightarrow> None))"

definition anchor_computable :: "('t, 'h, 'f) tree_ops \<Rightarrow> ('t, 'n, 'k) wallet \<Rightarrow> pool_type \<Rightarrow> height \<Rightarrow> bool" where
  "anchor_computable T w pool height =
     t_has_checkpoint T (case pool of PoolSapling \<Rightarrow> w_sapling_tree w | PoolIronwood \<Rightarrow> w_ironwood_tree w
       | _ \<Rightarrow> w_orchard_tree w) height"

section \<open>Metadata\<close>

datatype note_filter =
    ExceedsMinValue zat
  | ExceedsBalancePercentage nat
  | ExceedsPriorSendPercentile nat
  | Combine note_filter note_filter
  | Attempt note_filter note_filter

definition prior_send_threshold :: "('ua, 'cm) zenv \<Rightarrow> ('t, 'n, 'k) wallet \<Rightarrow> nat \<Rightarrow> zat option" where
  "prior_send_threshold E w pct =
     (let values = sort (concat (map (\<lambda>(_, outs). map so_value outs) (w_sent_outputs w))) in
      if values = [] then None
      else zat_from_u64 E (values ! min (length values * pct div 100 - 1) (length values - 1)))"

fun note_matches_filter :: "('ua, 'cm) zenv \<Rightarrow> ('t, 'n, 'k) wallet \<Rightarrow> zat \<Rightarrow> note_filter \<Rightarrow> zat \<Rightarrow> bool option" where
  "note_matches_filter E w value (ExceedsMinValue m) balance = Some (value > m)"
| "note_matches_filter E w value (ExceedsBalancePercentage pct) balance = Some (value \<ge> balance * pct div 100)"
| "note_matches_filter E w value (ExceedsPriorSendPercentile pct) balance =
     map_option (\<lambda>threshold. value \<ge> threshold) (prior_send_threshold E w pct)"
| "note_matches_filter E w value (Combine a b) balance =
     (case (note_matches_filter E w value a balance, note_matches_filter E w value b balance) of
        (None, None) \<Rightarrow> None
      | (x, y) \<Rightarrow> Some ((case x of Some v \<Rightarrow> v | None \<Rightarrow> True) \<and> (case y of Some v \<Rightarrow> v | None \<Rightarrow> True)))"
| "note_matches_filter E w value (Attempt c d) balance =
     (case note_matches_filter E w value c balance of
        Some v \<Rightarrow> Some v
      | None \<Rightarrow> note_matches_filter E w value d balance)"

fun sum_values :: "('ua, 'cm) zenv \<Rightarrow> 'n received_note list \<Rightarrow> zat \<Rightarrow> zat may_panic" where
  "sum_values E [] acc = Some acc"
| "sum_values E (r # rs) acc =
     Option.bind (zat_from_u64 E (rn_value r)) (\<lambda>v. Option.bind (zat_add E acc v) (sum_values E rs))"

definition shielded_unspent_total ::
  "('ua, 'cm) zenv \<Rightarrow> ('t, 'n, 'k) wallet \<Rightarrow> account \<Rightarrow> height \<Rightarrow> note_id list \<Rightarrow> lock_filter \<Rightarrow> zat may_panic" where
  "shielded_unspent_total E w a target exclude lf =
     sum_values E (eligible_sapling w a target None exclude lf @ eligible_ironwood w a target None exclude lf) 0"

text \<open>The notes of a pool that match, counted and added up; \<open>Some None\<close> when the filter cannot be
  evaluated.\<close>

fun count_matching ::
  "('ua, 'cm) zenv \<Rightarrow> ('t, 'n, 'k) wallet \<Rightarrow> note_filter \<Rightarrow> zat \<Rightarrow> zat list \<Rightarrow> nat \<times> zat \<Rightarrow> (nat \<times> zat) option may_panic" where
  "count_matching E w selector balance [] (n, tot) = Some (Some (n, tot))"
| "count_matching E w selector balance (v # vs) (n, tot) =
     (case note_matches_filter E w v selector balance of
        None \<Rightarrow> Some None
      | Some False \<Rightarrow> count_matching E w selector balance vs (n, tot)
      | Some True \<Rightarrow> Option.bind (zat_add E tot v) (\<lambda>tot'. count_matching E w selector balance vs (n + 1, tot')))"

fun note_values :: "('ua, 'cm) zenv \<Rightarrow> 'n received_note list \<Rightarrow> zat list may_panic" where
  "note_values E [] = Some []"
| "note_values E (r # rs) = Option.bind (zat_from_u64 E (rn_value r)) (\<lambda>v. map_option (Cons v) (note_values E rs))"

definition pool_meta ::
  "('ua, 'cm) zenv \<Rightarrow> ('t, 'n, 'k) wallet \<Rightarrow> account \<Rightarrow> pool_type \<Rightarrow> note_filter \<Rightarrow> height \<Rightarrow> note_id list \<Rightarrow> lock_filter \<Rightarrow>
     zat \<Rightarrow> (nat \<times> zat) option may_panic" where
  "pool_meta E w a pool selector target exclude lf balance =
     (case pool of
        PoolSapling \<Rightarrow> Option.bind (note_values E (eligible_sapling w a target None exclude lf))
          (\<lambda>vs. count_matching E w selector balance vs (0, 0))
      | PoolIronwood \<Rightarrow> Option.bind (note_values E (eligible_ironwood w a target None exclude lf))
          (\<lambda>vs. count_matching E w selector balance vs (0, 0))
      | _ \<Rightarrow> Some None)"

definition get_account_metadata ::
  "('ua, 'cm) zenv \<Rightarrow> ('t, 'n, 'k) wallet \<Rightarrow> account \<Rightarrow> note_filter \<Rightarrow> height \<Rightarrow> note_id list \<Rightarrow> lock_filter \<Rightarrow>
     (wallet_error + ((nat \<times> zat) option \<times> (nat \<times> zat) option)) may_panic" where
  "get_account_metadata E w a selector target exclude lf =
     (if \<not> bt_has (w_ufvks w) a then Some (Inl (AccountUnknown a))
      else do {
        balance \<leftarrow> shielded_unspent_total E w a target exclude lf;
        sapling \<leftarrow> pool_meta E w a PoolSapling selector target exclude lf balance;
        ironwood \<leftarrow> pool_meta E w a PoolIronwood selector target exclude lf balance;
        Some (Inr (sapling, ironwood))
      })"

section \<open>Balances and note reads (\<open>src/wallet/read.rs\<close>)\<close>

datatype bucket = Uneconomic | PendingChange | PendingSpendable | LockedValue | Spendable

text \<open>The bucket of a balance that \<open>add_note_to_balance\<close> adds an unspent note to.\<close>

definition balance_bucket :: "('t, 'n, 'k) wallet \<Rightarrow> note_id \<Rightarrow> bool \<Rightarrow> zat \<Rightarrow> height \<Rightarrow> confirmations_policy \<Rightarrow> bucket" where
  "balance_bucket w i is_change value target policy =
     (if value \<le> MARGINAL_FEE then Uneconomic
      else (case bt_get (w_statuses w) (nid_txid i) of
          Some (Mined mined) \<Rightarrow>
            if \<not> target - required_confirmations w (nid_txid i) is_change policy \<ge> mined
            then (if is_change then PendingChange else PendingSpendable)
            else if lock_is_live w i target then LockedValue
            else Spendable
        | _ \<Rightarrow> if is_change then PendingChange else PendingSpendable))"

text \<open>The additions of a summary, in order: account, pool, bucket and value of each unspent note;
  \<open>add\<close> is the library's checked addition to an account's balance.\<close>

definition summary_target :: "('t, 'n, 'k) wallet \<Rightarrow> height option" where
  "summary_target w =
     (case w_zebra_tip w of
        Some tip \<Rightarrow> Some (next_height tip)
      | None \<Rightarrow> if w_blocks w \<noteq> [] then Some (next_height (bm_height (wallet_tip w))) else None)"

definition summary_entry ::
  "('t, 'n, 'k) wallet \<Rightarrow> pool_type \<Rightarrow> height \<Rightarrow> confirmations_policy \<Rightarrow> note_id \<times> 'n wallet_output \<Rightarrow>
     account \<times> pool_type \<times> bucket \<times> zat" where
  "summary_entry w pool target policy = (\<lambda>(i, out).
     (wo_account out, pool, balance_bucket w i (counts_as_change out) (wo_value out) target policy, wo_value out))"

definition summary_entries ::
  "('t, 'n, 'k) wallet \<Rightarrow> height \<Rightarrow> confirmations_policy \<Rightarrow> (account \<times> pool_type \<times> bucket \<times> zat) list" where
  "summary_entries w target policy =
     map (summary_entry w PoolSapling target policy)
         (filter (\<lambda>(i, _). \<not> sapling_note_is_spent w i target) (w_sapling_notes w)) @
     map (summary_entry w PoolIronwood target policy)
         (filter (\<lambda>(i, _). \<not> ironwood_note_is_spent w i target) (w_ironwood_notes w))"

definition scan_progress :: "('t, 'n, 'k) wallet \<Rightarrow> height \<Rightarrow> nat \<times> nat" where
  "scan_progress w chain_tip =
     (let birthday = (case wallet_birthday w of Some b \<Rightarrow> b | None \<Rightarrow> next_height (bm_height (w_seed w)));
          scanned = bm_height (wallet_tip w) - birthday + 1;
          known = chain_tip - birthday + 1
      in if known = 0 then (1, 1) else (min scanned known, known))"

definition unspent_sapling_notes :: "('t, 'n, 'k) wallet \<Rightarrow> account \<Rightarrow> height \<Rightarrow> 'n received_note list" where
  "unspent_sapling_notes w a tip =
     List.map_filter (\<lambda>(i, _). sapling_received_note w i)
       (filter (\<lambda>(i, out). wo_account out = a \<and> \<not> sapling_note_is_spent w i tip
           \<and> lock_admits w i tip (LockPolicy EXCLUDE_LOCKED)) (w_sapling_notes w))"

definition unspent_ironwood_notes :: "('t, 'n, 'k) wallet \<Rightarrow> account \<Rightarrow> height \<Rightarrow> 'n received_note list" where
  "unspent_ironwood_notes w a tip =
     List.map_filter (\<lambda>(i, _). ironwood_received_note w i)
       (filter (\<lambda>(i, out). wo_account out = a \<and> \<not> ironwood_note_is_spent w i tip
           \<and> lock_admits w i tip (LockPolicy EXCLUDE_LOCKED)) (w_ironwood_notes w))"

definition unspent_ironwood_note :: "('t, 'n, 'k) wallet \<Rightarrow> account \<Rightarrow> note_id \<Rightarrow> height \<Rightarrow> 'n received_note option" where
  "unspent_ironwood_note w a i tip =
     Option.bind (bt_get (w_ironwood_notes w) i) (\<lambda>out.
       if wo_account out = a \<and> \<not> ironwood_note_is_spent w i tip \<and> lock_admits w i tip (LockPolicy EXCLUDE_LOCKED)
       then ironwood_received_note w i else None)"

definition unspent_ironwood_note_by_nullifier ::
  "('t, 'n, 'k) wallet \<Rightarrow> account \<Rightarrow> nullifier \<Rightarrow> height \<Rightarrow> 'n received_note option" where
  "unspent_ironwood_note_by_nullifier w a nf tip =
     Option.bind (bt_get (w_ironwood_nullifiers w) nf) (\<lambda>i. unspent_ironwood_note w a i tip)"

text \<open>The largest retained checkpoint at or below a bound, by counting down to the store's floor.\<close>

fun checkpoint_walk :: "('t, 'h, 'f) tree_ops \<Rightarrow> 't \<Rightarrow> height \<Rightarrow> height \<Rightarrow> height option" where
  "checkpoint_walk T t floor' h =
     (if h < floor' then None
      else if t_has_checkpoint T t h then Some h
      else if h = floor' then None
      else checkpoint_walk T t floor' (h - 1))"

declare checkpoint_walk.simps [simp del]

definition max_checkpoint_at_or_below :: "('t, 'h, 'f) tree_ops \<Rightarrow> 't \<Rightarrow> height \<Rightarrow> height \<Rightarrow> height option" where
  "max_checkpoint_at_or_below T t start bound =
     Option.bind (t_min_checkpoint T t) (\<lambda>floor'. checkpoint_walk T t floor' (min start bound))"

definition get_target_and_anchor_heights ::
  "('t, 'h, 'f) tree_ops \<Rightarrow> ('t, 'n, 'k) wallet \<Rightarrow> nat \<Rightarrow> (height \<times> height) option" where
  "get_target_and_anchor_heights T w min_confirmations =
     (if w_blocks w = [] then None
      else
        let target = next_height (bm_height (wallet_tip w));
            bound = target - min_confirmations;
            sapling = max_checkpoint_at_or_below T (w_sapling_tree w) bound bound;
            ironwood = max_checkpoint_at_or_below T (w_ironwood_tree w) bound bound
        in map_option (Pair target)
             (case (sapling, ironwood) of
                (Some s, Some i) \<Rightarrow> Some (min s i)
              | (Some s, None) \<Rightarrow> Some s
              | (None, i) \<Rightarrow> i))"

datatype nullifier_query = QueryAll | QueryUnspent

definition live_nullifiers ::
  "(note_id, 'n wallet_output) btree \<Rightarrow> (note_id, txid) btree \<Rightarrow> (txid, tx_status) btree \<Rightarrow> (nullifier, note_id) btree \<Rightarrow>
     nullifier_query \<Rightarrow> (account \<times> nullifier) list" where
  "live_nullifiers notes spends statuses nullifiers query =
     List.map_filter (\<lambda>(nf, i).
         case bt_get notes i of
           None \<Rightarrow> None
         | Some out \<Rightarrow>
             (case query of
                QueryAll \<Rightarrow> Some (wo_account out, nf)
              | QueryUnspent \<Rightarrow>
                  (case Option.bind (bt_get spends i) (bt_get statuses) of
                     Some (Mined _) \<Rightarrow> None
                   | _ \<Rightarrow> Some (wo_account out, nf)))) nullifiers"

definition get_sapling_nullifiers :: "('t, 'n, 'k) wallet \<Rightarrow> nullifier_query \<Rightarrow> (account \<times> nullifier) list" where
  "get_sapling_nullifiers w query =
     live_nullifiers (w_sapling_notes w) (w_sapling_spends w) (w_statuses w) (w_sapling_nullifiers w) query"

definition get_ironwood_nullifiers :: "('t, 'n, 'k) wallet \<Rightarrow> nullifier_query \<Rightarrow> (account \<times> nullifier) list" where
  "get_ironwood_nullifiers w query =
     live_nullifiers (w_ironwood_notes w) (w_ironwood_spends w) (w_statuses w) (w_ironwood_nullifiers w) query"

definition remaining_confirmations :: "('t, 'n, 'k) wallet \<Rightarrow> txid \<Rightarrow> height \<Rightarrow> confirmations_policy \<Rightarrow> 'n wallet_output \<Rightarrow> nat" where
  "remaining_confirmations w txid target policy out =
     (let required = required_confirmations w txid (counts_as_change out) policy in
      case mined_height w txid of
        Some mined \<Rightarrow> required - (target - mined)
      | None \<Rightarrow> required)"

fun outputs_of_tx ::
  "('ua, 'cm) zenv \<Rightarrow> ('t, 'n, 'k) wallet \<Rightarrow> txid \<Rightarrow> pool_type \<Rightarrow> height \<Rightarrow> confirmations_policy \<Rightarrow>
     (note_id \<times> 'n wallet_output) list \<Rightarrow> (pool_type \<times> nat \<times> zat \<times> nat) list may_panic" where
  "outputs_of_tx E w txid pool target policy [] = Some []"
| "outputs_of_tx E w txid pool target policy ((i, out) # rest) =
     (if nid_txid i \<noteq> txid then outputs_of_tx E w txid pool target policy rest
      else Option.bind (zat_from_u64 E (wo_value out)) (\<lambda>v.
        map_option (Cons (pool, snd (snd i), v, remaining_confirmations w txid target policy out))
          (outputs_of_tx E w txid pool target policy rest)))"

definition get_received_outputs ::
  "('ua, 'cm) zenv \<Rightarrow> ('t, 'n, 'k) wallet \<Rightarrow> txid \<Rightarrow> height \<Rightarrow> confirmations_policy \<Rightarrow>
     (pool_type \<times> nat \<times> zat \<times> nat) list may_panic" where
  "get_received_outputs E w txid target policy =
     do {
       s \<leftarrow> outputs_of_tx E w txid PoolSapling target policy (w_sapling_notes w);
       i \<leftarrow> outputs_of_tx E w txid PoolIronwood target policy (w_ironwood_notes w);
       Some (s @ i)
     }"

end
