(* ===== verification/Wallet_Inv.thy ===== *)
theory Wallet_Inv
  imports Wallet_Input
begin

text \<open>
  The wallet's invariant: its blocks are the contiguous heights after the origin; every note it
  holds was mined in an applied block; its nullifier index, its spend records and its locks name
  only notes it holds. Every operation of the mint keeps it, so every wallet reachable from a
  new one has it.
\<close>

section \<open>Generic facts\<close>

declare upt_Suc [simp del] split_paired_All [simp del] split_paired_Ex [simp del]

lemma bt_has_iff: "bt_has m k \<longleftrightarrow> (\<exists>v. bt_get m k = Some v)"
  by (simp add: bt_has_def)

lemma bt_has_insert: "bt_ok m \<Longrightarrow> bt_has (bt_insert k v m) j \<longleftrightarrow> j = k \<or> bt_has m j"
  by (simp add: bt_has_def bt_simps)

lemma bt_retain_get: "bt_ok m \<Longrightarrow> bt_get (bt_retain p m) k = Some v \<longleftrightarrow> bt_get m k = Some v \<and> p k v"
  by (auto simp: bt_simps split: option.splits)

lemma bt_retain_has: "bt_ok m \<Longrightarrow> bt_has (bt_retain p m) k \<longleftrightarrow> (\<exists>v. bt_get m k = Some v \<and> p k v)"
  by (simp add: bt_has_iff bt_retain_get)

lemma fold_keeps: "p s \<Longrightarrow> (\<And>x s. x \<in> set xs \<Longrightarrow> p s \<Longrightarrow> p (f x s)) \<Longrightarrow> p (fold f xs s)"
  by (induction xs arbitrary: s) auto

lemma bt_ok_or_insert: "bt_ok m \<Longrightarrow> bt_ok (or_insert k v m)"
  by (simp add: or_insert_def bt.ok_upd split: option.split)

lemma bt_get_or_insert:
  "bt_ok m \<Longrightarrow> bt_get (or_insert k v m) j = (if j = k \<and> bt_get m k = None then Some v else bt_get m j)"
  by (auto simp: or_insert_def bt_simps split: option.split)

lemma bt_ok_map_values: "bt_ok m \<Longrightarrow> bt_ok (map (\<lambda>(k, v). (k, f v)) m)"
  by (simp add: bt_ok_def comp_def case_prod_unfold)

lemma bt_get_map_values: "bt_get (map (\<lambda>(k, v). (k, f v)) m) k = map_option f (bt_get m k)"
  by (induction m) (auto simp: bt_get_def)

lemma bt_insert_last: "(\<And>j. j \<in> set (map fst m) \<Longrightarrow> j < k) \<Longrightarrow> bt_insert k v m = m @ [(k, v)]"
  by (fastforce simp: bt_insert_def filter_empty_conv filter_id_conv)

section \<open>The invariant\<close>

definition chain_ok :: "('t, 'n, 'k) wallet \<Rightarrow> bool" where
  "chain_ok w \<longleftrightarrow>
     (let s = bm_height (w_seed w) in
      map fst (w_blocks w) = [Suc s..<Suc s + length (w_blocks w)] \<and>
      list_all (\<lambda>(h, m). bm_height m = h) (w_blocks w) \<and> s + length (w_blocks w) \<le> U32_MAX)"

definition tables_ok :: "('t, 'n, 'k) wallet \<Rightarrow> bool" where
  "tables_ok w \<longleftrightarrow>
     bt_ok (w_sapling_notes w) \<and> bt_ok (w_ironwood_notes w) \<and> bt_ok (w_sapling_spends w) \<and> bt_ok (w_ironwood_spends w) \<and>
     bt_ok (w_sapling_nullifiers w) \<and> bt_ok (w_ironwood_nullifiers w) \<and> bt_ok (w_locks w) \<and> bt_ok (w_statuses w) \<and>
     bt_ok (w_transactions w) \<and> bt_ok (w_memos w)"

text \<open>A note's identifier carries its table's pool and an index of sixteen bits.\<close>

definition keys_ok :: "pool_type \<Rightarrow> (note_id, 'n wallet_output) btree \<Rightarrow> bool" where
  "keys_ok pool notes \<longleftrightarrow> (\<forall>i. bt_has notes i \<longrightarrow> (\<exists>txid j. i = (txid, pool, j) \<and> j < 2 ^ 16))"

definition index_ok ::
  "(note_id, 'n wallet_output) btree \<Rightarrow> (note_id, txid) btree \<Rightarrow> (nullifier, note_id) btree \<Rightarrow> bool" where
  "index_ok notes spends nullifiers \<longleftrightarrow>
     (\<forall>nf i. bt_get nullifiers nf = Some i \<longrightarrow> bt_has notes i) \<and> (\<forall>i. bt_has spends i \<longrightarrow> bt_has notes i)"

definition mined_in :: "(height \<Rightarrow> bool) \<Rightarrow> (txid, tx_status) btree \<Rightarrow> (note_id, 'n wallet_output) btree \<Rightarrow> bool" where
  "mined_in H statuses notes \<longleftrightarrow>
     (\<forall>i. bt_has notes i \<longrightarrow> (\<exists>h. bt_get statuses (nid_txid i) = Some (Mined h) \<and> H h))"

definition locks_ok :: "('t, 'n, 'k) wallet \<Rightarrow> bool" where
  "locks_ok w \<longleftrightarrow> (\<forall>out. bt_has (w_locks w) out \<longrightarrow> output_account w out \<noteq> None)"

definition core_ok :: "(height \<Rightarrow> bool) \<Rightarrow> ('t, 'n, 'k) wallet \<Rightarrow> bool" where
  "core_ok H w \<longleftrightarrow>
     tables_ok w \<and> keys_ok PoolSapling (w_sapling_notes w) \<and> keys_ok PoolIronwood (w_ironwood_notes w) \<and>
     index_ok (w_sapling_notes w) (w_sapling_spends w) (w_sapling_nullifiers w) \<and>
     index_ok (w_ironwood_notes w) (w_ironwood_spends w) (w_ironwood_nullifiers w) \<and>
     mined_in H (w_statuses w) (w_sapling_notes w) \<and> mined_in H (w_statuses w) (w_ironwood_notes w) \<and> locks_ok w"

definition wallet_inv :: "('t, 'n, 'k) wallet \<Rightarrow> bool" where
  "wallet_inv w \<longleftrightarrow> chain_ok w \<and> core_ok (bt_has (w_blocks w)) w"

lemmas core_defs = core_ok_def tables_ok_def keys_ok_def index_ok_def mined_in_def locks_ok_def

subsection \<open>The chain of blocks\<close>

lemma chain_ok_bt: "chain_ok w \<Longrightarrow> bt_ok (w_blocks w)"
  unfolding chain_ok_def bt_ok_def Let_def by simp

lemma chain_ok_has:
  "chain_ok w \<Longrightarrow> bt_has (w_blocks w) h \<longleftrightarrow>
     bm_height (w_seed w) < h \<and> h \<le> bm_height (w_seed w) + length (w_blocks w)"
proof -
  assume c: "chain_ok w"
  have "bt_has (w_blocks w) h \<longleftrightarrow> h \<in> set (map fst (w_blocks w))"
    by (auto simp: bt_has_def bt_get_def map_of_eq_None_iff)
  also have "\<dots> \<longleftrightarrow> h \<in> set [Suc (bm_height (w_seed w))..<Suc (bm_height (w_seed w)) + length (w_blocks w)]"
    using c by (simp add: chain_ok_def Let_def)
  finally show ?thesis by auto
qed

lemma chain_ok_meta: "chain_ok w \<Longrightarrow> bt_get (w_blocks w) h = Some m \<Longrightarrow> bm_height m = h"
  by (auto simp: chain_ok_def Let_def list_all_iff bt_get_def dest!: map_of_SomeD)

lemma tip_height:
  assumes "chain_ok w"
  shows "bm_height (wallet_tip w) = bm_height (w_seed w) + length (w_blocks w)"
proof (cases "w_blocks w = []")
  case True
  then show ?thesis by (simp add: wallet_tip_def bt_last_def)
next
  case False
  obtain h m where l: "last (w_blocks w) = (h, m)" by force
  have "fst (last (w_blocks w)) = last (map fst (w_blocks w))" using False by (simp add: last_map)
  also have "\<dots> = bm_height (w_seed w) + length (w_blocks w)"
    using assms False by (simp add: chain_ok_def Let_def)
  finally have "h = bm_height (w_seed w) + length (w_blocks w)" using l by simp
  moreover have "bm_height m = h"
    using assms l last_in_set [OF False] by (auto simp: chain_ok_def Let_def list_all_iff)
  ultimately show ?thesis using False l by (simp add: wallet_tip_def bt_last_def)
qed

lemma tip_is_last: "w_blocks w \<noteq> [] \<Longrightarrow> chain_ok w \<Longrightarrow> last (w_blocks w) = (bm_height (wallet_tip w), wallet_tip w)"
proof -
  assume ne: "w_blocks w \<noteq> []" and c: "chain_ok w"
  obtain h m where l: "last (w_blocks w) = (h, m)" by force
  have "bm_height m = h" using c l last_in_set [OF ne] by (auto simp: chain_ok_def Let_def list_all_iff)
  then show ?thesis using ne l by (simp add: wallet_tip_def bt_last_def)
qed

lemma chain_ok_append:
  assumes "chain_ok w" and "h = Suc (bm_height (wallet_tip w))" and "h \<le> U32_MAX" and "bm_height m = h"
  shows "bt_insert h m (w_blocks w) = w_blocks w @ [(h, m)]"
    and "chain_ok (w\<lparr>w_blocks := w_blocks w @ [(h, m)]\<rparr>)"
proof -
  have h: "h = Suc (bm_height (w_seed w) + length (w_blocks w))" using assms(1,2) tip_height by simp
  have "j < h" if "j \<in> set (map fst (w_blocks w))" for j
  proof -
    have "map fst (w_blocks w) = [Suc (bm_height (w_seed w))..<Suc (bm_height (w_seed w)) + length (w_blocks w)]"
      using assms(1) by (simp add: chain_ok_def Let_def)
    with that h show ?thesis by simp
  qed
  then show "bt_insert h m (w_blocks w) = w_blocks w @ [(h, m)]" by (rule bt_insert_last)
  show "chain_ok (w\<lparr>w_blocks := w_blocks w @ [(h, m)]\<rparr>)"
    using assms(1,3,4) h by (simp add: chain_ok_def Let_def upt_Suc_append)
qed

text \<open>Retaining the blocks up to a height keeps a prefix.\<close>

lemma retain_blocks:
  assumes "chain_ok w"
  shows "bt_retain (\<lambda>h _. h \<le> height) (w_blocks w) = take (height - bm_height (w_seed w)) (w_blocks w)"
proof -
  let ?s = "bm_height (w_seed w)"
  have gen: "filter (\<lambda>(h, _). h \<le> height) xs = take (height - s) xs"
    if "map fst xs = [Suc s..<Suc s + length xs]" for xs :: "(nat \<times> block_metadata) list" and s
    using that
  proof (induction xs arbitrary: s)
    case (Cons x xs)
    from Cons.prems have x: "fst x = Suc s" and t: "map fst xs = [Suc (Suc s)..<Suc (Suc s) + length xs]"
      by (auto simp: upt_conv_Cons)
    show ?case
    proof (cases "Suc s \<le> height")
      case True
      then have "height - s = Suc (height - Suc s)" by simp
      with Cons.IH [OF t] True x show ?thesis by (cases x) simp
    next
      case False
      then have "height - s = 0" and "height - Suc s = 0" by simp_all
      with Cons.IH [OF t] False x show ?thesis by (cases x) simp
    qed
  qed simp
  show ?thesis unfolding bt_retain_def
    by (rule gen) (use assms in \<open>simp add: chain_ok_def Let_def\<close>)
qed

lemma chain_ok_take:
  assumes "chain_ok w"
  shows "chain_ok (w\<lparr>w_blocks := take k (w_blocks w)\<rparr>)"
proof -
  have "map fst (take k (w_blocks w)) = take k (map fst (w_blocks w))" by (simp add: take_map)
  also have "\<dots> = [Suc (bm_height (w_seed w))..<Suc (bm_height (w_seed w)) + length (take k (w_blocks w))]"
    using assms by (simp add: chain_ok_def Let_def take_upt min_def)
  finally show ?thesis using assms
    by (auto simp: chain_ok_def Let_def list_all_iff dest: in_set_takeD)
qed

lemma chain_ok_cong:
  "w_blocks w' = w_blocks w \<Longrightarrow> w_seed w' = w_seed w \<Longrightarrow> chain_ok w' \<longleftrightarrow> chain_ok w"
  by (simp add: chain_ok_def)

subsection \<open>Receiving and spending\<close>

lemma output_account_iff:
  "output_account w (t, p, j) \<noteq> None \<longleftrightarrow>
     j < 2 ^ 16 \<and> (p = PoolSapling \<and> bt_has (w_sapling_notes w) (t, p, j) \<or>
                  p = PoolIronwood \<and> bt_has (w_ironwood_notes w) (t, p, j))"
  by (cases p) (auto simp: output_account_def u16_index_def bt_has_def)

lemma output_account_cong:
  assumes "w_sapling_notes w' = w_sapling_notes w" and "w_ironwood_notes w' = w_ironwood_notes w"
  shows "output_account w' = output_account w"
  unfolding output_account_def assms ..

lemma output_account_frame [simp]:
  "output_account (w\<lparr>w_blocks := a\<rparr>) = output_account w"
  "output_account (w\<lparr>w_zebra_tip := b\<rparr>) = output_account w"
  "output_account (w\<lparr>w_locks := c\<rparr>) = output_account w"
  "output_account (w\<lparr>w_sapling_tree := t\<rparr>) = output_account w"
  "output_account (w\<lparr>w_orchard_tree := t\<rparr>) = output_account w"
  "output_account (w\<lparr>w_ironwood_tree := t\<rparr>) = output_account w"
  "output_account (w\<lparr>w_trusted := d\<rparr>) = output_account w"
  "output_account (w\<lparr>w_seed := e\<rparr>) = output_account w"
  "output_account (w\<lparr>w_birthdays := f\<rparr>) = output_account w"
  by (rule output_account_cong; simp)+

lemma output_account_mono:
  assumes "\<And>i. bt_has (w_sapling_notes w) i \<Longrightarrow> bt_has (w_sapling_notes w') i"
    and "\<And>i. bt_has (w_ironwood_notes w) i \<Longrightarrow> bt_has (w_ironwood_notes w') i"
    and "output_account w out \<noteq> None"
  shows "output_account w' out \<noteq> None"
proof -
  obtain t p j where "out = (t, p, j)" by (cases out)
  with assms show ?thesis by (simp only: output_account_iff) blast
qed

definition lane_ok :: "pool_type \<Rightarrow> (note_id, 'n wallet_output) btree \<Rightarrow> (nullifier, note_id) btree \<Rightarrow> bool" where
  "lane_ok pool tbl nfs \<longleftrightarrow>
     bt_ok tbl \<and> bt_ok nfs \<and> keys_ok pool tbl \<and> (\<forall>nf i. bt_get nfs nf = Some i \<longrightarrow> bt_has tbl i)"

lemma lane_ok_insert:
  assumes "lane_ok pool tbl nfs" and "j < 2 ^ 16"
  shows "lane_ok pool (bt_insert (txid, pool, j) out tbl)
           (case nf of Some n \<Rightarrow> bt_insert n (txid, pool, j) nfs | None \<Rightarrow> nfs)"
  using assms by (auto simp: lane_ok_def keys_ok_def bt.ok_upd bt_has_insert bt_simps split: option.splits if_splits)

text \<open>Receiving outputs keeps a lane well formed and adds notes of that transaction only.\<close>

lemma insert_outputs_lane:
  assumes "insert_outputs txid pool outs (tbl, nfs) = Some (tbl', nfs')" and "lane_ok pool tbl nfs"
  shows "lane_ok pool tbl' nfs' \<and> (\<forall>i. bt_has tbl i \<longrightarrow> bt_has tbl' i) \<and>
         (\<forall>i. bt_has tbl' i \<longrightarrow> bt_has tbl i \<or> nid_txid i = txid)"
  using assms
proof (induction outs arbitrary: tbl nfs)
  case Nil
  then show ?case by simp
next
  case (Cons out outs)
  from Cons.prems obtain j where j: "u16_index (wo_index out) = Some j"
    and rest: "insert_outputs txid pool outs (bt_insert (txid, pool, j) out tbl,
          case wo_nf out of Some nf \<Rightarrow> bt_insert nf (txid, pool, j) nfs | None \<Rightarrow> nfs) = Some (tbl', nfs')"
    by (auto split: Option.bind_splits)
  have "j < 2 ^ 16" using j by (simp add: u16_index_def split: if_splits)
  with Cons.prems(2) have "lane_ok pool (bt_insert (txid, pool, j) out tbl)
      (case wo_nf out of Some nf \<Rightarrow> bt_insert nf (txid, pool, j) nfs | None \<Rightarrow> nfs)"
    by (rule lane_ok_insert)
  from Cons.IH [OF rest this] show ?case
    using Cons.prems(2) by (auto simp: lane_ok_def bt_has_insert nid_txid_def)
qed

lemma core_lanes:
  "core_ok H w \<Longrightarrow> lane_ok PoolSapling (w_sapling_notes w) (w_sapling_nullifiers w) \<and>
     lane_ok PoolIronwood (w_ironwood_notes w) (w_ironwood_nullifiers w)"
  by (simp add: core_ok_def tables_ok_def index_ok_def lane_ok_def)

lemma mined_in_statuses:
  "mined_in H st tbl \<Longrightarrow> (\<And>txid h. bt_get st txid = Some (Mined h) \<Longrightarrow> bt_get st' txid = Some (Mined h)) \<Longrightarrow>
     mined_in H st' tbl"
  unfolding mined_in_def by blast

lemma mined_in_receive:
  assumes "mined_in H st tbl" and "\<And>i. bt_has tbl' i \<Longrightarrow> bt_has tbl i \<or> nid_txid i = txid" and "H h" and "bt_ok st"
  shows "mined_in H (bt_insert txid (Mined h) st) tbl'"
  using assms unfolding mined_in_def by (metis bt.lookup_upd fun_upd_apply)

lemma core_receive:
  assumes "receive_tx height wtx w = Some w'" and "core_ok H w" and "H height"
  shows "core_ok H w'"
proof -
  from assms(1) obtain sn sf ir irf where
    s: "insert_outputs (wt_txid wtx) PoolSapling (wt_sapling_outputs wtx) (w_sapling_notes w, w_sapling_nullifiers w) = Some (sn, sf)"
    and i: "insert_outputs (wt_txid wtx) PoolIronwood (wt_ironwood_outputs wtx) (w_ironwood_notes w, w_ironwood_nullifiers w) = Some (ir, irf)"
    and w': "w' = w\<lparr>w_statuses := bt_insert (wt_txid wtx) (Mined height) (w_statuses w),
               w_indices := bt_insert (wt_txid wtx) (wt_index wtx) (w_indices w),
               w_sapling_notes := sn, w_sapling_nullifiers := sf, w_ironwood_notes := ir, w_ironwood_nullifiers := irf\<rparr>"
    by (auto simp: receive_tx_def split: Option.bind_splits)
  note ls = insert_outputs_lane [OF s] and li = insert_outputs_lane [OF i]
  have lanes: "lane_ok PoolSapling (w_sapling_notes w) (w_sapling_nullifiers w)"
    "lane_ok PoolIronwood (w_ironwood_notes w) (w_ironwood_nullifiers w)" using core_lanes [OF assms(2)] by auto
  have st: "bt_ok (w_statuses w)" using assms(2) by (simp add: core_ok_def tables_ok_def)
  have acc: "output_account w' out \<noteq> None" if "output_account w out \<noteq> None" for out
    by (rule output_account_mono [OF _ _ that]) (use ls li lanes w' in auto)
  show ?thesis
    unfolding core_ok_def
  proof (intro conjI)
    show "tables_ok w'" using assms(2) ls li lanes
      by (simp add: w' core_ok_def tables_ok_def lane_ok_def bt.ok_upd)
    show "keys_ok PoolSapling (w_sapling_notes w')" "keys_ok PoolIronwood (w_ironwood_notes w')"
      using ls li lanes by (simp_all add: w' lane_ok_def)
    show "index_ok (w_sapling_notes w') (w_sapling_spends w') (w_sapling_nullifiers w')"
      "index_ok (w_ironwood_notes w') (w_ironwood_spends w') (w_ironwood_nullifiers w')"
      using ls li lanes assms(2) by (auto simp: w' lane_ok_def index_ok_def core_ok_def)
    show "mined_in H (w_statuses w') (w_sapling_notes w')" "mined_in H (w_statuses w') (w_ironwood_notes w')"
      using mined_in_receive [of H "w_statuses w" "w_sapling_notes w" sn "wt_txid wtx" height]
        mined_in_receive [of H "w_statuses w" "w_ironwood_notes w" ir "wt_txid wtx" height]
        ls li lanes assms(2,3) st by (simp_all add: w' core_ok_def)
    show "locks_ok w'" using acc assms(2) by (simp add: w' locks_ok_def core_ok_def)
  qed
qed

lemma core_receive_txs:
  "receive_txs height txs w = Some w' \<Longrightarrow> core_ok H w \<Longrightarrow> H height \<Longrightarrow> core_ok H w'"
  by (induction txs arbitrary: w) (auto split: Option.bind_splits dest: core_receive)

text \<open>Recording spends names only notes of the index.\<close>

lemma record_spends_ok:
  assumes "bt_ok spends" and "\<forall>i. bt_has spends i \<longrightarrow> P i" and "\<forall>nf i. bt_get nullifiers nf = Some i \<longrightarrow> P i"
  shows "bt_ok (record_spends nullifiers txid nfs spends) \<and> (\<forall>i. bt_has (record_spends nullifiers txid nfs spends) i \<longrightarrow> P i)"
  unfolding record_spends_def
  by (rule fold_keeps [where p = "\<lambda>m. bt_ok m \<and> (\<forall>i. bt_has m i \<longrightarrow> P i)"])
    (use assms in \<open>auto simp: bt.ok_upd bt_has_insert split: option.splits\<close>)

lemma core_cong:
  assumes "core_ok H w" and "tables_ok w'"
    and "index_ok (w_sapling_notes w) (w_sapling_spends w') (w_sapling_nullifiers w)"
    and "index_ok (w_ironwood_notes w) (w_ironwood_spends w') (w_ironwood_nullifiers w)"
    and "w_sapling_notes w' = w_sapling_notes w" "w_ironwood_notes w' = w_ironwood_notes w"
    and "w_sapling_nullifiers w' = w_sapling_nullifiers w" "w_ironwood_nullifiers w' = w_ironwood_nullifiers w"
    and "\<And>txid h. bt_get (w_statuses w) txid = Some (Mined h) \<Longrightarrow> bt_get (w_statuses w') txid = Some (Mined h)"
    and "\<And>out. bt_has (w_locks w') out \<Longrightarrow> output_account w out \<noteq> None"
  shows "core_ok H w'"
proof -
  have "output_account w' out \<noteq> None" if "output_account w out \<noteq> None" for out
    by (rule output_account_mono [OF _ _ that]) (simp_all add: assms(5,6))
  moreover have "mined_in H (w_statuses w') (w_sapling_notes w)" "mined_in H (w_statuses w') (w_ironwood_notes w)"
    using assms(1,9) mined_in_statuses unfolding core_ok_def by blast+
  ultimately show ?thesis using assms by (simp add: core_ok_def locks_ok_def)
qed

lemma core_spend: "core_ok H w \<Longrightarrow> core_ok H (spend_tx wtx w)"
proof -
  assume c: "core_ok H w"
  have s: "bt_ok (record_spends (w_sapling_nullifiers w) t ns (w_sapling_spends w)) \<and>
      (\<forall>i. bt_has (record_spends (w_sapling_nullifiers w) t ns (w_sapling_spends w)) i \<longrightarrow> bt_has (w_sapling_notes w) i)"
    and i: "bt_ok (record_spends (w_ironwood_nullifiers w) t ns (w_ironwood_spends w)) \<and>
      (\<forall>i. bt_has (record_spends (w_ironwood_nullifiers w) t ns (w_ironwood_spends w)) i \<longrightarrow> bt_has (w_ironwood_notes w) i)"
    for t ns
    using c record_spends_ok [of "w_sapling_spends w" "bt_has (w_sapling_notes w)" "w_sapling_nullifiers w" t ns]
      record_spends_ok [of "w_ironwood_spends w" "bt_has (w_ironwood_notes w)" "w_ironwood_nullifiers w" t ns]
    by (simp_all only: core_ok_def tables_ok_def index_ok_def) blast+
  show ?thesis
    by (rule core_cong [OF c])
      (use c s i in \<open>auto simp: spend_tx_def core_ok_def tables_ok_def index_ok_def locks_ok_def\<close>)
qed

lemma core_spends: "core_ok H w \<Longrightarrow> core_ok H (fold spend_tx txs w)"
  by (rule fold_keeps) (auto intro: core_spend)

lemma core_mono: "core_ok H w \<Longrightarrow> (\<And>h. H h \<Longrightarrow> H' h) \<Longrightarrow> core_ok H' w"
  by (fastforce simp: core_ok_def mined_in_def)

end
