(* ===== verification/Wallet_Steps.thy ===== *)
theory Wallet_Steps
  imports Wallet_Inv
begin

text \<open>
  The wallet as a transition system: the operations the mint calls as one step relation, and that
  every step keeps the invariant of \<open>Wallet_Inv\<close>.
\<close>

section \<open>Blocks\<close>

lemma receive_frame:
  "receive_tx height wtx w = Some w' \<Longrightarrow>
     w_blocks w' = w_blocks w \<and> w_seed w' = w_seed w \<and> w_locks w' = w_locks w \<and> w_transactions w' = w_transactions w \<and>
     w_sapling_spends w' = w_sapling_spends w \<and> w_ironwood_spends w' = w_ironwood_spends w"
  by (auto simp: receive_tx_def split: Option.bind_splits)

lemma receive_txs_frame:
  "receive_txs height txs w = Some w' \<Longrightarrow> w_blocks w' = w_blocks w \<and> w_seed w' = w_seed w"
  by (induction txs arbitrary: w) (auto split: Option.bind_splits dest!: receive_frame)

lemma spends_frame:
  "w_blocks (fold spend_tx txs w) = w_blocks w \<and> w_seed (fold spend_tx txs w) = w_seed w"
  by (induction txs arbitrary: w) (auto simp: spend_tx_def)

lemma core_ok_blocks: "core_ok H (w\<lparr>w_blocks := bs\<rparr>) \<longleftrightarrow> core_ok H w"
  by (simp add: core_ok_def tables_ok_def locks_ok_def)

lemma core_ok_trees:
  "core_ok H (w\<lparr>w_sapling_tree := a, w_orchard_tree := b, w_ironwood_tree := c\<rparr>) \<longleftrightarrow> core_ok H w"
  by (simp add: core_ok_def tables_ok_def locks_ok_def)

lemma core_ok_tip: "core_ok H (update_chain_tip h w) \<longleftrightarrow> core_ok H w"
  by (simp add: update_chain_tip_def core_ok_def tables_ok_def locks_ok_def)

lemma inv_trees:
  "wallet_inv (w\<lparr>w_sapling_tree := a, w_orchard_tree := b, w_ironwood_tree := c\<rparr>) \<longleftrightarrow> wallet_inv w"
  by (simp add: wallet_inv_def core_ok_trees chain_ok_def)

lemma inv_tip: "wallet_inv (update_chain_tip h w) \<longleftrightarrow> wallet_inv w"
  unfolding wallet_inv_def core_ok_tip by (simp add: update_chain_tip_def chain_ok_def)

text \<open>One block: appended at the tip.\<close>

lemma put_block_inv:
  assumes "put_block b w = Some w'" and "wallet_inv w"
    and "sc_height b = Suc (bm_height (wallet_tip w))" and "sc_height b \<le> U32_MAX"
  shows "wallet_inv w' \<and> w_blocks w' = w_blocks w @ [(sc_height b, to_block_metadata b)] \<and> w_seed w' = w_seed w"
proof -
  from assms(1) obtain w1 where r: "receive_txs (sc_height b) (sc_txs b) w = Some w1"
    and w': "w' = (fold spend_tx (sc_txs b) w1)
      \<lparr>w_blocks := bt_insert (sc_height b) (to_block_metadata b) (w_blocks (fold spend_tx (sc_txs b) w1))\<rparr>"
    by (auto simp: put_block_def Let_def)
  let ?w2 = "fold spend_tx (sc_txs b) w1"
  have fr: "w_blocks ?w2 = w_blocks w" "w_seed ?w2 = w_seed w"
    using receive_txs_frame [OF r] by (simp_all add: spends_frame)
  have chain: "chain_ok w" using assms(2) by (simp add: wallet_inv_def)
  have ins: "bt_insert (sc_height b) (to_block_metadata b) (w_blocks w) = w_blocks w @ [(sc_height b, to_block_metadata b)]"
    and ch: "chain_ok (w\<lparr>w_blocks := w_blocks w @ [(sc_height b, to_block_metadata b)]\<rparr>)"
    using chain_ok_append [OF chain assms(3,4)] by (simp_all add: to_block_metadata_def)
  let ?H = "\<lambda>h. h = sc_height b \<or> bt_has (w_blocks w) h"
  have "core_ok ?H w" using assms(2) core_mono [of "bt_has (w_blocks w)" w ?H] by (simp add: wallet_inv_def)
  then have "core_ok ?H ?w2" using core_receive_txs [OF r, of ?H] core_spends [of ?H] by simp
  moreover have "?H h \<Longrightarrow> bt_has (w_blocks w') h" for h
    using bt_has_insert [OF chain_ok_bt [OF chain]] by (auto simp: w' fr)
  ultimately have "core_ok (bt_has (w_blocks w')) ?w2" by (rule core_mono)
  then have "core_ok (bt_has (w_blocks w')) w'" unfolding w' by (simp add: core_ok_blocks)
  moreover have "chain_ok w'"
    using ch chain_ok_cong [of w' "w\<lparr>w_blocks := w_blocks w @ [(sc_height b, to_block_metadata b)]\<rparr>"] by (simp add: w' fr ins)
  ultimately show ?thesis by (simp add: wallet_inv_def w' fr ins)
qed

lemma broken_link_step:
  "broken_link (a # bs) = None \<Longrightarrow> bs \<noteq> [] \<Longrightarrow> sc_height (hd bs) = next_height (sc_height a) \<and> broken_link bs = None"
  by (cases bs) (auto split: if_splits)

lemma next_height_Suc: "h < U32_MAX \<Longrightarrow> next_height h = Suc h"
  by (simp add: next_height_def)

lemma put_all_inv:
  assumes "put_all bs w = Some w'" and "wallet_inv w" and "broken_link bs = None"
    and "bs \<noteq> [] \<Longrightarrow> sc_height (hd bs) = Suc (bm_height (wallet_tip w))"
    and "bm_height (wallet_tip w) + length bs \<le> U32_MAX"
  shows "wallet_inv w' \<and> w_blocks w' = w_blocks w @ map (\<lambda>b. (sc_height b, to_block_metadata b)) bs \<and> w_seed w' = w_seed w"
  using assms
proof (induction bs arbitrary: w)
  case Nil
  then show ?case by simp
next
  case (Cons b bs)
  from Cons.prems obtain w1 where p: "put_block b w = Some w1" and rest: "put_all bs w1 = Some w'"
    by (auto split: Option.bind_splits)
  have hb: "sc_height b = Suc (bm_height (wallet_tip w))" "sc_height b \<le> U32_MAX"
    using Cons.prems(4,5) by simp_all
  note one = put_block_inv [OF p Cons.prems(2) hb]
  have tip1: "bm_height (wallet_tip w1) = sc_height b"
    using one hb tip_height [of w1] tip_height [of w] Cons.prems(2) by (simp add: wallet_inv_def)
  have "wallet_inv w' \<and> w_blocks w' = w_blocks w1 @ map (\<lambda>b. (sc_height b, to_block_metadata b)) bs \<and> w_seed w' = w_seed w1"
  proof (rule Cons.IH [OF rest])
    show "wallet_inv w1" using one by simp
    show "broken_link bs = None" using Cons.prems(3) broken_link_step [of b bs] by (cases "bs = []") simp_all
    show "bm_height (wallet_tip w1) + length bs \<le> U32_MAX" using tip1 hb Cons.prems(5) by simp
    show "sc_height (hd bs) = Suc (bm_height (wallet_tip w1))" if "bs \<noteq> []"
    proof -
      have "sc_height b < U32_MAX" using that hb Cons.prems(5) by (cases bs) simp_all
      then show ?thesis using broken_link_step [OF Cons.prems(3) that] next_height_Suc tip1 by simp
    qed
  qed
  with one show ?case by simp
qed

lemma continuity_None:
  assumes "continuity from_tip bs w = None" and "chain_ok w"
  shows "bm_height from_tip = bm_height (wallet_tip w) \<and> bm_hash from_tip = bm_hash (wallet_tip w) \<and>
         sc_height (hd bs) = next_height (bm_height (wallet_tip w)) \<and> broken_link bs = None"
proof (cases "w_blocks w = []")
  case True
  then show ?thesis using assms(1)
    by (auto simp: continuity_def bt_last_def wallet_tip_def split: if_splits option.splits)
next
  case False
  then show ?thesis using assms(1) tip_is_last [OF False assms(2)]
    by (auto simp: continuity_def bt_last_def split: if_splits option.splits)
qed

text \<open>A commit of blocks: the checks, the trees, the blocks, the tip.\<close>

lemma put_blocks_parts:
  assumes "put_blocks_marked T from_tip bs marks w = Some (Inr w')" and "bs \<noteq> []"
  obtains x y z w1 where "continuity from_tip bs w = None"
    "put_all bs (w\<lparr>w_sapling_tree := x, w_orchard_tree := y, w_ironwood_tree := z\<rparr>) = Some w1"
    "w' = (case bt_last (w_blocks w1) of Some (applied, _) \<Rightarrow> update_chain_tip applied w1 | None \<Rightarrow> w1)"
proof -
  have c: "continuity from_tip bs w = None"
    using assms by (cases "continuity from_tip bs w") (simp_all add: put_blocks_marked_def)
  have orchard: "\<not> list_ex (\<lambda>b. list_ex (\<lambda>wtx. wt_orchard_outputs wtx \<noteq> []) (sc_txs b)) bs"
    using assms c by (auto simp: put_blocks_marked_def)
  obtain x y z where trees: "append_blocks T marks bs (w_sapling_tree w, w_orchard_tree w, w_ironwood_tree w) = Inr (x, y, z)"
    using assms c orchard
    by (cases "append_blocks T marks bs (w_sapling_tree w, w_orchard_tree w, w_ironwood_tree w)")
      (auto simp: put_blocks_marked_def)
  obtain w1 where p: "put_all bs (w\<lparr>w_sapling_tree := x, w_orchard_tree := y, w_ironwood_tree := z\<rparr>) = Some w1"
    and w': "w' = (case bt_last (w_blocks w1) of Some (applied, _) \<Rightarrow> update_chain_tip applied w1 | None \<Rightarrow> w1)"
    using assms c orchard trees by (simp add: put_blocks_marked_def) blast
  from that [OF c p w'] show ?thesis .
qed

lemma put_blocks_law:
  assumes "put_blocks_marked T from_tip bs marks w = Some (Inr w')" and "wallet_inv w"
    and "bm_height (wallet_tip w) + length bs \<le> U32_MAX"
  shows "wallet_inv w' \<and> w_blocks w' = w_blocks w @ map (\<lambda>b. (sc_height b, to_block_metadata b)) bs \<and> w_seed w' = w_seed w"
proof (cases "bs = []")
  case True
  then show ?thesis using assms(1,2) by (simp add: put_blocks_marked_def)
next
  case False
  obtain x y z w1 where c: "continuity from_tip bs w = None"
    and p: "put_all bs (w\<lparr>w_sapling_tree := x, w_orchard_tree := y, w_ironwood_tree := z\<rparr>) = Some w1"
    and w': "w' = (case bt_last (w_blocks w1) of Some (applied, _) \<Rightarrow> update_chain_tip applied w1 | None \<Rightarrow> w1)"
    using put_blocks_parts [OF assms(1) False] by metis
  have chain: "chain_ok w" using assms(2) by (simp add: wallet_inv_def)
  have "bm_height (wallet_tip w) < U32_MAX" using assms(3) False by (cases bs) simp_all
  then have hd: "sc_height (hd bs) = Suc (bm_height (wallet_tip w))"
    using continuity_None [OF c chain] next_height_Suc by simp
  have tip: "wallet_tip (w\<lparr>w_sapling_tree := a, w_orchard_tree := b, w_ironwood_tree := c\<rparr>) = wallet_tip w" for a b c
    by (simp add: wallet_tip_def split: option.split)
  have "wallet_inv w1 \<and> w_blocks w1 = w_blocks w @ map (\<lambda>b. (sc_height b, to_block_metadata b)) bs \<and> w_seed w1 = w_seed w"
    using put_all_inv [OF p] assms(2,3) continuity_None [OF c chain] hd by (simp add: inv_trees tip)
  then show ?thesis unfolding w' by (auto simp: inv_tip [unfolded update_chain_tip_def] update_chain_tip_def split: option.splits)
qed

section \<open>Truncation\<close>

lemma drop_tables:
  "tables_ok w \<Longrightarrow> tables_ok (drop_applied_above height w)"
  by (simp add: tables_ok_def drop_applied_above_def drop_orphaned_def Let_def bt.ok_retain bt_ok_map_values)

text \<open>What a truncation leaves of each table.\<close>

lemma drop_notes:
  assumes "tables_ok w"
  shows "bt_get (w_sapling_notes (drop_applied_above height w)) i =
           (if mined_above w height (nid_txid i) then None else bt_get (w_sapling_notes w) i)"
    and "bt_get (w_ironwood_notes (drop_applied_above height w)) i =
           (if mined_above w height (nid_txid i) then None else bt_get (w_ironwood_notes w) i)"
  using assms by (auto simp: tables_ok_def drop_applied_above_def drop_orphaned_def Let_def bt_simps split: option.splits)

lemma drop_status:
  "bt_get (w_statuses (drop_applied_above height w)) txid = map_option (unmine height) (bt_get (w_statuses w) txid)"
  by (simp add: drop_applied_above_def drop_orphaned_def Let_def bt_get_map_values)

lemma drop_blocks: "chain_ok w \<Longrightarrow>
    w_blocks (drop_applied_above height w) = take (height - bm_height (w_seed w)) (w_blocks w)"
  by (simp add: drop_applied_above_def drop_orphaned_def Let_def retain_blocks)

lemma drop_frame:
  "w_seed (drop_applied_above height w) = w_seed w \<and> w_transactions (drop_applied_above height w) = w_transactions w"
  by (simp add: drop_applied_above_def drop_orphaned_def Let_def)

lemma drop_keys:
  assumes "keys_ok PoolSapling (w_sapling_notes w) \<and> keys_ok PoolIronwood (w_ironwood_notes w)" and "tables_ok w"
  shows "keys_ok PoolSapling (w_sapling_notes (drop_applied_above height w)) \<and>
         keys_ok PoolIronwood (w_ironwood_notes (drop_applied_above height w))"
  using assms drop_notes [OF assms(2)] unfolding keys_ok_def bt_has_def by metis

lemma drop_index:
  assumes "core_ok H w"
  shows "index_ok (w_sapling_notes (drop_applied_above h w)) (w_sapling_spends (drop_applied_above h w))
             (w_sapling_nullifiers (drop_applied_above h w)) \<and>
         index_ok (w_ironwood_notes (drop_applied_above h w)) (w_ironwood_spends (drop_applied_above h w))
             (w_ironwood_nullifiers (drop_applied_above h w))"
  using assms
  by (auto simp: core_ok_def tables_ok_def index_ok_def drop_applied_above_def drop_orphaned_def Let_def bt_retain_get bt_retain_has bt_has_iff)

lemma drop_mined:
  assumes "core_ok (bt_has (w_blocks w)) w" and "chain_ok w"
  shows "mined_in (bt_has (w_blocks (drop_applied_above h w))) (w_statuses (drop_applied_above h w))
           (w_sapling_notes (drop_applied_above h w)) \<and>
         mined_in (bt_has (w_blocks (drop_applied_above h w))) (w_statuses (drop_applied_above h w))
           (w_ironwood_notes (drop_applied_above h w))"
proof -
  let ?w = "drop_applied_above h w"
  have t: "tables_ok w" using assms(1) by (simp add: core_ok_def)
  have bl: "bt_has (w_blocks ?w) k \<longleftrightarrow> bt_has (w_blocks w) k \<and> k \<le> h" for k
    using bt_retain_has [OF chain_ok_bt [OF assms(2)]]
    by (simp add: drop_applied_above_def drop_orphaned_def Let_def bt_has_iff)
  have "mined_in (bt_has (w_blocks ?w)) (w_statuses ?w) tbl'"
    if "mined_in (bt_has (w_blocks w)) (w_statuses w) tbl"
      and "\<And>i. bt_has tbl' i \<Longrightarrow> bt_has tbl i \<and> \<not> mined_above w h (nid_txid i)"
    for tbl tbl' :: "(note_id, 'b wallet_output) btree"
    unfolding mined_in_def
  proof (intro allI impI)
    fix i
    assume i: "bt_has tbl' i"
    with that obtain k where k: "bt_get (w_statuses w) (nid_txid i) = Some (Mined k)" "bt_has (w_blocks w) k"
      unfolding mined_in_def by blast
    with that(2) [OF i] have "k \<le> h" by (simp add: mined_above_def)
    with k bl show "\<exists>k. bt_get (w_statuses ?w) (nid_txid i) = Some (Mined k) \<and> bt_has (w_blocks ?w) k"
      by (auto simp: drop_status)
  qed
  note gen = this
  have n: "bt_has (w_sapling_notes ?w) i \<Longrightarrow> bt_has (w_sapling_notes w) i \<and> \<not> mined_above w h (nid_txid i)"
    "bt_has (w_ironwood_notes ?w) i \<Longrightarrow> bt_has (w_ironwood_notes w) i \<and> \<not> mined_above w h (nid_txid i)" for i
    using drop_notes [OF t] by (simp_all add: bt_has_def split: if_splits)
  have "mined_in (bt_has (w_blocks w)) (w_statuses w) (w_sapling_notes w)"
    "mined_in (bt_has (w_blocks w)) (w_statuses w) (w_ironwood_notes w)" using assms(1) by (simp_all add: core_ok_def)
  with gen n show ?thesis by blast
qed

lemma drop_locks: "tables_ok w \<Longrightarrow> locks_ok (drop_applied_above h w)"
proof -
  assume t: "tables_ok w"
  have "w_locks (drop_orphaned h w) = w_locks w" by (simp add: drop_orphaned_def Let_def)
  with t show ?thesis by (auto simp: drop_applied_above_def Let_def locks_ok_def tables_ok_def bt_retain_has)
qed

lemma drop_inv:
  assumes "wallet_inv w"
  shows "wallet_inv (drop_applied_above h w)"
proof -
  have c: "chain_ok w" and k: "core_ok (bt_has (w_blocks w)) w" using assms by (simp_all add: wallet_inv_def)
  have t: "tables_ok w" using k by (simp add: core_ok_def)
  have "chain_ok (drop_applied_above h w)"
    using chain_ok_take [OF c] chain_ok_cong [of "drop_applied_above h w" "w\<lparr>w_blocks := take (h - bm_height (w_seed w)) (w_blocks w)\<rparr>"]
    by (simp add: drop_blocks [OF c] drop_frame)
  then show ?thesis
    using drop_tables [OF t] drop_keys [of w h] drop_index [OF k] drop_mined [OF k c] drop_locks [OF t] k t
    by (simp add: wallet_inv_def core_ok_def)
qed

lemma try_truncate_inv:
  "try_truncate_trees_to T h w = Inr (b, w') \<Longrightarrow>
     (\<exists>x y z. w' = w\<lparr>w_sapling_tree := x, w_orchard_tree := y, w_ironwood_tree := z\<rparr>)"
proof -
  assume a: "try_truncate_trees_to T h w = Inr (b, w')"
  have same: "w = w\<lparr>w_sapling_tree := w_sapling_tree w, w_orchard_tree := w_orchard_tree w, w_ironwood_tree := w_ironwood_tree w\<rparr>"
    by simp
  from a have "w' = w \<or> (\<exists>x y z. w' = w\<lparr>w_sapling_tree := x, w_orchard_tree := y, w_ironwood_tree := z\<rparr>)"
    by (cases "t_truncate T h (w_sapling_tree w)"; cases "t_truncate T h (w_orchard_tree w)";
        cases "t_truncate T h (w_ironwood_tree w)") (auto simp: try_truncate_trees_to_def split: if_splits, blast)
  with same show ?thesis by metis
qed

text \<open>The two ways a truncation commits: at a height all three trees can reach, by dropping what
  was applied above it; or nothing has been applied.\<close>

lemma truncate_height_cases:
  assumes "wallet_truncate_to_height T max_height w = Inr (height, w')"
  obtains (untouched) "w_blocks w = []" "height = max_height" "w' = w"
  | (dropped) x y z where "w' = drop_applied_above height (w\<lparr>w_sapling_tree := x, w_orchard_tree := y, w_ironwood_tree := z\<rparr>)"
      "common_truncation_height w max_height = Some height \<or>
         common_truncation_height w max_height = None \<and> height = bm_height (w_seed w) \<and> height \<le> max_height"
proof (cases "common_truncation_height w max_height")
  case None
  show ?thesis
  proof (cases "w_blocks w = []")
    case True
    with assms None have "height = max_height" "w' = w" by (simp_all add: wallet_truncate_to_height_def)
    with True show ?thesis by (rule untouched)
  next
    case False
    then obtain w1 where t: "try_truncate_trees_to T height w = Inr (True, w1)"
      and h: "height = bm_height (w_seed w)" "height \<le> max_height" "w' = drop_applied_above height w1"
      using assms None
      by (auto simp: wallet_truncate_to_height_def truncate_to_origin_def Let_def result_simps split: if_splits prod.splits)
    from try_truncate_inv [OF t] obtain x y z where
      "w1 = w\<lparr>w_sapling_tree := x, w_orchard_tree := y, w_ironwood_tree := z\<rparr>" by blast
    then show ?thesis using dropped h None by blast
  qed
next
  case (Some target)
  then obtain w1 where t: "try_truncate_trees_to T height w = Inr (True, w1)" and h: "height = target" "w' = drop_applied_above height w1"
    using assms by (auto simp: wallet_truncate_to_height_def result_simps split: if_splits prod.splits)
  from try_truncate_inv [OF t] obtain x y z where
    "w1 = w\<lparr>w_sapling_tree := x, w_orchard_tree := y, w_ironwood_tree := z\<rparr>" by blast
  then show ?thesis using dropped h Some by blast
qed

lemma truncate_height_inv:
  assumes "wallet_truncate_to_height T max_height w = Inr (height, w')" and "wallet_inv w"
  shows "wallet_inv w'"
  using assms(1)
proof (cases rule: truncate_height_cases)
  case untouched
  then show ?thesis using assms(2) by simp
next
  case (dropped x y z)
  then show ?thesis using assms(2) drop_inv inv_trees by metis
qed

lemma truncate_to_height_of: "wallet_truncate_to T h w = Inr (m, w') \<Longrightarrow> \<exists>height. wallet_truncate_to_height T h w = Inr (height, w')"
  by (auto simp: wallet_truncate_to_def result_simps split: prod.splits)

section \<open>Entries that keep the blocks\<close>

lemma store_name_note_cases:
  assumes "store_name_note E T e w = Inr w'"
  obtains (again) existing where "w' = w"
      "bt_get (w_ironwood_notes w) (nn_txid e, PoolIronwood, nn_action_index e) = Some existing" "same_name_note existing e"
      "bt_get (w_statuses w) (nn_txid e) = Some (Mined (nn_height e))"
  | (stored) j m where "j < 2 ^ 16" "j = nn_action_index e" "bt_get (w_statuses w) (nn_txid e) = Some (Mined (nn_height e))"
      "bt_has (w_blocks w) (nn_height e)" "bt_get (w_ironwood_notes w) (nn_txid e, PoolIronwood, j) = None"
      "bt_get (w_ironwood_nullifiers w) (nn_nullifier e) \<in> {None, Some (nn_txid e, PoolIronwood, j)}"
      "w' = w\<lparr>w_ironwood_notes := bt_insert (nn_txid e, PoolIronwood, j) (name_note_output e) (w_ironwood_notes w),
              w_ironwood_nullifiers := bt_insert (nn_nullifier e) (nn_txid e, PoolIronwood, j) (w_ironwood_nullifiers w),
              w_memos := bt_insert (nn_txid e, PoolIronwood, j) (MemoFuture m) (w_memos w)\<rparr>"
      "memo_from_bytes E (nn_memo e) = Some m" "name_note_leaf_error T w e = None"
proof -
  have tx: "name_note_tx_error w (nn_height e) (nn_txid e) = None"
    using assms by (cases "name_note_tx_error w (nn_height e) (nn_txid e)") (simp_all add: store_name_note_def)
  then have mined: "bt_get (w_statuses w) (nn_txid e) = Some (Mined (nn_height e))" "bt_has (w_blocks w) (nn_height e)"
    by (auto simp: name_note_tx_error_def split: if_splits option.splits tx_status.splits)
  obtain j where u: "u16_index (nn_action_index e) = Some j"
    using assms tx by (cases "u16_index (nn_action_index e)") (simp_all add: store_name_note_def)
  then have j: "j < 2 ^ 16" "j = nn_action_index e" by (simp_all add: u16_index_def split: if_splits)
  let ?id = "(nn_txid e, PoolIronwood, j)"
  have nf: "bt_get (w_ironwood_nullifiers w) (nn_nullifier e) \<in> {None, Some ?id}"
    using assms tx u by (cases "bt_get (w_ironwood_nullifiers w) (nn_nullifier e)")
      (simp_all add: store_name_note_def Let_def split: if_splits)
  have leaf: "name_note_leaf_error T w e = None"
    using assms tx u nf by (cases "name_note_leaf_error T w e") (auto simp: store_name_note_def Let_def)
  obtain m where m: "memo_from_bytes E (nn_memo e) = Some m"
    using assms tx u nf leaf by (cases "memo_from_bytes E (nn_memo e)")
      (auto simp: store_name_note_def Let_def split: option.splits if_splits)
  show ?thesis
  proof (cases "bt_get (w_ironwood_notes w) ?id")
    case None
    then show ?thesis using stored [OF j mined None nf _ m leaf] assms tx u nf leaf m
      by (auto simp: store_name_note_def Let_def)
  next
    case (Some existing)
    then show ?thesis using again [of existing] assms tx u nf leaf m j(2) mined(1)
      by (auto simp: store_name_note_def Let_def split: if_splits)
  qed
qed

lemma store_name_note_inv:
  assumes "store_name_note E T e w = Inr w'" and "wallet_inv w"
  shows "wallet_inv w'"
  using assms(1)
proof (cases rule: store_name_note_cases)
  case again
  then show ?thesis using assms(2) by simp
next
  case (stored j m)
  let ?id = "(nn_txid e, PoolIronwood, j)"
  have k: "core_ok (bt_has (w_blocks w)) w" and c: "chain_ok w" using assms(2) by (simp_all add: wallet_inv_def)
  have lane: "lane_ok PoolIronwood (w_ironwood_notes w) (w_ironwood_nullifiers w)" using core_lanes [OF k] by simp
  have ok: "bt_ok (w_ironwood_notes w)" "bt_ok (w_statuses w)" using k by (simp_all add: core_ok_def tables_ok_def)
  have lane': "lane_ok PoolIronwood (w_ironwood_notes w') (w_ironwood_nullifiers w')"
    using lane_ok_insert [OF lane stored(1), of "nn_txid e" "name_note_output e" "Some (nn_nullifier e)"] stored(7) by simp
  have has: "bt_has (w_ironwood_notes w') i \<longleftrightarrow> i = ?id \<or> bt_has (w_ironwood_notes w) i" for i
    using stored(7) bt_has_insert [OF ok(1)] by simp
  have acc: "output_account w' out \<noteq> None" if "output_account w out \<noteq> None" for out
    by (rule output_account_mono [OF _ _ that]) (use has stored(7) in simp_all)
  have "mined_in (bt_has (w_blocks w)) (w_statuses w) (w_ironwood_notes w')"
    using k stored(3,4) has by (auto simp: core_ok_def mined_in_def nid_txid_def)
  then have "core_ok (bt_has (w_blocks w')) w'"
    using k lane' acc has stored(7)
    by (auto simp: core_ok_def tables_ok_def lane_ok_def index_ok_def locks_ok_def bt.ok_upd)
  moreover have "chain_ok w'" using c stored(7) by (simp add: chain_ok_def)
  ultimately show ?thesis by (simp add: wallet_inv_def)
qed

lemma spend_and_unlock_ok:
  assumes "bt_ok spends" "bt_ok locks" "\<And>i. bt_has spends i \<Longrightarrow> P i" "\<And>i. bt_has locks i \<Longrightarrow> Q i"
    and "\<And>nf i. bt_get nullifiers nf = Some i \<Longrightarrow> P i"
    and "spend_and_unlock nullifiers txid nfs (spends, locks) = (spends', locks')"
  shows "bt_ok spends' \<and> bt_ok locks' \<and> (\<forall>i. bt_has spends' i \<longrightarrow> P i) \<and> (\<forall>i. bt_has locks' i \<longrightarrow> Q i)"
proof -
  let ?p = "\<lambda>(s, l). bt_ok s \<and> bt_ok l \<and> (\<forall>i. bt_has s i \<longrightarrow> P i) \<and> (\<forall>i. bt_has l i \<longrightarrow> Q i)"
  have "?p (spend_and_unlock nullifiers txid nfs (spends, locks))"
    unfolding spend_and_unlock_def
    by (rule fold_keeps)
      (use assms(1-5) in \<open>auto simp: bt.ok_upd bt.ok_del bt_has_insert split: option.splits\<close>,
       auto simp: bt_has_def bt_simps split: if_splits)
  then show ?thesis using assms(6) by simp
qed

lemma sent_memos_ok: "bt_ok m \<Longrightarrow> bt_ok (fold (sent_memo parse txid) outs m)"
  by (rule fold_keeps) (auto simp: sent_memo_def bt.ok_upd split: recipient.splits option.splits)

lemma store_sent_inv:
  assumes "wallet_inv w"
  shows "wallet_inv (store_sent parse sent w)"
proof -
  let ?tx = "stx_tx sent" and ?w = "store_sent parse sent w"
  have k: "core_ok (bt_has (w_blocks w)) w" and c: "chain_ok w" using assms by (simp_all add: wallet_inv_def)
  obtain s1 l1 where a: "spend_and_unlock (w_sapling_nullifiers w) (rt_txid ?tx) (rt_sapling_spends ?tx)
      (w_sapling_spends w, w_locks w) = (s1, l1)" by fastforce
  obtain s2 l2 where b: "spend_and_unlock (w_ironwood_nullifiers w) (rt_txid ?tx) (rt_ironwood_spends ?tx)
      (w_ironwood_spends w, l1) = (s2, l2)" by fastforce
  have A: "bt_ok s1 \<and> bt_ok l1 \<and> (\<forall>i. bt_has s1 i \<longrightarrow> bt_has (w_sapling_notes w) i) \<and>
      (\<forall>i. bt_has l1 i \<longrightarrow> output_account w i \<noteq> None)"
    by (rule spend_and_unlock_ok [OF _ _ _ _ _ a])
      (use k in \<open>simp_all add: core_ok_def tables_ok_def index_ok_def locks_ok_def\<close>)
  have B: "bt_ok s2 \<and> bt_ok l2 \<and> (\<forall>i. bt_has s2 i \<longrightarrow> bt_has (w_ironwood_notes w) i) \<and>
      (\<forall>i. bt_has l2 i \<longrightarrow> output_account w i \<noteq> None)"
    by (rule spend_and_unlock_ok [OF _ _ _ _ _ b])
      (use A k in \<open>simp_all add: core_ok_def tables_ok_def index_ok_def locks_ok_def\<close>)
  have w: "?w = w\<lparr>w_transactions := bt_insert (rt_txid ?tx) ?tx (w_transactions w),
       w_statuses := or_insert (rt_txid ?tx) NotInMainChain (w_statuses w),
       w_sent_outputs := bt_insert (rt_txid ?tx) (stx_outputs sent) (w_sent_outputs w),
       w_memos := fold (sent_memo parse (rt_txid ?tx)) (stx_outputs sent) (w_memos w),
       w_sapling_spends := s1, w_ironwood_spends := s2, w_locks := l2\<rparr>"
    by (simp add: store_sent_def Let_def a b)
  have "core_ok (bt_has (w_blocks w)) ?w"
  proof (rule core_cong [OF k])
    show "tables_ok ?w" using k A B sent_memos_ok
      by (simp add: w core_ok_def tables_ok_def bt.ok_upd bt_ok_or_insert)
    show "bt_get (w_statuses ?w) txid = Some (Mined h)" if "bt_get (w_statuses w) txid = Some (Mined h)" for txid h
      using that k by (auto simp: w core_ok_def tables_ok_def bt_get_or_insert)
    show "index_ok (w_sapling_notes w) (w_sapling_spends ?w) (w_sapling_nullifiers w)"
      "index_ok (w_ironwood_notes w) (w_ironwood_spends ?w) (w_ironwood_nullifiers w)"
      using A B k by (simp_all add: w index_ok_def core_ok_def)
    show "output_account w out \<noteq> None" if "bt_has (w_locks ?w) out" for out using that B by (simp add: w)
  qed (simp_all add: w)
  moreover have "chain_ok ?w" using c by (simp add: w chain_ok_def)
  ultimately show ?thesis by (simp add: wallet_inv_def w)
qed

lemma store_all_sent_inv: "wallet_inv w \<Longrightarrow> wallet_inv (store_transactions_to_be_sent parse txs w)"
  unfolding store_transactions_to_be_sent_def by (rule fold_keeps) (auto intro: store_sent_inv)

text \<open>A change of the locks alone keeps the invariant when every lock still names a note.\<close>

lemma locks_inv:
  assumes "wallet_inv w" and "bt_ok l" and "\<And>out. bt_has l out \<Longrightarrow> output_account w out \<noteq> None"
  shows "wallet_inv (w\<lparr>w_locks := l\<rparr>)"
  using assms by (simp add: wallet_inv_def chain_ok_def core_ok_def tables_ok_def locks_ok_def)

lemma lock_outputs_inv:
  assumes "lock_outputs outs owner expiry w = Inr (n, w')" and "wallet_inv w"
  shows "wallet_inv w'"
proof -
  have f: "find (\<lambda>out. output_account w out = None \<or> is_foreign_lock_active w out owner) outs = None"
    and w': "w' = w\<lparr>w_locks := fold (\<lambda>out. bt_insert out (owner, expiry)) outs (w_locks w)\<rparr>"
    using assms(1) by (auto simp: lock_outputs_def split: option.splits)
  have ok: "bt_ok (w_locks w)" "\<And>out. bt_has (w_locks w) out \<Longrightarrow> output_account w out \<noteq> None"
    using assms(2) by (auto simp: wallet_inv_def core_ok_def tables_ok_def locks_ok_def)
  have "bt_ok (fold (\<lambda>out. bt_insert out (owner, expiry)) outs (w_locks w)) \<and>
      (\<forall>out. bt_has (fold (\<lambda>out. bt_insert out (owner, expiry)) outs (w_locks w)) out \<longrightarrow> output_account w out \<noteq> None)"
    by (rule fold_keeps [where p = "\<lambda>l. bt_ok l \<and> (\<forall>out. bt_has l out \<longrightarrow> output_account w out \<noteq> None)"])
      (use f ok in \<open>auto simp: find_None_iff bt.ok_upd bt_has_insert\<close>)
  then show ?thesis using locks_inv [OF assms(2)] unfolding w' by blast
qed

lemma bt_has_remove: "bt_ok m \<Longrightarrow> bt_has (bt_remove k m) j \<longleftrightarrow> j \<noteq> k \<and> bt_has m j"
  by (simp add: bt_has_def bt_simps)

lemma unlock_output_inv: "wallet_inv w \<Longrightarrow> wallet_inv (snd (unlock_output out owner w))"
proof -
  assume i: "wallet_inv w"
  then have "bt_ok (w_locks w)" "\<And>out. bt_has (w_locks w) out \<Longrightarrow> output_account w out \<noteq> None"
    by (auto simp: wallet_inv_def core_ok_def tables_ok_def locks_ok_def)
  then have "wallet_inv (w\<lparr>w_locks := bt_remove out (w_locks w)\<rparr>)"
    by (intro locks_inv [OF i]) (auto simp: bt.ok_del bt_has_remove)
  with i show ?thesis by (auto simp: unlock_output_def split: option.split)
qed

lemma clear_locked_inv: "wallet_inv w \<Longrightarrow> wallet_inv (snd (clear_locked_outputs a w))"
proof -
  assume i: "wallet_inv w"
  then have l: "bt_ok (w_locks w)" "\<And>out. bt_has (w_locks w) out \<Longrightarrow> output_account w out \<noteq> None"
    by (auto simp: wallet_inv_def core_ok_def tables_ok_def locks_ok_def)
  have "bt_ok (fold bt_remove outs (w_locks w)) \<and>
      (\<forall>out. bt_has (fold bt_remove outs (w_locks w)) out \<longrightarrow> output_account w out \<noteq> None)" for outs
    by (rule fold_keeps [where p = "\<lambda>l. bt_ok l \<and> (\<forall>out. bt_has l out \<longrightarrow> output_account w out \<noteq> None)"])
      (use l in \<open>auto simp: bt.ok_del bt_has_remove\<close>)
  then show ?thesis unfolding clear_locked_outputs_def Let_def snd_conv by (intro locks_inv [OF i]) blast+
qed

section \<open>The transition system\<close>

text \<open>The steps the mint takes. Heights stay below the top of \<open>u32\<close>.\<close>

inductive wallet_step ::
  "('ua, 'cm) zenv \<Rightarrow> ('t, 'h, 'f) tree_ops \<Rightarrow> (bytes \<Rightarrow> memo option) \<Rightarrow> ('t, 'n, 'k) wallet \<Rightarrow> ('t, 'n, 'k) wallet \<Rightarrow> bool"
  for E T parse where
  apply_blocks: "put_blocks_marked T from_tip bs marks w = Some (Inr w') \<Longrightarrow>
      bm_height (wallet_tip w) + length bs \<le> U32_MAX \<Longrightarrow> wallet_step E T parse w w'"
| keep_name_note: "store_name_note E T e w = Inr w' \<Longrightarrow> wallet_step E T parse w w'"
| keep_sent: "wallet_step E T parse w (store_transactions_to_be_sent parse txs w)"
| truncate: "wallet_truncate_to T h w = Inr (m, w') \<Longrightarrow> wallet_step E T parse w w'"
| lock: "lock_outputs outs owner expiry w = Inr (n, w') \<Longrightarrow> wallet_step E T parse w w'"
| unlock: "wallet_step E T parse w (snd (unlock_output out owner w))"
| unlock_all: "wallet_step E T parse w (snd (clear_locked_outputs a w))"
| learn_tip: "wallet_step E T parse w (update_chain_tip h w)"

inductive_cases wallet_stepE: "wallet_step E T parse w w'"

inductive wallet_reach ::
  "('ua, 'cm) zenv \<Rightarrow> ('t, 'h, 'f) tree_ops \<Rightarrow> (bytes \<Rightarrow> memo option) \<Rightarrow> ('t, 'n, 'k) wallet \<Rightarrow> bool"
  for E T parse where
  born: "wallet_new T keys s sapling_roots ironwood_roots = Some (Inr w) \<Longrightarrow> cs_height s \<le> U32_MAX \<Longrightarrow> wallet_reach E T parse w"
| step: "wallet_reach E T parse w \<Longrightarrow> wallet_step E T parse w w' \<Longrightarrow> wallet_reach E T parse w'"

lemma wallet_step_inv: "wallet_step E T parse w w' \<Longrightarrow> wallet_inv w \<Longrightarrow> wallet_inv w'"
proof (induction rule: wallet_step.induct)
  case (apply_blocks from_tip bs marks w w')
  then show ?case using put_blocks_law by blast
next
  case (keep_name_note e w w')
  then show ?case using store_name_note_inv by blast
next
  case (truncate h w m w')
  then show ?case using truncate_to_height_of truncate_height_inv by blast
next
  case (lock outs owner expiry w n w')
  then show ?case using lock_outputs_inv by blast
qed (simp_all add: store_all_sent_inv unlock_output_inv clear_locked_inv inv_tip)

lemma wallet_new_inv:
  assumes "wallet_new T keys s sapling_roots ironwood_roots = Some (Inr w)" and "cs_height s \<le> U32_MAX"
  shows "wallet_inv w"
proof -
  obtain seed where seed: "block_metadata_of T s = Some seed" using assms(1) by (auto simp: wallet_new_def Let_def)
  then have h: "bm_height seed = cs_height s" by (auto simp: block_metadata_of_def split: if_splits)
  have "w_blocks w = [] \<and> w_seed w = seed \<and> w_sapling_notes w = [] \<and> w_ironwood_notes w = [] \<and> w_sapling_spends w = [] \<and>
      w_ironwood_spends w = [] \<and> w_sapling_nullifiers w = [] \<and> w_ironwood_nullifiers w = [] \<and> w_locks w = [] \<and>
      w_statuses w = [] \<and> w_transactions w = [] \<and> w_memos w = []"
    using assms(1) seed by (auto simp: wallet_new_def Let_def result_simps split: prod.splits)
  with h assms(2) show ?thesis
    by (simp add: wallet_inv_def chain_ok_def core_ok_def tables_ok_def keys_ok_def index_ok_def mined_in_def locks_ok_def
        bt_has_def)
qed

lemma wallet_reach_inv: "wallet_reach E T parse w \<Longrightarrow> wallet_inv w"
  by (induction rule: wallet_reach.induct) (blast intro: wallet_new_inv wallet_step_inv)+

end
