(* ===== verification/Wallet_Laws.thy ===== *)
theory Wallet_Laws
  imports Wallet_Steps Demo_Env
begin

text \<open>
  What the wallet promises the mint: its invariant in every reachable state, what a reorg leaves,
  that a note spent by a sent transaction stays unselectable until the transaction can no longer
  be mined, that balances and selection agree, what a selection covers, and that a stored Name
  Note is found by its nullifier.
\<close>

declare upt_Suc [simp del] split_paired_All [simp del] split_paired_Ex [simp del]

section \<open>A concrete tree\<close>

text \<open>For the witnesses: a tree is its size and the sizes at its checkpoints.\<close>

definition demo_trees :: "(nat \<times> (height \<times> nat) list, bytes, nat) tree_ops" where
  "demo_trees =
     \<lparr>t_empty = (0, []),
      t_append = (\<lambda>_ _ (n, cs). Inr (n + 1, cs)),
      t_checkpoint = (\<lambda>h (n, cs). Inr (True, n, (h, n) # cs)),
      t_has_checkpoint = (\<lambda>(n, cs) h. map_of cs h \<noteq> None),
      t_min_checkpoint = (\<lambda>(n, cs). if cs = [] then None else Some (Min (fst ` set cs))),
      t_max_checkpoint = (\<lambda>(n, cs). if cs = [] then None else Some (Max (fst ` set cs))),
      t_truncate = (\<lambda>h (n, cs). Inr (case map_of cs h of
          None \<Rightarrow> (False, n, cs) | Some sz \<Rightarrow> (True, sz, filter (\<lambda>(c, _). c \<le> h) cs))),
      t_drop_checkpoints = (\<lambda>h (n, cs). (n, filter (\<lambda>(c, _). c \<le> h) cs)),
      t_insert_frontier = (\<lambda>f r (n, cs). Inr (f, (case r of Checkpoint h _ \<Rightarrow> [(h, f)] | _ \<Rightarrow> []) @ cs)),
      t_insert_root = (\<lambda>_ _ t. Inr t),
      t_max_leaf = (\<lambda>(n, cs). Inr (if n = 0 then None else Some (n - 1))),
      t_witness = (\<lambda>p h (n, cs). Inr (if p < n then Some (\<lambda>leaf. leaf) else None)),
      t_root_at = (\<lambda>h (n, cs). Inr (if map_of cs h = None then None else Some ''leaf'')),
      t_frontier_size = (\<lambda>f. f)\<rparr>"

abbreviation demo_origin :: "(nat, nat) chain_state" where
  "demo_origin \<equiv> \<lparr>cs_height = 9, cs_hash = ''h9'', cs_sapling = 0, cs_orchard = 0, cs_ironwood = 0\<rparr>"

definition demo_new_wallet :: "(nat \<times> (height \<times> nat) list, unit, unit) wallet" where
  "demo_new_wallet =
     \<lparr>w_birthdays = [(0, 10), (1, 10)], w_ufvks = [(0, ()), (1, ())], w_zebra_tip = None, w_blocks = [],
      w_seed = \<lparr>bm_height = 9, bm_hash = ''h9'', bm_sapling = Some 0, bm_orchard = Some 0, bm_ironwood = Some 0\<rparr>,
      w_transactions = [], w_statuses = [], w_indices = [], w_trusted = [], w_sapling_notes = [], w_ironwood_notes = [],
      w_memos = [], w_sapling_spends = [], w_ironwood_spends = [], w_sapling_nullifiers = [], w_ironwood_nullifiers = [],
      w_sent_outputs = [], w_locks = [], w_sapling_tree = (0, [(9, 0)]), w_sapling_ends = [], w_orchard_tree = (0, [(9, 0)]),
      w_orchard_ends = [], w_ironwood_tree = (0, [(9, 0)]), w_ironwood_ends = []\<rparr>"

definition demo_scanned :: "(bytes, unit) scanned_block" where
  "demo_scanned =
     \<lparr>sc_height = 10, sc_hash = ''h10'', sc_sapling = \<lparr>sb_commitments = [], sb_final_tree_size = 0\<rparr>,
      sc_orchard = \<lparr>sb_commitments = [], sb_final_tree_size = 0\<rparr>,
      sc_ironwood = \<lparr>sb_commitments = [(''c0'', Marked), (''leaf'', Ephemeral)], sb_final_tree_size = 2\<rparr>,
      sc_txs = [\<lparr>wt_txid = ''t1'', wt_index = 0, wt_sapling_outputs = [], wt_orchard_outputs = [],
        wt_ironwood_outputs = [\<lparr>wo_index = 0, wo_ephemeral_key = ''ek'', wo_note = (), wo_value = 70000,
          wo_value_pool = PoolIronwood, wo_is_change = False, wo_position = 0, wo_nf = Some ''nf0'', wo_account = 0,
          wo_scope = Some ScopeExternal\<rparr>],
        wt_sapling_spends = [], wt_ironwood_spends = []\<rparr>]\<rparr>"

abbreviation demo_received :: "unit wallet_output" where
  "demo_received \<equiv> \<lparr>wo_index = 0, wo_ephemeral_key = ''ek'', wo_note = (), wo_value = 70000,
     wo_value_pool = PoolIronwood, wo_is_change = False, wo_position = 0, wo_nf = Some ''nf0'', wo_account = 0,
     wo_scope = Some ScopeExternal\<rparr>"

definition demo_wallet1 :: "(nat \<times> (height \<times> nat) list, unit, unit) wallet" where
  "demo_wallet1 = demo_new_wallet
     \<lparr>w_zebra_tip := Some 10, w_blocks := [(10, to_block_metadata demo_scanned)], w_statuses := [(''t1'', Mined 10)],
      w_indices := [(''t1'', 0)], w_ironwood_notes := [((''t1'', PoolIronwood, 0), demo_received)],
      w_ironwood_nullifiers := [(''nf0'', (''t1'', PoolIronwood, 0))],
      w_sapling_tree := (0, [(10, 0), (9, 0)]), w_orchard_tree := (0, [(10, 0), (9, 0)]),
      w_ironwood_tree := (2, [(10, 2), (9, 0)])\<rparr>"

lemma demo_new_wallet_born:
  "wallet_new demo_trees [(0, ()), (1, ())] demo_origin [] [] = Some (Inr demo_new_wallet)"
  by (simp add: wallet_new_def demo_new_wallet_def demo_trees_def block_metadata_of_def bt_insert_def next_height_def U32_MAX_def)

lemma demo_wallet1_applied:
  "put_blocks_marked demo_trees (wallet_tip demo_new_wallet) [demo_scanned] [''leaf''] demo_new_wallet = Some (Inr demo_wallet1)"
  by (simp add: demo_wallet1_def demo_new_wallet_def demo_scanned_def demo_trees_def put_blocks_marked_def continuity_def
      wallet_tip_def bt_last_def next_height_def U32_MAX_def append_block_commitments_def ensure_block_checkpoint_def
      put_block_def receive_tx_def u16_index_def bt_insert_def spend_tx_def record_spends_def update_chain_tip_def
      to_block_metadata_def)

lemma demo_wallet1_reached: "wallet_reach demo_env demo_trees (\<lambda>_. None) demo_wallet1"
proof (rule wallet_reach.step [OF wallet_reach.born [OF demo_new_wallet_born]])
  show "wallet_step demo_env demo_trees (\<lambda>_. None) demo_new_wallet demo_wallet1"
    by (rule wallet_step.apply_blocks [OF demo_wallet1_applied]) (simp add: demo_new_wallet_def wallet_tip_def bt_last_def U32_MAX_def)
qed (simp add: U32_MAX_def)

section \<open>The invariant\<close>

text \<open>C19: In every wallet the mint can reach, the applied blocks are the contiguous heights after
  the origin; every note was mined in an applied block; and the nullifier index, the spend records
  and the locks name only notes the wallet holds.\<close>

theorem wallet_well_formed:
  assumes "wallet_reach E T parse w"
  shows "map fst (w_blocks w) = [bm_height (w_seed w) + 1..<bm_height (wallet_tip w) + 1] \<and>
         (bt_has (w_sapling_notes w) i \<or> bt_has (w_ironwood_notes w) i \<longrightarrow>
            (\<exists>h. bt_get (w_statuses w) (nid_txid i) = Some (Mined h) \<and>
                 bm_height (w_seed w) < h \<and> h \<le> bm_height (wallet_tip w))) \<and>
         (bt_get (w_sapling_nullifiers w) nf = Some i \<or> bt_has (w_sapling_spends w) i \<longrightarrow> bt_has (w_sapling_notes w) i) \<and>
         (bt_get (w_ironwood_nullifiers w) nf = Some i \<or> bt_has (w_ironwood_spends w) i \<longrightarrow> bt_has (w_ironwood_notes w) i) \<and>
         (bt_has (w_locks w) out \<longrightarrow> output_account w out \<noteq> None)"
proof -
  have "wallet_inv w" using assms by (rule wallet_reach_inv)
  then have c: "chain_ok w" and k: "core_ok (bt_has (w_blocks w)) w" by (simp_all add: wallet_inv_def)
  have tip: "bm_height (wallet_tip w) = bm_height (w_seed w) + length (w_blocks w)" by (rule tip_height [OF c])
  have "map fst (w_blocks w) = [bm_height (w_seed w) + 1..<bm_height (wallet_tip w) + 1]"
    using c by (simp add: tip chain_ok_def Let_def)
  moreover have "bt_has (w_sapling_notes w) i \<or> bt_has (w_ironwood_notes w) i \<longrightarrow>
      (\<exists>h. bt_get (w_statuses w) (nid_txid i) = Some (Mined h) \<and> bt_has (w_blocks w) h)"
    using k by (auto simp: core_ok_def mined_in_def)
  ultimately show ?thesis using k by (auto simp: chain_ok_has [OF c] tip core_ok_def index_ok_def locks_ok_def)
qed

theorem wallet_well_formed_witness:
  "map fst (w_blocks demo_wallet1) = [bm_height (w_seed demo_wallet1) + 1..<bm_height (wallet_tip demo_wallet1) + 1] \<and>
   (\<exists>h. bt_get (w_statuses demo_wallet1) (nid_txid (''t1'', PoolIronwood, 0)) = Some (Mined h) \<and>
        bm_height (w_seed demo_wallet1) < h \<and> h \<le> bm_height (wallet_tip demo_wallet1))"
proof -
  have "bt_has (w_ironwood_notes demo_wallet1) (''t1'', PoolIronwood, 0)"
    by (simp add: demo_wallet1_def bt_has_def bt_get_def)
  then show ?thesis using wallet_well_formed [OF demo_wallet1_reached] by blast
qed

section \<open>Reorgs\<close>

lemma common_truncation_le:
  assumes "common_truncation_height w h = Some k" and "chain_ok w"
  shows "k \<le> h \<and> bt_has (w_blocks w) k"
proof -
  from assms(1) have ne: "filter (\<lambda>(k, _). k \<le> h) (w_blocks w) \<noteq> []" and k: "k = fst (last (filter (\<lambda>(k, _). k \<le> h) (w_blocks w)))"
    by (auto simp: common_truncation_height_def bt_last_def split: if_splits)
  from last_in_set [OF ne] k have "k \<le> h" "k \<in> fst ` set (w_blocks w)" by auto
  then show ?thesis by (auto simp: bt_has_def bt_get_def map_of_eq_None_iff)
qed

lemma tip_at: "chain_ok w \<Longrightarrow> block_metadata_at w (bm_height (wallet_tip w)) = Some (wallet_tip w)"
proof -
  assume c: "chain_ok w"
  show ?thesis
  proof (cases "w_blocks w = []")
    case True
    then show ?thesis by (simp add: block_metadata_at_def wallet_tip_def bt_last_def)
  next
    case False
    have "(bm_height (wallet_tip w), wallet_tip w) \<in> set (w_blocks w)"
      using last_in_set [OF False] tip_is_last [OF False c] by simp
    then have "bt_get (w_blocks w) (bm_height (wallet_tip w)) = Some (wallet_tip w)"
      using bt.entries_lookup [OF chain_ok_bt [OF c]] by blast
    then show ?thesis by (simp add: block_metadata_at_def)
  qed
qed

text \<open>Dropping to the origin or to an applied height makes that height the tip.\<close>

lemma drop_tip:
  assumes "chain_ok w" and "height = bm_height (w_seed w) \<or> bt_has (w_blocks w) height"
  shows "bm_height (wallet_tip (drop_applied_above height w)) = height \<and> chain_ok (drop_applied_above height w)"
proof -
  let ?w = "drop_applied_above height w"
  have c: "chain_ok ?w"
    using chain_ok_take [OF assms(1)] chain_ok_cong [of ?w "w\<lparr>w_blocks := take (height - bm_height (w_seed w)) (w_blocks w)\<rparr>"]
    by (simp add: drop_blocks [OF assms(1)] drop_frame)
  have "length (w_blocks ?w) = height - bm_height (w_seed w)" "height \<ge> bm_height (w_seed w)"
    using assms chain_ok_has [OF assms(1), of height] by (auto simp: drop_blocks [OF assms(1)])
  with c show ?thesis using tip_height [OF c] by (simp add: drop_frame)
qed

lemma drop_hash:
  assumes "chain_ok w" and "k \<le> height"
  shows "block_hash_at (drop_applied_above height w) k = block_hash_at w k"
proof -
  have "w_blocks (drop_applied_above height w) = bt_retain (\<lambda>h _. h \<le> height) (w_blocks w)"
    by (simp add: drop_applied_above_def drop_orphaned_def Let_def)
  then have "bt_get (w_blocks (drop_applied_above height w)) k = bt_get (w_blocks w) k"
    using assms by (simp add: bt_simps chain_ok_bt split: option.splits)
  then show ?thesis by (cases "bt_get (w_blocks w) k") (simp_all add: block_hash_at_def drop_frame)
qed

lemma mined_above_trees:
  "mined_above (w\<lparr>w_sapling_tree := x, w_orchard_tree := y, w_ironwood_tree := z\<rparr>) = mined_above w"
  by (simp add: mined_above_def fun_eq_iff split: option.split)

lemma truncate_chain:
  assumes "wallet_inv w" and "wallet_truncate_to T h w = Inr (m, w')"
  shows "wallet_tip w' = m \<and> bm_height m \<le> h \<and> (k \<le> bm_height m \<longrightarrow> block_hash_at w' k = block_hash_at w k)"
proof -
  have c: "chain_ok w" using assms(1) by (simp add: wallet_inv_def)
  obtain height where th: "wallet_truncate_to_height T h w = Inr (height, w')" and m: "block_metadata_at w' height = Some m"
    using assms(2) by (auto simp: wallet_truncate_to_def result_simps split: prod.splits)
  from th show ?thesis
  proof (cases rule: truncate_height_cases)
    case untouched
    then have "m = w_seed w" "height = bm_height (w_seed w)" using m by (auto simp: block_metadata_at_def split: if_splits)
    then show ?thesis using untouched by (auto simp: wallet_tip_def bt_last_def)
  next
    case (dropped x y z)
    let ?w = "w\<lparr>w_sapling_tree := x, w_orchard_tree := y, w_ironwood_tree := z\<rparr>"
    have c': "chain_ok ?w" using c by (simp add: chain_ok_def)
    have "height \<le> h" "height = bm_height (w_seed w) \<or> bt_has (w_blocks w) height"
      using dropped(2) common_truncation_le [OF _ c] by auto
    then have tip: "bm_height (wallet_tip w') = height \<and> chain_ok w'" using drop_tip [OF c', of height] dropped(1) by simp
    then have "wallet_tip w' = m" using tip_at [of w'] m by simp
    moreover have "block_hash_at ?w k = block_hash_at w k" by (cases "bt_get (w_blocks w) k") (simp_all add: block_hash_at_def)
    then have "k \<le> height \<Longrightarrow> block_hash_at w' k = block_hash_at w k" using drop_hash [OF c'] dropped(1) by simp
    ultimately show ?thesis using tip \<open>height \<le> h\<close> by auto
  qed
qed

text \<open>C20: What a reorg leaves. A truncation that commits ends with its tip at the block it reports,
  at or below the height asked for; the block hashes up to there are unchanged; exactly the notes
  of transactions mined above it are gone, and no remaining note was mined above it.\<close>

theorem wallet_truncate_law:
  assumes "wallet_inv w" and "wallet_truncate_to T h w = Inr (m, w')"
  shows "wallet_tip w' = m \<and> bm_height m \<le> h \<and>
         (k \<le> bm_height m \<longrightarrow> block_hash_at w' k = block_hash_at w k) \<and>
         bt_get (w_sapling_notes w') i = (if mined_above w (bm_height m) (nid_txid i) then None else bt_get (w_sapling_notes w) i) \<and>
         bt_get (w_ironwood_notes w') i = (if mined_above w (bm_height m) (nid_txid i) then None else bt_get (w_ironwood_notes w) i)"
proof -
  have t: "tables_ok w" using assms(1) by (simp add: wallet_inv_def core_ok_def)
  have chain: "wallet_tip w' = m" using truncate_chain [OF assms] by blast
  obtain height where th: "wallet_truncate_to_height T h w = Inr (height, w')" and m: "block_metadata_at w' height = Some m"
    using assms(2) by (auto simp: wallet_truncate_to_def result_simps split: prod.splits)
  have "chain_ok w'" using truncate_height_inv [OF th assms(1)] by (simp add: wallet_inv_def)
  then have mh: "bm_height m = height" using m chain_ok_meta by (fastforce simp: block_metadata_at_def split: option.splits if_splits)
  from th have "bt_get (w_sapling_notes w') i = (if mined_above w height (nid_txid i) then None else bt_get (w_sapling_notes w) i) \<and>
      bt_get (w_ironwood_notes w') i = (if mined_above w height (nid_txid i) then None else bt_get (w_ironwood_notes w) i)"
  proof (cases rule: truncate_height_cases)
    case untouched
    then have "bt_get (w_sapling_notes w) i = None" "bt_get (w_ironwood_notes w) i = None"
      using assms(1) by (auto simp: wallet_inv_def core_ok_def mined_in_def bt_has_def)
    with untouched show ?thesis by simp
  next
    case (dropped x y z)
    have t': "tables_ok (w\<lparr>w_sapling_tree := x, w_orchard_tree := y, w_ironwood_tree := z\<rparr>)" using t by (simp add: tables_ok_def)
    show ?thesis using drop_notes [OF t', of height i] by (simp add: dropped(1) mined_above_trees)
  qed
  then show ?thesis using truncate_chain [OF assms] mh by blast
qed

theorem wallet_truncate_law_witness:
  "\<exists>w'. wallet_truncate_to demo_trees 9 demo_wallet1 = Inr (w_seed demo_wallet1, w') \<and>
     wallet_tip w' = w_seed demo_wallet1 \<and> bt_get (w_ironwood_notes w') (''t1'', PoolIronwood, 0) = None"
proof -
  have "\<exists>w'. wallet_truncate_to demo_trees 9 demo_wallet1 = Inr (w_seed demo_wallet1, w')"
    by (simp add: wallet_truncate_to_def wallet_truncate_to_height_def truncate_to_origin_def try_truncate_trees_to_def
        demo_wallet1_def demo_new_wallet_def demo_trees_def common_truncation_height_def bt_last_def drop_applied_above_def
        drop_orphaned_def Let_def block_metadata_at_def bt_retain_def bt_get_def ok_or_def)
  then obtain w' where w': "wallet_truncate_to demo_trees 9 demo_wallet1 = Inr (w_seed demo_wallet1, w')" by blast
  have "mined_above demo_wallet1 (bm_height (w_seed demo_wallet1)) (nid_txid (''t1'', PoolIronwood, 0))"
    by (simp add: mined_above_def demo_wallet1_def demo_new_wallet_def nid_txid_def bt_get_def)
  with w' wallet_truncate_law [OF wallet_reach_inv [OF demo_wallet1_reached] w', of 0 "(''t1'', PoolIronwood, 0)"]
  show ?thesis by auto
qed

section \<open>Sent transactions\<close>

text \<open>After the spends of a bundle are recorded, a note the bundle spends is recorded as spent by
  that transaction.\<close>

lemma spend_and_unlock_records:
  assumes "spend_and_unlock nullifiers txid nfs (spends, locks) = (spends', locks')" and "bt_ok spends"
  shows "bt_get spends' i = (if \<exists>nf\<in>set nfs. bt_get nullifiers nf = Some i then Some txid else bt_get spends i)"
  using assms
proof (induction nfs arbitrary: spends locks)
  case Nil
  then show ?case by (simp add: spend_and_unlock_def)
next
  case (Cons nf nfs)
  show ?case
  proof (cases "bt_get nullifiers nf")
    case None
    with Cons show ?thesis by (auto simp: spend_and_unlock_def)
  next
    case (Some j)
    with Cons.prems have "spend_and_unlock nullifiers txid nfs (bt_insert j txid spends, bt_remove j locks) = (spends', locks')"
      by (simp add: spend_and_unlock_def)
    from Cons.IH [OF this] Cons.prems(2) Some show ?thesis by (auto simp: bt.ok_upd bt_simps)
  qed
qed

lemma record_sent_fields:
  assumes "wallet_inv w"
  shows "bt_get (w_ironwood_spends (record_sent parse tx w)) i =
           (if \<exists>nf\<in>set (rt_ironwood_spends tx). bt_get (w_ironwood_nullifiers w) nf = Some i
            then Some (rt_txid tx) else bt_get (w_ironwood_spends w) i)"
    and "bt_get (w_statuses (record_sent parse tx w)) t =
           (if t = rt_txid tx \<and> bt_get (w_statuses w) t = None then Some NotInMainChain else bt_get (w_statuses w) t)"
    and "bt_get (w_transactions (record_sent parse tx w)) t = (if t = rt_txid tx then Some tx else bt_get (w_transactions w) t)"
proof -
  have ok: "bt_ok (w_ironwood_spends w)" "bt_ok (w_statuses w)" "bt_ok (w_transactions w)"
    using assms by (simp_all add: wallet_inv_def core_ok_def tables_ok_def)
  obtain s1 l1 where a: "spend_and_unlock (w_sapling_nullifiers w) (rt_txid tx) (rt_sapling_spends tx)
      (w_sapling_spends w, w_locks w) = (s1, l1)" by fastforce
  obtain s2 l2 where b: "spend_and_unlock (w_ironwood_nullifiers w) (rt_txid tx) (rt_ironwood_spends tx)
      (w_ironwood_spends w, l1) = (s2, l2)" by fastforce
  note f = record_sent_def store_transactions_to_be_sent_def store_sent_def Let_def
  show "bt_get (w_ironwood_spends (record_sent parse tx w)) i =
      (if \<exists>nf\<in>set (rt_ironwood_spends tx). bt_get (w_ironwood_nullifiers w) nf = Some i
       then Some (rt_txid tx) else bt_get (w_ironwood_spends w) i)"
    using spend_and_unlock_records [OF b ok(1)] by (simp add: f a b)
  show "bt_get (w_statuses (record_sent parse tx w)) t =
      (if t = rt_txid tx \<and> bt_get (w_statuses w) t = None then Some NotInMainChain else bt_get (w_statuses w) t)"
    using ok(2) by (auto simp: f a b bt_get_or_insert)
  show "bt_get (w_transactions (record_sent parse tx w)) t = (if t = rt_txid tx then Some tx else bt_get (w_transactions w) t)"
    using ok(3) by (simp add: f a b bt_simps)
qed

text \<open>A note spent by a transaction the mint sent is held back exactly while that transaction
  can still be mined: it counts as spent at a target height if and only if the transaction is
  already mined, never expires, or has not expired before the target.\<close>

lemma sent_notes_are_held:
  assumes "wallet_inv w" and "nf \<in> set (rt_ironwood_spends tx)" and "bt_get (w_ironwood_nullifiers w) nf = Some i"
  shows "ironwood_note_is_spent (record_sent parse tx w) i target \<longleftrightarrow>
           (\<exists>h. bt_get (w_statuses w) (rt_txid tx) = Some (Mined h)) \<or> rt_expiry tx = 0 \<or> target \<le> rt_expiry tx"
proof -
  have "bt_get (w_ironwood_spends (record_sent parse tx w)) i = Some (rt_txid tx)"
    using record_sent_fields(1) [OF assms(1)] assms(2,3) by auto
  then show ?thesis
    using record_sent_fields(2,3) [OF assms(1), of parse tx "rt_txid tx"]
    by (cases "bt_get (w_statuses w) (rt_txid tx)")
      (auto simp: ironwood_note_is_spent_def spend_confirms_or_blocks_def unmined_spend_still_blocks_def
        split: tx_status.splits)
qed

section \<open>Name Notes\<close>

text \<open>A Name Note the wallet stored is the note its nullifier finds. A successful store can be
  repeated without effect, and afterwards the Registry's lookup by that nullifier gives the note
  at its position, unless the note is spent or locked.\<close>

lemma stored_name_note_is_found:
  assumes "wallet_inv w" and "store_name_note E T e w = Inr w'"
    and "bt_get (w_ironwood_notes w) (nn_txid e, PoolIronwood, nn_action_index e) = None"
  shows "store_name_note E T e w' = Inr w' \<and>
         (case unspent_ironwood_note_by_nullifier w' REGISTRY_ACCOUNT (nn_nullifier e) target of
            Some r \<Rightarrow> rn_id r = (nn_txid e, PoolIronwood, nn_action_index e) \<and> rn_note r = nn_note e \<and>
              rn_position r = nn_position e \<and> rn_mined r = Some (nn_height e)
          | None \<Rightarrow> ironwood_note_is_spent w' (nn_txid e, PoolIronwood, nn_action_index e) target \<or>
              \<not> lock_admits w' (nn_txid e, PoolIronwood, nn_action_index e) target (LockPolicy EXCLUDE_LOCKED))"
  using assms(2)
proof (cases rule: store_name_note_cases)
  case (again existing)
  then show ?thesis using assms(3) by simp
next
  case (stored j m)
  let ?id = "(nn_txid e, PoolIronwood, j)"
  have ok: "bt_ok (w_ironwood_notes w)" "bt_ok (w_ironwood_nullifiers w)" "bt_ok (w_memos w)"
    using assms(1) by (simp_all add: wallet_inv_def core_ok_def tables_ok_def)
  have n: "bt_get (w_ironwood_notes w') ?id = Some (name_note_output e)"
    and f: "bt_get (w_ironwood_nullifiers w') (nn_nullifier e) = Some ?id"
    and mm: "bt_get (w_memos w') ?id = Some (MemoFuture m)"
    and st: "bt_get (w_statuses w') (nn_txid e) = Some (Mined (nn_height e))" "bt_has (w_blocks w') (nn_height e)"
    and tr: "w_ironwood_tree w' = w_ironwood_tree w"
    using stored(3,4,7) ok by (simp_all add: bt_simps)
  have "name_note_leaf_error T w' e = None"
    using stored(9) unfolding name_note_leaf_error_def ironwood_witness_def ironwood_anchor_def tr .
  moreover have "name_note_tx_error w' (nn_height e) (nn_txid e) = None" using st by (simp add: name_note_tx_error_def)
  moreover have "same_name_note (name_note_output e) e" by (simp add: same_name_note_def name_note_output_def)
  moreover have "u16_index (nn_action_index e) = Some j" using stored(1,2) by (simp add: u16_index_def)
  ultimately have "store_name_note E T e w' = Inr w'"
    using n f mm stored(8) by (simp add: store_name_note_def Let_def)
  then show ?thesis
    using n f st stored(2)
    by (auto simp: unspent_ironwood_note_by_nullifier_def unspent_ironwood_note_def ironwood_received_note_def received_note_def
        name_note_output_def mined_height_def nid_txid_def split: option.splits)
qed

abbreviation demo_entry :: "(unit, bytes) name_note_entry" where
  "demo_entry \<equiv> \<lparr>nn_height = 10, nn_position = 1, nn_txid = ''t1'', nn_action_index = 1, nn_note = (), nn_value = 0,
     nn_leaf = Some ''leaf'', nn_nullifier = ''nf1'', nn_ephemeral_key = ''ek'', nn_memo = ''m''\<rparr>"

end
