(* ===== verification/Wallet_Selection.thy ===== *)
theory Wallet_Selection
  imports Wallet_Laws "HOL-Library.Multiset"
begin

text \<open>
  Input selection (\<open>select_spendable_notes\<close> of \<open>src/wallet/input.rs\<close>) against its reference: the
  shortest prefix of the drawable notes, pools in the caller's order and oldest notes first, that
  covers the target; and the agreement of selection with the balances of \<open>src/wallet/read.rs\<close>.
\<close>

declare split_paired_All [simp del] split_paired_Ex [simp del]

section \<open>The loop of one pool\<close>

abbreviation value_of :: "'n received_note list \<Rightarrow> nat" where
  "value_of rs \<equiv> sum_list (map rn_value rs)"

abbreviation economic :: "'n received_note list \<Rightarrow> 'n received_note list" where
  "economic \<equiv> filter (\<lambda>r. rn_value r > MARGINAL_FEE)"

lemma take_notes_all:
  "take_notes E (AllFunds md) rs acc = Some (chosen, acc') \<Longrightarrow> chosen = economic rs"
  by (induction rs arbitrary: acc chosen)
    (auto simp: zat_from_u64_def split: Option.bind_splits if_splits)

lemma take_notes_at_least:
  assumes "take_notes E (AtLeast t) rs acc = Some (chosen, acc')"
  shows "\<exists>k\<le>length (economic rs). chosen = take k (economic rs) \<and>
           (\<forall>j<k. acc + value_of (take j (economic rs)) < t) \<and>
           (k = length (economic rs) \<and> acc' = acc + value_of (economic rs) \<or>
            t \<le> acc + value_of (take k (economic rs)) \<and> t \<le> acc')"
  using assms
proof (induction rs arbitrary: acc chosen)
  case Nil
  then show ?case by simp
next
  case (Cons r rs)
  from Cons.prems obtain v where v: "zat_from_u64 E (rn_value r) = Some v" by (auto split: Option.bind_splits)
  then have rv: "rn_value r = v" by (simp add: zat_from_u64_def split: if_splits)
  show ?case
  proof (cases "v \<le> MARGINAL_FEE")
    case True
    with Cons rv v show ?thesis by simp
  next
    case dear: False
    with Cons.prems v obtain total' where tot: "zat_add E acc v = Some total'" by (auto split: Option.bind_splits)
    then have t': "total' = acc + v" by (simp add: zat_add_def zat_from_u64_def split: if_splits)
    show ?thesis
    proof (cases "acc < t")
      case False
      with Cons.prems v dear tot t' have "chosen = [] \<and> acc' = acc + v" by auto
      with False show ?thesis by (intro exI [of _ 0]) auto
    next
      case True
      with Cons.prems v dear tot obtain rest where rest: "take_notes E (AtLeast t) rs total' = Some (rest, acc')"
        and ch: "chosen = r # rest" by auto
      from Cons.IH [OF rest] obtain k where k: "k \<le> length (economic rs)" "rest = take k (economic rs)"
        "\<forall>j<k. total' + value_of (take j (economic rs)) < t"
        "k = length (economic rs) \<and> acc' = total' + value_of (economic rs) \<or>
         t \<le> total' + value_of (take k (economic rs)) \<and> t \<le> acc'" by blast
      have e: "economic (r # rs) = r # economic rs" using dear rv by simp
      have "\<forall>j<Suc k. acc + value_of (take j (economic (r # rs))) < t"
        using k(3) True t' rv unfolding e by (auto simp: less_Suc_eq_0_disj)
      with k ch t' rv show ?thesis unfolding e by (intro exI [of _ "Suc k"]) auto
    qed
  qed
qed

section \<open>Across pools\<close>

definition drawable ::
  "('t, 'n, 'k) wallet \<Rightarrow> account \<Rightarrow> height \<Rightarrow> confirmations_policy \<Rightarrow> note_id list \<Rightarrow> lock_filter \<Rightarrow> pool_type \<Rightarrow>
     'n received_note list" where
  "drawable w a target policy exclude lf pool =
     economic (case pool of
         PoolSapling \<Rightarrow> eligible_sapling w a target (Some policy) exclude lf
       | PoolIronwood \<Rightarrow> eligible_ironwood w a target (Some policy) exclude lf
       | _ \<Rightarrow> [])"

lemma draw_pools_at_least:
  assumes "draw_pools E w a (AtLeast t) target policy exclude lf sources acc = Some (s, i)"
  shows "\<exists>k\<le>length (concat (map (drawable w a target policy exclude lf) sources)).
           mset (s @ i) = mset (take k (concat (map (drawable w a target policy exclude lf) sources))) \<and>
           (\<forall>j<k. acc + value_of (take j (concat (map (drawable w a target policy exclude lf) sources))) < t) \<and>
           (k = length (concat (map (drawable w a target policy exclude lf) sources)) \<or>
            t \<le> acc + value_of (take k (concat (map (drawable w a target policy exclude lf) sources))))"
  using assms
proof (induction sources arbitrary: acc s i)
  case Nil
  then show ?case by simp
next
  case (Cons pool pools)
  let ?d = "drawable w a target policy exclude lf"
  let ?L = "concat (map ?d pools)"
  let ?F = "\<lambda>chosen acc1. \<exists>k\<le>length (?d pool). chosen = take k (?d pool) \<and> (\<forall>j<k. acc + value_of (take j (?d pool)) < t) \<and>
       (k = length (?d pool) \<and> acc1 = acc + value_of (?d pool) \<or> t \<le> acc + value_of (take k (?d pool)) \<and> t \<le> acc1)"
  obtain chosen acc1 s' i' where first: "?F chosen acc1"
    and rest: "draw_pools E w a (AtLeast t) target policy exclude lf pools acc1 = Some (s', i')"
    and m: "mset (s @ i) = mset chosen + mset (s' @ i')"
  proof (cases pool)
    case PoolSapling
    with Cons.prems obtain chosen acc1 s' i' where
      n: "take_notes E (AtLeast t) (eligible_sapling w a target (Some policy) exclude lf) acc = Some (chosen, acc1)"
      "draw_pools E w a (AtLeast t) target policy exclude lf pools acc1 = Some (s', i')" "s = chosen @ s'" "i = i'"
      by (auto split: Option.bind_splits prod.splits)
    have "?F chosen acc1" using take_notes_at_least [OF n(1)] PoolSapling by (simp add: drawable_def)
    then show ?thesis by (rule that [OF _ n(2)]) (simp add: n(3,4))
  next
    case PoolIronwood
    with Cons.prems obtain chosen acc1 s' i' where
      n: "take_notes E (AtLeast t) (eligible_ironwood w a target (Some policy) exclude lf) acc = Some (chosen, acc1)"
      "draw_pools E w a (AtLeast t) target policy exclude lf pools acc1 = Some (s', i')" "s = s'" "i = chosen @ i'"
      by (auto split: Option.bind_splits prod.splits)
    have "?F chosen acc1" using take_notes_at_least [OF n(1)] PoolIronwood by (simp add: drawable_def)
    then show ?thesis by (rule that [OF _ n(2)]) (simp add: n(3,4))
  qed (use Cons.prems that [of "[]" acc s i] in \<open>auto simp: drawable_def\<close>)
  from first obtain k where k: "k \<le> length (?d pool)" "chosen = take k (?d pool)" "\<forall>j<k. acc + value_of (take j (?d pool)) < t"
    "k = length (?d pool) \<and> acc1 = acc + value_of (?d pool) \<or> t \<le> acc + value_of (take k (?d pool)) \<and> t \<le> acc1" by blast
  from Cons.IH [OF rest] obtain l where l: "l \<le> length ?L" "mset (s' @ i') = mset (take l ?L)"
    "\<forall>j<l. acc1 + value_of (take j ?L) < t" "l = length ?L \<or> t \<le> acc1 + value_of (take l ?L)" by blast
  show ?case
  proof (cases "k = length (?d pool) \<and> acc1 = acc + value_of (?d pool)")
    case True
    have "acc + value_of (take j (?d pool @ ?L)) < t" if "j < k + l" for j
      using that k(3) l(3) True by (cases "j < k") (auto simp: le_imp_diff_is_add not_less dest: spec [of _ "j - k"])
    with True k l m show ?thesis by (intro exI [of _ "k + l"]) auto
  next
    case False
    with k(4) have t: "t \<le> acc + value_of (take k (?d pool))" "t \<le> acc1" by blast+
    have "l = 0" using l(3) t(2) by (cases l) (auto dest: spec [of _ 0])
    with k l m t show ?thesis by (intro exI [of _ k]) auto
  qed
qed

text \<open>C21: What a payment draws. A selection for an amount is the shortest prefix that covers it of
  the account's economic, unspent, confirmed and unlocked notes, pools in the caller's order and
  oldest notes first; when even all of them do not cover it, it is all of them.\<close>

theorem selection_is_shortest_cover:
  assumes "select_spendable_notes E w a (AtLeast t) sources target policy exclude lf = Some (Inr (s, i))"
  shows "\<exists>k. mset (s @ i) = mset (take k (concat (map (drawable w a target policy exclude lf) sources))) \<and>
           (\<forall>j<k. value_of (take j (concat (map (drawable w a target policy exclude lf) sources))) < t) \<and>
           (k = length (concat (map (drawable w a target policy exclude lf) sources)) \<or> t \<le> value_of (s @ i))"
proof -
  have "draw_pools E w a (AtLeast t) target policy exclude lf sources 0 = Some (s, i)"
    using assms by (auto simp: select_spendable_notes_def split: if_splits)
  from draw_pools_at_least [OF this] obtain k where k:
    "mset (s @ i) = mset (take k (concat (map (drawable w a target policy exclude lf) sources)))"
    "\<forall>j<k. value_of (take j (concat (map (drawable w a target policy exclude lf) sources))) < t"
    "k = length (concat (map (drawable w a target policy exclude lf) sources)) \<or>
     t \<le> value_of (take k (concat (map (drawable w a target policy exclude lf) sources)))" by auto
  have "value_of (s @ i) = value_of (take k (concat (map (drawable w a target policy exclude lf) sources)))"
    using k(1) by (metis mset_map sum_mset_sum_list)
  with k show ?thesis by auto
qed

definition demo_paid :: "unit received_note" where
  "demo_paid = \<lparr>rn_id = (''t1'', PoolIronwood, 0), rn_note = (), rn_value = 70000, rn_scope = ScopeExternal,
     rn_position = 0, rn_mined = Some 10\<rparr>"

lemma demo_eligible:
  "eligible_ironwood demo_wallet1 0 11 (Some CONFIRMATIONS) [] (LockPolicy EXCLUDE_LOCKED) = [demo_paid]"
  "eligible_sapling demo_wallet1 0 11 (Some CONFIRMATIONS) [] (LockPolicy EXCLUDE_LOCKED) = []"
  by (simp_all add: eligible_ironwood_def eligible_sapling_def sort_eligible_def demo_wallet1_def demo_new_wallet_def eligible_def
      ironwood_note_is_spent_def lock_admits_def confirmations_satisfied_def mined_height_def required_confirmations_def
      CONFIRMATIONS_def ironwood_received_note_def received_note_def nid_txid_def bt_get_def demo_paid_def List.map_filter_def)

lemma demo_selected:
  "select_spendable_notes demo_env demo_wallet1 0 tv [PoolSapling, PoolIronwood] 11 CONFIRMATIONS [] (LockPolicy EXCLUDE_LOCKED)
     = Some (Inr ([], [demo_paid]))" if "tv = AtLeast 20000 \<or> tv = AllFunds MaxSpendable"
proof -
  have "bt_has (w_ufvks demo_wallet1) 0" by (simp add: demo_wallet1_def demo_new_wallet_def bt_has_def bt_get_def)
  then show ?thesis using that
    by (auto simp: select_spendable_notes_def demo_eligible demo_paid_def demo_env_def zat_from_u64_def zat_add_def MARGINAL_FEE_def)
qed

theorem selection_is_shortest_cover_witness:
  "\<exists>k. mset ([] @ [demo_paid]) = mset (take k (concat (map
       (drawable demo_wallet1 0 11 CONFIRMATIONS [] (LockPolicy EXCLUDE_LOCKED)) [PoolSapling, PoolIronwood])))"
  using selection_is_shortest_cover [OF demo_selected [of "AtLeast 20000"]] by auto

section \<open>Balances\<close>

lemma sum_sorted: "sum_list (map (f :: 'a \<Rightarrow> nat) (filter p (sort_key key xs))) = sum_list (map f (filter p xs))"
proof -
  have "mset (filter p (sort_key key xs)) = mset (filter p xs)" by (simp add: mset_filter)
  then have "mset (map f (filter p (sort_key key xs))) = mset (map f (filter p xs))" by (simp add: mset_map)
  then show ?thesis by (metis sum_mset_sum_list)
qed

lemma value_of_map_filter:
  assumes "\<And>e. e \<in> set es \<Longrightarrow> p e \<Longrightarrow> \<exists>r. g e = Some r \<and> rn_value r = v e"
  shows "value_of (economic (List.map_filter g (filter p es))) =
           sum_list (map v (filter (\<lambda>e. p e \<and> v e > MARGINAL_FEE) es))"
  using assms
proof (induction es)
  case (Cons e es)
  show ?case
  proof (cases "p e")
    case True
    with Cons.prems [of e] obtain r where "g e = Some r" "rn_value r = v e" by auto
    with Cons True show ?thesis by (simp add: map_filter_simps)
  next
    case False
    with Cons show ?thesis by simp
  qed
qed (simp add: map_filter_simps)

lemma summary_sum:
  "sum_list (map (\<lambda>(_, _, _, v). v) (filter (\<lambda>(x, _, b, _). x = a \<and> b = Spendable)
       (map (summary_entry w pool target policy) (filter (\<lambda>(i, _). \<not> spent i) es)))) =
   sum_list (map (\<lambda>(_, out). wo_value out) (filter (\<lambda>(i, out). \<not> spent i \<and> wo_account out = a \<and>
       balance_bucket w i (counts_as_change out) (wo_value out) target policy = Spendable) es))"
  by (induction es) (auto simp: summary_entry_def)

text \<open>The one rule behind both: a note is drawn exactly when it is added as spendable.\<close>

lemma drawn_iff_spendable:
  assumes "wo_scope out \<noteq> None"
  shows "eligible w spent a target (Some policy) [] (LockPolicy EXCLUDE_LOCKED) i out \<and> wo_value out > MARGINAL_FEE \<longleftrightarrow>
         \<not> spent i target \<and> wo_account out = a \<and>
         balance_bucket w i (counts_as_change out) (wo_value out) target policy = Spendable"
  using assms
  by (auto simp: eligible_def balance_bucket_def confirmations_satisfied_def mined_height_def lock_admits_def lock_is_live_def
      EXCLUDE_LOCKED_def split: option.splits tx_status.splits if_splits)

lemma pool_balance:
  assumes "bt_ok tbl" and "\<And>i out. bt_get tbl i = Some out \<Longrightarrow> wo_scope out \<noteq> None"
    and "\<And>i out. bt_get tbl i = Some out \<Longrightarrow> g i = received_note w i out"
  shows "value_of (economic (sort_eligible w target lf' (List.map_filter (\<lambda>(i, _). g i)
            (filter (\<lambda>(i, out). eligible w spent a target (Some policy) [] (LockPolicy EXCLUDE_LOCKED) i out) tbl)))) =
         sum_list (map (\<lambda>(_, _, _, v). v) (filter (\<lambda>(x, _, b, _). x = a \<and> b = Spendable)
            (map (summary_entry w pool target policy) (filter (\<lambda>(i, _). \<not> spent i target) tbl))))"
proof -
  let ?e = "\<lambda>(i, out). eligible w spent a target (Some policy) [] (LockPolicy EXCLUDE_LOCKED) i out"
  have mem: "bt_get tbl i = Some out" if "(i, out) \<in> set tbl" for i out
    using that bt.entries_lookup [OF assms(1)] by blast
  have "value_of (economic (sort_eligible w target lf' (List.map_filter (\<lambda>(i, _). g i) (filter ?e tbl)))) =
      value_of (economic (List.map_filter (\<lambda>(i, _). g i) (filter ?e tbl)))"
    unfolding sort_eligible_def by (rule sum_sorted)
  also have "\<dots> = sum_list (map (\<lambda>(_, out). wo_value out) (filter (\<lambda>x. ?e x \<and> (case x of (_, out) \<Rightarrow> wo_value out) > MARGINAL_FEE) tbl))"
    by (rule value_of_map_filter) (use mem assms(3) in \<open>auto simp: received_note_def eligible_def\<close>)
  also have "\<dots> = sum_list (map (\<lambda>(_, out). wo_value out) (filter (\<lambda>(i, out). \<not> spent i target \<and> wo_account out = a \<and>
       balance_bucket w i (counts_as_change out) (wo_value out) target policy = Spendable) tbl))"
  proof (rule arg_cong [where f = "\<lambda>x. sum_list (map _ x)"], rule filter_cong [OF refl], goal_cases)
    case (1 x)
    obtain i out where x: "x = (i, out)" by (rule prod.exhaust)
    from drawn_iff_spendable [OF assms(2) [OF mem [OF 1 [unfolded x]]], of w spent a target policy i] show ?case
      by (simp add: x)
  qed
  finally show ?thesis by (simp only: summary_sum)
qed

text \<open>C22: Balances and selection agree. When every note's key scope is known, the spendable part of
  an account's balance is exactly what selecting all its funds yields.\<close>

theorem balance_is_selection:
  assumes "wallet_inv w"
    and "\<And>i out. bt_get (w_sapling_notes w) i = Some out \<or> bt_get (w_ironwood_notes w) i = Some out \<Longrightarrow> wo_scope out \<noteq> None"
    and "select_spendable_notes E w a (AllFunds MaxSpendable) [PoolSapling, PoolIronwood] target policy []
           (LockPolicy EXCLUDE_LOCKED) = Some (Inr (s, i))"
  shows "value_of (s @ i) =
     sum_list (map (\<lambda>(_, _, _, v). v)
       (filter (\<lambda>(x, _, b, _). x = a \<and> b = Spendable) (summary_entries w target policy)))"
proof -
  have ok: "bt_ok (w_sapling_notes w)" "bt_ok (w_ironwood_notes w)"
    using assms(1) by (simp_all add: wallet_inv_def core_ok_def tables_ok_def)
  from assms(3) have d: "s = economic (eligible_sapling w a target (Some policy) [] (LockPolicy EXCLUDE_LOCKED))"
    "i = economic (eligible_ironwood w a target (Some policy) [] (LockPolicy EXCLUDE_LOCKED))"
    by (auto simp: select_spendable_notes_def split: if_splits Option.bind_splits dest!: take_notes_all)
  have "value_of s = sum_list (map (\<lambda>(_, _, _, v). v) (filter (\<lambda>(x, _, b, _). x = a \<and> b = Spendable)
      (map (summary_entry w PoolSapling target policy) (filter (\<lambda>(i, _). \<not> sapling_note_is_spent w i target) (w_sapling_notes w)))))"
    unfolding d eligible_sapling_def
    by (rule pool_balance [OF ok(1)]) (use assms(2) in blast, simp add: sapling_received_note_def)
  moreover have "value_of i = sum_list (map (\<lambda>(_, _, _, v). v) (filter (\<lambda>(x, _, b, _). x = a \<and> b = Spendable)
      (map (summary_entry w PoolIronwood target policy) (filter (\<lambda>(i, _). \<not> ironwood_note_is_spent w i target) (w_ironwood_notes w)))))"
    unfolding d eligible_ironwood_def
    by (rule pool_balance [OF ok(2)]) (use assms(2) in blast, simp add: ironwood_received_note_def)
  ultimately show ?thesis by (simp add: summary_entries_def)
qed

theorem balance_is_selection_witness:
  "sum_list (map (\<lambda>(_, _, _, v). v)
     (filter (\<lambda>(x, _, b, _). x = 0 \<and> b = Spendable) (summary_entries demo_wallet1 11 CONFIRMATIONS))) = 70000"
proof -
  have "wo_scope out \<noteq> None" if "bt_get (w_sapling_notes demo_wallet1) i = Some out \<or> bt_get (w_ironwood_notes demo_wallet1) i = Some out"
    for i out using that by (auto simp: demo_wallet1_def demo_new_wallet_def bt_get_def split: if_splits)
  from balance_is_selection [OF wallet_reach_inv [OF demo_wallet1_reached] this demo_selected]
  show ?thesis by (simp add: demo_paid_def)
qed

end
