(* ===== verification/Wallet_Read.thy ===== *)
theory Wallet_Read
  imports Wallet_Selection
begin

text \<open>
  The account and chain queries of \<open>src/wallet/read.rs\<close>: the fixed accounts, the summary, and what the
  wallet answers about blocks and transactions. The lemmas say that the answers are those of the
  wallet's own cursor, and that no operation of the wallet changes its accounts.
\<close>

section \<open>The fixed accounts\<close>

record 'k fixed_account =
  fa_id :: account
  fa_ufvk :: 'k
  fa_birthday :: height

definition fixed_account_from_ufvk :: "account \<Rightarrow> 'k \<Rightarrow> height \<Rightarrow> 'k fixed_account option" where
  "fixed_account_from_ufvk a k birthday =
     (if a = TREASURY_ACCOUNT \<or> a = REGISTRY_ACCOUNT then Some \<lparr>fa_id = a, fa_ufvk = k, fa_birthday = birthday\<rparr> else None)"

definition fixed_account_name :: "'k fixed_account \<Rightarrow> string" where
  "fixed_account_name acc = (if fa_id acc = TREASURY_ACCOUNT then ''Treasury'' else ''Registry'')"

definition get_account_ids :: "('t, 'n, 'k) wallet \<Rightarrow> account list" where
  "get_account_ids w = map fst (w_ufvks w)"

definition get_account :: "('t, 'n, 'k) wallet \<Rightarrow> account \<Rightarrow> 'k fixed_account option" where
  "get_account w a =
     do {
       k \<leftarrow> bt_get (w_ufvks w) a;
       birthday \<leftarrow> birthday_of w a;
       fixed_account_from_ufvk a k birthday
     }"

definition validate_seed :: "('t, 'n, 'k) wallet \<Rightarrow> account \<Rightarrow> wallet_error + bool" where
  "validate_seed w a = (case bt_get (w_ufvks w) a of Some _ \<Rightarrow> Inl FixedAccountsOnly | None \<Rightarrow> Inr False)"

text \<open>\<open>find_map\<close>: the first entry that yields an account. \<open>uivk\<close> is the library's derivation.\<close>

fun find_account :: "('k \<Rightarrow> 'i) \<Rightarrow> ('t, 'n, 'k) wallet \<Rightarrow> 'i \<Rightarrow> (account \<times> 'k) list \<Rightarrow> 'k fixed_account option" where
  "find_account uivk w queried [] = None"
| "find_account uivk w queried ((a, k) # rest) =
     (case (if uivk k = queried then Option.bind (birthday_of w a) (fixed_account_from_ufvk a k) else None) of
        Some acc \<Rightarrow> Some acc
      | None \<Rightarrow> find_account uivk w queried rest)"

definition get_account_for_ufvk :: "('k \<Rightarrow> 'i) \<Rightarrow> ('t, 'n, 'k) wallet \<Rightarrow> 'k \<Rightarrow> 'k fixed_account option" where
  "get_account_for_ufvk uivk w k = find_account uivk w (uivk k) (w_ufvks w)"

definition get_account_birthday :: "('t, 'n, 'k) wallet \<Rightarrow> account \<Rightarrow> wallet_error + height" where
  "get_account_birthday w a = ok_or (AccountUnknown a) (birthday_of w a)"

definition utxo_query_height :: "('t, 'n, 'k) wallet \<Rightarrow> account \<Rightarrow> wallet_error + height" where
  "utxo_query_height w a = ok_or (AccountUnknown a) (birthday_of w a)"

section \<open>The summary\<close>

record 'b wallet_summary =
  su_balances :: 'b
  su_chain_tip :: height
  su_fully_scanned :: height
  su_progress :: "nat \<times> nat"
  su_sapling_shards :: nat
  su_orchard_shards :: nat
  su_ironwood_shards :: nat

text \<open>\<open>zero\<close> and \<open>add\<close> are the library's zero balances of the accounts and its checked addition to
  one account's balance; a note of an account without a balance is the \<open>expect\<close>.\<close>

fun add_entries ::
  "(account \<times> pool_type \<times> bucket \<times> zat \<Rightarrow> 'b \<Rightarrow> 'b option) \<Rightarrow> ('t, 'n, 'k) wallet \<Rightarrow> (account \<times> pool_type \<times> bucket \<times> zat) list \<Rightarrow>
     'b \<Rightarrow> (wallet_error + 'b) may_panic" where
  "add_entries add w [] b = Some (Inr b)"
| "add_entries add w (e # es) b =
     (if \<not> bt_has (w_ufvks w) (fst e) then None
      else (case add e b of None \<Rightarrow> Some (Inl BalanceError) | Some b' \<Rightarrow> add_entries add w es b'))"

definition get_wallet_summary ::
  "(account list \<Rightarrow> 'b) \<Rightarrow> (account \<times> pool_type \<times> bucket \<times> zat \<Rightarrow> 'b \<Rightarrow> 'b option) \<Rightarrow> ('t, 'n, 'k) wallet \<Rightarrow>
     confirmations_policy \<Rightarrow> (wallet_error + 'b wallet_summary option) may_panic" where
  "get_wallet_summary zero add w policy =
     (case (case w_zebra_tip w of
              Some tip \<Rightarrow> Some tip
            | None \<Rightarrow> if w_blocks w \<noteq> [] then Some (bm_height (wallet_tip w)) else None) of
        None \<Rightarrow> Some (Inr None)
      | Some chain_tip \<Rightarrow>
          map_option (map_sum id (\<lambda>balances.
              Some \<lparr>su_balances = balances, su_chain_tip = chain_tip, su_fully_scanned = bm_height (wallet_tip w),
                su_progress = scan_progress w chain_tip, su_sapling_shards = length (w_sapling_ends w),
                su_orchard_shards = length (w_orchard_ends w), su_ironwood_shards = length (w_ironwood_ends w)\<rparr>))
            (add_entries add w (summary_entries w (next_height chain_tip) policy) (zero (get_account_ids w))))"

section \<open>Blocks and transactions\<close>

definition applied_block_hash :: "('t, 'n, 'k) wallet \<Rightarrow> height \<Rightarrow> bytes option" where
  "applied_block_hash w h = map_option bm_hash (bt_get (w_blocks w) h)"

definition block_fully_scanned :: "('t, 'n, 'k) wallet \<Rightarrow> block_metadata option" where
  "block_fully_scanned w = map_option snd (bt_last (w_blocks w))"

definition block_max_scanned :: "('t, 'n, 'k) wallet \<Rightarrow> block_metadata option" where
  "block_max_scanned w = block_fully_scanned w"

definition get_max_height_hash :: "('t, 'n, 'k) wallet \<Rightarrow> (height \<times> bytes) option" where
  "get_max_height_hash w = map_option (\<lambda>(h, m). (h, bm_hash m)) (bt_last (w_blocks w))"

definition get_tx_height :: "('t, 'n, 'k) wallet \<Rightarrow> txid \<Rightarrow> height option" where
  "get_tx_height w t = (case bt_get (w_statuses w) t of Some (Mined h) \<Rightarrow> Some h | _ \<Rightarrow> None)"

section \<open>The answers about blocks\<close>

lemma scanned_is_tip:
  assumes "wallet_inv w"
  shows "applied_block_hash w h = (if bm_height (w_seed w) < h then block_hash_at w h else None)"
    and "get_max_height_hash w = Some (k, hash) \<longleftrightarrow> bm_height (w_seed w) < k \<and> k = bm_height (wallet_tip w) \<and> hash = bm_hash (wallet_tip w)"
    and "block_fully_scanned w = (if bm_height (w_seed w) < bm_height (wallet_tip w) then Some (wallet_tip w) else None)"
proof -
  have c: "chain_ok w" using assms by (simp add: wallet_inv_def)
  have tip: "bm_height (wallet_tip w) = bm_height (w_seed w) + length (w_blocks w)" by (rule tip_height [OF c])
  have below: "bt_get (w_blocks w) h \<noteq> None \<Longrightarrow> bm_height (w_seed w) < h" for h
    using chain_ok_has [OF c, of h] by (simp add: bt_has_def)
  show "applied_block_hash w h = (if bm_height (w_seed w) < h then block_hash_at w h else None)"
    using below [of h] by (auto simp: applied_block_hash_def block_hash_at_def split: option.splits)
  have last: "bm_height (snd (last (w_blocks w))) = fst (last (w_blocks w))" if "w_blocks w \<noteq> []"
  proof -
    have "\<forall>e\<in>set (w_blocks w). bm_height (snd e) = fst e" using c by (auto simp: chain_ok_def Let_def list_all_iff)
    then show ?thesis using last_in_set [OF that] by blast
  qed
  show "get_max_height_hash w = Some (k, hash) \<longleftrightarrow> bm_height (w_seed w) < k \<and> k = bm_height (wallet_tip w) \<and> hash = bm_hash (wallet_tip w)"
    using last tip by (auto simp: get_max_height_hash_def wallet_tip_def bt_last_def split: prod.splits)
  show "block_fully_scanned w = (if bm_height (w_seed w) < bm_height (wallet_tip w) then Some (wallet_tip w) else None)"
    using tip by (auto simp: block_fully_scanned_def wallet_tip_def bt_last_def split: prod.splits)
qed

text \<open>Every note the wallet holds is in a block it reports as scanned.\<close>

lemma notes_are_scanned:
  assumes "wallet_inv w" and "bt_has (w_sapling_notes w) i \<or> bt_has (w_ironwood_notes w) i"
  shows "\<exists>h m. get_tx_height w (nid_txid i) = Some h \<and> applied_block_hash w h \<noteq> None \<and> block_fully_scanned w = Some m \<and> h \<le> bm_height m"
proof -
  have c: "chain_ok w" and k: "core_ok (bt_has (w_blocks w)) w" using assms(1) by (simp_all add: wallet_inv_def)
  from k assms(2) obtain h where h: "bt_get (w_statuses w) (nid_txid i) = Some (Mined h)" "bt_has (w_blocks w) h"
    by (auto simp: core_ok_def mined_in_def)
  then show ?thesis
    using chain_ok_has [OF c] tip_height [OF c] scanned_is_tip(3) [OF assms(1)]
    by (auto simp: get_tx_height_def applied_block_hash_def bt_has_def)
qed

section \<open>The accounts never change\<close>

definition same_accounts :: "('t, 'n, 'k) wallet \<Rightarrow> ('t, 'n, 'k) wallet \<Rightarrow> bool" where
  "same_accounts w w' \<longleftrightarrow> w_ufvks w' = w_ufvks w \<and> w_birthdays w' = w_birthdays w \<and> w_seed w' = w_seed w"

lemma same_accounts_trans: "same_accounts w w' \<Longrightarrow> same_accounts w' w'' \<Longrightarrow> same_accounts w w''"
  by (simp add: same_accounts_def)

lemma same_accounts_fold: "(\<And>x a. same_accounts a (f x a)) \<Longrightarrow> same_accounts w (fold f xs w)"
  by (induction xs arbitrary: w) (auto simp: same_accounts_def)

lemma same_put_all: "put_all bs w = Some w' \<Longrightarrow> same_accounts w w'"
proof (induction bs arbitrary: w)
  case (Cons b bs)
  have r: "receive_txs h txs v = Some v' \<Longrightarrow> same_accounts v v'" for h txs v v'
    by (induction txs arbitrary: v) (fastforce simp: same_accounts_def receive_tx_def Option.bind_eq_Some_conv split: prod.splits)+
  have s: "same_accounts v (fold spend_tx txs v)" for v txs
    by (rule same_accounts_fold) (simp add: same_accounts_def spend_tx_def)
  from Cons.prems obtain w1 where w1: "put_block b w = Some w1" "put_all bs w1 = Some w'" by (auto simp: Option.bind_eq_Some_conv)
  then obtain v where v: "receive_txs (sc_height b) (sc_txs b) w = Some v" and "same_accounts (fold spend_tx (sc_txs b) v) w1"
    by (auto simp: put_block_def Let_def same_accounts_def)
  with Cons.IH [OF w1(2)] r [OF v] s show ?case by (meson same_accounts_trans)
qed (simp add: same_accounts_def)

lemma same_drop_applied: "same_accounts w (drop_applied_above h w)"
  by (simp add: same_accounts_def drop_applied_above_def drop_orphaned_def Let_def)

lemma same_truncate: "wallet_truncate_to T h w = Inr (m, w') \<Longrightarrow> same_accounts w w'"
proof -
  have t: "same_accounts v v'" if "try_truncate_trees_to T k v = Inr (done', v')" for k v done' v'
    using try_truncate_inv [OF that] by (auto simp: same_accounts_def)
  assume "wallet_truncate_to T h w = Inr (m, w')"
  then obtain k where "wallet_truncate_to_height T h w = Inr (k, w')"
    by (auto simp: wallet_truncate_to_def result_simps split: prod.splits)
  then have "w' = w \<or> (\<exists>j done' v. try_truncate_trees_to T j w = Inr (done', v) \<and> w' = drop_applied_above j v)"
    by (fastforce simp: wallet_truncate_to_height_def truncate_to_origin_def result_simps Let_def split_def split: option.splits if_splits)
  moreover have "same_accounts w w" by (simp add: same_accounts_def)
  ultimately show ?thesis using t same_drop_applied same_accounts_trans by metis
qed

lemma same_step: "wallet_step E T parse w w' \<Longrightarrow> same_accounts w w'"
proof (induction rule: wallet_step.induct)
  case (apply_blocks from_tip bs marks w w')
  show ?case
  proof (cases "bs = []")
    case True
    with apply_blocks show ?thesis by (simp add: put_blocks_marked_def same_accounts_def)
  next
    case False
    obtain x y z w1 where p: "put_all bs (w\<lparr>w_sapling_tree := x, w_orchard_tree := y, w_ironwood_tree := z\<rparr>) = Some w1"
      and "w' = (case bt_last (w_blocks w1) of Some (applied, _) \<Rightarrow> update_chain_tip applied w1 | None \<Rightarrow> w1)"
      by (rule put_blocks_parts [OF apply_blocks(1) False])
    with same_put_all [OF p] show ?thesis by (auto simp: same_accounts_def update_chain_tip_def split: option.splits)
  qed
next
  case (keep_name_note e w w')
  then show ?case
    by (auto simp: store_name_note_def same_accounts_def Let_def split: option.splits if_splits)
next
  case (keep_sent w txs)
  have "same_accounts a (store_sent parse x a)" for x a
    by (simp add: store_sent_def same_accounts_def Let_def split: prod.split)
  then show ?case unfolding store_transactions_to_be_sent_def by (rule same_accounts_fold)
next
  case (truncate h w m w')
  then show ?case by (rule same_truncate)
next
  case (lock outs owner expiry w n w')
  then show ?case by (auto simp: lock_outputs_def same_accounts_def Let_def split: option.splits if_splits prod.splits)
next
  case (unlock w out owner)
  then show ?case by (auto simp: unlock_output_def same_accounts_def split: option.splits if_splits prod.splits)
next
  case (unlock_all w a)
  then show ?case by (simp add: clear_locked_outputs_def same_accounts_def Let_def)
next
  case (learn_tip w h)
  then show ?case by (simp add: update_chain_tip_def same_accounts_def)
qed

text \<open>From its creation on, a wallet answers for the accounts it was created with, all born at the block
  after its origin, and for no other; an account is one of the mint's two.\<close>

lemma born_accounts:
  assumes "wallet_new T keys s sapling_roots ironwood_roots = Some (Inr w)"
  shows "w_birthdays w = map (\<lambda>(a, _). (a, next_height (bm_height (w_seed w)))) (w_ufvks w)"
  using assms by (auto simp: wallet_new_def block_metadata_of_def Let_def result_simps split: prod.splits if_splits)

lemma map_of_constant: "map_of (map (\<lambda>(a, _). (a, c)) m) a = map_option (\<lambda>_. c) (map_of m a)"
  by (induction m) auto

lemma accounts_fixed:
  assumes "wallet_reach E T parse w"
  shows "get_account w a =
      (case bt_get (w_ufvks w) a of
         Some k \<Rightarrow> if a = TREASURY_ACCOUNT \<or> a = REGISTRY_ACCOUNT
           then Some \<lparr>fa_id = a, fa_ufvk = k, fa_birthday = next_height (bm_height (w_seed w))\<rparr> else None
       | None \<Rightarrow> None)"
    and "get_account_birthday w a =
      (if bt_has (w_ufvks w) a then Inr (next_height (bm_height (w_seed w))) else Inl (AccountUnknown a))"
proof -
  have "w_birthdays w = map (\<lambda>(a, _). (a, next_height (bm_height (w_seed w)))) (w_ufvks w)"
    using assms
  proof (induction rule: wallet_reach.induct)
    case (step w w')
    then show ?case using same_step [OF step.hyps(2)] by (simp add: same_accounts_def)
  qed (rule born_accounts)
  then have b: "birthday_of w a = map_option (\<lambda>_. next_height (bm_height (w_seed w))) (bt_get (w_ufvks w) a)"
    by (simp add: birthday_of_def bt_get_def map_of_constant)
  show "get_account w a =
      (case bt_get (w_ufvks w) a of
         Some k \<Rightarrow> if a = TREASURY_ACCOUNT \<or> a = REGISTRY_ACCOUNT
           then Some \<lparr>fa_id = a, fa_ufvk = k, fa_birthday = next_height (bm_height (w_seed w))\<rparr> else None
       | None \<Rightarrow> None)"
    using b by (auto simp: get_account_def fixed_account_from_ufvk_def split: option.split)
  show "get_account_birthday w a =
      (if bt_has (w_ufvks w) a then Inr (next_height (bm_height (w_seed w))) else Inl (AccountUnknown a))"
    using b by (auto simp: get_account_birthday_def bt_has_def ok_or_def split: option.split)
qed

text \<open>A summary never panics on a wallet whose notes are its accounts'.\<close>

lemma summary_total:
  assumes "\<forall>e\<in>set (w_sapling_notes w) \<union> set (w_ironwood_notes w). bt_has (w_ufvks w) (wo_account (snd e))"
  shows "get_wallet_summary zero add w policy \<noteq> None"
proof -
  have "add_entries add w es b \<noteq> None" if "\<forall>e\<in>set es. bt_has (w_ufvks w) (fst e)" for es b
    using that by (induction es arbitrary: b) (auto split: option.split)
  moreover have "\<forall>e\<in>set (summary_entries w target policy). bt_has (w_ufvks w) (fst e)" for target
    using assms by (auto simp: summary_entries_def summary_entry_def) (metis UnI1 UnI2 snd_conv)+
  ultimately show ?thesis by (auto simp: get_wallet_summary_def split: option.split)
qed

end
