(* ===== verification/Venues.thy ===== *)
theory Venues
  imports Pricing Presale "HOL-Library.Sublist"
begin

text \<open>
  The two reads over HTTP: a venue's last price (\<open>fetch_last\<close> and \<open>fetch_round\<close> of
  \<open>src/mint/pricing.rs\<close>) and the pre-sale table (\<open>fetch_rows\<close> of \<open>src/mint/presale.rs\<close>), from the
  request to the value the rest of the mint works with. The HTTP client and \<open>serde_json\<close> are
  parameters; a reply, late, broken or complete, is an argument.
\<close>

section \<open>Requests and replies\<close>

record http_response =
  hr_status :: nat
  hr_content_range :: "bytes option"
  hr_body :: "bytes option"

datatype http_reply = ReplyLate | ReplyFailed | Replied http_response

text \<open>\<open>http\<close>'s parsers: of an address, of a request with its headers, of a header's text.\<close>

record ('u, 'r) http_env =
  h_uri :: "string \<Rightarrow> 'u option"
  h_request :: "'u \<Rightarrow> (string \<times> string) list \<Rightarrow> 'r option"
  h_header_text :: "bytes \<Rightarrow> string option"

text \<open>\<open>serde_json\<close>: a body, a pointer into it, a decimal; the pre-sale's array, and of an element the
  name and the raw expiry, which a row may leave out. \<open>j_optional_text\<close> reads \<open>null\<close> as no text.
  \<open>j_rfc3339\<close> is the \<open>time\<close> crate's, in seconds.\<close>

record ('j, 'd) json_env =
  j_from_slice :: "bytes \<Rightarrow> 'j option"
  j_pointer :: "'j \<Rightarrow> string \<Rightarrow> 'j option"
  j_decimal :: "'j \<Rightarrow> 'd option"
  j_array :: "bytes \<Rightarrow> string + 'j list"
  j_row :: "'j \<Rightarrow> (string \<times> 'j option) option"
  j_optional_text :: "'j \<Rightarrow> string option option"
  j_rfc3339 :: "string \<Rightarrow> int option"

definition is_success :: "nat \<Rightarrow> bool" where
  "is_success status \<longleftrightarrow> 200 \<le> status \<and> status < 300"

text \<open>\<open>Limited\<close>: the whole body, unless the stream breaks or carries more than the cap.\<close>

definition limited :: "nat \<Rightarrow> bytes option \<Rightarrow> bytes option" where
  "limited cap body = (case body of Some b \<Rightarrow> if length b \<le> cap then Some b else None | None \<Rightarrow> None)"

lemma limited_Some: "limited cap body = Some b \<longleftrightarrow> body = Some b \<and> length b \<le> cap"
  by (auto simp: limited_def split: option.splits)

section \<open>The venues\<close>

record exchange =
  ex_name :: string
  ex_url :: string
  ex_pointer :: string

definition EXCHANGES :: "exchange list" where
  "EXCHANGES =
     [\<lparr>ex_name = ''gemini'', ex_url = ''https://api.gemini.com/v2/ticker/zecusd'', ex_pointer = ''/close''\<rparr>,
      \<lparr>ex_name = ''kraken'', ex_url = ''https://api.kraken.com/0/public/Ticker?pair=XZECZUSD'', ex_pointer = ''/result/XZECZUSD/c/0''\<rparr>,
      \<lparr>ex_name = ''coinbase'', ex_url = ''https://api.exchange.coinbase.com/products/ZEC-USD/ticker'', ex_pointer = ''/price''\<rparr>,
      \<lparr>ex_name = ''bitstamp'', ex_url = ''https://www.bitstamp.net/api/v2/ticker/zecusd/'', ex_pointer = ''/last''\<rparr>,
      \<lparr>ex_name = ''bitfinex'', ex_url = ''https://api-pub.bitfinex.com/v2/ticker/tZECUSD'', ex_pointer = ''/6''\<rparr>,
      \<lparr>ex_name = ''okx'', ex_url = ''https://www.okx.com/api/v5/market/ticker?instId=ZEC-USDT'', ex_pointer = ''/data/0/last''\<rparr>,
      \<lparr>ex_name = ''binance'', ex_url = ''https://api.binance.com/api/v3/ticker/24hr?symbol=ZECUSDT'', ex_pointer = ''/lastPrice''\<rparr>,
      \<lparr>ex_name = ''kucoin'', ex_url = ''https://api.kucoin.com/api/v1/market/stats?symbol=ZEC-USDT'', ex_pointer = ''/data/last''\<rparr>,
      \<lparr>ex_name = ''mexc'', ex_url = ''https://api.mexc.com/api/v3/ticker/24hr?symbol=ZECUSDT'', ex_pointer = ''/lastPrice''\<rparr>]"

definition PRICING_BODY_BYTES :: nat where
  "PRICING_BODY_BYTES = 64 * 1024"

text \<open>The decimal a venue's reply holds; the plausible band is \<open>fetch_last\<close>'s.\<close>

definition venue_decimal :: "('u, 'r) http_env \<Rightarrow> ('j, 'd) json_env \<Rightarrow> exchange \<Rightarrow> http_reply \<Rightarrow> 'd option" where
  "venue_decimal H J x reply =
     do {
       uri \<leftarrow> h_uri H (ex_url x);
       request \<leftarrow> h_request H uri [(''accept'', ''application/json'')];
       (case reply of
          ReplyLate \<Rightarrow> None
        | ReplyFailed \<Rightarrow> None
        | Replied response \<Rightarrow>
            if \<not> is_success (hr_status response) then None
            else do {
              b \<leftarrow> limited PRICING_BODY_BYTES (hr_body response);
              body \<leftarrow> j_from_slice J b;
              v \<leftarrow> j_pointer J body (ex_pointer x);
              j_decimal J v
            })
     }"

definition fetch_venue ::
  "('u, 'r) http_env \<Rightarrow> ('j, 'd::linorder) json_env \<Rightarrow> 'd dec_env \<Rightarrow> exchange \<Rightarrow> http_reply \<Rightarrow> 'd option" where
  "fetch_venue H J D x reply = fetch_last D (venue_decimal H J x reply)"

text \<open>How one venue's task ends: with its reply in time, cut off by the outer timeout, or by a panic.\<close>

datatype venue_task = Ended http_reply | CutOff | Crashed

text \<open>\<open>join_next\<close> until no task is left: the quotes in the order the tasks end.\<close>

fun join_quotes ::
  "('u, 'r) http_env \<Rightarrow> ('j, 'd::linorder) json_env \<Rightarrow> 'd dec_env \<Rightarrow> (exchange \<times> venue_task) list \<Rightarrow> (string \<times> 'd) list" where
  "join_quotes H J D [] = []"
| "join_quotes H J D ((x, task) # tasks) =
     (case task of
        Ended reply \<Rightarrow> (case fetch_venue H J D x reply of Some rate \<Rightarrow> [(ex_name x, rate)] | None \<Rightarrow> [])
      | CutOff \<Rightarrow> []
      | Crashed \<Rightarrow> []) @ join_quotes H J D tasks"

definition fetch_round_over ::
  "('u, 'r) http_env \<Rightarrow> ('j, 'd::linorder) json_env \<Rightarrow> 'd dec_env \<Rightarrow> (exchange \<times> venue_task) list \<Rightarrow> 'd option may_panic" where
  "fetch_round_over H J D tasks = aggregate D (join_quotes H J D tasks)"

section \<open>The pre-sale's table\<close>

definition PRESALE_HOST :: string where
  "PRESALE_HOST = ''https://cclrkfymckyjfufvqedr.supabase.co''"

definition PRESALE_TABLE :: string where
  "PRESALE_TABLE = ''zn_names''"

definition PRESALE_PUBLISHABLE_KEY :: string where
  "PRESALE_PUBLISHABLE_KEY = ''sb_publishable_eRyX0Z5CY3bHm11iCFoZRA_-u2WgStF''"

definition PRESALE_BODY_BYTES :: nat where
  "PRESALE_BODY_BYTES = 4 * 1024 * 1024"

definition presale_rest_url :: string where
  "presale_rest_url = PRESALE_HOST @ ''/rest/v1/'' @ PRESALE_TABLE"

text \<open>\<open>str::parse::<usize>\<close> takes one leading plus sign.\<close>

definition parse_usize :: "string \<Rightarrow> nat option" where
  "parse_usize s = parse_upto U64_MAX (case s of c # r \<Rightarrow> if c = CHR ''+'' then r else s | [] \<Rightarrow> s)"

definition counted_rows :: "('u, 'r) http_env \<Rightarrow> bytes option \<Rightarrow> nat option" where
  "counted_rows H header =
     do {
       v \<leftarrow> header;
       s \<leftarrow> h_header_text H v;
       parse_usize (last (split_on (CHR ''/'') s))
     }"

definition deserialize_optional_timestamp :: "('ua, 'cm) zenv \<Rightarrow> ('j, 'd) json_env \<Rightarrow> 'j \<Rightarrow> timestamp option option" where
  "deserialize_optional_timestamp E J v =
     do {
       raw \<leftarrow> j_optional_text J v;
       (case raw of
          None \<Rightarrow> Some None
        | Some s \<Rightarrow> do { dt \<leftarrow> j_rfc3339 J s; ts \<leftarrow> ts_from_seconds E dt; Some (Some ts) })
     }"

definition row_decode :: "('ua, 'cm) zenv \<Rightarrow> ('j, 'd) json_env \<Rightarrow> 'j \<Rightarrow> protected_row option" where
  "row_decode E J v =
     do {
       (nm, field) \<leftarrow> j_row J v;
       expiry \<leftarrow> (case field of None \<Rightarrow> Some None | Some f \<Rightarrow> deserialize_optional_timestamp E J f);
       Some \<lparr>row_name = nm, row_expiry_at = expiry\<rparr>
     }"

definition fetch_rows ::
  "('ua, 'cm) zenv \<Rightarrow> ('u, 'r) http_env \<Rightarrow> ('j, 'd) json_env \<Rightarrow> http_reply \<Rightarrow> (protected_row list \<times> nat \<times> nat option) option" where
  "fetch_rows E H J reply =
     do {
       uri \<leftarrow> h_uri H (presale_rest_url @ ''?select=name,expiry_at'');
       request \<leftarrow> h_request H uri
         [(''accept'', ''application/json''), (''apikey'', PRESALE_PUBLISHABLE_KEY), (''prefer'', ''count=exact'')];
       (case reply of
          ReplyLate \<Rightarrow> None
        | ReplyFailed \<Rightarrow> None
        | Replied response \<Rightarrow>
            if \<not> is_success (hr_status response) then None
            else do {
              body \<leftarrow> limited PRESALE_BODY_BYTES (hr_body response);
              (case decode_rows (j_array J) (row_decode E J) body of
                 Inr (rows, landed) \<Rightarrow> Some (rows, landed, counted_rows H (hr_content_range response))
               | Inl _ \<Rightarrow> None)
            })
     }"

section \<open>A round\<close>

lemma fetch_last_plausible: "fetch_last D v = Some p \<Longrightarrow> v = Some p \<and> plausible D p"
  by (auto simp: fetch_last_def split: option.splits if_splits)

text \<open>A quote is a plausible price that its venue answered in time.\<close>

lemma quote_iff:
  "(nm, p) \<in> set (join_quotes H J D tasks) \<longleftrightarrow>
     (\<exists>x reply. (x, Ended reply) \<in> set tasks \<and> ex_name x = nm \<and> venue_decimal H J x reply = Some p \<and> plausible D p)"
proof (induction tasks)
  case (Cons t tasks)
  obtain x task where t: "t = (x, task)" by (cases t)
  have "(nm, p) \<in> set (case fetch_venue H J D x reply of Some rate \<Rightarrow> [(ex_name x, rate)] | None \<Rightarrow> []) \<longleftrightarrow>
      nm = ex_name x \<and> venue_decimal H J x reply = Some p \<and> plausible D p" for reply
    by (auto simp: fetch_venue_def fetch_last_def split: option.splits if_splits)
  with Cons t show ?case by (cases task) auto
qed simp

lemma quote_names: "\<exists>ks. map fst (join_quotes H J D tasks) = map ex_name ks \<and> subseq ks (map fst tasks)"
proof (induction tasks)
  case (Cons t tasks)
  obtain x task where t: "t = (x, task)" by (cases t)
  obtain ks where ks: "map fst (join_quotes H J D tasks) = map ex_name ks" "subseq ks (map fst tasks)" using Cons by blast
  show ?case
  proof (cases "map fst (join_quotes H J D (t # tasks)) = map ex_name ks")
    case True
    then show ?thesis using ks(2) t by (auto intro: subseq_Cons')
  next
    case False
    then have "map fst (join_quotes H J D (t # tasks)) = map ex_name (x # ks)"
      using ks(1) t by (auto split: venue_task.splits option.splits)
    then show ?thesis using ks(2) t by (intro exI [of _ "x # ks"]) simp
  qed
qed simp

lemma exchange_names: "distinct (map ex_name EXCHANGES)"
  by (simp add: EXCHANGES_def)

lemma quotes_distinct:
  assumes "distinct (map fst tasks)" and "set (map fst tasks) \<subseteq> set EXCHANGES"
  shows "distinct (map fst (join_quotes H J D tasks))"
proof -
  obtain ks where ks: "map fst (join_quotes H J D tasks) = map ex_name ks" "subseq ks (map fst tasks)" using quote_names by blast
  have "set ks \<subseteq> set EXCHANGES" using list_emb_set [OF ks(2)] assms(2) by blast
  moreover have "distinct ks" using ks(2) assms(1) subseqs_distinctD by (metis in_set_subseqs)
  moreover have "inj_on ex_name (set EXCHANGES)" using exchange_names by (simp add: distinct_map)
  ultimately show ?thesis unfolding ks(1) by (meson distinct_map inj_on_subset)
qed

lemma few_hostile:
  assumes "distinct (map fst qs)" and "finite hostile"
  shows "length (filter (\<lambda>q. fst q \<in> hostile) qs) \<le> card hostile"
proof -
  let ?f = "filter (\<lambda>q. fst q \<in> hostile) qs"
  have "distinct (map fst ?f)" using assms(1) by (rule distinct_map_filter)
  then have "length ?f = card (fst ` set ?f)" by (metis distinct_card length_map set_map)
  also have "\<dots> \<le> card hostile" using assms(2) by (intro card_mono) auto
  finally show ?thesis .
qed

text \<open>The round of \<open>Pricing\<close> over the decimals the venues answered is this one.\<close>

lemma fetch_round_over_eq:
  "fetch_round D (map (\<lambda>(x, task). (ex_name x, case task of Ended reply \<Rightarrow> venue_decimal H J x reply | _ \<Rightarrow> None)) tasks) =
     fetch_round_over H J D tasks"
proof -
  have "concat (map (\<lambda>(nm, response). case fetch_last D response of Some rate \<Rightarrow> [(nm, rate)] | None \<Rightarrow> [])
      (map (\<lambda>(x, task). (ex_name x, case task of Ended reply \<Rightarrow> venue_decimal H J x reply | _ \<Rightarrow> None)) tasks)) = join_quotes H J D tasks"
    by (induction H J D tasks rule: join_quotes.induct) (auto simp: fetch_venue_def fetch_last_def split: venue_task.split)
  then show ?thesis unfolding fetch_round_def fetch_round_over_def by simp
qed

text \<open>Below the quorum only the trusted venue publishes.\<close>

lemma aggregate_small:
  assumes "length quotes < 3"
  shows "\<exists>v. aggregate D quotes = Some v \<and> (\<forall>r. v = Some r \<longrightarrow> (TRUSTED, r) \<in> set quotes)"
proof -
  have f: "(TRUSTED, r) \<in> set quotes" if "map_option snd (find (\<lambda>(nm, _). nm = TRUSTED) quotes) = Some r" for r
    using that by (auto simp: find_Some_iff split: prod.splits) (metis nth_mem prod.collapse)
  show ?thesis
  proof (cases quotes)
    case Nil
    then show ?thesis by (simp add: aggregate_def)
  next
    case (Cons q qs)
    then have "length quotes = 1 \<or> length quotes = 2" using assms by (cases qs) auto
    then have "aggregate D quotes = Some (map_option snd (find (\<lambda>(nm, _). nm = TRUSTED) quotes))" by (auto simp: aggregate_def)
    with f show ?thesis by blast
  qed
qed


text \<open>Four venues answer fifty, fifty-one, fifty-two and a forged million less one; the others are late.\<close>

definition demo_http :: "(string, string) http_env" where
  "demo_http = \<lparr>h_uri = Some, h_request = (\<lambda>u _. Some u), h_header_text = Some\<rparr>"

definition demo_json :: "(nat, nat) json_env" where
  "demo_json = \<lparr>j_from_slice = (\<lambda>b. Some (undec b)), j_pointer = (\<lambda>v _. Some v), j_decimal = Some, j_array = (\<lambda>_. Inr []),
     j_row = (\<lambda>_. None), j_optional_text = (\<lambda>_. None), j_rfc3339 = (\<lambda>_. None)\<rparr>"

definition demo_tasks :: "(exchange \<times> venue_task) list" where
  "demo_tasks = map2 (\<lambda>x body. (x, Ended (if body = [] then ReplyLate
     else Replied \<lparr>hr_status = 200, hr_content_range = None, hr_body = Some body\<rparr>))) EXCHANGES
       [''50'', [], ''51'', ''52'', [], ''999999'', [], [], []]"


section \<open>A read of the table\<close>

lemma decode_rows_filter:
  "decode_rows from_slice from_value body =
     map_sum id (\<lambda>vs. (List.map_filter from_value vs, length vs)) (from_slice body)"
  by (auto simp: decode_rows_def map_filter_def comp_def filter_map split: sum.splits)

text \<open>The elements of an answer that can be trusted to be whole: a success within the cap whose count is
  the number of its elements.\<close>

definition whole_answer :: "('u, 'r) http_env \<Rightarrow> ('j, 'd) json_env \<Rightarrow> http_reply \<Rightarrow> 'j list option" where
  "whole_answer H J reply =
     (case reply of
        Replied response \<Rightarrow>
          (case hr_body response of
             Some b \<Rightarrow>
               (case j_array J b of
                  Inr vs \<Rightarrow>
                    if 200 \<le> hr_status response \<and> hr_status response < 300 \<and> length b \<le> 4194304 \<and>
                       counted_rows H (hr_content_range response) = Some (length vs)
                    then Some vs else None
                | Inl _ \<Rightarrow> None)
           | None \<Rightarrow> None)
      | _ \<Rightarrow> None)"

text \<open>The table after a read says what the answer said: it changes only on a whole answer, and then a name
  is protected exactly when an element that decodes names it and never expires or expires later. On
  any other answer, late or broken, the last table stands. Building it never panics.\<close>

lemma protection_is_the_answer:
  assumes "h_uri H (presale_rest_url @ ''?select=name,expiry_at'') = Some uri" and "\<forall>headers. h_request H uri headers \<noteq> None"
  shows "\<exists>t. install (fetch (fetch_rows E H J reply)) old = Some t \<and>
     (case whole_answer H J reply of
        Some vs \<Rightarrow> \<forall>n mtp. is_protected t n mtp \<longleftrightarrow>
          (\<exists>v\<in>set vs. \<exists>row. row_decode E J v = Some row \<and> name_parse (row_name row) = Some n \<and>
             (case row_expiry_at row of None \<Rightarrow> True | Some ts \<Rightarrow> mtp < ts))
      | None \<Rightarrow> t = old)"
proof -
  obtain request where req: "h_request H uri
      [(''accept'', ''application/json''), (''apikey'', PRESALE_PUBLISHABLE_KEY), (''prefer'', ''count=exact'')] = Some request"
    using assms(2) by blast
  have "row \<in> set (List.map_filter (row_decode E J) vs) \<longleftrightarrow> (\<exists>v\<in>set vs. row_decode E J v = Some row)" for vs row
    by (force simp: map_filter_def image_iff)
  then have rows: "(\<exists>row. row \<in> set (List.map_filter (row_decode E J) vs) \<and> P row) \<longleftrightarrow>
      (\<exists>v\<in>set vs. \<exists>row. row_decode E J v = Some row \<and> P row)" for vs P by blast
  have cap: "PRESALE_BODY_BYTES = 4194304" by (simp add: PRESALE_BODY_BYTES_def)
  have read: "(case whole_answer H J reply of
      Some vs \<Rightarrow> fetch_rows E H J reply = Some (List.map_filter (row_decode E J) vs, length vs, Some (length vs))
    | None \<Rightarrow> \<forall>rows landed. fetch_rows E H J reply \<noteq> Some (rows, landed, Some landed))"
    using assms(1) req
    by (auto simp: whole_answer_def fetch_rows_def is_success_def limited_def cap decode_rows_filter
        split: http_reply.splits option.splits sum.splits)
  show ?thesis
  proof (cases "whole_answer H J reply")
    case None
    with read have "\<forall>rows landed. fetch_rows E H J reply \<noteq> Some (rows, landed, Some landed)" by simp
    then have "install (fetch (fetch_rows E H J reply)) old = Some old"
      by (cases "fetch_rows E H J reply") (auto simp: install_def fetch_def complete_def split: option.splits)
    with None show ?thesis by simp
  next
    case (Some vs)
    with read have "fetch_rows E H J reply = Some (List.map_filter (row_decode E J) vs, length vs, Some (length vs))" by simp
    with protection_is_the_rows [of "fetch_rows E H J reply" old] rows Some show ?thesis by simp
  qed
qed

end
