(* ===== verification/Authority.thy ===== *)
theory Authority
  imports Mint_Block_Laws Wallet_Laws
begin

text \<open>
  The Registry and the wallet together: block application (\<open>apply_block\<close> of \<open>src/mint.rs\<close>) over
  the wallet of \<open>src/wallet\<close> instead of an abstract one. The result is that the authority over a
  name is never lost: the note whose nullifier a live record names is in the wallet.
\<close>

declare split_paired_All [simp del] split_paired_Ex [simp del]

section \<open>The mint's wallet operations\<close>

text \<open>The library's scanner, and the parts of a decrypted action that \<open>apply_block\<close> hands on.\<close>

record ('t, 'h, 'n, 'k, 'ua, 'cm, 'cmx) scanner =
  sn_scan :: "('t, 'n, 'k) wallet \<Rightarrow> ('cm, 'cmx) block \<Rightarrow> ('h, 'n) scanned_block may_panic"
  sn_leaf :: "'cmx \<Rightarrow> 'h"
  sn_note :: "('ua, 'cm, 'cmx) decrypted_name_note \<Rightarrow> 'n"
  sn_ephemeral_key :: "('ua, 'cm, 'cmx) decrypted_name_note \<Rightarrow> bytes"

definition scanned_view :: "'n wallet_tx \<Rightarrow> scanned_tx" where
  "scanned_view wtx = \<lparr>sx_txid = wt_txid wtx, sx_spends = wt_ironwood_spends wtx,
     sx_outputs = map (\<lambda>out. (wo_account out = REGISTRY_ACCOUNT, wo_value out, wo_nf out)) (wt_ironwood_outputs wtx)\<rparr>"

definition ironwood_start :: "('h, 'n) scanned_block \<Rightarrow> nat may_panic" where
  "ironwood_start sc =
     (let n = length (sb_commitments (sc_ironwood sc)) in
      if n \<le> sb_final_tree_size (sc_ironwood sc) then Some (sb_final_tree_size (sc_ironwood sc) - n) else None)"

definition entry_of ::
  "('t, 'h, 'n, 'k, 'ua, 'cm, 'cmx) scanner \<Rightarrow> height \<Rightarrow> nat \<Rightarrow> ('ua, 'cm, 'cmx) decrypted_name_note \<Rightarrow> ('n, 'h) name_note_entry" where
  "entry_of S height pos c =
     \<lparr>nn_height = height, nn_position = pos, nn_txid = dn_txid c, nn_action_index = dn_action_index c, nn_note = sn_note S c,
      nn_value = 0, nn_leaf = Some (sn_leaf S (dn_cmx c)), nn_nullifier = dn_nullifier c,
      nn_ephemeral_key = sn_ephemeral_key S c, nn_memo = dn_memo c\<rparr>"

definition mint_wallet ::
  "('ua, 'cm) zenv \<Rightarrow> ('t, 'h, 'f) tree_ops \<Rightarrow> ('t, 'h, 'n, 'k, 'ua, 'cm, 'cmx) scanner \<Rightarrow>
     (('t, 'n, 'k) wallet, 'ua, 'cm, 'cmx) wallet_ops" where
  "mint_wallet E T S =
     \<lparr>w_tip = (\<lambda>w. (bm_height (wallet_tip w), bm_hash (wallet_tip w))),
      w_scan = (\<lambda>w b. Option.bind (sn_scan S w b) (\<lambda>sc. map_option (Pair (map scanned_view (sc_txs sc))) (ironwood_start sc))),
      w_commit = (\<lambda>b marks w. Option.bind (sn_scan S w b) (\<lambda>sc.
        case put_blocks_marked T (wallet_tip w) [sc] (map (sn_leaf S) marks) w of Some (Inr w') \<Rightarrow> Some w' | _ \<Rightarrow> None)),
      w_store = (\<lambda>height pos c w. case store_name_note E T (entry_of S height pos c) w of Inr w' \<Rightarrow> Some w' | Inl _ \<Rightarrow> None)\<rparr>"

section \<open>What a block adds to the histories\<close>

definition adds :: "(('ua, 'cm) name_record \<Rightarrow> bool) \<Rightarrow> ('ua, 'cm) registry \<Rightarrow> ('ua, 'cm) registry \<Rightarrow> bool" where
  "adds P r r' \<longleftrightarrow> (bt_ok (history r) \<longrightarrow> bt_ok (history r') \<and>
     (\<forall>n. \<forall>rec\<in>set (record_history r' n). rec \<in> set (record_history r n) \<or> P rec))"

lemma adds_refl: "history r' = history r \<Longrightarrow> adds P r r'"
  by (simp add: adds_def record_history_def)

lemma adds_trans: "adds P r r' \<Longrightarrow> adds P r' r'' \<Longrightarrow> adds P r r''"
  unfolding adds_def by blast

lemma adds_mono: "adds P r r' \<Longrightarrow> (\<And>rec. P rec \<Longrightarrow> Q rec) \<Longrightarrow> adds Q r r'"
  unfolding adds_def by blast

lemma adds_set_record: "P rec \<Longrightarrow> adds P r (set_record rec r)"
proof -
  assume p: "P rec"
  have "bt_ok (history r) \<Longrightarrow> bt_ok (history (set_record rec r))" by (simp add: set_record_def bt.ok_upd)
  then show ?thesis using p by (auto simp: adds_def history_set_record split: if_splits)
qed

abbreviation released :: "('ua, 'cm) name_record \<Rightarrow> bool" where
  "released rec \<equiv> is_release (nr_action rec)"

lemma adds_fold: "(\<And>x s. adds P s (f x s)) \<Longrightarrow> adds P r (fold f xs r)"
  by (induction xs arbitrary: r) (auto intro: adds_refl adds_trans)

lemma adds_mark_released: "adds released r (mark_released nfs h r)"
  unfolding mark_released_def
  by (rule adds_fold) (auto simp: mark_released_one_def is_release_def intro: adds_refl adds_set_record split: option.split)

lemma adds_retire: "adds P r (registry_retire nfs s h r)"
  by (rule adds_refl) (simp add: registry_retire_def)

lemma adds_follow: "adds released r (follow_spends nfs h r)"
  unfolding follow_spends_def using adds_retire adds_mark_released adds_trans by blast

definition fresh_record :: "('ua, 'cm, 'cmx) decrypted_name_note list \<Rightarrow> height \<Rightarrow> ('ua, 'cm) name_record \<Rightarrow> bool" where
  "fresh_record cs h rec \<longleftrightarrow> released rec \<or>
     (\<exists>c\<in>set cs. nr_predecessor_nullifier rec = dn_nullifier c \<and> nr_confirmed_height rec = h)"

lemma record_create_fields:
  "record_create E nt nf h mtp = Some rec \<Longrightarrow>
     nr_predecessor_nullifier rec = nf \<and> nr_confirmed_height rec = h \<and> nr_action rec = note_action nt"
  by (auto simp: record_create_def)

lemma accept_claim_adds:
  assumes "accept_claim E nt nf s nfs h mtp expiry r = Some (ok, r')"
  shows "adds (\<lambda>rec. released rec \<or> ok \<and> nr_predecessor_nullifier rec = nf \<and> nr_confirmed_height rec = h) r r'"
  using assms
  by (auto simp: accept_claim_def Let_def split: if_splits dest!: record_create_fields
      intro: adds_trans [OF adds_retire] adds_retire adds_set_record adds_mono [OF adds_mark_released])

lemma accept_successor_adds:
  assumes "accept_successor E nt nf nfs h mtp r = Some (ok, r')"
  shows "adds (\<lambda>rec. released rec \<or> ok \<and> nr_predecessor_nullifier rec = nf \<and> nr_confirmed_height rec = h) r r'"
  using assms
  by (auto simp: accept_successor_def release_predecessor_def is_release_def split: option.splits if_splits
      dest!: record_create_fields intro: adds_set_record adds_mono [OF adds_follow])

lemma adopt_adds: "adds P r (adopt_ceremony h wtx n r)"
proof -
  have "adds P r (fold (adopt_anchor h) xs r)" for xs r by (rule adds_fold) (simp add: adds_refl adopt_anchor_def)
  then show ?thesis by (simp add: adopt_ceremony_def adds_refl)
qed

lemma confirm_tx_adds:
  assumes "confirm_tx E h mtp vtx cs wtx r = Some (acc, r')"
  shows "adds (fresh_record acc h) r r'"
proof -
  let ?r = "adopt_ceremony h wtx (length (notes_of cs (sx_txid wtx))) r"
  show ?thesis
  proof (cases "\<exists>c. notes_of cs (sx_txid wtx) = [c]")
    case False
    then have "acc = []" "r' = follow_spends (sx_spends wtx) h ?r"
      using assms by (auto simp: confirm_tx_def Let_def split: list.splits)
    then have "adds (fresh_record acc h) ?r r'"
      using adds_mono [OF adds_follow, of "fresh_record acc h"] by (simp add: fresh_record_def)
    then show ?thesis using adopt_adds adds_trans by blast
  next
    case True
    then obtain c ok r2 where c: "notes_of cs (sx_txid wtx) = [c]" and a: "accept_candidate E h mtp vtx wtx c ?r = Some (ok, r')"
      and acc: "acc = (if ok then [c] else [])" using assms by (auto simp: confirm_tx_def Let_def)
    have "adds (\<lambda>rec. released rec \<or> ok \<and> nr_predecessor_nullifier rec = dn_nullifier c \<and> nr_confirmed_height rec = h) ?r r'"
      using a by (auto simp: accept_candidate_def accept_defs split: if_splits action.splits Option.bind_splits
          intro: accept_claim_adds accept_successor_adds adds_refl)
    then have "adds (fresh_record acc h) ?r r'" by (rule adds_mono) (auto simp: fresh_record_def acc)
    then show ?thesis using adopt_adds adds_trans by blast
  qed
qed

lemma confirm_txs_adds:
  "confirm_txs E h mtp vtx cs wtxs r = Some (acc, r') \<Longrightarrow> adds (fresh_record acc h) r r'"
proof (induction wtxs arbitrary: r acc)
  case Nil
  then show ?case by (auto intro: adds_refl)
next
  case (Cons wtx wtxs)
  then obtain here r1 rest where "confirm_tx E h mtp vtx cs wtx r = Some (here, r1)"
    and "confirm_txs E h mtp vtx cs wtxs r1 = Some (rest, r')" and acc: "acc = here @ rest"
    by (auto split: Option.bind_splits)
  moreover have "fresh_record here h rec \<Longrightarrow> fresh_record acc h rec" "fresh_record rest h rec \<Longrightarrow> fresh_record acc h rec" for rec
    by (auto simp: fresh_record_def acc)
  ultimately have "adds (fresh_record acc h) r r1" "adds (fresh_record acc h) r1 r'"
    using adds_mono [OF confirm_tx_adds, of E h mtp vtx cs wtx r here r1 "fresh_record acc h"]
      adds_mono [OF Cons.IH, of r1 rest "fresh_record acc h"] by simp_all
  then show ?case by (rule adds_trans)
qed

section \<open>What the wallet holds\<close>

definition holds :: "('t, 'n, 'k) wallet \<Rightarrow> nullifier \<Rightarrow> height \<Rightarrow> bool" where
  "holds w nf h \<longleftrightarrow> (\<exists>i out. bt_get (w_ironwood_nullifiers w) nf = Some i \<and> bt_get (w_ironwood_notes w) i = Some out \<and>
     wo_account out = REGISTRY_ACCOUNT \<and> wo_scope out \<noteq> None \<and> bt_get (w_statuses w) (nid_txid i) = Some (Mined h))"

text \<open>Every Ironwood note is indexed under its nullifier.\<close>

definition index_complete :: "(note_id, 'n wallet_output) btree \<Rightarrow> (nullifier, note_id) btree \<Rightarrow> bool" where
  "index_complete tbl nfs \<longleftrightarrow> (\<forall>i out nf. bt_get tbl i = Some out \<longrightarrow> wo_nf out = Some nf \<longrightarrow> bt_get nfs nf = Some i)"

abbreviation indexed :: "('t, 'n, 'k) wallet \<Rightarrow> bool" where
  "indexed w \<equiv> index_complete (w_ironwood_notes w) (w_ironwood_nullifiers w)"

text \<open>What the chain guarantees of a block the scanner reports: its transactions are new and
  distinct, and so are the nullifiers of the notes it creates.\<close>

definition new_nullifiers :: "'n wallet_tx \<Rightarrow> nullifier list" where
  "new_nullifiers wtx = List.map_filter wo_nf (wt_ironwood_outputs wtx)"

definition fresh_txs :: "('t, 'n, 'k) wallet \<Rightarrow> 'n wallet_tx list \<Rightarrow> bool" where
  "fresh_txs w txs \<longleftrightarrow> distinct (map wt_txid txs) \<and> distinct (concat (map new_nullifiers txs)) \<and>
     (\<forall>wtx\<in>set txs. \<forall>h. bt_get (w_statuses w) (wt_txid wtx) \<noteq> Some (Mined h)) \<and>
     (\<forall>nf\<in>set (concat (map new_nullifiers txs)). bt_get (w_ironwood_nullifiers w) nf = None)"

lemma insert_outputs_index:
  assumes "insert_outputs txid pool outs (tbl, nfs) = Some (tbl', nfs')" and "bt_ok tbl" and "bt_ok nfs"
    and "distinct (List.map_filter wo_nf outs)" and "\<forall>nf\<in>set (List.map_filter wo_nf outs). bt_get nfs nf = None"
  shows "(\<forall>nf i. bt_get nfs nf = Some i \<longrightarrow> bt_get nfs' nf = Some i) \<and>
         (\<forall>nf. bt_get nfs nf = None \<longrightarrow> nf \<notin> set (List.map_filter wo_nf outs) \<longrightarrow> bt_get nfs' nf = None) \<and>
         (\<forall>i. nid_txid i \<noteq> txid \<longrightarrow> bt_get tbl' i = bt_get tbl i) \<and>
         (index_complete tbl nfs \<longrightarrow> index_complete tbl' nfs')"
  using assms
proof (induction outs arbitrary: tbl nfs)
  case Nil
  then show ?case by simp
next
  case (Cons out outs)
  from Cons.prems(1) obtain j where
    rest: "insert_outputs txid pool outs (bt_insert (txid, pool, j) out tbl,
          case wo_nf out of Some nf \<Rightarrow> bt_insert nf (txid, pool, j) nfs | None \<Rightarrow> nfs) = Some (tbl', nfs')"
    by (auto split: Option.bind_splits)
  let ?t = "bt_insert (txid, pool, j) out tbl"
  show ?case
  proof (cases "wo_nf out")
    case None
    have c: "index_complete tbl nfs \<Longrightarrow> index_complete ?t nfs"
      using Cons.prems(2) None by (auto simp: index_complete_def bt_simps)
    have "insert_outputs txid pool outs (?t, nfs) = Some (tbl', nfs')" using rest None by simp
    from Cons.IH [OF this] Cons.prems None c show ?thesis
      by (simp add: bt.ok_upd bt_simps map_filter_simps nid_txid_def)
  next
    case (Some nf)
    have new: "bt_get nfs nf = None" using Cons.prems(5) Some by (simp add: map_filter_simps)
    have c: "index_complete tbl nfs \<Longrightarrow> index_complete ?t (bt_insert nf (txid, pool, j) nfs)"
      using Cons.prems(2,3) Some new by (auto simp: index_complete_def bt_simps)
    have r: "insert_outputs txid pool outs (?t, bt_insert nf (txid, pool, j) nfs) = Some (tbl', nfs')" using rest Some by simp
    have d: "distinct (List.map_filter wo_nf outs)" "nf \<notin> set (List.map_filter wo_nf outs)"
      "\<forall>x\<in>set (List.map_filter wo_nf outs). bt_get nfs x = None"
      using Cons.prems(4,5) Some by (simp_all add: map_filter_simps)
    have "\<forall>x\<in>set (List.map_filter wo_nf outs). bt_get (bt_insert nf (txid, pool, j) nfs) x = None"
      using d Cons.prems(3) by (auto simp: bt_simps)
    note ih = Cons.IH [OF r bt.ok_upd [OF Cons.prems(2)] bt.ok_upd [OF Cons.prems(3)] d(1) this]
    have get: "bt_get (bt_insert nf (txid, pool, j) nfs) x = (if x = nf then Some (txid, pool, j) else bt_get nfs x)" for x
      using Cons.prems(3) by (simp add: bt_simps)
    have "bt_get nfs' x = Some i" if "bt_get nfs x = Some i" for x i
      using ih that new get [of x] by (cases "x = nf") simp_all
    moreover have "bt_get nfs' x = None" if "bt_get nfs x = None" "x \<notin> set (List.map_filter wo_nf (out # outs))" for x
      using ih that get [of x] Some by (simp add: map_filter_simps)
    moreover have "bt_get tbl' i = bt_get tbl i" if "nid_txid i \<noteq> txid" for i
      using ih that Cons.prems(2) by (cases "i = (txid, pool, j)") (simp_all add: bt_simps nid_txid_def)
    ultimately show ?thesis using ih c by blast
  qed
qed

lemma receive_holds:
  assumes "receive_tx height wtx w = Some w'" and "core_ok H w" and "fresh_txs w (wtx # txs)" and "indexed w"
  shows "indexed w' \<and> fresh_txs w' txs \<and> (\<forall>nf h. holds w nf h \<longrightarrow> holds w' nf h)"
proof -
  from assms(1) obtain tbl nfs where
    i: "insert_outputs (wt_txid wtx) PoolIronwood (wt_ironwood_outputs wtx) (w_ironwood_notes w, w_ironwood_nullifiers w) = Some (tbl, nfs)"
    and w': "w_ironwood_notes w' = tbl" "w_ironwood_nullifiers w' = nfs"
      "w_statuses w' = bt_insert (wt_txid wtx) (Mined height) (w_statuses w)"
    by (auto simp: receive_tx_def split: Option.bind_splits)
  have ok: "bt_ok (w_ironwood_notes w)" "bt_ok (w_ironwood_nullifiers w)" "bt_ok (w_statuses w)"
    using assms(2) by (simp_all add: core_ok_def tables_ok_def)
  have f: "distinct (new_nullifiers wtx)" "\<forall>nf\<in>set (new_nullifiers wtx). bt_get (w_ironwood_nullifiers w) nf = None"
    using assms(3) by (auto simp: fresh_txs_def)
  note x = insert_outputs_index [OF i ok(1,2) f [unfolded new_nullifiers_def]]
  have d: "distinct (map wt_txid txs)" "distinct (concat (map new_nullifiers txs))" "wt_txid wtx \<notin> wt_txid ` set txs"
    "set (new_nullifiers wtx) \<inter> set (concat (map new_nullifiers txs)) = {}"
    and old: "\<forall>y\<in>set txs. \<forall>h. bt_get (w_statuses w) (wt_txid y) \<noteq> Some (Mined h)"
    "\<forall>nf\<in>set (concat (map new_nullifiers txs)). bt_get (w_ironwood_nullifiers w) nf = None"
    using assms(3) unfolding fresh_txs_def by simp_all
  have st: "bt_get (w_statuses w') (wt_txid y) = bt_get (w_statuses w) (wt_txid y)" if "y \<in> set txs" for y
  proof -
    have "wt_txid y \<noteq> wt_txid wtx" using that d(3) by (metis imageI)
    then show ?thesis using ok(3) by (simp add: w' bt_simps)
  qed
  have "bt_get nfs nf = None" if "nf \<in> set (concat (map new_nullifiers txs))" for nf
  proof -
    have "nf \<notin> set (new_nullifiers wtx)" "bt_get (w_ironwood_nullifiers w) nf = None" using that d(4) old(2) by blast+
    then show ?thesis using x unfolding new_nullifiers_def by blast
  qed
  then have "fresh_txs w' txs" using d(1,2) old(1) st unfolding fresh_txs_def w'(2) by simp
  moreover have "holds w' nf h" if "holds w nf h" for nf h
  proof -
    from that obtain j out where j: "bt_get (w_ironwood_nullifiers w) nf = Some j" "bt_get (w_ironwood_notes w) j = Some out"
      "wo_account out = REGISTRY_ACCOUNT" "wo_scope out \<noteq> None" "bt_get (w_statuses w) (nid_txid j) = Some (Mined h)"
      unfolding holds_def by blast
    have "nid_txid j \<noteq> wt_txid wtx" using j(5) assms(3) by (auto simp: fresh_txs_def)
    with j x ok(3) show ?thesis unfolding holds_def by (intro exI [of _ j] exI [of _ out]) (simp add: w' bt_simps)
  qed
  ultimately show ?thesis using x assms(4) w' by simp
qed

lemma receive_txs_holds:
  "receive_txs height txs w = Some w' \<Longrightarrow> core_ok H w \<Longrightarrow> H height \<Longrightarrow> fresh_txs w txs \<Longrightarrow> indexed w \<Longrightarrow>
     indexed w' \<and> (\<forall>nf h. holds w nf h \<longrightarrow> holds w' nf h)"
proof (induction txs arbitrary: w)
  case Nil
  then show ?case by simp
next
  case (Cons wtx txs)
  from Cons.prems(1) obtain w1 where r: "receive_tx height wtx w = Some w1" and rest: "receive_txs height txs w1 = Some w'"
    by (auto split: Option.bind_splits)
  note one = receive_holds [OF r Cons.prems(2,4,5)]
  from Cons.IH [OF rest core_receive [OF r Cons.prems(2,3)] Cons.prems(3)] one show ?case by blast
qed

lemma spends_ironwood:
  "w_ironwood_notes (fold spend_tx txs w) = w_ironwood_notes w \<and> w_ironwood_nullifiers (fold spend_tx txs w) = w_ironwood_nullifiers w \<and>
   w_statuses (fold spend_tx txs w) = w_statuses w"
  by (induction txs arbitrary: w) (simp_all add: spend_tx_def)

lemma holds_cong:
  "w_ironwood_notes w' = w_ironwood_notes w \<Longrightarrow> w_ironwood_nullifiers w' = w_ironwood_nullifiers w \<Longrightarrow>
     w_statuses w' = w_statuses w \<Longrightarrow> holds w' = holds w"
  by (simp add: holds_def fun_eq_iff)

text \<open>Committing one fresh block keeps every note held.\<close>

lemma commit_holds:
  assumes "put_blocks_marked T (wallet_tip w) [sc] marks w = Some (Inr w')" and "wallet_inv w" and "fresh_txs w (sc_txs sc)"
    and "indexed w"
  shows "indexed w' \<and> (\<forall>nf h. holds w nf h \<longrightarrow> holds w' nf h)"
proof -
  obtain a b c w1 where p: "put_block sc (w\<lparr>w_sapling_tree := a, w_orchard_tree := b, w_ironwood_tree := c\<rparr>) = Some w1"
    and w': "w' = (case bt_last (w_blocks w1) of Some (applied, _) \<Rightarrow> update_chain_tip applied w1 | None \<Rightarrow> w1)"
  proof -
    from assms(1) have c: "continuity (wallet_tip w) [sc] w = None"
      by (cases "continuity (wallet_tip w) [sc] w") (simp_all add: put_blocks_marked_def)
    have o: "\<not> list_ex (\<lambda>wtx. wt_orchard_outputs wtx \<noteq> []) (sc_txs sc)"
      using assms(1) c by (auto simp: put_blocks_marked_def)
    obtain x y z where t: "append_blocks T marks [sc] (w_sapling_tree w, w_orchard_tree w, w_ironwood_tree w) = Inr (x, y, z)"
      using assms(1) c o by (cases "append_blocks T marks [sc] (w_sapling_tree w, w_orchard_tree w, w_ironwood_tree w)")
        (auto simp: put_blocks_marked_def simp del: append_blocks.simps)
    show ?thesis using assms(1) c o t that
      by (auto simp: put_blocks_marked_def simp del: append_blocks.simps split: Option.bind_splits)
  qed
  let ?w = "w\<lparr>w_sapling_tree := a, w_orchard_tree := b, w_ironwood_tree := c\<rparr>"
  have core: "core_ok (\<lambda>h. h = sc_height sc \<or> bt_has (w_blocks w) h) ?w"
    using assms(2) core_mono [of "bt_has (w_blocks w)" w] by (simp add: wallet_inv_def core_ok_trees)
  obtain w2 where r: "receive_txs (sc_height sc) (sc_txs sc) ?w = Some w2"
    and w1: "w1 = (fold spend_tx (sc_txs sc) w2)
      \<lparr>w_blocks := bt_insert (sc_height sc) (to_block_metadata sc) (w_blocks (fold spend_tx (sc_txs sc) w2))\<rparr>"
    using p by (auto simp: put_block_def Let_def)
  have fr: "fresh_txs ?w (sc_txs sc)" "indexed ?w" using assms(3,4) by (simp_all add: fresh_txs_def)
  note keep = receive_txs_holds [OF r core _ fr]
  have same: "w_ironwood_notes w' = w_ironwood_notes w2" "w_ironwood_nullifiers w' = w_ironwood_nullifiers w2"
    "w_statuses w' = w_statuses w2"
    by (auto simp: w' w1 update_chain_tip_def spends_ironwood split: option.splits)
  have "holds ?w = holds w" by (rule holds_cong) simp_all
  then show ?thesis using keep same holds_cong [OF same] by simp
qed

lemma store_holds:
  assumes "store_name_note E T e w = Inr w'" and "wallet_inv w" and "indexed w"
  shows "indexed w' \<and> (\<forall>nf h. holds w nf h \<longrightarrow> holds w' nf h) \<and> holds w' (nn_nullifier e) (nn_height e)"
  using assms(1)
proof (cases rule: store_name_note_cases)
  case (again existing)
  let ?id = "(nn_txid e, PoolIronwood, nn_action_index e)"
  have "bt_get (w_ironwood_nullifiers w) (nn_nullifier e) = Some ?id"
    using again assms(3) by (simp add: index_complete_def same_name_note_def)
  then have "holds w (nn_nullifier e) (nn_height e)"
    using again unfolding holds_def by (intro exI [of _ ?id] exI [of _ existing]) (simp add: same_name_note_def nid_txid_def)
  with again assms(3) show ?thesis by simp
next
  case (stored j m)
  let ?id = "(nn_txid e, PoolIronwood, j)"
  have ok: "bt_ok (w_ironwood_notes w)" "bt_ok (w_ironwood_nullifiers w)"
    and ix: "index_ok (w_ironwood_notes w) (w_ironwood_spends w) (w_ironwood_nullifiers w)"
    using assms(2) by (simp_all add: wallet_inv_def core_ok_def tables_ok_def)
  have new: "bt_get (w_ironwood_nullifiers w) (nn_nullifier e) = None"
    using stored(5,6) ix unfolding index_ok_def bt_has_def by blast
  have "indexed w'"
    using assms(3) new ok by (auto simp: stored(7) index_complete_def bt_simps name_note_output_def)
  moreover have "holds w' nf h" if "holds w nf h" for nf h
  proof -
    from that obtain i out where i: "bt_get (w_ironwood_nullifiers w) nf = Some i" "bt_get (w_ironwood_notes w) i = Some out"
      "wo_account out = REGISTRY_ACCOUNT" "wo_scope out \<noteq> None" "bt_get (w_statuses w) (nid_txid i) = Some (Mined h)"
      unfolding holds_def by blast
    have "i \<noteq> ?id" "nf \<noteq> nn_nullifier e" using i stored(5) new by auto
    with i ok show ?thesis unfolding holds_def by (intro exI [of _ i] exI [of _ out]) (simp add: stored(7) bt_simps)
  qed
  moreover have "holds w' (nn_nullifier e) (nn_height e)"
    unfolding holds_def using stored(3) ok
    by (intro exI [of _ ?id] exI [of _ "name_note_output e"]) (simp add: stored(7) bt_simps name_note_output_def nid_txid_def)
  ultimately show ?thesis by blast
qed


definition tip_of :: "('t, 'n, 'k) wallet \<Rightarrow> height" where
  "tip_of w = bm_height (wallet_tip w)"

text \<open>Storing the accepted notes keeps what was held and adds each of them.\<close>

lemma mint_store:
  "w_store (mint_wallet E T S) h pos c w = Some w' \<longleftrightarrow> store_name_note E T (entry_of S h pos c) w = Inr w'"
  by (auto simp: mint_wallet_def split: sum.splits)

lemma mint_tip: "w_tip (mint_wallet E T S) w = (tip_of w, bm_hash (wallet_tip w))"
  by (simp add: mint_wallet_def tip_of_def)

lemma mint_scan:
  "w_scan (mint_wallet E T S) w b = Some (txs, start) \<longleftrightarrow>
     (\<exists>sc. sn_scan S w b = Some sc \<and> txs = map scanned_view (sc_txs sc) \<and> ironwood_start sc = Some start)"
  by (auto simp: mint_wallet_def Option.bind_eq_Some_conv)

lemma mint_commit:
  "w_commit (mint_wallet E T S) b marks w = Some w' \<longleftrightarrow>
     (\<exists>sc. sn_scan S w b = Some sc \<and> put_blocks_marked T (wallet_tip w) [sc] (map (sn_leaf S) marks) w = Some (Inr w'))"
proof (cases "sn_scan S w b")
  case None
  then show ?thesis by (simp add: mint_wallet_def)
next
  case (Some sc)
  define p where "p = put_blocks_marked T (wallet_tip w) [sc] (map (sn_leaf S) marks) w"
  have "(case p of Some (Inr w') \<Rightarrow> Some w' | _ \<Rightarrow> None) = Some w' \<longleftrightarrow> p = Some (Inr w')"
    by (auto split: option.splits sum.splits)
  with Some show ?thesis by (simp add: mint_wallet_def p_def)
qed

lemmas mint_ops = mint_tip mint_scan mint_commit

lemma store_same_chain:
  "store_name_note E T e w = Inr w' \<Longrightarrow> w_blocks w' = w_blocks w \<and> w_seed w' = w_seed w"
  by (erule store_name_note_cases) simp_all

lemma store_all_holds:
  "store_all (mint_wallet E T S) h start cs w = Some w' \<Longrightarrow> wallet_inv w \<Longrightarrow> indexed w \<Longrightarrow>
     wallet_inv w' \<and> indexed w' \<and> w_blocks w' = w_blocks w \<and> w_seed w' = w_seed w \<and>
     (\<forall>nf k. holds w nf k \<longrightarrow> holds w' nf k) \<and> (\<forall>c\<in>set cs. holds w' (dn_nullifier c) h)"
proof (induction cs arbitrary: w)
  case Nil
  then show ?case by simp
next
  case (Cons c cs)
  let ?e = "entry_of S h (start + dn_ordinal c) c"
  from Cons.prems(1) obtain w1 where s: "store_name_note E T ?e w = Inr w1"
    and rest: "store_all (mint_wallet E T S) h start cs w1 = Some w'"
    by (auto simp: mint_store split: Option.bind_splits)
  note one = store_holds [OF s Cons.prems(2,3)] store_name_note_inv [OF s Cons.prems(2)] store_same_chain [OF s]
  have "holds w1 (dn_nullifier c) h" using one(1) by (simp add: entry_of_def)
  with one Cons.IH [OF rest] show ?case by simp
qed

section \<open>One block\<close>

text \<open>The note behind every record that is not a release is in the wallet, mined where the record
  says it was confirmed.\<close>

definition held :: "('t, 'n, 'k) wallet \<Rightarrow> ('ua, 'cm) registry \<Rightarrow> bool" where
  "held w r \<longleftrightarrow> (\<forall>n. \<forall>rec\<in>set (record_history r n). \<not> released rec \<longrightarrow>
     holds w (nr_predecessor_nullifier rec) (nr_confirmed_height rec))"

definition joint_ok :: "('t, 'n, 'k) wallet \<Rightarrow> ('ua, 'cm) registry \<Rightarrow> bool" where
  "joint_ok w r \<longleftrightarrow> wallet_inv w \<and> indexed w \<and> reg_at (tip_of w) r \<and> held w r"

lemma held_adds:
  assumes "held w r" and "adds (fresh_record acc h) r r'" and "bt_ok (history r)"
    and "\<And>nf k. holds w nf k \<Longrightarrow> holds w' nf k" and "\<And>c. c \<in> set acc \<Longrightarrow> holds w' (dn_nullifier c) h"
  shows "held w' r'"
  unfolding held_def
proof (intro allI ballI impI)
  fix n rec
  assume rec: "rec \<in> set (record_history r' n)" "\<not> released rec"
  with assms(2,3) have "rec \<in> set (record_history r n) \<or> fresh_record acc h rec" unfolding adds_def by blast
  then show "holds w' (nr_predecessor_nullifier rec) (nr_confirmed_height rec)"
    using assms(1,4,5) rec unfolding held_def fresh_record_def by auto
qed

lemma apply_block_parts:
  assumes "apply_block E (mint_wallet E T S) birthday b h (w, r, mtp) = Some (arrivals, w', r', mtp')"
  obtains acc sc w1 start where "sn_scan S w b = Some sc" "h = tip_of w + 1" "adds (fresh_record acc h) r r'"
    "put_blocks_marked T (wallet_tip w) [sc] (map (sn_leaf S) (map dn_cmx acc)) w = Some (Inr w1)"
    "store_all (mint_wallet E T S) h start acc w1 = Some w'"
proof -
  from assms have h: "h = tip_of w + 1" by (simp add: apply_block_def mint_tip split: if_splits)
  from assms obtain scanned start acc w1 block_mtp cands where sc: "w_scan (mint_wallet E T S) w b = Some (scanned, start)"
    and acc: "(if h < birthday then Some ([], r) else confirm_txs E h block_mtp (blk_vtx b) cands scanned r) = Some (acc, r')"
    and c: "w_commit (mint_wallet E T S) b (map dn_cmx acc) w = Some w1"
    and st: "store_all (mint_wallet E T S) h start acc w1 = Some w'"
    unfolding apply_block_def by (auto simp: Let_def Option.bind_eq_Some_conv simp del: not_le split: if_splits)
  have "adds (fresh_record acc h) r r'"
    using acc confirm_txs_adds by (auto split: if_splits intro: adds_refl)
  with that h sc c st show ?thesis by (auto simp: mint_ops)
qed

lemma tip_append:
  assumes "wallet_inv w" and "wallet_inv w'" and "w_blocks w' = w_blocks w @ [x]" and "w_seed w' = w_seed w"
  shows "tip_of w' = tip_of w + 1"
  using assms tip_height [of w] tip_height [of w'] by (simp add: tip_of_def wallet_inv_def)

text \<open>A block applied to both keeps them together.\<close>

lemma apply_block_joint:
  assumes "apply_block E (mint_wallet E T S) birthday b h (w, r, mtp) = Some (arrivals, w', r', mtp')"
    and "joint_ok w r" and "h \<le> U32_MAX" and "\<And>sc. sn_scan S w b = Some sc \<Longrightarrow> fresh_txs w (sc_txs sc)"
  shows "joint_ok w' r'"
  using assms(1)
proof (rule apply_block_parts)
  fix acc sc w1 start
  assume sc: "sn_scan S w b = Some sc" and h: "h = tip_of w + 1" and ad: "adds (fresh_record acc h) r r'"
    and put: "put_blocks_marked T (wallet_tip w) [sc] (map (sn_leaf S) (map dn_cmx acc)) w = Some (Inr w1)"
    and st: "store_all (mint_wallet E T S) h start acc w1 = Some w'"
  have j: "wallet_inv w" "indexed w" "reg_at (tip_of w) r" "held w r" using assms(2) by (simp_all add: joint_ok_def)
  have law: "wallet_inv w1 \<and> w_blocks w1 = w_blocks w @ [(sc_height sc, to_block_metadata sc)] \<and> w_seed w1 = w_seed w"
    using put_blocks_law [OF put j(1)] assms(3) h by (simp add: tip_of_def)
  have c: "indexed w1" "\<And>nf k. holds w nf k \<Longrightarrow> holds w1 nf k" using commit_holds [OF put j(1) assms(4) [OF sc] j(2)] by blast+
  have s: "wallet_inv w' \<and> indexed w' \<and> w_blocks w' = w_blocks w1 \<and> w_seed w' = w_seed w1 \<and>
     (\<forall>nf k. holds w1 nf k \<longrightarrow> holds w' nf k) \<and> (\<forall>c\<in>set acc. holds w' (dn_nullifier c) h)"
    using store_all_holds [OF st] law c by blast
  have tip: "tip_of w' = h" using tip_append [of w w'] law s j(1) h by simp
  have "reg_at h r'" using advances_apply_block [OF assms(1)] j(3) h unfolding advances_def by auto
  moreover have "held w' r'"
    by (rule held_adds [OF j(4) ad]) (use c s reg_inv_ok reg_at_inv [OF j(3)] in blast)+
  ultimately show ?thesis using s tip by (simp add: joint_ok_def)
qed

section \<open>A reorg of both\<close>

lemma pool_at_truncate: "pool_at t p \<Longrightarrow> pool_at k (pool_truncate_to k p)"
proof -
  assume "pool_at t p"
  then have i: "pool_inv p" by (simp add: pool_at_def)
  let ?c = "bt_retain (\<lambda>h _. h \<le> k) (checkpoints p)"
  have sub: "set ?c \<subseteq> set (checkpoints p)" "\<forall>(h, s)\<in>set ?c. h \<le> k" by (auto simp: bt_retain_def)
  have each: "\<forall>(h, s)\<in>set ?c. bs_ok s \<and> length s \<le> ANCHOR_POOL_SIZE" using i sub(1) unfolding pool_inv_def by blast
  have "?c \<noteq> [] \<Longrightarrow> bs_ok (snd (last ?c)) \<and> length (snd (last ?c)) \<le> ANCHOR_POOL_SIZE"
    using each last_in_set [of ?c] by (cases "last ?c") auto
  with i sub each show ?thesis
    by (auto simp: pool_at_def pool_inv_def pool_truncate_to_def Let_def bt.ok_retain split: option.splits)
qed

lemma pop_above_set:
  "sorted (map nr_confirmed_height rs) \<Longrightarrow> pop_above h rs = filter (\<lambda>rec. nr_confirmed_height rec \<le> h) rs"
proof (induction rs rule: rev_induct)
  case Nil
  then show ?case by (simp add: pop_above_def)
next
  case (snoc rec rs)
  show ?case
  proof (cases "nr_confirmed_height rec \<le> h")
    case True
    then have "\<forall>x\<in>set (rs @ [rec]). nr_confirmed_height x \<le> h" using snoc.prems by (fastforce simp: sorted_append)
    then show ?thesis using pop_above_id by (metis filter_True)
  next
    case False
    then show ?thesis using snoc by (simp add: pop_above_append sorted_append)
  qed
qed

lemma truncated_history:
  assumes "reg_inv r"
  shows "record_history (truncate_to_height k r) n = filter (\<lambda>rec. nr_confirmed_height rec \<le> k) (record_history r n)"
proof -
  have "bt_ok (history r)" using reg_inv_ok [OF assms] by simp
  then have "record_history (truncate_to_height k r) n = pop_above k (record_history r n)"
    by (simp add: record_history_def truncate_to_height_def Let_def get_truncate_history pop_above_def split: option.splits)
  then show ?thesis using pop_above_set record_history_sorted [OF assms] by metis
qed

lemma reg_at_truncate:
  assumes "reg_at t r"
  shows "reg_at k (truncate_to_height k r)"
proof -
  let ?r = "truncate_to_height k r"
  have i: "reg_inv r" using assms reg_at_inv by blast
  note hist = truncated_history [OF i]
  have ok: "bt_ok (history ?r)"
    using reg_inv_ok [OF i] by (simp add: truncate_to_height_def Let_def bt_ok_truncate_history)
  have get: "bt_get (history ?r) n = Some rs \<Longrightarrow> rs = record_history ?r n \<and> rs \<noteq> []" for n rs
    using reg_inv_ok [OF i]
    by (auto simp: record_history_def truncate_to_height_def Let_def get_truncate_history split: option.splits if_splits)
  have h: "history_ok (history ?r)"
    unfolding history_ok_def
  proof (intro conjI allI impI)
    fix n rs
    assume rs: "bt_get (history ?r) n = Some rs"
    then show "rs \<noteq> []" using get by blast
    show "\<forall>rec\<in>set rs. nr_name rec = n" using get [OF rs] hist record_history_name [OF i] by auto
    show "sorted (map nr_confirmed_height rs)"
      using get [OF rs] hist record_history_sorted [OF i] by (metis sorted_filter)
  qed (rule ok)
  have "bt_get (records ?r) n = live_entry (record_history ?r n)" for n
    using rebuild_records_ok(2) [OF h, of n]
    by (cases "bt_get (history ?r) n") (simp_all add: truncate_to_height_def Let_def record_history_def live_entry_def)
  moreover have "bt_ok (records ?r)" "listings ?r = listings r"
    using rebuild_records_ok(1) [OF h] by (simp_all add: truncate_to_height_def Let_def)
  ultimately have "reg_inv ?r" using h i by (simp add: reg_inv_def record_of_def)
  moreover have "pool_at k (anchors ?r)"
    using pool_at_truncate assms by (auto simp: reg_at_def truncate_to_height_def Let_def)
  ultimately show ?thesis using hist by (simp add: reg_at_def)
qed

text \<open>Dropping what was applied above a height keeps the notes mined at or below it.\<close>

lemma drop_nullifiers:
  assumes "tables_ok w"
  shows "bt_get (w_ironwood_nullifiers (drop_applied_above k w)) nf = Some i \<longleftrightarrow>
           bt_get (w_ironwood_nullifiers w) nf = Some i \<and> \<not> mined_above w k (nid_txid i)"
  using assms by (simp add: tables_ok_def drop_applied_above_def drop_orphaned_def Let_def bt_retain_get)

lemma drop_holds:
  assumes "tables_ok w" and "holds w nf h" and "h \<le> k"
  shows "holds (drop_applied_above k w) nf h"
proof -
  from assms(2) obtain i out where i: "bt_get (w_ironwood_nullifiers w) nf = Some i" "bt_get (w_ironwood_notes w) i = Some out"
    "wo_account out = REGISTRY_ACCOUNT" "wo_scope out \<noteq> None" "bt_get (w_statuses w) (nid_txid i) = Some (Mined h)"
    unfolding holds_def by blast
  have "\<not> mined_above w k (nid_txid i)" using i(5) assms(3) by (simp add: mined_above_def)
  then show ?thesis
    unfolding holds_def using i assms(3) drop_nullifiers [OF assms(1)] drop_notes(2) [OF assms(1)]
    by (intro exI [of _ i] exI [of _ out]) (simp add: drop_status)
qed

lemma drop_indexed:
  assumes "tables_ok w" and "indexed w"
  shows "indexed (drop_applied_above k w)"
  using assms(2) unfolding index_complete_def drop_notes(2) [OF assms(1)] drop_nullifiers [OF assms(1)]
  by (metis option.distinct(1))

lemma truncate_joint:
  assumes "joint_ok w r" and "wallet_truncate_to T h w = Inr (m, w')"
  shows "joint_ok w' (truncate_to_height (bm_height m) r)"
proof -
  have j: "wallet_inv w" "indexed w" "reg_at (tip_of w) r" "held w r" using assms(1) by (simp_all add: joint_ok_def)
  have c: "chain_ok w" and t: "tables_ok w" using j(1) by (simp_all add: wallet_inv_def core_ok_def)
  obtain height where th: "wallet_truncate_to_height T h w = Inr (height, w')" and m: "block_metadata_at w' height = Some m"
    using assms(2) by (auto simp: wallet_truncate_to_def result_simps split: prod.splits)
  note inv = truncate_height_inv [OF th j(1)]
  from th show ?thesis
  proof (cases rule: truncate_height_cases)
    case untouched
    then have "m = w_seed w" using m by (auto simp: block_metadata_at_def split: if_splits)
    then have "bm_height m = tip_of w" using untouched by (simp add: tip_of_def wallet_tip_def bt_last_def)
    with assms(1) truncate_reg_at [OF j(3)] untouched show ?thesis by simp
  next
    case (dropped x y z)
    let ?w = "w\<lparr>w_sapling_tree := x, w_orchard_tree := y, w_ironwood_tree := z\<rparr>"
    have c': "chain_ok ?w" and t': "tables_ok ?w" and i': "indexed ?w"
      using c t j(2) by (simp_all add: chain_ok_def tables_ok_def)
    have h': "holds ?w = holds w" by (rule holds_cong) simp_all
    have "height = bm_height (w_seed w) \<or> bt_has (w_blocks w) height"
      using dropped(2) common_truncation_le [OF _ c] by auto
    then have tip: "tip_of w' = height \<and> chain_ok w'" using drop_tip [OF c', of height] dropped(1) by (simp add: tip_of_def)
    then have mh: "bm_height m = height" using tip_at [of w'] m by (auto simp: tip_of_def)
    have "held w' (truncate_to_height height r)"
      using j(4) drop_holds [OF t', of _ _ height] h' dropped(1) truncated_history [OF reg_at_inv [OF j(3)]]
      unfolding held_def by auto
    with inv tip mh drop_indexed [OF t' i', of height] reg_at_truncate [OF j(3), of height] show ?thesis
      by (simp add: joint_ok_def dropped(1))
  qed
qed

section \<open>The authority over a name is kept\<close>

lemma joint_frame:
  assumes "joint_ok w r" and "wallet_inv w'" and "w_ironwood_notes w' = w_ironwood_notes w"
    and "w_ironwood_nullifiers w' = w_ironwood_nullifiers w" and "w_blocks w' = w_blocks w" and "w_seed w' = w_seed w"
    and "\<And>txid h. bt_get (w_statuses w) txid = Some (Mined h) \<Longrightarrow> bt_get (w_statuses w') txid = Some (Mined h)"
  shows "joint_ok w' r"
proof -
  have "holds w nf h \<Longrightarrow> holds w' nf h" for nf h using assms(3,4,7) unfolding holds_def by auto
  moreover have "tip_of w' = tip_of w" using assms(5,6) by (simp add: tip_of_def wallet_tip_def split: option.split)
  ultimately show ?thesis using assms(1,2,3,4) by (simp add: joint_ok_def held_def)
qed

lemma sent_joint: "joint_ok w r \<Longrightarrow> joint_ok (store_transactions_to_be_sent parse txs w) r"
  unfolding store_transactions_to_be_sent_def
proof (rule fold_keeps)
  fix tx s
  assume j: "joint_ok s r"
  then have i: "wallet_inv s" and t: "bt_ok (w_statuses s)" by (simp_all add: joint_ok_def wallet_inv_def core_ok_def tables_ok_def)
  show "joint_ok (store_sent parse tx s) r"
    by (rule joint_frame [OF j store_sent_inv [OF i]])
      (auto simp: store_sent_def Let_def bt_get_or_insert [OF t] split: prod.split)
qed

text \<open>The steps the running mint takes on the two: a block, a transaction it sent, a lock taken or
  released, a change of the listings alone, a new tip heard of, a reorg.\<close>

inductive mint_reach ::
  "('ua, 'cm) zenv \<Rightarrow> ('t, 'h, 'f) tree_ops \<Rightarrow> ('t, 'h, 'n, 'k, 'ua, 'cm, 'cmx) scanner \<Rightarrow> (bytes \<Rightarrow> memo option) \<Rightarrow> height \<Rightarrow>
     ('t, 'n, 'k) wallet \<Rightarrow> ('ua, 'cm) registry \<Rightarrow> bool"
  for E T S parse birthday where
  born: "wallet_new T keys s sapling_roots ironwood_roots = Some (Inr w) \<Longrightarrow> cs_height s \<le> U32_MAX \<Longrightarrow>
      reg_at (cs_height s) r \<Longrightarrow> history r = [] \<Longrightarrow> mint_reach E T S parse birthday w r"
| block: "mint_reach E T S parse birthday w r \<Longrightarrow>
      apply_block E (mint_wallet E T S) birthday b h (w, r, mtp) = Some (arrivals, w', r', mtp') \<Longrightarrow> h \<le> U32_MAX \<Longrightarrow>
      (\<And>sc. sn_scan S w b = Some sc \<Longrightarrow> fresh_txs w (sc_txs sc)) \<Longrightarrow> mint_reach E T S parse birthday w' r'"
| sent: "mint_reach E T S parse birthday w r \<Longrightarrow> mint_reach E T S parse birthday (store_transactions_to_be_sent parse txs w) r"
| locked: "mint_reach E T S parse birthday w r \<Longrightarrow> lock_outputs outs owner expiry w = Inr (n, w') \<Longrightarrow>
      mint_reach E T S parse birthday w' r"
| unlocked: "mint_reach E T S parse birthday w r \<Longrightarrow> mint_reach E T S parse birthday (snd (unlock_output out owner w)) r"
| listed: "mint_reach E T S parse birthday w r \<Longrightarrow> bt_ok l \<Longrightarrow> mint_reach E T S parse birthday w (r\<lparr>listings := l\<rparr>)"
| heard: "mint_reach E T S parse birthday w r \<Longrightarrow> mint_reach E T S parse birthday (update_chain_tip h w) r"
| rewound: "mint_reach E T S parse birthday w r \<Longrightarrow> wallet_truncate_to T h w = Inr (m, w') \<Longrightarrow>
      mint_reach E T S parse birthday w' (truncate_to_height (bm_height m) r)"

lemma born_joint:
  assumes "wallet_new T keys s sapling_roots ironwood_roots = Some (Inr w)" and "cs_height s \<le> U32_MAX"
    and "reg_at (cs_height s) r" and "history r = []"
  shows "joint_ok w r"
proof -
  obtain seed where seed: "block_metadata_of T s = Some seed" using assms(1) by (auto simp: wallet_new_def Let_def)
  then have h: "bm_height seed = cs_height s" by (auto simp: block_metadata_of_def split: if_splits)
  have "w_blocks w = [] \<and> w_seed w = seed \<and> w_ironwood_notes w = []"
    using assms(1) seed by (auto simp: wallet_new_def Let_def result_simps split: prod.splits)
  with h assms(3,4) wallet_new_inv [OF assms(1,2)] show ?thesis
    by (simp add: joint_ok_def index_complete_def held_def record_history_def tip_of_def wallet_tip_def bt_last_def)
qed

lemma mint_reach_joint: "mint_reach E T S parse birthday w r \<Longrightarrow> joint_ok w r"
proof (induction rule: mint_reach.induct)
  case (born keys s sapling_roots ironwood_roots w r)
  then show ?case by (rule born_joint)
next
  case (block w r b h mtp arrivals w' r' mtp')
  then show ?case using apply_block_joint by blast
next
  case (sent w r txs)
  then show ?case by (rule_tac sent_joint)
next
  case (locked w r outs owner expiry n w')
  then have i: "wallet_inv w'" using lock_outputs_inv by (auto simp: joint_ok_def)
  show ?case by (rule joint_frame [OF locked.IH i]) (use locked.hyps(2) in \<open>auto simp: lock_outputs_def split: option.splits\<close>)
next
  case (unlocked w r out owner)
  then have i: "wallet_inv (snd (unlock_output out owner w))" by (simp add: joint_ok_def unlock_output_inv)
  show ?case by (rule joint_frame [OF unlocked.IH i]) (auto simp: unlock_output_def split: option.split)
next
  case (listed w r l)
  then show ?case by (simp add: joint_ok_def held_def reg_at_def reg_inv_def record_history_def record_of_def)
next
  case (heard w r h)
  then have i: "wallet_inv (update_chain_tip h w)" by (simp add: inv_tip joint_ok_def)
  show ?case by (rule joint_frame [OF heard.IH i]) (simp_all add: update_chain_tip_def)
next
  case (rewound w r h m w')
  then show ?case using truncate_joint by blast
qed

text \<open>C6: The authority over a name is never lost. In every state the mint can reach, through blocks,
  sends, locks, listings and reorgs, the nullifier a live record names finds the record's own note
  in the wallet, mined at the record's height, unless that note is spent or locked.\<close>

theorem names_stay_spendable:
  assumes "mint_reach E T S parse birthday w r" and "record_of r n = Some rec"
  shows "\<exists>i. bt_get (w_ironwood_nullifiers w) (nr_predecessor_nullifier rec) = Some i \<and> bt_has (w_ironwood_notes w) i \<and>
         (case unspent_ironwood_note_by_nullifier w REGISTRY_ACCOUNT (nr_predecessor_nullifier rec) target of
            Some nt \<Rightarrow> rn_id nt = i \<and> rn_mined nt = Some (nr_confirmed_height rec)
          | None \<Rightarrow> ironwood_note_is_spent w i target \<or> \<not> lock_admits w i target (LockPolicy EXCLUDE_LOCKED))"
proof -
  have j: "reg_inv r" "held w r" using mint_reach_joint [OF assms(1)] reg_at_inv by (auto simp: joint_ok_def)
  have "rec \<in> set (record_history r n)" "\<not> released rec" using record_of_last [OF j(1) assms(2)] last_in_set by auto
  with j(2) have "holds w (nr_predecessor_nullifier rec) (nr_confirmed_height rec)" unfolding held_def by blast
  then obtain i out where i: "bt_get (w_ironwood_nullifiers w) (nr_predecessor_nullifier rec) = Some i"
    "bt_get (w_ironwood_notes w) i = Some out" "wo_account out = REGISTRY_ACCOUNT" "wo_scope out \<noteq> None"
    "bt_get (w_statuses w) (nid_txid i) = Some (Mined (nr_confirmed_height rec))" unfolding holds_def by blast
  then show ?thesis
    by (intro exI [of _ i])
      (auto simp: unspent_ironwood_note_by_nullifier_def unspent_ironwood_note_def ironwood_received_note_def received_note_def
        mined_height_def bt_has_def split: option.splits)
qed

section \<open>A concrete claim\<close>

text \<open>The block after the origin claims \<open>alice\<close>: its Name Note is action 0 and its new anchor action 1.\<close>

definition claim_scanned :: "(bytes, unit) scanned_block" where
  "claim_scanned =
     \<lparr>sc_height = 10, sc_hash = ''h10'', sc_sapling = \<lparr>sb_commitments = [], sb_final_tree_size = 0\<rparr>,
      sc_orchard = \<lparr>sb_commitments = [], sb_final_tree_size = 0\<rparr>,
      sc_ironwood = \<lparr>sb_commitments = [(''leaf'', Ephemeral), (''c1'', Marked)], sb_final_tree_size = 2\<rparr>,
      sc_txs = [\<lparr>wt_txid = ''tx'', wt_index = 0, wt_sapling_outputs = [], wt_orchard_outputs = [],
        wt_ironwood_outputs = [\<lparr>wo_index = 1, wo_ephemeral_key = ''ek'', wo_note = (), wo_value = 0,
          wo_value_pool = PoolIronwood, wo_is_change = False, wo_position = 1, wo_nf = Some ''a2'', wo_account = REGISTRY_ACCOUNT,
          wo_scope = Some ScopeExternal\<rparr>],
        wt_sapling_spends = [], wt_ironwood_spends = [''a1'']\<rparr>]\<rparr>"

definition claim_scanner ::
  "(nat \<times> (height \<times> nat) list, bytes, unit, unit, string, bytes, bytes) scanner" where
  "claim_scanner = \<lparr>sn_scan = (\<lambda>_ _. Some claim_scanned), sn_leaf = (\<lambda>_. ''leaf''), sn_note = (\<lambda>_. ()),
     sn_ephemeral_key = (\<lambda>_. ''ek'')\<rparr>"

abbreviation claim_block :: "(bytes, bytes) block" where
  "claim_block \<equiv> demo_block\<lparr>blk_prev := ''h9''\<rparr>"

abbreviation anchored :: "(string, bytes) registry" where
  "anchored \<equiv> adopt_anchor 9 ''a1'' registry_new"

lemma anchored_facts:
  "reg_at 9 anchored" "live (anchors anchored) = [''a1'']" "record_of anchored n = None" "records anchored = []"
  "record_history anchored n = []" "history anchored = []"
proof -
  show "reg_at 9 anchored" using reg_at_new [of 0] advances_adopt unfolding advances_def by (metis zero_le)
qed (simp_all add: adopt_anchor_def registry_new_def adopt_def pool_default_def adoption_closed_def
      is_full_def ANCHOR_POOL_SIZE_def bs_insert_def record_of_def record_history_def)

lemma claim_accepted:
  "\<exists>r'. record_of r' demo_alice \<noteq> None \<and>
     accept_claim demo_env demo_claim ''n1'' (Some ''a2'') [''a1''] 10 1700000000 50 anchored = Some (True, r')"
proof -
  obtain rec where rec: "record_create demo_env demo_claim ''n1'' 10 1700000000 = Some rec"
    by (simp add: record_create_def ts_from_seconds_def demo_env_def LIVENESS_INTERVAL_def)
  have c: "accept_claim demo_env demo_claim ''n1'' (Some ''a2'') [''a1''] 10 1700000000 50 anchored
      = Some (True, set_record rec (registry_retire [''a1''] (Some ''a2'') 10 anchored))"
    using rec anchored_facts
    by (simp add: accept_claim_def Let_def pool_contains_def built_before_release_def)
      (simp add: names_spent_by_def)
  have "bt_ok (records (registry_retire [''a1''] (Some ''a2'') 10 anchored))"
    by (simp add: registry_retire_def anchored_facts)
  then show ?thesis using c record_create_height [OF rec] by (simp add: record_set_record is_release_def)
qed

lemma demo_memo_length: "length demo_memo = 512"
proof -
  have "note_encode demo_env demo_claim = Some demo_memo"
    using demo_memo_decodes by (auto simp: note_decode_def split: option.splits if_splits)
  then have e: "demo_memo = pad_right 512 (CHR 0x00) (note_memo_string demo_env demo_claim)"
    and l: "length (note_memo_string demo_env demo_claim) \<le> 512" by (simp_all add: note_encode_def Let_def split: if_splits)
  show ?thesis unfolding e pad_right_def length_append length_replicate using l by (rule le_add_diff_inverse)
qed

lemma claim_stored:
  "\<exists>w1 w2. put_blocks_marked demo_trees (wallet_tip demo_new_wallet) [claim_scanned] [''leaf''] demo_new_wallet = Some (Inr w1) \<and>
     store_name_note demo_env demo_trees (entry_of claim_scanner 10 0 demo_candidate) w1 = Inr w2"
  by (simp add: claim_scanned_def demo_new_wallet_def demo_trees_def put_blocks_marked_def continuity_def
      wallet_tip_def bt_last_def next_height_def U32_MAX_def append_block_commitments_def ensure_block_checkpoint_def
      put_block_def receive_tx_def u16_index_def bt_insert_def spend_tx_def record_spends_def update_chain_tip_def
      to_block_metadata_def store_name_note_def name_note_tx_error_def name_note_leaf_error_def ironwood_witness_def
      ironwood_anchor_def demo_env_def Let_def bt_get_def bt_has_def entry_of_def claim_scanner_def demo_candidate_def
      demo_memo_length)

lemma claim_fresh: "fresh_txs demo_new_wallet (sc_txs claim_scanned)"
  by (auto simp: claim_scanned_def fresh_txs_def new_nullifiers_def demo_new_wallet_def bt_get_def map_filter_simps)

lemma claim_applied:
  assumes "sn_scan S demo_new_wallet claim_block = Some claim_scanned" and "sn_leaf S = sn_leaf claim_scanner"
    and "sn_note S = sn_note claim_scanner" and "sn_ephemeral_key S = sn_ephemeral_key claim_scanner"
    and mtp: "mtp_current demo_env (mtp_update 10 1700000000 clock) = Some (Some 1700000000)"
  shows "\<exists>w' r'. record_of r' demo_alice \<noteq> None \<and>
     apply_block demo_env (mint_wallet demo_env demo_trees S) 1 claim_block 10 (demo_new_wallet, anchored, clock) =
       Some ([], w', r', mtp_update 10 1700000000 clock)"
proof -
  let ?W = "mint_wallet demo_env demo_trees S"
  have S: "entry_of S = entry_of claim_scanner" "sn_leaf S x = ''leaf''" for x
    using assms(2-4) by (simp_all add: entry_of_def fun_eq_iff claim_scanner_def)
  obtain r' where r': "record_of r' demo_alice \<noteq> None"
    "accept_claim demo_env demo_claim ''n1'' (Some ''a2'') [''a1''] 10 1700000000 50 anchored = Some (True, r')"
    using claim_accepted by blast
  obtain w1 w2 where put: "put_blocks_marked demo_trees (wallet_tip demo_new_wallet) [claim_scanned] [''leaf''] demo_new_wallet = Some (Inr w1)"
    and st: "store_name_note demo_env demo_trees (entry_of claim_scanner 10 0 demo_candidate) w1 = Inr w2"
    using claim_stored by blast
  have scan: "w_scan ?W demo_new_wallet claim_block =
      Some ([\<lparr>sx_txid = ''tx'', sx_spends = [''a1''], sx_outputs = [(True, 0, Some ''a2'')]\<rparr>], 0)"
    unfolding mint_scan using assms(1)
    by (intro exI [of _ claim_scanned]) (simp add: claim_scanned_def scanned_view_def ironwood_start_def)
  have commit: "w_commit ?W claim_block [dn_cmx demo_candidate] demo_new_wallet = Some w1"
    unfolding mint_commit using put assms(1) by (intro exI [of _ claim_scanned]) (simp add: S)
  have store: "w_store ?W 10 0 demo_candidate w1 = Some w2" unfolding mint_store S using st .
  have c: "confirm_txs demo_env 10 1700000000 (blk_vtx demo_block) [demo_candidate]
      [\<lparr>sx_txid = ''tx'', sx_spends = [''a1''], sx_outputs = [(True, 0, Some ''a2'')]\<rparr>] anchored =
      Some ([demo_candidate], r')"
    using r'(2)
    by (simp add: confirm_tx_def notes_of_def demo_candidate_def adopt_ceremony_def ceremony_outputs_def
        is_ceremony_fill_def accept_candidate_def is_claim_def expiry_of_def demo_block_def successor_anchor_def
        registry_outputs_def del: One_nat_def)
  have memos: "decrypt_treasury_memos demo_env (blk_vtx demo_block) = Some []"
    by (simp add: demo_block_def treasury_payments_def)
  have dec: "decrypt_name_notes demo_env claim_block = Some [demo_candidate]"
    using demo_decrypts by (simp add: decrypt_name_notes_def)
  have tip: "w_tip ?W demo_new_wallet = (9, ''h9'')"
    by (simp add: mint_tip tip_of_def demo_new_wallet_def wallet_tip_def bt_last_def)
  have time: "blk_time claim_block = 1700000000" "dn_ordinal demo_candidate = 0" by (simp_all add: demo_block_def demo_candidate_def)
  have "apply_block demo_env ?W 1 claim_block 10 (demo_new_wallet, anchored, clock) =
      Some ([], w2, r', mtp_update 10 1700000000 clock)"
    using dec memos mtp c scan commit store tip time by (simp add: apply_block_def Let_def)
  with r'(1) show ?thesis by blast
qed

theorem names_stay_spendable_witness:
  "\<exists>w r rec i. mint_reach demo_env demo_trees claim_scanner (\<lambda>_. None) 1 w r \<and> record_of r demo_alice = Some rec \<and>
     bt_get (w_ironwood_nullifiers w) (nr_predecessor_nullifier rec) = Some i \<and> bt_has (w_ironwood_notes w) i"
proof -
  have scan: "sn_scan claim_scanner w b = Some claim_scanned" for w b by (simp add: claim_scanner_def)
  have mtp: "mtp_current demo_env (mtp_update 10 1700000000 mtp_default) = Some (Some 1700000000)"
    by (simp add: mtp_current_def mtp_update_def mtp_default_def ts_from_seconds_def demo_env_def MTP_WINDOW_def)
  obtain w r mtp rec where rec: "record_of r demo_alice = Some rec" and
    ap: "apply_block demo_env (mint_wallet demo_env demo_trees claim_scanner) 1 claim_block 10 (demo_new_wallet, anchored, mtp_default) =
       Some ([], w, r, mtp)" using claim_applied [OF scan refl refl refl mtp] by blast
  have start: "mint_reach demo_env demo_trees claim_scanner (\<lambda>_. None) 1 demo_new_wallet anchored"
    by (rule mint_reach.born [OF demo_new_wallet_born]) (use anchored_facts in \<open>simp_all add: U32_MAX_def\<close>)
  have "mint_reach demo_env demo_trees claim_scanner (\<lambda>_. None) 1 w r"
    by (rule mint_reach.block [OF start ap]) (use scan claim_fresh in \<open>simp_all add: U32_MAX_def\<close>)
  with names_stay_spendable [OF this rec] rec show ?thesis by blast
qed

end
