(* ===== verification/Converge.thy ===== *)
theory Converge
  imports Authority Run_Loop_Laws
begin

text \<open>
  The first half of a run-loop pass (\<open>src/main.rs\<close>): from a tip the node announced, find the
  common ancestor of the wallet's chain and the node's, rewind every faculty to it, and apply the
  missing blocks in order. The node's answers at a height are a list: each is what one attempt
  gets, and the retry loops read along it.
\<close>

declare split_paired_All [simp del] split_paired_Ex [simp del]

section \<open>How a pass ends\<close>

text \<open>It panics, waits on an answer that has not come, starts over (\<open>continue 'run\<close>) with the
  state reached so far, or goes on. \<open>OutOfFuel\<close> stands for a loop that did not end.\<close>

datatype ('c, 'a) pass = Panicked | Waiting | OutOfFuel | Restarted 'c | Reached 'a

text \<open>A fetch under the retry loop the walk and the catch-up share.\<close>

definition fetched :: "(transport_error + 'a) list \<Rightarrow> 'c \<Rightarrow> ('a \<Rightarrow> ('c, 'b) pass) \<Rightarrow> ('c, 'b) pass" where
  "fetched replies s go =
     (case retry_loop is_retryable replies of
        None \<Rightarrow> Waiting
      | Some (Inl e) \<Rightarrow> if e = NotOnBestChain then Restarted s else Panicked
      | Some (Inr a) \<Rightarrow> go a)"

section \<open>The common ancestor\<close>

fun ancestor_walk :: "(height \<Rightarrow> bytes option) \<Rightarrow> (height \<Rightarrow> (transport_error + bytes) list) \<Rightarrow> height \<Rightarrow> (unit, height) pass" where
  "ancestor_walk hash_at replies ancestor =
     (case hash_at ancestor of
        None \<Rightarrow> Panicked
      | Some wallet_hash \<Rightarrow>
          fetched (replies ancestor) () (\<lambda>canonical_hash.
            if wallet_hash = canonical_hash then Reached ancestor
            else (case ancestor of 0 \<Rightarrow> Panicked | Suc prev \<Rightarrow> ancestor_walk hash_at replies prev)))"

declare ancestor_walk.simps [simp del]

section \<open>The catch-up\<close>

text \<open>The transparent outputs of one block: per transaction its bundle, if it has one, and of each
  output the address its script pays, if any.\<close>

definition transparent_payments ::
  "(transparent_address option \<times> zat) list option list \<Rightarrow> (transparent_address \<times> zat) list" where
  "transparent_payments vtx =
     List.map_filter (\<lambda>(addr, v). map_option (\<lambda>a. (a, v)) addr) (concat (List.map_filter id vtx))"

type_synonym ('cm, 'cmx) full_block = "('cm, 'cmx) block \<times> (transparent_address option \<times> zat) list option list"

definition catch_up_block ::
  "('ua, 'cm) zenv \<Rightarrow> ('t, 'h, 'f) tree_ops \<Rightarrow> ('t, 'h, 'n, 'k, 'ua, 'cm, 'cmx) scanner \<Rightarrow> derivation_key \<Rightarrow> height \<Rightarrow>
     (height \<Rightarrow> (transport_error + ('cm, 'cmx) full_block) list) \<Rightarrow>
     ('t, 'n, 'k) wallet \<times> ('ua, 'cm, 'd) mint_state \<Rightarrow>
     (('t, 'n, 'k) wallet \<times> ('ua, 'cm, 'd) mint_state, ('t, 'n, 'k) wallet \<times> ('ua, 'cm, 'd) mint_state) pass" where
  "catch_up_block E T S key birthday blocks = (\<lambda>(w, s).
     let next = bm_height (wallet_tip w) + 1 in
     fetched (blocks next) (w, s) (\<lambda>(b, outs).
       if blk_prev b \<noteq> bm_hash (wallet_tip w) then Restarted (w, s)
       else if header_time_ok E (ms_mtp s) (blk_time b) \<noteq> Some (Inr ()) then Panicked
       else (case apply_block E (mint_wallet E T S) birthday b next (w, ms_registry s, ms_mtp s) of
           None \<Rightarrow> Panicked
         | Some (inbound, w', r, clock) \<Rightarrow>
             (case after_block E key next (transparent_payments outs) inbound (s\<lparr>ms_registry := r, ms_mtp := clock\<rparr>) of
                None \<Rightarrow> Panicked
              | Some s' \<Rightarrow> Reached (w', s')))))"

fun catch_up ::
  "('ua, 'cm) zenv \<Rightarrow> ('t, 'h, 'f) tree_ops \<Rightarrow> ('t, 'h, 'n, 'k, 'ua, 'cm, 'cmx) scanner \<Rightarrow> derivation_key \<Rightarrow> height \<Rightarrow>
     (height \<Rightarrow> (transport_error + ('cm, 'cmx) full_block) list) \<Rightarrow> height \<Rightarrow> nat \<Rightarrow>
     ('t, 'n, 'k) wallet \<times> ('ua, 'cm, 'd) mint_state \<Rightarrow>
     (('t, 'n, 'k) wallet \<times> ('ua, 'cm, 'd) mint_state, ('t, 'n, 'k) wallet \<times> ('ua, 'cm, 'd) mint_state) pass" where
  "catch_up E T S key birthday blocks best 0 ws = (if bm_height (wallet_tip (fst ws)) < best then OutOfFuel else Reached ws)"
| "catch_up E T S key birthday blocks best (Suc fuel) ws =
     (if bm_height (wallet_tip (fst ws)) < best
      then (case catch_up_block E T S key birthday blocks ws of
          Reached ws' \<Rightarrow> catch_up E T S key birthday blocks best fuel ws'
        | Panicked \<Rightarrow> Panicked | Waiting \<Rightarrow> Waiting | OutOfFuel \<Rightarrow> OutOfFuel | Restarted ws' \<Rightarrow> Restarted ws')
      else Reached ws)"

section \<open>One pass\<close>

text \<open>The rewind of everything: the wallet first, and the rest to the height it committed.\<close>

definition rewind_all ::
  "('ua, 'cm) zenv \<Rightarrow> ('t, 'h, 'f) tree_ops \<Rightarrow> (height \<Rightarrow> transport_error + nat) \<Rightarrow> height \<Rightarrow>
     ('t, 'n, 'k) wallet \<times> ('ua, 'cm, 'd) mint_state \<Rightarrow> (('t, 'n, 'k) wallet \<times> ('ua, 'cm, 'd) mint_state) may_panic" where
  "rewind_all E T get_time ancestor = (\<lambda>(w, s).
     if ancestor < bm_height (wallet_tip w)
     then (case wallet_truncate_to T ancestor w of
         Inl _ \<Rightarrow> None
       | Inr (m, w') \<Rightarrow> map_option (Pair w') (rewind_state E (bm_height m) get_time s))
     else Some (w, s))"

text \<open>Up to the applied tip; the day before the catch-up is kept for the sweep.\<close>

definition converge ::
  "('ua, 'cm) zenv \<Rightarrow> ('t, 'h, 'f) tree_ops \<Rightarrow> ('t, 'h, 'n, 'k, 'ua, 'cm, 'cmx) scanner \<Rightarrow> derivation_key \<Rightarrow> height \<Rightarrow>
     timestamp option \<Rightarrow> (height \<Rightarrow> (transport_error + bytes) list) \<Rightarrow> (height \<Rightarrow> transport_error + nat) \<Rightarrow>
     (height \<Rightarrow> (transport_error + ('cm, 'cmx) full_block) list) \<Rightarrow> height \<Rightarrow>
     ('t, 'n, 'k) wallet \<times> ('ua, 'cm, 'd) mint_state \<Rightarrow>
     (('t, 'n, 'k) wallet \<times> ('ua, 'cm, 'd) mint_state, int \<times> ('t, 'n, 'k) wallet \<times> ('ua, 'cm, 'd) mint_state) pass" where
  "converge E T S key birthday lock hashes get_time blocks best ws =
     (case ancestor_walk (block_hash_at (fst ws)) hashes (min (bm_height (wallet_tip (fst ws))) best) of
        Reached ancestor \<Rightarrow>
          (case rewind_all E T get_time ancestor ws of
             None \<Rightarrow> Panicked
           | Some ws1 \<Rightarrow>
               (case mtp_current_day E lock (ms_mtp (snd ws1)) of
                  Some (Some previous_day) \<Rightarrow>
                    (case catch_up E T S key birthday blocks best (best - bm_height (wallet_tip (fst ws1))) ws1 of
                       Reached ws2 \<Rightarrow> Reached (previous_day, ws2)
                     | Panicked \<Rightarrow> Panicked | Waiting \<Rightarrow> Waiting | OutOfFuel \<Rightarrow> OutOfFuel | Restarted ws2 \<Rightarrow> Restarted ws2)
                | _ \<Rightarrow> Panicked))
      | Panicked \<Rightarrow> Panicked | Waiting \<Rightarrow> Waiting | OutOfFuel \<Rightarrow> OutOfFuel | Restarted _ \<Rightarrow> Restarted ws)"

section \<open>The walk finds the highest common block\<close>

text \<open>At a height both chains answer for: the two hashes.\<close>

definition compared :: "(height \<Rightarrow> bytes option) \<Rightarrow> (height \<Rightarrow> (transport_error + bytes) list) \<Rightarrow> height \<Rightarrow> bytes \<Rightarrow> bytes \<Rightarrow> bool" where
  "compared hash_at replies h mine theirs \<longleftrightarrow>
     hash_at h = Some mine \<and> retry_loop is_retryable (replies h) = Some (Inr theirs)"

lemma compared_unique:
  "compared hash_at replies h mine theirs \<Longrightarrow> compared hash_at replies h mine' theirs' \<Longrightarrow> mine' = mine \<and> theirs' = theirs"
  by (auto simp: compared_def)

definition agree :: "(height \<Rightarrow> bytes option) \<Rightarrow> (height \<Rightarrow> (transport_error + bytes) list) \<Rightarrow> height \<Rightarrow> bool" where
  "agree hash_at replies h \<longleftrightarrow> (\<exists>hash. compared hash_at replies h hash hash)"

definition differ :: "(height \<Rightarrow> bytes option) \<Rightarrow> (height \<Rightarrow> (transport_error + bytes) list) \<Rightarrow> height \<Rightarrow> bool" where
  "differ hash_at replies h \<longleftrightarrow> (\<exists>mine theirs. compared hash_at replies h mine theirs \<and> mine \<noteq> theirs)"

lemma agree_not_differ: "agree hash_at replies h \<Longrightarrow> \<not> differ hash_at replies h"
  unfolding agree_def differ_def using compared_unique by blast

lemma walk_reached_step:
  "ancestor_walk hash_at replies h = Reached a \<longleftrightarrow>
     agree hash_at replies h \<and> a = h \<or>
     differ hash_at replies h \<and> (\<exists>prev. h = Suc prev \<and> ancestor_walk hash_at replies prev = Reached a)"
  by (subst ancestor_walk.simps)
    (auto simp: agree_def differ_def compared_def fetched_def split: option.splits sum.splits nat.splits)

lemma walk_reached:
  "ancestor_walk hash_at replies h = Reached a \<longleftrightarrow>
     a \<le> h \<and> agree hash_at replies a \<and> (\<forall>k. a < k \<and> k \<le> h \<longrightarrow> differ hash_at replies k)"
proof (induction h)
  case 0
  show ?case by (subst walk_reached_step) auto
next
  case (Suc h)
  show ?case using agree_not_differ [of hash_at replies] by (subst walk_reached_step) (auto simp: Suc.IH le_Suc_eq)
qed

section \<open>What a block's arrivals leave of the Registry\<close>

text \<open>The market, and everything else that follows a block, changes the listings only.\<close>

definition relists :: "('ua, 'cm) registry \<Rightarrow> ('ua, 'cm) registry \<Rightarrow> bool" where
  "relists r r' \<longleftrightarrow> (\<exists>l. r' = r\<lparr>listings := l\<rparr> \<and> (bt_ok (listings r) \<longrightarrow> bt_ok l))"

lemma relistsI: "r' = r\<lparr>listings := l\<rparr> \<Longrightarrow> (bt_ok (listings r) \<Longrightarrow> bt_ok l) \<Longrightarrow> relists r r'"
  unfolding relists_def by blast

lemma relists_refl [simp]: "relists r r"
  by (rule relistsI [where l = "listings r"]) simp_all

lemma relists_trans: "relists r r' \<Longrightarrow> relists r' r'' \<Longrightarrow> relists r r''"
  unfolding relists_def by auto

lemma relists_ops:
  "relists r (restore_listing l r)" "relists r (snd (remove_listing n r))" "relists r (clear_listings r)"
  "relists r (snd (finish_clocks h r))" "relists r (snd (reconcile_listings r))"
  by (auto simp: restore_listing_def remove_listing_def clear_listings_def finish_clocks_def reconcile_listings_def Let_def
      bt.ok_upd bt.ok_del bt.ok_retain intro!: relistsI)

lemma relists_list: "registry_list E l r = Inr r' \<Longrightarrow> relists r r'"
  using relists_ops(1) by (auto simp: registry_list_def split: option.splits if_splits)

lemma relists_delist: "registry_delist n ua r = Inr r' \<Longrightarrow> relists r r'"
  using relists_ops(2) [of r n] by (auto simp: registry_delist_def split: option.splits if_splits prod.splits)

lemma relists_expire: "relists (snd mr) (snd (market_expire mtp h mr))"
  using relists_ops(4) [of "snd mr" h] by (cases mr) (auto simp: market_expire_def Let_def split: prod.splits)

lemma relists_reconcile: "relists (snd mr) (snd (market_reconcile h mr))"
  using relists_ops(5) [of "snd mr"] by (cases mr) (auto simp: market_reconcile_def Let_def split: prod.splits)

lemma relists_event: "relists (snd mr) (snd (apply_event e mr))"
  by (cases mr; cases e) (simp_all add: relists_ops)

lemma relists_truncate: "relists r (snd (market_truncate_to h (m, r)))"
proof -
  have "relists (snd mr) (snd (fold (\<lambda>(_, e). apply_event e) es mr))" for es and mr :: "('a, 'b) market \<times> ('a, 'b) registry"
  proof (induction es arbitrary: mr)
    case (Cons x es)
    obtain h e where "x = (h, e)" by force
    then show ?case using relists_trans [OF relists_event Cons.IH] by simp
  qed simp
  note f = this
  have "snd (market_truncate_to h (m, r)) = snd (fold (\<lambda>(_, e). apply_event e) (filter (\<lambda>(k, _). k \<le> h) (m_events m))
      (\<lparr>m_sales = sales_new, m_challenges = [], m_events = []\<rparr>, clear_listings r))"
    by (simp add: market_truncate_to_def Let_def split: prod.split)
  then show ?thesis
    using relists_trans [OF relists_ops(3) f [of "(\<lparr>m_sales = sales_new, m_challenges = [], m_events = []\<rparr>, clear_listings r)", unfolded snd_conv]]
    by metis
qed

lemma relists_answer:
  assumes "market_answer E response h (m, r) = Some (hit, m', r')"
  shows "relists r r'"
proof -
  have "relists r (snd (answer_hit E h i (m, r)))" for i
    using relists_list relists_delist
    by (auto simp: answer_hit_def Let_def market_list_def market_delist_def split: sum.splits if_splits challenge_kind.splits)
  note hit = this
  show ?thesis
  proof (cases "right_answer response m")
    case None
    then show ?thesis using assms by (auto simp: market_answer_def split: if_splits)
  next
    case (Some i)
    have "r' = r \<or> r' = snd (answer_hit E h i (m, r))"
      using assms Some by (auto simp: market_answer_def split: if_splits)
    then show ?thesis using hit by auto
  qed
qed

lemma admit_order_registry [simp]: "ms_registry (snd (admit_order h nt s)) = ms_registry s"
  by (simp add: admit_order_def split: prod.split bool.split)

lemma apply_response_registry:
  assumes "apply_response E h mtp txid response sent paid s = Some s'"
  shows "ms_registry s' = ms_registry s"
proof -
  obtain rest where r: "response_rest E (ms_oracle s) (ch_request sent) paid = Some rest"
    using assms by (cases "response_rest E (ms_oracle s) (ch_request sent) paid") (simp_all add: apply_response_def Let_def)
  have "ms_registry s' = ms_registry s"
    if "map_option f (authorize_response E (ms_registry s) sent mtp) = Some s'" "\<And>x. ms_registry (f x) = ms_registry s" for f
    using that by auto
  note auth = this
  show ?thesis using assms
    by (cases rest) (auto simp: apply_response_def Let_def r split: if_splits intro: auth split: option.split)
qed

lemma relists_arrive:
  assumes "arrive E key h mtp a s = Some s'"
  shows "relists (ms_registry s) (ms_registry s')"
proof -
  obtain txid inbound paid where a: "a = (txid, inbound, paid)" by (rule prod.exhaust [of a]) (metis prod.exhaust)
  show ?thesis
  proof (cases inbound)
    case (InMarket request)
    then show ?thesis using assms by (auto simp: a arrive_def arrive_market_def Let_def split: option.splits)
  next
    case (InResponse response)
    then have r: "arrive_response E h mtp txid response paid s = Some s'" using assms by (simp add: a arrive_def)
    show ?thesis
      using r relists_answer [of E response h "ms_market s" "ms_registry s"]
      by (auto simp: arrive_response_def refund_def split: if_splits prod.splits option.splits dest: apply_response_registry)
  qed (use assms in \<open>auto simp: a arrive_def\<close>)
qed

lemma relists_arrivals: "arrivals E key h mtp as s = Some s' \<Longrightarrow> relists (ms_registry s) (ms_registry s')"
proof (induction as arbitrary: s)
  case (Cons a as)
  then obtain s1 where "arrive E key h mtp a s = Some s1" "arrivals E key h mtp as s1 = Some s'"
    by (auto split: Option.bind_splits)
  then show ?case using Cons.IH relists_arrive relists_trans by blast
qed simp

lemma relists_after_block:
  assumes "after_block E key h payments inbound s = Some s'"
  shows "relists (ms_registry s) (ms_registry s')"
proof -
  obtain mtp where mtp: "mtp_current E (ms_mtp s) = Some (Some mtp)"
    using assms by (auto simp: after_block_def Let_def Option.bind_eq_Some_conv)
  obtain m r where mr: "market_reconcile h (market_expire mtp h (ms_market s, ms_registry s)) = (m, r)" by (rule prod.exhaust)
  have "\<exists>s3. arrivals E key h mtp inbound (s\<lparr>ms_name_notes := reconcile_seen E (ms_registry s) (ms_name_notes s),
        ms_challenges := otp_expire mtp (ms_challenges s), ms_market := m, ms_registry := r\<rparr>) = Some s3 \<and>
      ms_registry s' = ms_registry s3"
    using assms by (auto simp: after_block_def Let_def Option.bind_eq_Some_conv mtp mr simp del: arrivals.simps)
  then obtain s3 where a: "arrivals E key h mtp inbound (s\<lparr>ms_name_notes := reconcile_seen E (ms_registry s) (ms_name_notes s),
        ms_challenges := otp_expire mtp (ms_challenges s), ms_market := m, ms_registry := r\<rparr>) = Some s3"
    and s': "ms_registry s' = ms_registry s3" by blast
  have "relists (ms_registry s) r"
    using relists_trans [OF relists_expire relists_reconcile, of "(ms_market s, ms_registry s)" h mtp h] mr by simp
  then show ?thesis using relists_arrivals [OF a] relists_trans by (simp add: s')
qed

lemma relists_rewind:
  assumes "rewind_state E k get_time s = Some s'"
  shows "relists (truncate_to_height k (ms_registry s)) (ms_registry s')"
proof -
  obtain clock where b: "mtp_backfill k get_time mtp_default = (Inr (), clock)"
    using assms by (cases "mtp_backfill k get_time mtp_default") (auto simp: rewind_state_def split: sum.splits)
  obtain mtp where c: "mtp_current E clock = Some (Some mtp)"
    using assms by (auto simp: rewind_state_def b Option.bind_eq_Some_conv)
  have "ms_registry s' = snd (market_expire mtp k (market_truncate_to k (ms_market s, truncate_to_height k (ms_registry s))))"
    using assms by (auto simp: rewind_state_def Let_def b c split: prod.splits)
  then show ?thesis
    using relists_trans [OF relists_truncate relists_expire] by metis
qed

section \<open>What a pass keeps\<close>

text \<open>What the chain promises about the blocks the node serves: scanned by a wallet that stands at
  its parent, a block reports only transactions and nullifiers that are new to that wallet.\<close>

definition serves_new ::
  "('ua, 'cm) zenv \<Rightarrow> ('t, 'h, 'f) tree_ops \<Rightarrow> ('t, 'h, 'n, 'k, 'ua, 'cm, 'cmx) scanner \<Rightarrow> (bytes \<Rightarrow> memo option) \<Rightarrow> height \<Rightarrow>
     (height \<Rightarrow> (transport_error + ('cm, 'cmx) full_block) list) \<Rightarrow> bool" where
  "serves_new E T S parse birthday blocks \<longleftrightarrow>
     (\<forall>h b outs w r sc. Inr (b, outs) \<in> set (blocks h) \<longrightarrow> mint_reach E T S parse birthday w r \<longrightarrow>
        blk_prev b = bm_hash (wallet_tip w) \<longrightarrow> sn_scan S w b = Some sc \<longrightarrow> fresh_txs w (sc_txs sc))"

lemma listings_ok: "mint_reach E T S parse birthday w r \<Longrightarrow> bt_ok (listings r)"
  using mint_reach_joint reg_at_inv reg_inv_ok unfolding joint_ok_def by blast

lemma reach_inv: "mint_reach E T S parse birthday w r \<Longrightarrow> wallet_inv w"
  using mint_reach_joint unfolding joint_ok_def by blast

lemma reach_relists:
  "mint_reach E T S parse birthday w r \<Longrightarrow> relists r r' \<Longrightarrow> mint_reach E T S parse birthday w r'"
  using listings_ok mint_reach.listed unfolding relists_def by blast

lemma store_all_chain:
  "store_all (mint_wallet E T S) h start cs w = Some w' \<Longrightarrow> wallet_inv w \<Longrightarrow>
     wallet_inv w' \<and> w_blocks w' = w_blocks w \<and> w_seed w' = w_seed w"
proof (induction cs arbitrary: w)
  case (Cons c cs)
  then obtain w1 where s: "store_name_note E T (entry_of S h (start + dn_ordinal c) c) w = Inr w1"
    and rest: "store_all (mint_wallet E T S) h start cs w1 = Some w'"
    by (auto simp: mint_store split: Option.bind_splits)
  show ?case using Cons.IH [OF rest] store_name_note_inv [OF s Cons.prems(2)] store_same_chain [OF s] by simp
qed simp

lemma hash_append:
  assumes "chain_ok w" and "w_blocks w' = w_blocks w @ [(h, x)]" and "w_seed w' = w_seed w" and "tip_of w < h" and "k \<le> tip_of w"
  shows "block_hash_at w' k = block_hash_at w k"
proof -
  have "bt_get (w_blocks w') k = bt_get (w_blocks w) k"
    using assms by (simp add: bt_get_def map_add_def split: option.split)
  then show ?thesis using assms(3) by (simp add: block_hash_at_def split: option.split)
qed

lemma applied_tip:
  assumes "apply_block E (mint_wallet E T S) birthday b h (w, r, mtp) = Some (inbound, w', r', mtp')" and "wallet_inv w"
    and "h \<le> U32_MAX"
  shows "tip_of w' = tip_of w + 1 \<and> wallet_inv w' \<and> (\<forall>k\<le>tip_of w. block_hash_at w' k = block_hash_at w k)"
  using assms(1)
proof (rule apply_block_parts)
  fix acc sc w1 start
  assume h: "h = tip_of w + 1"
    and put: "put_blocks_marked T (wallet_tip w) [sc] (map (sn_leaf S) (map dn_cmx acc)) w = Some (Inr w1)"
    and st: "store_all (mint_wallet E T S) h start acc w1 = Some w'"
  have law: "wallet_inv w1 \<and> w_blocks w1 = w_blocks w @ [(sc_height sc, to_block_metadata sc)] \<and> w_seed w1 = w_seed w"
    using put_blocks_law [OF put assms(2)] assms(3) h by (simp add: tip_of_def)
  with store_all_chain [OF st] have w': "wallet_inv w'" "w_blocks w' = w_blocks w @ [(sc_height sc, to_block_metadata sc)]"
    "w_seed w' = w_seed w" by simp_all
  have c: "chain_ok w" "chain_ok w'" using assms(2) w'(1) by (simp_all add: wallet_inv_def)
  have tip: "tip_of w' = tip_of w + 1" by (rule tip_append [OF assms(2) w'])
  have "sc_height sc = tip_of w'" using tip_is_last [OF _ c(2)] w'(2) by (simp add: tip_of_def)
  with hash_append [OF c(1) w'(2,3)] tip w'(1) show ?thesis by simp
qed

lemma block_parts:
  assumes "catch_up_block E T S key birthday blocks (w, s) = Reached (w', s')"
  obtains b outs inbound r clock where "Inr (b, outs) \<in> set (blocks (tip_of w + 1))" "blk_prev b = bm_hash (wallet_tip w)"
    "apply_block E (mint_wallet E T S) birthday b (tip_of w + 1) (w, ms_registry s, ms_mtp s) = Some (inbound, w', r, clock)"
    "relists r (ms_registry s')"
proof -
  have mem: "retry_loop again xs = Some (Inr x) \<Longrightarrow> Inr x \<in> set xs" for again and xs :: "('x + 'y) list" and x
    by (induction again xs rule: retry_loop.induct) (auto split: if_splits)
  define h where h: "h = bm_height (wallet_tip w) + 1"
  note pass = assms [unfolded catch_up_block_def Let_def case_prod_conv, folded h]
  obtain b outs where f: "retry_loop is_retryable (blocks h) = Some (Inr (b, outs))"
    using pass by (auto simp: fetched_def split: option.splits sum.splits if_splits)
  have prev: "blk_prev b = bm_hash (wallet_tip w)"
    using pass f by (auto simp: fetched_def split: if_splits)
  obtain inbound r clock where a: "apply_block E (mint_wallet E T S) birthday b h (w, ms_registry s, ms_mtp s) = Some (inbound, w', r, clock)"
    and af: "after_block E key h (transparent_payments outs) inbound (s\<lparr>ms_registry := r, ms_mtp := clock\<rparr>) = Some s'"
    using pass f by (auto simp: fetched_def split: if_splits option.splits prod.splits)
  have "h = tip_of w + 1" by (simp add: h tip_of_def)
  then show ?thesis using that mem [OF f] prev a relists_after_block [OF af] by simp
qed

lemma block_tip:
  assumes "catch_up_block E T S key birthday blocks (w, s) = Reached (w', s')" and "wallet_inv w" and "tip_of w < U32_MAX"
  shows "tip_of w' = tip_of w + 1 \<and> wallet_inv w' \<and> (\<forall>k\<le>tip_of w. block_hash_at w' k = block_hash_at w k)"
  using assms(1)
proof (rule block_parts)
  fix b outs inbound r clock
  assume "apply_block E (mint_wallet E T S) birthday b (tip_of w + 1) (w, ms_registry s, ms_mtp s) = Some (inbound, w', r, clock)"
  then show ?thesis by (rule applied_tip) (use assms(2,3) in simp_all)
qed

lemma block_reach:
  assumes "catch_up_block E T S key birthday blocks (w, s) = Reached (w', s')" and "tip_of w < U32_MAX"
    and "mint_reach E T S parse birthday w (ms_registry s)" and "serves_new E T S parse birthday blocks"
  shows "mint_reach E T S parse birthday w' (ms_registry s')"
  using assms(1)
proof (rule block_parts)
  fix b outs inbound r clock
  assume b: "Inr (b, outs) \<in> set (blocks (tip_of w + 1))" "blk_prev b = bm_hash (wallet_tip w)"
    and a: "apply_block E (mint_wallet E T S) birthday b (tip_of w + 1) (w, ms_registry s, ms_mtp s) = Some (inbound, w', r, clock)"
    and r: "relists r (ms_registry s')"
  have "mint_reach E T S parse birthday w' r"
    by (rule mint_reach.block [OF assms(3) a]) (use assms(2,4) b assms(3) in \<open>auto simp: serves_new_def\<close>)
  then show ?thesis using r by (rule reach_relists)
qed

text \<open>Where a pass leaves the mint, if it leaves it anywhere.\<close>

fun pass_state :: "('c, 'd \<times> 'c) pass \<Rightarrow> 'c option" where
  "pass_state (Restarted c) = Some c"
| "pass_state (Reached (_, c)) = Some c"
| "pass_state _ = None"

lemma block_restarts: "catch_up_block E T S key birthday blocks ws = Restarted ws' \<Longrightarrow> ws' = ws"
  by (cases ws) (auto simp: catch_up_block_def Let_def fetched_def split: option.splits sum.splits if_splits prod.splits)

lemma block_fuel: "catch_up_block E T S key birthday blocks ws \<noteq> OutOfFuel"
  by (cases ws) (auto simp: catch_up_block_def Let_def fetched_def split: option.splits sum.splits if_splits prod.splits)

lemma catch_up_tip:
  "catch_up E T S key birthday blocks best fuel ws = Reached ws' \<Longrightarrow> wallet_inv (fst ws) \<Longrightarrow> best \<le> U32_MAX \<Longrightarrow>
     tip_of (fst ws) \<le> best \<Longrightarrow>
     tip_of (fst ws') = best \<and> wallet_inv (fst ws') \<and>
     (\<forall>k\<le>tip_of (fst ws). block_hash_at (fst ws') k = block_hash_at (fst ws) k)"
proof (induction fuel arbitrary: ws)
  case 0
  then show ?case by (auto simp: tip_of_def split: if_splits)
next
  case (Suc fuel)
  show ?case
  proof (cases "tip_of (fst ws) < best")
    case False
    then show ?thesis using Suc.prems by (auto simp: tip_of_def)
  next
    case True
    then obtain w1 s1 where b: "catch_up_block E T S key birthday blocks ws = Reached (w1, s1)"
      and r: "catch_up E T S key birthday blocks best fuel (w1, s1) = Reached ws'"
      using Suc.prems(1) by (auto simp: tip_of_def split: pass.splits)
    obtain w s where ws: "ws = (w, s)" by (rule prod.exhaust)
    have one: "tip_of w1 = tip_of w + 1 \<and> wallet_inv w1 \<and> (\<forall>k\<le>tip_of w. block_hash_at w1 k = block_hash_at w k)"
      using block_tip [OF b [unfolded ws]] Suc.prems(2,3) True ws by simp
    then show ?thesis using Suc.IH [OF r] Suc.prems(3) True ws by simp
  qed
qed

lemma catch_up_reach:
  "catch_up E T S key birthday blocks best fuel ws \<in> {Reached ws', Restarted ws'} \<Longrightarrow>
     mint_reach E T S parse birthday (fst ws) (ms_registry (snd ws)) \<Longrightarrow> serves_new E T S parse birthday blocks \<Longrightarrow> best \<le> U32_MAX \<Longrightarrow>
     mint_reach E T S parse birthday (fst ws') (ms_registry (snd ws'))"
proof (induction fuel arbitrary: ws)
  case 0
  then show ?case by (auto split: if_splits)
next
  case (Suc fuel)
  obtain w s where ws: "ws = (w, s)" by (rule prod.exhaust)
  show ?case
  proof (cases "catch_up_block E T S key birthday blocks ws")
    case (Reached ws1)
    obtain w1 s1 where ws1: "ws1 = (w1, s1)" by (rule prod.exhaust)
    show ?thesis
    proof (cases "tip_of w < best")
      case True
      have "mint_reach E T S parse birthday w1 (ms_registry s1)"
        using block_reach [OF Reached [unfolded ws ws1]] Suc.prems(2,3,4) True ws by simp
      then show ?thesis using Suc.IH [of ws1] Suc.prems True Reached ws1 ws by (simp add: tip_of_def)
    next
      case False
      then show ?thesis using Suc.prems ws by (auto simp: tip_of_def)
    qed
  qed (use Suc.prems block_restarts [of E T S key birthday blocks ws] in \<open>auto split: if_splits\<close>)
qed

lemma catch_up_ends:
  "best - tip_of (fst ws) \<le> fuel \<Longrightarrow> wallet_inv (fst ws) \<Longrightarrow> best \<le> U32_MAX \<Longrightarrow>
     catch_up E T S key birthday blocks best fuel ws \<noteq> OutOfFuel"
proof (induction fuel arbitrary: ws)
  case 0
  then show ?case by (simp add: tip_of_def)
next
  case (Suc fuel)
  obtain w s where ws: "ws = (w, s)" by (rule prod.exhaust)
  show ?case
  proof (cases "catch_up_block E T S key birthday blocks ws")
    case (Reached ws1)
    obtain w1 s1 where ws1: "ws1 = (w1, s1)" by (rule prod.exhaust)
    have "tip_of w < best \<Longrightarrow> tip_of w1 = tip_of w + 1 \<and> wallet_inv w1"
      using block_tip [OF Reached [unfolded ws ws1]] Suc.prems(2,3) ws by simp
    then show ?thesis using Suc.IH [of ws1] Suc.prems Reached ws ws1 by (auto simp: tip_of_def)
  qed (use block_fuel [of E T S key birthday blocks ws] in auto)
qed

section \<open>Rewinding\<close>

text \<open>At a height the wallet has a hash for, a truncation commits exactly that height.\<close>

lemma bt_has_entry: "bt_has m k \<Longrightarrow> \<exists>x. (k, x) \<in> set m"
  by (auto simp: bt_has_iff bt_get_def dest: map_of_SomeD)

lemma sorted_le_last: "sorted xs \<Longrightarrow> x \<in> set xs \<Longrightarrow> x \<le> last (xs :: nat list)"
  by (induction xs) auto

lemma common_truncation_exact:
  assumes "chain_ok w" and "bt_has (w_blocks w) a" and "common_truncation_height w a = Some k"
  shows "k = a"
proof -
  let ?xs = "filter (\<lambda>(k, _). k \<le> a) (w_blocks w)"
  have ne: "?xs \<noteq> []" and k: "k = fst (last ?xs)"
    using assms(3) by (auto simp: common_truncation_height_def bt_last_def split: if_splits)
  have "sorted (map fst ?xs)"
    using chain_ok_bt [OF assms(1)] by (intro sorted_filter strict_sorted_imp_sorted) (simp add: bt_ok_def)
  moreover have "a \<in> set (map fst ?xs)"
    using bt_has_entry [OF assms(2)] by force
  ultimately have "a \<le> last (map fst ?xs)" by (rule sorted_le_last)
  moreover have "last (map fst ?xs) = k" using ne k by (simp add: last_map)
  moreover have "k \<le> a" using common_truncation_le [OF assms(3,1)] by simp
  ultimately show ?thesis by simp
qed

lemma truncate_height_exact:
  assumes "wallet_inv w" and "wallet_truncate_to T a w = Inr (m, w')" and "block_hash_at w a \<noteq> None"
  shows "bm_height m = a"
proof -
  have c: "chain_ok w" using assms(1) by (simp add: wallet_inv_def)
  obtain height where th: "wallet_truncate_to_height T a w = Inr (height, w')" and m: "block_metadata_at w' height = Some m"
    using assms(2) by (auto simp: wallet_truncate_to_def result_simps split: prod.splits)
  have "chain_ok w'" using truncate_height_inv [OF th assms(1)] by (simp add: wallet_inv_def)
  then have mh: "bm_height m = height" using m chain_ok_meta by (fastforce simp: block_metadata_at_def split: option.splits if_splits)
  have known: "bt_has (w_blocks w) a \<or> a = bm_height (w_seed w)"
    using assms(3) by (auto simp: block_hash_at_def bt_has_def split: option.splits if_splits)
  from th have "height = a"
  proof (cases rule: truncate_height_cases)
    case (dropped x y z)
    show ?thesis
    proof (cases "common_truncation_height w a")
      case None
      have "\<not> bt_has (w_blocks w) a"
      proof
        assume "bt_has (w_blocks w) a"
        from bt_has_entry [OF this] obtain x where "(a, x) \<in> set (w_blocks w)" by blast
        then have "filter (\<lambda>(k, _). k \<le> a) (w_blocks w) \<noteq> []" by (auto simp: filter_empty_conv)
        then show False using None by (simp add: common_truncation_height_def bt_last_def)
      qed
      then show ?thesis using known dropped(2) None by simp
    next
      case (Some k)
      then have "k = height" using dropped(2) by simp
      then show ?thesis
        using known common_truncation_exact [OF c _ Some] common_truncation_le [OF Some c] chain_ok_has [OF c, of k] by auto
    qed
  qed simp
  then show ?thesis using mh by simp
qed

lemma rewind_all_keeps:
  assumes "rewind_all E T get_time a (w, s) = Some (w1, s1)" and "wallet_inv w" and "a \<le> tip_of w" and "block_hash_at w a \<noteq> None"
  shows "wallet_inv w1 \<and> tip_of w1 = a \<and> (\<forall>k\<le>a. block_hash_at w1 k = block_hash_at w k)"
proof (cases "a < tip_of w")
  case False
  then show ?thesis using assms by (auto simp: rewind_all_def tip_of_def split: if_splits)
next
  case True
  then obtain m where t: "wallet_truncate_to T a w = Inr (m, w1)"
    using assms(1) by (auto simp: rewind_all_def tip_of_def split: sum.splits)
  have "wallet_inv w1" using truncate_to_height_of [OF t] truncate_height_inv assms(2) by blast
  then show ?thesis
    using truncate_chain [OF assms(2) t] truncate_height_exact [OF assms(2) t assms(4)] by (auto simp: tip_of_def)
qed

lemma rewind_all_reach:
  assumes "rewind_all E T get_time a (w, s) = Some (w1, s1)" and "mint_reach E T S parse birthday w (ms_registry s)"
  shows "mint_reach E T S parse birthday w1 (ms_registry s1)"
proof (cases "a < tip_of w")
  case False
  then show ?thesis using assms by (simp add: rewind_all_def tip_of_def)
next
  case True
  then obtain m where t: "wallet_truncate_to T a w = Inr (m, w1)" and r: "rewind_state E (bm_height m) get_time s = Some s1"
    using assms(1) by (auto simp: rewind_all_def tip_of_def split: sum.splits)
  show ?thesis by (rule reach_relists [OF mint_reach.rewound [OF assms(2) t] relists_rewind [OF r]])
qed

section \<open>The pass\<close>

lemma converge_parts:
  assumes "converge E T S key birthday lock hashes get_time blocks best (w, s) = res" and "res \<noteq> Panicked" and "res \<noteq> Waiting"
    and "res \<noteq> Restarted (w, s)"
  obtains a w1 s1 day where "a \<le> min (tip_of w) best" "agree (block_hash_at w) hashes a"
    "\<forall>k. a < k \<and> k \<le> min (tip_of w) best \<longrightarrow> differ (block_hash_at w) hashes k"
    "rewind_all E T get_time a (w, s) = Some (w1, s1)"
    "res = (case catch_up E T S key birthday blocks best (best - tip_of w1) (w1, s1) of
        Reached ws2 \<Rightarrow> Reached (day, ws2)
      | Panicked \<Rightarrow> Panicked | Waiting \<Rightarrow> Waiting | OutOfFuel \<Rightarrow> OutOfFuel | Restarted ws2 \<Rightarrow> Restarted ws2)"
proof -
  have "ancestor_walk hash_at replies n \<noteq> OutOfFuel" for hash_at replies n
    by (induction n) (simp_all add: ancestor_walk.simps [of hash_at replies "Suc _"] ancestor_walk.simps [of hash_at replies 0]
        fetched_def split: option.split sum.split)
  then obtain a where a: "ancestor_walk (block_hash_at w) hashes (min (tip_of w) best) = Reached a"
    using assms by (auto simp: converge_def tip_of_def split: pass.splits)
  obtain ws1 where r: "rewind_all E T get_time a (w, s) = Some ws1"
    using assms a by (auto simp: converge_def tip_of_def split: option.splits)
  obtain day where d: "mtp_current_day E lock (ms_mtp (snd ws1)) = Some (Some day)"
    using assms a r by (auto simp: converge_def tip_of_def split: option.splits)
  obtain w1 s1 where ws1: "ws1 = (w1, s1)" by (rule prod.exhaust)
  have "res = (case catch_up E T S key birthday blocks best (best - tip_of w1) (w1, s1) of
        Reached ws2 \<Rightarrow> Reached (day, ws2)
      | Panicked \<Rightarrow> Panicked | Waiting \<Rightarrow> Waiting | OutOfFuel \<Rightarrow> OutOfFuel | Restarted ws2 \<Rightarrow> Restarted ws2)"
    using assms(1) a r d by (simp add: converge_def tip_of_def ws1)
  then show ?thesis using that a [unfolded walk_reached] r ws1 by blast
qed

text \<open>C7: Following the chain. A pass that goes through ends exactly at the tip the node announced.
  It kept the wallet's chain up to the highest height at which the two name the same block, and
  every block above that was the node's. However the pass ends, restarts included, the mint is in
  a reachable state, so no name is lost by it.\<close>

theorem pass_follows_chain:
  assumes "mint_reach E T S parse birthday w (ms_registry s)" and "serves_new E T S parse birthday blocks" and "best \<le> U32_MAX"
  shows "(case converge E T S key birthday lock hashes get_time blocks best (w, s) of
            Reached (day, w', s') \<Rightarrow> tip_of w' = best \<and> mint_reach E T S parse birthday w' (ms_registry s') \<and>
              (\<exists>a. a \<le> min (tip_of w) best \<and> agree (block_hash_at w) hashes a \<and>
                 (\<forall>k. a < k \<and> k \<le> min (tip_of w) best \<longrightarrow> differ (block_hash_at w) hashes k) \<and>
                 (\<forall>k\<le>a. block_hash_at w' k = block_hash_at w k))
          | Restarted (w', s') \<Rightarrow> mint_reach E T S parse birthday w' (ms_registry s')
          | OutOfFuel \<Rightarrow> False
          | _ \<Rightarrow> True)"
proof -
  define res where "res = converge E T S key birthday lock hashes get_time blocks best (w, s)"
  show ?thesis
  proof (cases "res = Panicked \<or> res = Waiting \<or> res = Restarted (w, s)")
    case True
    then show ?thesis using assms(1) by (auto simp flip: res_def)
  next
    case False
    with res_def [symmetric] show ?thesis
    proof (rule_tac converge_parts [of E T S key birthday lock hashes get_time blocks best w s res])
      fix a w1 s1 day
      assume a: "a \<le> min (tip_of w) best" "agree (block_hash_at w) hashes a"
        "\<forall>k. a < k \<and> k \<le> min (tip_of w) best \<longrightarrow> differ (block_hash_at w) hashes k"
        and r: "rewind_all E T get_time a (w, s) = Some (w1, s1)"
        and res: "res = (case catch_up E T S key birthday blocks best (best - tip_of w1) (w1, s1) of
            Reached ws2 \<Rightarrow> Reached (day, ws2)
          | Panicked \<Rightarrow> Panicked | Waiting \<Rightarrow> Waiting | OutOfFuel \<Rightarrow> OutOfFuel | Restarted ws2 \<Rightarrow> Restarted ws2)"
      have h: "block_hash_at w a \<noteq> None" using a(2) by (auto simp: agree_def compared_def)
      have k: "wallet_inv w1 \<and> tip_of w1 = a \<and> (\<forall>k\<le>a. block_hash_at w1 k = block_hash_at w k)"
        using rewind_all_keeps [OF r reach_inv [OF assms(1)] _ h] a(1) by simp
      have m: "mint_reach E T S parse birthday w1 (ms_registry s1)" by (rule rewind_all_reach [OF r assms(1)])
      let ?c = "catch_up E T S key birthday blocks best (best - tip_of w1) (w1, s1)"
      have nf: "?c \<noteq> OutOfFuel" by (rule catch_up_ends) (use k assms(3) in simp_all)
      have reach: "mint_reach E T S parse birthday (fst ws') (ms_registry (snd ws'))" if "?c \<in> {Reached ws', Restarted ws'}" for ws'
        using catch_up_reach [OF that _ assms(2,3)] m by simp
      have tip: "tip_of (fst ws') = best \<and> (\<forall>k\<le>a. block_hash_at (fst ws') k = block_hash_at w k)" if "?c = Reached ws'" for ws'
        using catch_up_tip [OF that _ assms(3)] k a(1) by simp
      show ?thesis
        using res nf reach tip a
        by (auto simp flip: res_def split: pass.splits)
    qed blast+
  qed
qed

text \<open>The pass that brings the claim of \<open>alice\<close>: the wallet stands at its origin, the node announces
  height 10 and serves the block.\<close>

definition once_scanner ::
  "(nat \<times> (height \<times> nat) list, bytes, unit, unit, string, bytes, bytes) scanner" where
  "once_scanner = claim_scanner\<lparr>sn_scan := (\<lambda>w _. if w = demo_new_wallet then Some claim_scanned else None)\<rparr>"

definition pass_state0 :: "(string, bytes, nat) mint_state" where
  "pass_state0 = demo_state\<lparr>ms_registry := anchored, ms_challenges := otp_new, ms_mtp := mtp_update 9 1699999000 mtp_default\<rparr>"

abbreviation served :: "height \<Rightarrow> (transport_error + (bytes, bytes) full_block) list" where
  "served h \<equiv> (if h = 10 then [Inl TimeoutError, Inr (claim_block, [])] else [])"

lemma after_block_quiet: "mtp_current E (ms_mtp s) = Some (Some mtp) \<Longrightarrow> \<exists>s'. after_block E key h payments [] s = Some s'"
  by (simp add: after_block_def Let_def split: prod.split)

lemma demo_tip:
  "bm_height (wallet_tip demo_new_wallet) = 9" "bm_hash (wallet_tip demo_new_wallet) = ''h9''"
  "block_hash_at demo_new_wallet 9 = Some ''h9''"
  by (simp_all add: demo_new_wallet_def wallet_tip_def bt_last_def block_hash_at_def bt_get_def)

lemma demo_catch_up:
  "\<exists>w' s'. catch_up demo_env demo_trees once_scanner ''k'' 1 served 10 (Suc 0) (demo_new_wallet, pass_state0) = Reached (w', s')"
proof -
  let ?clock = "mtp_update 9 1699999000 mtp_default"
  have mtp: "mtp_current demo_env (mtp_update 10 1700000000 ?clock) = Some (Some 1700000000)"
    "mtp_current demo_env ?clock = Some (Some 1699999000)"
    by (simp_all add: mtp_current_def mtp_update_def mtp_default_def ts_from_seconds_def demo_env_def MTP_WINDOW_def)
  have scan: "sn_scan once_scanner demo_new_wallet claim_block = Some claim_scanned" by (simp add: once_scanner_def)
  obtain w' r' where a: "apply_block demo_env (mint_wallet demo_env demo_trees once_scanner) 1 claim_block 10 (demo_new_wallet, anchored, ?clock) =
       Some ([], w', r', mtp_update 10 1700000000 ?clock)"
    using claim_applied [OF scan _ _ _ mtp(1)] by (auto simp: once_scanner_def)
  have inv: "wallet_inv demo_new_wallet" by (rule wallet_new_inv [OF demo_new_wallet_born]) (simp add: U32_MAX_def)
  have tip10: "bm_height (wallet_tip w') = 10"
    using applied_tip [OF a inv] demo_tip by (simp add: tip_of_def U32_MAX_def)
  obtain s' where af: "after_block demo_env ''k'' 10 [] [] (pass_state0\<lparr>ms_registry := r', ms_mtp := mtp_update 10 1700000000 ?clock\<rparr>) = Some s'"
    using after_block_quiet [of demo_env "pass_state0\<lparr>ms_registry := r', ms_mtp := mtp_update 10 1700000000 ?clock\<rparr>" 1700000000
        "''k''" 10 "[]"] mtp(1) by auto
  have ok: "header_time_ok demo_env ?clock (blk_time claim_block) = Some (Inr ())"
    by (simp add: header_time_ok_def mtp(2) demo_block_def MAX_TIME_SINCE_MEDIAN_def)
  have b: "catch_up_block demo_env demo_trees once_scanner ''k'' 1 served (demo_new_wallet, pass_state0) = Reached (w', s')"
    using a af ok demo_tip
    by (simp add: catch_up_block_def fetched_def Let_def pass_state0_def transparent_payments_def map_filter_simps)
  show ?thesis using demo_tip(1) tip10 b by simp
qed

lemma demo_pass:
  "\<exists>day w' s'. converge demo_env demo_trees once_scanner ''k'' 1 (Some 1600000000) (\<lambda>_. [Inr ''h9'']) (\<lambda>_. Inr 0) served 10
     (demo_new_wallet, pass_state0) = Reached (day, w', s')"
proof -
  have walk: "ancestor_walk (block_hash_at demo_new_wallet) (\<lambda>_. [Inr ''h9'']) 9 = Reached 9"
    by (simp add: ancestor_walk.simps [of _ _ 9] fetched_def demo_tip)
  have "\<exists>day. mtp_current_day demo_env (Some 1600000000) (ms_mtp pass_state0) = Some (Some day)"
    by (simp add: mtp_current_day_def mtp_current_def mtp_update_def mtp_default_def ts_from_seconds_def demo_env_def MTP_WINDOW_def
        pass_state0_def)
  then show ?thesis using walk demo_tip(1) demo_catch_up by (auto simp: converge_def rewind_all_def)
qed

theorem pass_follows_chain_witness:
  "\<exists>day w' s'. converge demo_env demo_trees once_scanner ''k'' 1 (Some 1600000000) (\<lambda>_. [Inr ''h9'']) (\<lambda>_. Inr 0) served 10
     (demo_new_wallet, pass_state0) = Reached (day, w', s') \<and> tip_of w' = 10 \<and>
     mint_reach demo_env demo_trees once_scanner (\<lambda>_. None) 1 w' (ms_registry s')"
proof -
  obtain day w' s' where c: "converge demo_env demo_trees once_scanner ''k'' 1 (Some 1600000000) (\<lambda>_. [Inr ''h9'']) (\<lambda>_. Inr 0) served 10
     (demo_new_wallet, pass_state0) = Reached (day, w', s')" using demo_pass by blast
  have start: "mint_reach demo_env demo_trees once_scanner (\<lambda>_. None) 1 demo_new_wallet (ms_registry pass_state0)"
    by (rule mint_reach.born [OF demo_new_wallet_born]) (use anchored_facts in \<open>simp_all add: U32_MAX_def pass_state0_def\<close>)
  have new: "serves_new demo_env demo_trees once_scanner (\<lambda>_. None) 1 served"
    using claim_fresh by (auto simp: serves_new_def once_scanner_def split: if_splits)
  have "(10::nat) \<le> U32_MAX" by (simp add: U32_MAX_def)
  from pass_follows_chain [OF start new this, where key = "''k''" and lock = "Some 1600000000" and hashes = "\<lambda>_. [Inr ''h9'']"
      and get_time = "\<lambda>_. Inr 0"] c
  show ?thesis by simp
qed

end
