(* ===== verification/Boot.thy ===== *)
theory Boot
  imports Converge Assemble
begin

text \<open>
  The boot sequence (\<open>src/boot.rs\<close>, \<open>src/boot/key.rs\<close>): every check and acquisition between the
  start of the process and the hand-over to the run loop, in the order the code makes them. A
  refusal is a value: which \<open>expect\<close>, \<open>assert\<close> or \<open>panic\<close> stopped the process. The node's
  answers, the files, the exchanges and the pre-sale service enter as what they returned; the
  sealing, fingerprint, key and attestation code of \<open>zns_canon\<close>, \<open>zip32\<close> and \<open>zcash_keys\<close> is a
  record of functions.
\<close>

section \<open>How a boot stops\<close>

datatype node_fault =
    ZebraUnreachable | GrpcUnreachable | TipStreamFailed | BirthdayBlockUnavailable | OriginUnavailable
    | RootsUnavailable | TipUnavailable | FeeUnavailable | BlockUnavailable

datatype manifest_fault =
    ManifestUnreadable | ManifestInvalid | NoAnchorTxid | NoBirthday | NoNetwork | NoSeedFingerprint
    | TxidNotHex | TxidNot32Bytes | NetworkMismatch | AnchorNotMined

datatype capsule_fault =
    CapsuleUnreadable | CapsuleMalformed | FingerprintInvalid | CapsuleMismatch | ReportUnreadable
    | ReportSymlink | ReportNotRegular | ReportWrongSize | ReportRefused | SealingKeyUnavailable
    | UnsealFailed | SeedMismatch | KeyDerivation

datatype sync_fault =
    WalletUnseeded | BirthdayBackfill | BirthdayMtp | ClockReborn | ClockBackfill | BadHeaderTime
    | BlockRefused | MtpUnavailable

datatype check_fault =
    CeremonyOpen | SummaryFailed | NoChainKnowledge | NoTreasuryAccount | TreasuryTooLow | NoPrice
    | OracleRefused | PresaleTable

datatype identity_fault =
    GenesisAttestation | GenesisUnwritable | ParamsSize | ParamsUnreadable | ParamsHash
    | ParamsMalformed | NoTreasuryAddress | UfvkEncoding | IdentityAttestation | IdentityRefused
    | IdentityUnwritable

datatype fatal =
    AtNode node_fault
  | AtManifest manifest_fault
  | AtCapsule capsule_fault
  | AtSync sync_fault
  | AtChecks check_fault
  | AtIdentity identity_fault

text \<open>\<open>Unanswered\<close>: the boot still waits; a loop that retries has used the answers it was given.\<close>

datatype halt = Fatal fatal | Unanswered

definition require :: "bool \<Rightarrow> fatal \<Rightarrow> halt + unit" where
  "require ok f = (if ok then Inr () else Inl (Fatal f))"

abbreviation expect :: "fatal \<Rightarrow> 'a option \<Rightarrow> halt + 'a" where
  "expect f \<equiv> ok_or (Fatal f)"

definition expect_ok :: "fatal \<Rightarrow> 'e + 'a \<Rightarrow> halt + 'a" where
  "expect_ok f = map_err (\<lambda>_. Fatal f)"

section \<open>Builds\<close>

text \<open>The network and whether the build has no TEE. \<open>regtest\<close> selects \<open>non-tee\<close>.\<close>

record build =
  bd_network :: network_type
  bd_non_tee :: bool

fun NETWORK_LABEL :: "network_type \<Rightarrow> string" where
  "NETWORK_LABEL MainNet = ''mainnet''"
| "NETWORK_LABEL TestNet = ''testnet''"
| "NETWORK_LABEL RegtestNet = ''regtest''"

section \<open>The custody manifest\<close>

text \<open>\<open>str::trim\<close>: the white space of Unicode, as its UTF-8 bytes.\<close>

definition WHITE_SPACE :: "string list" where
  "WHITE_SPACE =
     [[CHR 0x09], [CHR 0x0A], [CHR 0x0B], [CHR 0x0C], [CHR 0x0D], [CHR 0x20], [CHR 0xC2, CHR 0x85],
      [CHR 0xC2, CHR 0xA0], [CHR 0xE1, CHR 0x9A, CHR 0x80], [CHR 0xE2, CHR 0x80, CHR 0x80],
      [CHR 0xE2, CHR 0x80, CHR 0x81], [CHR 0xE2, CHR 0x80, CHR 0x82], [CHR 0xE2, CHR 0x80, CHR 0x83],
      [CHR 0xE2, CHR 0x80, CHR 0x84], [CHR 0xE2, CHR 0x80, CHR 0x85], [CHR 0xE2, CHR 0x80, CHR 0x86],
      [CHR 0xE2, CHR 0x80, CHR 0x87], [CHR 0xE2, CHR 0x80, CHR 0x88], [CHR 0xE2, CHR 0x80, CHR 0x89],
      [CHR 0xE2, CHR 0x80, CHR 0x8A], [CHR 0xE2, CHR 0x80, CHR 0xA8], [CHR 0xE2, CHR 0x80, CHR 0xA9],
      [CHR 0xE2, CHR 0x80, CHR 0xAF], [CHR 0xE2, CHR 0x81, CHR 0x9F], [CHR 0xE3, CHR 0x80, CHR 0x80]]"

fun strip_front :: "string list \<Rightarrow> nat \<Rightarrow> string \<Rightarrow> string" where
  "strip_front ws 0 s = s"
| "strip_front ws (Suc n) s =
     (case find (\<lambda>w. take (length w) s = w) ws of
        None \<Rightarrow> s
      | Some w \<Rightarrow> strip_front ws n (drop (length w) s))"

definition str_trim :: "string \<Rightarrow> string" where
  "str_trim s =
     (let front = strip_front WHITE_SPACE (length s) s
      in rev (strip_front (map rev WHITE_SPACE) (length front) (rev front)))"

record raw_anchor =
  ra_anchor_txid :: "string option"
  ra_birthday :: "nat option"
  ra_network :: "string option"
  ra_seed_fingerprint :: "string option"

text \<open>\<open>file_txid\<close> is a field of attested builds only.\<close>

record CeremonyAnchor =
  ca_network :: string
  ca_seed_fingerprint :: string
  ca_txid :: txid
  ca_file_txid :: "bytes option"
  ca_birthday :: nat

text \<open>What boot calls outside this crate: the TOML reader, the transaction id's hexadecimal form, the
  capsule, fingerprint, sealing and attestation functions, key derivation and encoding, the
  additions of the library's balances, and the proving-parameter reader.\<close>

record genesis_record =
  gr_version :: nat
  gr_network :: network_type
  gr_seed_fingerprint :: bytes
  gr_capsule_hash :: bytes
  gr_anchor_txid :: bytes
  gr_birthday :: nat

record ('cap, 'sk, 'seed) capsule_env =
  be_toml :: "string \<Rightarrow> raw_anchor option"
  be_txid_from_hex :: "string \<Rightarrow> txid option"
  be_txid_to_string :: "txid \<Rightarrow> string"
  be_parse_capsule :: "bytes \<Rightarrow> 'cap option"
  be_capsule_fingerprint :: "'cap \<Rightarrow> bytes"
  be_capsule_hash :: "bytes \<Rightarrow> bytes"
  be_fingerprint_from_str :: "string \<Rightarrow> bytes option"
  be_fingerprint_from_seed :: "'seed \<Rightarrow> bytes option"
  be_verify_report :: "bytes \<Rightarrow> bytes \<Rightarrow> bytes \<Rightarrow> bool"
  be_key_context :: bytes
  be_derive_sealing_key :: "bytes \<Rightarrow> 'sk option"
  be_dev_sealing_key :: "bytes \<Rightarrow> 'sk"
  be_unseal_seed :: "'sk \<Rightarrow> 'cap \<Rightarrow> 'seed option"

record ('cap, 'sk, 'seed, 'usk, 'k, 'ua, 'p) boot_env = "('cap, 'sk, 'seed) capsule_env" +
  be_purpose_key :: "'seed \<Rightarrow> derivation_key"
  be_usk_from_seed :: "'seed \<Rightarrow> account \<Rightarrow> 'usk option"
  be_fvk :: "'usk \<Rightarrow> 'k"
  be_default_address :: "'k \<Rightarrow> 'ua option"
  be_ufvk_encode :: "'k \<Rightarrow> string option"
  be_genesis_report_data :: "genesis_record \<Rightarrow> bytes"
  be_get_attestation :: "bytes \<Rightarrow> bytes option"
  be_stored :: "bytes \<Rightarrow> bytes \<Rightarrow> (bytes \<times> nat) option"
  be_totals :: "(account \<times> pool_type \<times> bucket \<times> zat) list \<Rightarrow> (account \<Rightarrow> pool_type \<Rightarrow> zat) option"
  be_read_params :: "bytes \<Rightarrow> 'p option"

definition ceremony_anchor ::
  "('ua, 'cm) zenv \<Rightarrow> ('cap, 'sk, 'seed, 'usk, 'k, 'ua, 'p) boot_env \<Rightarrow> build \<Rightarrow> string \<Rightarrow> halt + CeremonyAnchor" where
  "ceremony_anchor E B bd text =
     and_then (expect (AtManifest ManifestInvalid) (be_toml B text)) (\<lambda>raw.
     and_then (expect (AtManifest NoAnchorTxid)
         (case ra_anchor_txid raw of Some t \<Rightarrow> if str_trim t \<noteq> [] then Some t else None | None \<Rightarrow> None)) (\<lambda>txid_hex.
     and_then (expect (AtManifest NoBirthday) (ra_birthday raw)) (\<lambda>birthday.
     and_then (expect (AtManifest NoNetwork) (ra_network raw)) (\<lambda>network.
     and_then (expect (AtManifest NoSeedFingerprint) (ra_seed_fingerprint raw)) (\<lambda>seed_fingerprint.
     and_then
       (if bd_non_tee bd then Inr None
        else and_then (expect (AtManifest TxidNotHex) (hex_decode E (str_trim txid_hex))) (\<lambda>b.
          and_then (require (length b = 32) (AtManifest TxidNot32Bytes)) (\<lambda>_. Inr (Some b)))) (\<lambda>file_txid.
     and_then (expect (AtManifest TxidNotHex) (be_txid_from_hex B (str_trim txid_hex))) (\<lambda>txid.
     Inr \<lparr>ca_network = network, ca_seed_fingerprint = seed_fingerprint, ca_txid = txid, ca_file_txid = file_txid,
          ca_birthday = birthday\<rparr>)))))))"

definition load_ceremony_anchor ::
  "('ua, 'cm) zenv \<Rightarrow> ('cap, 'sk, 'seed, 'usk, 'k, 'ua, 'p) boot_env \<Rightarrow> build \<Rightarrow> string option \<Rightarrow> halt + CeremonyAnchor" where
  "load_ceremony_anchor E B bd manifest = and_then (expect (AtManifest ManifestUnreadable) manifest) (ceremony_anchor E B bd)"

definition require_ceremony_network :: "build \<Rightarrow> CeremonyAnchor \<Rightarrow> halt + unit" where
  "require_ceremony_network bd ceremony = require (ca_network ceremony = NETWORK_LABEL (bd_network bd)) (AtManifest NetworkMismatch)"

section \<open>The capsule and the keys\<close>

text \<open>A path as the open of the keygen report finds it.\<close>

datatype file_node = NoFile | Symlink | NotRegular | Regular bytes

definition ATTESTATION_REPORT_LEN :: nat where
  "ATTESTATION_REPORT_LEN = 1184"

fun read_attestation_report :: "file_node \<Rightarrow> halt + bytes" where
  "read_attestation_report NoFile = Inl (Fatal (AtCapsule ReportUnreadable))"
| "read_attestation_report Symlink = Inl (Fatal (AtCapsule ReportSymlink))"
| "read_attestation_report NotRegular = Inl (Fatal (AtCapsule ReportNotRegular))"
| "read_attestation_report (Regular b) =
     (if length b \<noteq> ATTESTATION_REPORT_LEN then Inl (Fatal (AtCapsule ReportWrongSize)) else Inr b)"

definition require_keygen_attestation ::
  "('cap, 'sk, 'seed, 'usk, 'k, 'ua, 'p) boot_env \<Rightarrow> file_node \<Rightarrow> bytes \<Rightarrow> bytes \<Rightarrow> halt + unit" where
  "require_keygen_attestation B node capsule_bytes fingerprint =
     and_then (read_attestation_report node) (\<lambda>report.
       require (be_verify_report B capsule_bytes fingerprint report) (AtCapsule ReportRefused))"

definition sealing_key ::
  "('cap, 'sk, 'seed, 'usk, 'k, 'ua, 'p) boot_env \<Rightarrow> build \<Rightarrow> bytes \<Rightarrow> 'sk option" where
  "sealing_key B bd context =
     (if bd_non_tee bd then Some (be_dev_sealing_key B context) else be_derive_sealing_key B context)"

definition verify_fingerprint ::
  "('cap, 'sk, 'seed, 'usk, 'k, 'ua, 'p) boot_env \<Rightarrow> 'seed \<Rightarrow> string \<Rightarrow> halt + unit" where
  "verify_fingerprint B seed expected =
     and_then (expect (AtCapsule SeedMismatch) (be_fingerprint_from_seed B seed)) (\<lambda>actual.
     and_then (expect (AtCapsule FingerprintInvalid) (be_fingerprint_from_str B expected)) (\<lambda>expected_fp.
     require (actual = expected_fp) (AtCapsule SeedMismatch)))"

text \<open>\<open>AccountKeys\<close>: the phantom account type is the account the keys were derived for.\<close>

record 'usk account_keys =
  ak_account :: account
  ak_spending :: 'usk

definition keys_derive ::
  "('cap, 'sk, 'seed, 'usk, 'k, 'ua, 'p) boot_env \<Rightarrow> account \<Rightarrow> 'seed \<Rightarrow> halt + 'usk account_keys" where
  "keys_derive B a seed =
     and_then (expect (AtCapsule KeyDerivation) (be_usk_from_seed B seed a)) (\<lambda>usk. Inr \<lparr>ak_account = a, ak_spending = usk\<rparr>)"

definition keys_fvk :: "('cap, 'sk, 'seed, 'usk, 'k, 'ua, 'p) boot_env \<Rightarrow> 'usk account_keys \<Rightarrow> 'k" where
  "keys_fvk B keys = be_fvk B (ak_spending keys)"

record 'usk secrets =
  sx_treasury :: "'usk account_keys"
  sx_registry :: "'usk account_keys"
  sx_fingerprint :: bytes
  sx_capsule_hash :: bytes
  sx_access_code_key :: derivation_key

text \<open>The block of \<open>start\<close> in which the seed lives.\<close>

definition seed_intake ::
  "('cap, 'sk, 'seed, 'usk, 'k, 'ua, 'p) boot_env \<Rightarrow> build \<Rightarrow> bytes option \<Rightarrow> file_node \<Rightarrow> CeremonyAnchor \<Rightarrow> halt + 'usk secrets" where
  "seed_intake B bd capsule_file report ceremony =
     and_then (expect (AtCapsule CapsuleUnreadable) capsule_file) (\<lambda>blob.
     and_then (expect (AtCapsule CapsuleMalformed) (be_parse_capsule B blob)) (\<lambda>capsule.
     and_then (expect (AtCapsule FingerprintInvalid) (be_fingerprint_from_str B (str_trim (ca_seed_fingerprint ceremony)))) (\<lambda>expected.
     and_then (require (expected = be_capsule_fingerprint B capsule) (AtCapsule CapsuleMismatch)) (\<lambda>_.
     and_then (if bd_non_tee bd then Inr () else require_keygen_attestation B report blob expected) (\<lambda>_.
     and_then (expect (AtCapsule SealingKeyUnavailable) (sealing_key B bd (be_key_context B))) (\<lambda>capsule_key.
     and_then (expect (AtCapsule UnsealFailed) (be_unseal_seed B capsule_key capsule)) (\<lambda>seed.
     and_then (verify_fingerprint B seed (str_trim (ca_seed_fingerprint ceremony))) (\<lambda>_.
     and_then (keys_derive B TREASURY_ACCOUNT seed) (\<lambda>treasury.
     and_then (keys_derive B REGISTRY_ACCOUNT seed) (\<lambda>registry.
     Inr \<lparr>sx_treasury = treasury, sx_registry = registry, sx_fingerprint = be_capsule_fingerprint B capsule,
          sx_capsule_hash = be_capsule_hash B blob, sx_access_code_key = be_purpose_key B seed\<rparr>))))))))))"

section \<open>The node\<close>

text \<open>What the node answered: the liveness calls, blocks, tree states, subtree roots, header times,
  the tip, and the fee. A header time is what the call's own retries end with.\<close>

record ('cm, 'cmx, 'h, 'f) boot_node =
  bn_info :: "transport_error + blockchain_info"
  bn_connect :: bool
  bn_stream :: bool
  bn_block :: "height \<Rightarrow> transport_error + ('cm, 'cmx) full_block"
  bn_treestate :: "height \<Rightarrow> transport_error + ('f, 'f) chain_state"
  bn_sapling_roots :: "transport_error + (height \<times> 'h) list"
  bn_ironwood_roots :: "transport_error + (height \<times> 'h) list"
  bn_time :: "height \<Rightarrow> transport_error + nat"
  bn_exact_tip :: "transport_error + (height \<times> bytes)"
  bn_standard_fee :: "transport_error + zat"

definition connect_zebra :: "('cm, 'cmx, 'h, 'f) boot_node \<Rightarrow> halt + unit" where
  "connect_zebra N =
     and_then (expect_ok (AtNode ZebraUnreachable) (bn_info N)) (\<lambda>_.
     and_then (require (bn_connect N) (AtNode GrpcUnreachable)) (\<lambda>_.
     require (bn_stream N) (AtNode TipStreamFailed)))"

definition require_anchor_on_chain :: "(height \<Rightarrow> transport_error + ('cm, 'cmx) full_block) \<Rightarrow> height \<Rightarrow> txid \<Rightarrow> halt + unit" where
  "require_anchor_on_chain fetch_block birthday anchor =
     and_then (expect_ok (AtNode BirthdayBlockUnavailable) (fetch_block birthday)) (\<lambda>(block, _).
     require (list_ex (\<lambda>tx. bx_txid tx = anchor) (blk_vtx block)) (AtManifest AnchorNotMined))"

text \<open>The subtraction of a \<open>BlockHeight\<close> saturates at zero.\<close>

definition origin_checkpoint ::
  "build \<Rightarrow> height \<Rightarrow> (height \<Rightarrow> transport_error + ('f, 'f) chain_state) \<Rightarrow> halt + ('f, 'f) chain_state" where
  "origin_checkpoint bd birthday treestate =
     expect_ok (AtNode OriginUnavailable) (treestate (if bd_network bd = RegtestNet then birthday - 1 else birthday - 101))"

definition boot_wallet ::
  "('cap, 'sk, 'seed, 'usk, 'k, 'ua, 'p) boot_env \<Rightarrow> ('t, 'h, 'f) tree_ops \<Rightarrow> build \<Rightarrow> ('cm, 'cmx, 'h, 'f) boot_node \<Rightarrow> height \<Rightarrow>
     'usk secrets \<Rightarrow> halt + (height \<times> ('t, 'n, 'k) wallet)" where
  "boot_wallet B T bd N birthday sx =
     and_then (origin_checkpoint bd birthday (bn_treestate N)) (\<lambda>origin.
     and_then (expect_ok (AtNode RootsUnavailable) (bn_sapling_roots N)) (\<lambda>sapling_roots.
     and_then (expect_ok (AtNode RootsUnavailable) (bn_ironwood_roots N)) (\<lambda>ironwood_roots.
     and_then (expect (AtSync WalletUnseeded) (wallet_new T
         [(TREASURY_ACCOUNT, keys_fvk B (sx_treasury sx)), (REGISTRY_ACCOUNT, keys_fvk B (sx_registry sx))]
         origin sapling_roots ironwood_roots)) (\<lambda>res.
     and_then (expect_ok (AtSync WalletUnseeded) res) (\<lambda>w. Inr (cs_height origin, w))))))"

section \<open>The clock\<close>

definition backfilled :: "fatal \<Rightarrow> height \<Rightarrow> (height \<Rightarrow> transport_error + nat) \<Rightarrow> mtp_tracker \<Rightarrow> halt + mtp_tracker" where
  "backfilled f till get_time t =
     (case mtp_backfill till get_time t of (Inr _, t') \<Rightarrow> Inr t' | (Inl _, _) \<Rightarrow> Inl (Fatal f))"

text \<open>The birthday block's median locks day zero; the loop's window ends at the checkpoint.\<close>

definition boot_clock ::
  "('ua, 'cm) zenv \<Rightarrow> (height \<Rightarrow> transport_error + nat) \<Rightarrow> height \<Rightarrow> height \<Rightarrow> timestamp option \<Rightarrow>
     halt + (timestamp option \<times> mtp_tracker)" where
  "boot_clock E get_time birthday checkpoint lock =
     and_then (backfilled (AtSync BirthdayBackfill) birthday get_time mtp_default) (\<lambda>throwaway.
     and_then (expect (AtSync BirthdayMtp) (Option.bind (mtp_current E throwaway) id)) (\<lambda>birthday_mtp.
     and_then (expect (AtSync ClockReborn) (mtp_born birthday_mtp lock)) (\<lambda>(lock', t).
     and_then (backfilled (AtSync ClockBackfill) checkpoint get_time t) (\<lambda>clock.
     Inr (lock', clock)))))"

section \<open>The sync\<close>

type_synonym ('t, 'n, 'k, 'ua, 'cm) scanned =
  "('t, 'n, 'k) wallet \<times> ('ua, 'cm) registry \<times> mtp_tracker \<times> ('ua, 'cm) market"

text \<open>An arrival of history: market answers and intents are followed, nothing is sent or queued.\<close>

definition boot_arrive ::
  "('ua, 'cm) zenv \<Rightarrow> derivation_key \<Rightarrow> zat \<Rightarrow> height \<Rightarrow> timestamp \<Rightarrow> txid \<times> 'ua mint_inbound \<times> zat \<Rightarrow>
     ('ua, 'cm) market \<times> ('ua, 'cm) registry \<Rightarrow> (('ua, 'cm) market \<times> ('ua, 'cm) registry) may_panic" where
  "boot_arrive E key fee h mtp = (\<lambda>(txid, inbound, paid) (m, r).
     (case inbound of
        InResponse response \<Rightarrow>
          if is_list (om_action response) \<or> is_delist (om_action response) \<or> is_auction (om_action response)
          then map_option snd (market_answer E response h (m, r)) else Some (m, r)
      | InMarket request \<Rightarrow>
          map_option (\<lambda>(_, m'). (m', r)) (market_admit E key txid request paid r fee h mtp (\<lambda>_. False) m)
      | _ \<Rightarrow> Some (m, r)))"

definition boot_sync_block ::
  "('ua, 'cm) zenv \<Rightarrow> ('t, 'h, 'f) tree_ops \<Rightarrow> ('t, 'h, 'n, 'k, 'ua, 'cm, 'cmx) scanner \<Rightarrow> derivation_key \<Rightarrow> height \<Rightarrow> zat \<Rightarrow>
     (height \<Rightarrow> transport_error + ('cm, 'cmx) full_block) \<Rightarrow> ('t, 'n, 'k, 'ua, 'cm) scanned \<Rightarrow>
     halt + ('t, 'n, 'k, 'ua, 'cm) scanned" where
  "boot_sync_block E T S key birthday fee fetch_block = (\<lambda>(w, r, clock, m).
     let next = bm_height (wallet_tip w) + 1 in
     and_then (expect_ok (AtNode BlockUnavailable) (fetch_block next)) (\<lambda>(b, outs).
     and_then (require (header_time_ok E clock (blk_time b) = Some (Inr ())) (AtSync BadHeaderTime)) (\<lambda>_.
     and_then (expect (AtSync BlockRefused) (apply_block E (mint_wallet E T S) birthday b next (w, r, clock))) (\<lambda>(inbound, w', r1, clock').
     and_then (expect (AtSync MtpUnavailable) (Option.bind (mtp_current E clock') id)) (\<lambda>mtp.
     and_then (expect (AtSync BlockRefused) (each (boot_arrive E key fee next mtp) inbound
         (market_reconcile next (market_expire mtp next (m, r1))))) (\<lambda>(m2, r2).
     Inr (w', r2, clock',
       market_observe E (\<lambda>n. map_option nr_ua (record_of r2 n)) (transparent_payments outs) mtp next m2)))))))"

fun boot_sync ::
  "('ua, 'cm) zenv \<Rightarrow> ('t, 'h, 'f) tree_ops \<Rightarrow> ('t, 'h, 'n, 'k, 'ua, 'cm, 'cmx) scanner \<Rightarrow> derivation_key \<Rightarrow> height \<Rightarrow> zat \<Rightarrow>
     (height \<Rightarrow> transport_error + ('cm, 'cmx) full_block) \<Rightarrow> height \<Rightarrow> nat \<Rightarrow> ('t, 'n, 'k, 'ua, 'cm) scanned \<Rightarrow>
     halt + ('t, 'n, 'k, 'ua, 'cm) scanned" where
  "boot_sync E T S key birthday fee fetch_block best 0 x =
     (if bm_height (wallet_tip (fst x)) < best then Inl Unanswered else Inr x)"
| "boot_sync E T S key birthday fee fetch_block best (Suc fuel) x =
     (if bm_height (wallet_tip (fst x)) < best
      then and_then (boot_sync_block E T S key birthday fee fetch_block x) (boot_sync E T S key birthday fee fetch_block best fuel)
      else Inr x)"

section \<open>The checks after the sync\<close>

definition require_established_ceremony :: "('ua, 'cm) registry \<Rightarrow> halt + unit" where
  "require_established_ceremony r = require (anchor_adoption_closed r) (AtChecks CeremonyOpen)"

definition MIN_TREASURY_BALANCE :: nat where
  "MIN_TREASURY_BALANCE = 200000"

text \<open>\<open>get_wallet_summary\<close> returns \<open>Ok(None)\<close> before it adds anything up, so its failure is met only with
  chain knowledge: the two refusals exclude each other.\<close>

definition treasury_balance ::
  "('cap, 'sk, 'seed, 'usk, 'k, 'ua, 'p) boot_env \<Rightarrow> ('t, 'n, 'k) wallet \<Rightarrow> halt + zat" where
  "treasury_balance B w =
     and_then (expect (AtChecks NoChainKnowledge) (summary_target w)) (\<lambda>target.
     and_then (expect (AtChecks SummaryFailed) (be_totals B (summary_entries w target CONFIRMATIONS))) (\<lambda>totals.
     and_then (require (bt_has (w_ufvks w) TREASURY_ACCOUNT) (AtChecks NoTreasuryAccount)) (\<lambda>_.
     Inr (totals TREASURY_ACCOUNT PoolIronwood))))"

definition require_treasury_balance ::
  "('cap, 'sk, 'seed, 'usk, 'k, 'ua, 'p) boot_env \<Rightarrow> ('t, 'n, 'k) wallet \<Rightarrow> halt + unit" where
  "require_treasury_balance B w =
     and_then (treasury_balance B w) (\<lambda>balance. require (balance \<ge> MIN_TREASURY_BALANCE) (AtChecks TreasuryTooLow))"

definition boot_oracle ::
  "('ua, 'cm) zenv \<Rightarrow> 'd::linorder dec_env \<Rightarrow> timestamp option \<Rightarrow> mtp_tracker \<Rightarrow> (string \<times> 'd option) list \<Rightarrow> halt + 'd price_oracle" where
  "boot_oracle E D lock clock responses =
     and_then (expect (AtSync MtpUnavailable) (Option.bind (mtp_current E clock) id)) (\<lambda>mtp_now.
     and_then (expect (AtSync MtpUnavailable) (Option.bind (mtp_current_day E lock clock) id)) (\<lambda>today.
     and_then (expect (AtChecks NoPrice) (Option.bind (fetch_round D responses) id)) (\<lambda>price.
     expect (AtChecks OracleRefused) (oracle_new E D price today mtp_now))))"

text \<open>The pre-sale loop: each read in turn until one lands.\<close>

fun boot_presale :: "(protected_row list \<times> nat \<times> nat option) option list \<Rightarrow> halt + protected_names" where
  "boot_presale [] = Inl Unanswered"
| "boot_presale (read # reads) =
     (case fetch read of
        None \<Rightarrow> Inl (Fatal (AtChecks PresaleTable))
      | Some (Inr names) \<Rightarrow> Inr names
      | Some (Inl _) \<Rightarrow> boot_presale reads)"

section \<open>Proving parameters\<close>

definition SAPLING_SPEND_HASH :: string where
  "SAPLING_SPEND_HASH = ''8270785a1a0d0bc77196f000ee6d221c9c9894f55307bd9357c3f0105d31ca63991ab91324160d8f53e2bbd3c2633a6eb8bdf5205d822e7f3f73edac51b2b70c''"

definition SAPLING_OUTPUT_HASH :: string where
  "SAPLING_OUTPUT_HASH = ''657e3d38dbb5cb5e7dd2970e8b03d69b4787dd907285b5a7f0790dcc8072f60bf593b32cc2d1c030e00ff5ae64bf84c5c3beb84ddc841d48264b4a171744d028''"

definition SAPLING_SPEND_BYTES :: nat where
  "SAPLING_SPEND_BYTES = 47958396"

definition SAPLING_OUTPUT_BYTES :: nat where
  "SAPLING_OUTPUT_BYTES = 3592860"

text \<open>How a \<open>std::fs::write\<close> ends: the whole file, an error that leaves part of it, or an error before
  the file was touched.\<close>

datatype write_end = Written | Torn | Refused

text \<open>The process and its files: two environment variables, what \<open>metadata\<close> says of a path's length and
  what a read of it yields, the manifest, the capsule, the keygen report, how a write of a path ends,
  the exchanges' responses and the pre-sale reads.\<close>

record 'd boot_world =
  bw_params_dir :: "string option"
  bw_home :: "string option"
  bw_stat :: "string \<Rightarrow> nat option"
  bw_read :: "string \<Rightarrow> bytes option"
  bw_manifest :: "string option"
  bw_capsule :: "bytes option"
  bw_report :: file_node
  bw_write :: "string \<Rightarrow> write_end"
  bw_round :: "(string \<times> 'd option) list"
  bw_presale :: "(protected_row list \<times> nat \<times> nat option) option list"

text \<open>\<open>Path::join\<close> with a relative file name.\<close>

definition path_join :: "string \<Rightarrow> string \<Rightarrow> string" where
  "path_join dir file = (if dir = [] \<or> last dir = CHR ''/'' then dir @ file else dir @ ''/'' @ file)"

definition sapling_params_dir :: "'d boot_world \<Rightarrow> string" where
  "sapling_params_dir W =
     (case bw_params_dir W of
        Some dir \<Rightarrow> dir
      | None \<Rightarrow> path_join (case bw_home W of Some home \<Rightarrow> home | None \<Rightarrow> ''/root'') ''.zcash-params'')"

definition read_verified_sapling_params ::
  "('ua, 'cm) zenv \<Rightarrow> 'd boot_world \<Rightarrow> string \<Rightarrow> string \<Rightarrow> nat \<Rightarrow> halt + bytes" where
  "read_verified_sapling_params E W path expected_hash expected_bytes =
     and_then (require ((case bw_stat W path of Some n \<Rightarrow> n | None \<Rightarrow> 0) = expected_bytes) (AtIdentity ParamsSize)) (\<lambda>_.
     and_then (expect (AtIdentity ParamsUnreadable) (bw_read W path)) (\<lambda>bytes.
     and_then (require (hex_encode E (blake2b512 E bytes) = expected_hash) (AtIdentity ParamsHash)) (\<lambda>_.
     Inr bytes)))"

definition load_sapling_spend_params ::
  "('ua, 'cm) zenv \<Rightarrow> ('cap, 'sk, 'seed, 'usk, 'k, 'ua, 'p) boot_env \<Rightarrow> 'd boot_world \<Rightarrow> halt + 'p" where
  "load_sapling_spend_params E B W =
     and_then (read_verified_sapling_params E W (path_join (sapling_params_dir W) ''sapling-spend.params'')
       SAPLING_SPEND_HASH SAPLING_SPEND_BYTES) (\<lambda>bytes. expect (AtIdentity ParamsMalformed) (be_read_params B bytes))"

definition load_sapling_output_params ::
  "('ua, 'cm) zenv \<Rightarrow> ('cap, 'sk, 'seed, 'usk, 'k, 'ua, 'p) boot_env \<Rightarrow> 'd boot_world \<Rightarrow> halt + 'p" where
  "load_sapling_output_params E B W =
     and_then (read_verified_sapling_params E W (path_join (sapling_params_dir W) ''sapling-output.params'')
       SAPLING_OUTPUT_HASH SAPLING_OUTPUT_BYTES) (\<lambda>bytes. expect (AtIdentity ParamsMalformed) (be_read_params B bytes))"

section \<open>The documents\<close>

text \<open>A JSON object as its fields; its bytes are the serializer's.\<close>

datatype json = JStr string | JNum nat | JNull

type_synonym document = "string \<times> (string \<times> json) list"

text \<open>What a write leaves at a path: the document, or a part of it.\<close>

datatype file_write = Whole document | Partial string

definition IDENTITY_DOC_FILE :: string where
  "IDENTITY_DOC_FILE = ''zns_mint_identity.json''"

definition GENESIS_RECORD_FILE :: string where
  "GENESIS_RECORD_FILE = ''zns_genesis_record.json''"

definition genesis_network :: "build \<Rightarrow> network_type" where
  "genesis_network bd = (if bd_network bd = TestNet then TestNet else MainNet)"

definition make_genesis_record :: "network_type \<Rightarrow> bytes \<Rightarrow> bytes \<Rightarrow> CeremonyAnchor \<Rightarrow> genesis_record" where
  "make_genesis_record network fingerprint capsule_hash anchor =
     \<lparr>gr_version = 1, gr_network = network, gr_seed_fingerprint = fingerprint, gr_capsule_hash = capsule_hash,
      gr_anchor_txid = (case ca_file_txid anchor of Some b \<Rightarrow> b | None \<Rightarrow> []), gr_birthday = ca_birthday anchor\<rparr>"

definition genesis_document ::
  "('ua, 'cm) zenv \<Rightarrow> ('cap, 'sk, 'seed, 'usk, 'k, 'ua, 'p) boot_env \<Rightarrow> build \<Rightarrow> genesis_record \<Rightarrow> CeremonyAnchor \<Rightarrow> bytes \<Rightarrow>
     (string \<times> json) list" where
  "genesis_document E B bd rec anchor report =
     [(''version'', JNum (gr_version rec)), (''network'', JStr (NETWORK_LABEL (bd_network bd))),
      (''seed_fingerprint'', JStr (hex_encode E (gr_seed_fingerprint rec))),
      (''capsule_hash'', JStr (hex_encode E (gr_capsule_hash rec))),
      (''anchor_txid'', JStr (be_txid_to_string B (ca_txid anchor))), (''birthday'', JNum (gr_birthday rec)),
      (''report'', JStr (hex_encode E report))]"

definition write_file :: "'d boot_world \<Rightarrow> fatal \<Rightarrow> document \<Rightarrow> file_write list \<times> (halt + unit)" where
  "write_file W f doc =
     (case bw_write W (fst doc) of
        Written \<Rightarrow> ([Whole doc], Inr ())
      | Torn \<Rightarrow> ([Partial (fst doc)], Inl (Fatal f))
      | Refused \<Rightarrow> ([], Inl (Fatal f)))"

text \<open>Steps that write: what they wrote, and how they ended.\<close>

definition quietly :: "halt + 'a \<Rightarrow> file_write list \<times> (halt + 'a)" where
  "quietly res = ([], res)"

definition then_go :: "file_write list \<times> (halt + 'a) \<Rightarrow> ('a \<Rightarrow> file_write list \<times> (halt + 'b)) \<Rightarrow> file_write list \<times> (halt + 'b)" where
  "then_go p k = (case p of (docs, Inl e) \<Rightarrow> (docs, Inl e) | (docs, Inr a) \<Rightarrow> (case k a of (docs', res) \<Rightarrow> (docs @ docs', res)))"

definition write_genesis_statement ::
  "('ua, 'cm) zenv \<Rightarrow> ('cap, 'sk, 'seed, 'usk, 'k, 'ua, 'p) boot_env \<Rightarrow> build \<Rightarrow> 'd boot_world \<Rightarrow> bytes \<Rightarrow> bytes \<Rightarrow> CeremonyAnchor \<Rightarrow>
     file_write list \<times> (halt + unit)" where
  "write_genesis_statement E B bd W capsule_hash fingerprint anchor =
     (let rec = make_genesis_record (genesis_network bd) fingerprint capsule_hash anchor in
      then_go (quietly (expect (AtIdentity GenesisAttestation) (be_get_attestation B (be_genesis_report_data B rec)))) (\<lambda>attestation.
        write_file W (AtIdentity GenesisUnwritable) (GENESIS_RECORD_FILE, genesis_document E B bd rec anchor attestation)))"

definition mint_identity ::
  "('ua, 'cm) zenv \<Rightarrow> ('cap, 'sk, 'seed, 'usk, 'k, 'ua, 'p) boot_env \<Rightarrow> 'usk account_keys \<Rightarrow> 'usk account_keys \<Rightarrow>
     halt + (string \<times> string)" where
  "mint_identity E B treasury_keys registry_keys =
     and_then (expect (AtIdentity NoTreasuryAddress) (be_default_address B (keys_fvk B treasury_keys))) (\<lambda>treasury_addr.
     and_then (expect (AtIdentity UfvkEncoding) (be_ufvk_encode B (keys_fvk B registry_keys))) (\<lambda>ufvk.
     Inr (ua_encode E treasury_addr, ufvk)))"

definition identity_report_data :: "('ua, 'cm) zenv \<Rightarrow> string \<Rightarrow> string \<Rightarrow> bytes" where
  "identity_report_data E treasury_ua registry_ufvk = blake2b512 E (treasury_ua @ ''||'' @ registry_ufvk)"

definition identity_document :: "('ua, 'cm) zenv \<Rightarrow> string \<Rightarrow> string \<Rightarrow> string \<Rightarrow> bytes \<Rightarrow> (string \<times> json) list" where
  "identity_document E network treasury_ua registry_ufvk report =
     [(''network'', JStr network), (''mode'', JStr ''hardware''), (''treasury_ua'', JStr treasury_ua),
      (''registry_ufvk'', JStr registry_ufvk), (''report'', JStr (hex_encode E report))]"

definition dev_identity_document :: "string \<Rightarrow> string \<Rightarrow> string \<Rightarrow> (string \<times> json) list" where
  "dev_identity_document network treasury_ua registry_ufvk =
     [(''network'', JStr network), (''mode'', JStr ''dev''), (''treasury_ua'', JStr treasury_ua),
      (''registry_ufvk'', JStr registry_ufvk), (''report'', JNull)]"

text \<open>\<open>format!("{:x}")\<close>, and \<open>GuestInfo\<close>: the measurement and the policy as text.\<close>

fun hex_digits :: "nat \<Rightarrow> string" where
  "hex_digits n =
     (if n < 16 then [''0123456789abcdef'' ! n] else hex_digits (n div 16) @ [''0123456789abcdef'' ! (n mod 16)])"

declare hex_digits.simps [simp del]

record GuestInfo =
  gi_measurement :: string
  gi_guest_policy :: string

definition guest_info :: "('ua, 'cm) zenv \<Rightarrow> bytes \<times> nat \<Rightarrow> GuestInfo" where
  "guest_info E = (\<lambda>(measurement, guest_policy).
     \<lparr>gi_measurement = hex_encode E measurement, gi_guest_policy = ''0x'' @ hex_digits guest_policy\<rparr>)"

definition publish_identity ::
  "('ua, 'cm) zenv \<Rightarrow> ('cap, 'sk, 'seed, 'usk, 'k, 'ua, 'p) boot_env \<Rightarrow> build \<Rightarrow> 'd boot_world \<Rightarrow> string \<Rightarrow> string \<Rightarrow>
     file_write list \<times> (halt + GuestInfo option)" where
  "publish_identity E B bd W treasury_address registry_ufvk =
     (let network = NETWORK_LABEL (bd_network bd) in
      if bd_non_tee bd
      then then_go (write_file W (AtIdentity IdentityUnwritable)
          (IDENTITY_DOC_FILE, dev_identity_document network treasury_address registry_ufvk)) (\<lambda>_. quietly (Inr None))
      else (let report_data = identity_report_data E treasury_address registry_ufvk in
        then_go (quietly (expect (AtIdentity IdentityAttestation) (be_get_attestation B report_data))) (\<lambda>attestation.
        then_go (quietly (expect (AtIdentity IdentityRefused) (be_stored B attestation report_data))) (\<lambda>parsed.
        then_go (write_file W (AtIdentity IdentityUnwritable)
          (IDENTITY_DOC_FILE, identity_document E network treasury_address registry_ufvk attestation)) (\<lambda>_.
        quietly (Inr (Some (guest_info E parsed))))))))"

section \<open>The boot\<close>

text \<open>\<open>Boot\<close>, less the node handles, which have no state of their own here; \<open>b_lock\<close> is the clock's
  birthday. The struct is declared in three steps, each extending the one before.\<close>

record ('t, 'n, 'k, 'usk, 'p) boot_assets =
  b_birthday :: height
  b_wallet :: "('t, 'n, 'k) wallet"
  b_treasury_keys :: "'usk account_keys"
  b_registry_keys :: "'usk account_keys"
  b_sapling_spend :: 'p
  b_sapling_output :: 'p

record ('t, 'n, 'k, 'd, 'ua, 'usk, 'p) boot_clocks = "('t, 'n, 'k, 'usk, 'p) boot_assets" +
  b_lock :: "timestamp option"
  b_mtp :: mtp_tracker
  b_oracle :: "'d price_oracle"
  b_challenges :: "'ua otp_queue"
  b_access_code_key :: derivation_key
  b_protected_names :: protected_names
  b_fee_rule :: zat

record ('t, 'n, 'k, 'ua, 'cm, 'd, 'usk, 'p) boot = "('t, 'n, 'k, 'd, 'ua, 'usk, 'p) boot_clocks" +
  b_registry :: "('ua, 'cm) registry"
  b_name_notes :: "('ua, 'cm) name_note_queue"
  b_requests :: "'ua request_queue"
  b_refunds :: "'ua refund_queue"
  b_market :: "('ua, 'cm) market"
  b_treasury_address :: string
  b_registry_ufvk :: string
  b_seed_fingerprint :: string
  b_capsule_hash :: string
  b_guest :: "GuestInfo option"

text \<open>Steps 1 to 2b: the node is alive, the manifest names this network, the seed is the one it names,
  and the anchor is on the chain.\<close>

definition boot_ceremony ::
  "('ua, 'cm) zenv \<Rightarrow> ('cap, 'sk, 'seed, 'usk, 'k, 'ua, 'p) boot_env \<Rightarrow> build \<Rightarrow> 'd boot_world \<Rightarrow> ('cm, 'cmx, 'h, 'f) boot_node \<Rightarrow>
     halt + (CeremonyAnchor \<times> 'usk secrets)" where
  "boot_ceremony E B bd W N =
     and_then (connect_zebra N) (\<lambda>_.
     and_then (load_ceremony_anchor E B bd (bw_manifest W)) (\<lambda>ceremony.
     and_then (require_ceremony_network bd ceremony) (\<lambda>_.
     and_then (seed_intake B bd (bw_capsule W) (bw_report W) ceremony) (\<lambda>sx.
     and_then (require_anchor_on_chain (bn_block N) (ca_birthday ceremony) (ca_txid ceremony)) (\<lambda>_.
     Inr (ceremony, sx))))))"

text \<open>Steps 3 and 4: a wallet from the origin, the clock, and every block up to the node's tip.\<close>

definition boot_scan ::
  "('ua, 'cm) zenv \<Rightarrow> ('cap, 'sk, 'seed, 'usk, 'k, 'ua, 'p) boot_env \<Rightarrow> ('t, 'h, 'f) tree_ops \<Rightarrow>
     ('t, 'h, 'n, 'k, 'ua, 'cm, 'cmx) scanner \<Rightarrow> build \<Rightarrow> ('cm, 'cmx, 'h, 'f) boot_node \<Rightarrow> height \<Rightarrow> 'usk secrets \<Rightarrow>
     halt + (timestamp option \<times> zat \<times> ('t, 'n, 'k, 'ua, 'cm) scanned)" where
  "boot_scan E B T S bd N birthday sx =
     and_then (boot_wallet B T bd N birthday sx) (\<lambda>(checkpoint, w0).
     and_then (boot_clock E (bn_time N) birthday checkpoint None) (\<lambda>(lock, clock).
     and_then (expect_ok (AtNode TipUnavailable) (bn_exact_tip N)) (\<lambda>(best, _).
     and_then (expect_ok (AtNode FeeUnavailable) (bn_standard_fee N)) (\<lambda>fee.
     and_then (boot_sync E T S (sx_access_code_key sx) birthday fee (bn_block N) best (best - bm_height (wallet_tip w0))
         (w0, registry_new, clock, market_new)) (\<lambda>(w, r, clock', m).
     Inr (lock, fee, w, r, clock', seal_replayed_buys m))))))"

text \<open>Steps 5 to 7, and the identity of step 8.\<close>

definition boot_faculties ::
  "('ua, 'cm) zenv \<Rightarrow> 'd::linorder dec_env \<Rightarrow> ('cap, 'sk, 'seed, 'usk, 'k, 'ua, 'p) boot_env \<Rightarrow> 'd boot_world \<Rightarrow> CeremonyAnchor \<Rightarrow>
     'usk secrets \<Rightarrow> timestamp option \<times> zat \<times> ('t, 'n, 'k, 'ua, 'cm) scanned \<Rightarrow>
     halt + ('t, 'n, 'k, 'ua, 'cm, 'd, 'usk, 'p) boot" where
  "boot_faculties E D B W ceremony sx = (\<lambda>(lock, fee, w, r, clock, m).
     and_then (require_established_ceremony r) (\<lambda>_.
     and_then (require_treasury_balance B w) (\<lambda>_.
     and_then (boot_oracle E D lock clock (bw_round W)) (\<lambda>ora.
     and_then (boot_presale (bw_presale W)) (\<lambda>names.
     and_then (load_sapling_spend_params E B W) (\<lambda>spend.
     and_then (load_sapling_output_params E B W) (\<lambda>output.
     and_then (mint_identity E B (sx_treasury sx) (sx_registry sx)) (\<lambda>(treasury_address, registry_ufvk).
     Inr \<lparr>b_birthday = ca_birthday ceremony, b_wallet = w, b_treasury_keys = sx_treasury sx, b_registry_keys = sx_registry sx,
          b_sapling_spend = spend, b_sapling_output = output, b_lock = lock, b_mtp = clock, b_oracle = ora,
          b_challenges = otp_new, b_access_code_key = sx_access_code_key sx, b_protected_names = names, b_fee_rule = fee,
          b_registry = r, b_name_notes = nnq_default, b_requests = requests_default, b_refunds = refunds_default, b_market = m,
          b_treasury_address = treasury_address, b_registry_ufvk = registry_ufvk,
          b_seed_fingerprint = hex_encode E (sx_fingerprint sx), b_capsule_hash = hex_encode E (sx_capsule_hash sx),
          b_guest = None\<rparr>))))))))"

definition boot_start ::
  "('ua, 'cm) zenv \<Rightarrow> 'd::linorder dec_env \<Rightarrow> ('cap, 'sk, 'seed, 'usk, 'k, 'ua, 'p) boot_env \<Rightarrow> ('t, 'h, 'f) tree_ops \<Rightarrow>
     ('t, 'h, 'n, 'k, 'ua, 'cm, 'cmx) scanner \<Rightarrow> build \<Rightarrow> 'd boot_world \<Rightarrow> ('cm, 'cmx, 'h, 'f) boot_node \<Rightarrow>
     file_write list \<times> (halt + ('t, 'n, 'k, 'ua, 'cm, 'd, 'usk, 'p) boot)" where
  "boot_start E D B T S bd W N =
     then_go (quietly (boot_ceremony E B bd W N)) (\<lambda>(ceremony, sx).
     then_go (if bd_non_tee bd then quietly (Inr ())
              else write_genesis_statement E B bd W (sx_capsule_hash sx) (sx_fingerprint sx) ceremony) (\<lambda>_.
     then_go (quietly (boot_scan E B T S bd N (ca_birthday ceremony) sx)) (\<lambda>scan.
     then_go (quietly (boot_faculties E D B W ceremony sx scan)) (\<lambda>b.
     then_go (publish_identity E B bd W (b_treasury_address b) (b_registry_ufvk b)) (\<lambda>guest.
     quietly (Inr (b\<lparr>b_guest := guest\<rparr>)))))))"

end
