(* ===== verification/Boot_Demo.thy ===== *)
theory Boot_Demo
  imports Boot
begin

text \<open>
  A concrete boot, for the witnesses: a development build whose node serves one block after the
  origin, the ceremony's. It seats the forty anchors and pays the Treasury. The node's next block
  carries a claim to the Treasury.
\<close>

section \<open>The ceremony's block\<close>

definition anchor_nf :: "nat \<Rightarrow> nullifier" where
  "anchor_nf i = [char_of (i + 1)]"

definition zero_output :: "nat \<Rightarrow> unit wallet_output" where
  "zero_output i = \<lparr>wo_index = i, wo_ephemeral_key = ''ek'', wo_note = (), wo_value = 0, wo_value_pool = PoolIronwood,
     wo_is_change = False, wo_position = i, wo_nf = Some (anchor_nf i), wo_account = REGISTRY_ACCOUNT, wo_scope = Some ScopeExternal\<rparr>"

definition treasury_output :: "unit wallet_output" where
  "treasury_output = \<lparr>wo_index = 40, wo_ephemeral_key = ''ek'', wo_note = (), wo_value = 300000, wo_value_pool = PoolIronwood,
     wo_is_change = False, wo_position = 40, wo_nf = Some ''t'', wo_account = TREASURY_ACCOUNT, wo_scope = Some ScopeExternal\<rparr>"

definition paying_block :: "unit wallet_output list \<Rightarrow> (bytes, unit) scanned_block" where
  "paying_block outs =
     \<lparr>sc_height = 10, sc_hash = ''h10'', sc_sapling = \<lparr>sb_commitments = [], sb_final_tree_size = 0\<rparr>,
      sc_orchard = \<lparr>sb_commitments = [], sb_final_tree_size = 0\<rparr>,
      sc_ironwood = \<lparr>sb_commitments = replicate 41 (''c'', Marked), sb_final_tree_size = 41\<rparr>,
      sc_txs = [\<lparr>wt_txid = ''cer'', wt_index = 0, wt_sapling_outputs = [], wt_orchard_outputs = [],
        wt_ironwood_outputs = outs, wt_sapling_spends = [], wt_ironwood_spends = []\<rparr>]\<rparr>"

abbreviation ceremony_outs :: "unit wallet_output list" where
  "ceremony_outs \<equiv> map zero_output [0..<40] @ [treasury_output]"

abbreviation ceremony_scanned :: "(bytes, unit) scanned_block" where
  "ceremony_scanned \<equiv> paying_block ceremony_outs"

text \<open>Outputs in ascending order are stored in that order.\<close>

lemma insert_outputs_ascending:
  assumes "sorted_wrt (<) (map wo_index outs)" and "\<forall>out\<in>set outs. wo_index out < 2 ^ 16"
    and "\<forall>x\<in>set stored. \<forall>out\<in>set outs. fst x < (txid, pool, wo_index out)"
  shows "\<exists>nfs'. insert_outputs txid pool outs (stored, nfs) = Some (stored @ map (\<lambda>out. ((txid, pool, wo_index out), out)) outs, nfs')"
  using assms
proof (induction outs arbitrary: stored nfs)
  case (Cons out outs)
  have i: "bt_insert (txid, pool, wo_index out) out stored = stored @ [((txid, pool, wo_index out), out)]"
    using Cons.prems(3) by (intro bt_insert_last) auto
  have "\<forall>x\<in>set (stored @ [((txid, pool, wo_index out), out)]). \<forall>o'\<in>set outs. fst x < (txid, pool, wo_index o')"
    using Cons.prems(1,3) by (auto simp: less_prod_def')
  with Cons.IH [of "stored @ [((txid, pool, wo_index out), out)]"] Cons.prems(1,2) i show ?case
    by (simp add: u16_index_def)
qed simp

text \<open>Forty distinct anchors close the adoption.\<close>

lemma adoption_closes:
  assumes "established p = None" and "bs_ok (live p)" and "length (live p) + length nfs = ANCHOR_POOL_SIZE" and "nfs \<noteq> []"
    and "distinct nfs" and "set nfs \<inter> set (live p) = {}"
  shows "adoption_closed (fold (adopt h) nfs p)"
  using assms
proof (induction nfs arbitrary: p)
  case (Cons nf nfs)
  define l where "l = snd (bs_insert nf (live p))"
  have new: "nf \<notin> set (live p)" using Cons.prems(6) by simp
  have l: "length l = Suc (length (live p))" "bs_ok l" "set l = insert nf (set (live p))"
    using length_bs_insert [OF Cons.prems(2)] new bs_ok_insert [OF Cons.prems(2)] by (simp_all add: l_def)
  have a: "adopt h nf p = \<lparr>live = l, checkpoints = bt_insert h l (checkpoints p),
      established = (if length l = ANCHOR_POOL_SIZE then Some h else None)\<rparr>"
    using Cons.prems(1,3) new by (simp add: adopt_def adoption_closed_def is_full_def l_def bs_insert_def)
  show ?case
  proof (cases "nfs = []")
    case True
    then show ?thesis using a l Cons.prems(3) by (simp add: adoption_closed_def)
  next
    case False
    then have "length l \<noteq> ANCHOR_POOL_SIZE" using l Cons.prems(3) by (cases nfs) simp_all
    then show ?thesis using Cons.IH [of "adopt h nf p"] a l Cons.prems False by simp
  qed
qed simp

lemma adopt_anchor_anchors: "anchors (fold (adopt_anchor h) nfs r) = fold (adopt h) nfs (anchors r)"
  by (induction nfs arbitrary: r) (simp_all add: adopt_anchor_def)

lemma anchors_distinct: "distinct (map anchor_nf [0..<40])"
proof -
  have "inj_on anchor_nf {0..<40}" by (auto simp: inj_on_def anchor_nf_def)
  then show ?thesis by (simp add: distinct_map)
qed

lemma ceremony_seats: "anchor_adoption_closed (fold (adopt_anchor 10) (map anchor_nf [0..<40]) registry_new)"
proof -
  show ?thesis
    using anchors_distinct unfolding anchor_adoption_closed_def adopt_anchor_anchors
    by (intro adoption_closes) (simp_all add: registry_new_def pool_default_def ANCHOR_POOL_SIZE_def bs_ok_def)
qed

section \<open>The build, the functions and the node\<close>

definition demo_totals :: "(account \<times> pool_type \<times> bucket \<times> zat) list \<Rightarrow> (account \<Rightarrow> pool_type \<Rightarrow> zat) option" where
  "demo_totals es = Some (\<lambda>a p. sum_list (map (\<lambda>(_, _, _, v). v) (filter (\<lambda>(a', p', b, _). a' = a \<and> p' = p \<and> b \<noteq> Uneconomic) es)))"

definition demo_boot_env :: "(bytes, bytes, bytes, account, unit, string, bytes) boot_env" where
  "demo_boot_env =
     \<lparr>be_toml = (\<lambda>_. Some \<lparr>ra_anchor_txid = Some ''aa'', ra_birthday = Some 10, ra_network = Some ''regtest'',
        ra_seed_fingerprint = Some '' fp''\<rparr>),
      be_txid_from_hex = (\<lambda>s. if s = ''aa'' then Some ''cer'' else None), be_txid_to_string = (\<lambda>_. ''aa''),
      be_parse_capsule = Some, be_capsule_fingerprint = take 2, be_capsule_hash = (\<lambda>b. b),
      be_fingerprint_from_str = Some, be_fingerprint_from_seed = Some, be_verify_report = (\<lambda>_ _ _. False),
      be_key_context = ''ctx'', be_derive_sealing_key = (\<lambda>_. None), be_dev_sealing_key = (\<lambda>c. c),
      be_unseal_seed = (\<lambda>_ c. Some (take 2 c)), be_purpose_key = (\<lambda>s. s), be_usk_from_seed = (\<lambda>_ a. Some a), be_fvk = (\<lambda>_. ()),
      be_default_address = (\<lambda>_. Some ''u1mint''), be_ufvk_encode = (\<lambda>_. Some ''uview''), be_genesis_report_data = (\<lambda>_. []),
      be_get_attestation = (\<lambda>_. None), be_stored = (\<lambda>_ _. None), be_totals = demo_totals, be_read_params = Some\<rparr>"

definition demo_build :: build where
  "demo_build = \<lparr>bd_network = RegtestNet, bd_non_tee = True\<rparr>"

definition ceremony_block :: "(bytes, bytes) block" where
  "ceremony_block = \<lparr>blk_prev = ''h9'', blk_time = 1700000000,
     blk_vtx = [\<lparr>bx_txid = ''cer'', bx_expiry = 0, bx_ironwood = None, bx_sapling_in = [], bx_ironwood_in = []\<rparr>]\<rparr>"

definition demo_node :: "(bytes, bytes, bytes, nat) boot_node" where
  "demo_node =
     \<lparr>bn_info = Inr \<lparr>bi_blocks = 10, bi_bestblockhash = ''h10''\<rparr>, bn_connect = True, bn_stream = True,
      bn_block = (\<lambda>h. if h = 10 then Inr (ceremony_block, []) else Inl TimeoutError),
      bn_treestate = (\<lambda>h. if h = 9 then Inr demo_origin else Inl TimeoutError),
      bn_sapling_roots = Inr [], bn_ironwood_roots = Inr [], bn_time = (\<lambda>h. Inr 1699999000),
      bn_exact_tip = Inr (10, ''h10''), bn_standard_fee = Inr 10000\<rparr>"

definition demo_world :: "nat boot_world" where
  "demo_world =
     \<lparr>bw_params_dir = None, bw_home = None,
      bw_stat = (\<lambda>p. if p = ''/root/.zcash-params/sapling-spend.params'' then Some 47958396 else Some 3592860),
      bw_read = (\<lambda>p. if p = ''/root/.zcash-params/sapling-spend.params'' then demo_hex_decode SAPLING_SPEND_HASH
        else demo_hex_decode SAPLING_OUTPUT_HASH),
      bw_manifest = Some [], bw_capsule = Some ''fpx'', bw_report = NoFile, bw_write = (\<lambda>_. Written),
      bw_round = [(''gemini'', Some 50)], bw_presale = [None, Some ([], 0, Some 0)]\<rparr>"

definition request_block :: "(bytes, bytes) block" where
  "request_block = \<lparr>blk_prev = ''h10'', blk_time = 1700000600,
     blk_vtx = [\<lparr>bx_txid = ''req'', bx_expiry = 0, bx_ironwood = None, bx_sapling_in = [],
       bx_ironwood_in = [(True, 50000, ''ZNS:claim:1y:alice:u1abc'')]\<rparr>]\<rparr>"

definition request_scanned :: "(bytes, unit) scanned_block" where
  "request_scanned =
     \<lparr>sc_height = 11, sc_hash = ''h11'', sc_sapling = \<lparr>sb_commitments = [], sb_final_tree_size = 0\<rparr>,
      sc_orchard = \<lparr>sb_commitments = [], sb_final_tree_size = 0\<rparr>,
      sc_ironwood = \<lparr>sb_commitments = [], sb_final_tree_size = 41\<rparr>, sc_txs = []\<rparr>"

definition ceremony_scanner ::
  "(nat \<times> (height \<times> nat) list, bytes, unit, unit, string, bytes, bytes) scanner" where
  "ceremony_scanner = claim_scanner\<lparr>sn_scan := (\<lambda>w b.
     if w = demo_new_wallet \<and> b = ceremony_block then Some ceremony_scanned
     else if b = request_block then Some request_scanned else None)\<rparr>"

section \<open>The stages\<close>

definition demo_ceremony :: CeremonyAnchor where
  "demo_ceremony = \<lparr>ca_network = ''regtest'', ca_seed_fingerprint = '' fp'', ca_txid = ''cer'', ca_file_txid = None, ca_birthday = 10\<rparr>"

definition demo_secrets :: "account secrets" where
  "demo_secrets = \<lparr>sx_treasury = \<lparr>ak_account = TREASURY_ACCOUNT, ak_spending = TREASURY_ACCOUNT\<rparr>,
     sx_registry = \<lparr>ak_account = REGISTRY_ACCOUNT, ak_spending = REGISTRY_ACCOUNT\<rparr>,
     sx_fingerprint = ''fp'', sx_capsule_hash = ''fpx'', sx_access_code_key = ''fp''\<rparr>"

lemma demo_trims: "str_trim ''aa'' = ''aa''" "str_trim '' fp'' = ''fp''"
  by (simp_all add: str_trim_def WHITE_SPACE_def)

lemma demo_ceremony_read: "boot_ceremony demo_env demo_boot_env demo_build demo_world demo_node = Inr (demo_ceremony, demo_secrets)"
  by (simp add: boot_ceremony_def connect_zebra_def load_ceremony_anchor_def ceremony_anchor_def require_ceremony_network_def
      seed_intake_def sealing_key_def verify_fingerprint_def keys_derive_def require_anchor_on_chain_def
      demo_boot_env_def demo_world_def demo_node_def demo_build_def demo_ceremony_def demo_secrets_def ceremony_block_def
      demo_trims require_def expect_ok_def ok_or_def)

lemma demo_wallet_born: "boot_wallet demo_boot_env demo_trees demo_build demo_node 10 demo_secrets = Inr (9, demo_new_wallet)"
  using demo_new_wallet_born
  by (simp add: boot_wallet_def origin_checkpoint_def keys_fvk_def demo_build_def demo_node_def demo_boot_env_def demo_secrets_def
      expect_ok_def ok_or_def TREASURY_ACCOUNT_def REGISTRY_ACCOUNT_def)

lemma demo_clock_set:
  "\<exists>clock. boot_clock demo_env (bn_time demo_node) 10 9 None = Inr (Some 1699999000, clock) \<and>
     mtp_current demo_env clock = Some (Some 1699999000) \<and> mtp_current demo_env (mtp_update 10 1700000000 clock) = Some (Some 1699999000) \<and>
     mtp_current demo_env (mtp_update 11 1700000600 (mtp_update 10 1700000000 clock)) = Some (Some 1699999000)"
  by (simp add: boot_clock_def backfilled_def mtp_backfill_def MTP_WINDOW_def upt_rec demo_node_def mtp_update_def mtp_default_def
      mtp_current_def ts_from_seconds_def demo_env_def mtp_born_def ok_or_def)

lemma append_demo: "append_commitments demo_trees marks cs (n, c) = Inr (n + length cs, c)"
  by (induction cs arbitrary: n) (auto simp: demo_trees_def split: prod.split)

lemma ceremony_stored:
  "\<exists>nfs. insert_outputs ''cer'' PoolIronwood ceremony_outs ([], []) =
     Some (map (\<lambda>out. ((''cer'', PoolIronwood, wo_index out), out)) ceremony_outs, nfs)"
proof -
  have "map wo_index ceremony_outs = [0..<41]"
    by (simp add: zero_output_def treasury_output_def comp_def upt_rec)
  then have s: "sorted_wrt (<) (map wo_index ceremony_outs)" by (simp del: map_append)
  have "\<forall>out\<in>set ceremony_outs. wo_index out < 2 ^ 16" by (auto simp: zero_output_def treasury_output_def)
  from insert_outputs_ascending [OF s this, of "[]" "''cer''" PoolIronwood "[]"] show ?thesis by simp
qed

lemma paying_put:
  assumes "insert_outputs ''cer'' PoolIronwood outs ([], []) = Some (nts, nfs)"
  shows "\<exists>w1. put_blocks_marked demo_trees (wallet_tip demo_new_wallet) [paying_block outs] [] demo_new_wallet = Some (Inr w1) \<and>
     w_ironwood_notes w1 = nts \<and> w_statuses w1 = [(''cer'', Mined 10)] \<and> w_ironwood_spends w1 = [] \<and> w_sapling_notes w1 = [] \<and>
     w_ufvks w1 = [(0, ()), (1, ())] \<and> w_zebra_tip w1 = Some 10 \<and> w_locks w1 = [] \<and> w_trusted w1 = [] \<and>
     w_blocks w1 = [(10, to_block_metadata (paying_block outs))] \<and> w_sapling_tree w1 = (0, [(10, 0), (9, 0)]) \<and>
     w_orchard_tree w1 = (0, [(10, 0), (9, 0)]) \<and> w_ironwood_tree w1 = (41, [(10, 41), (9, 0)])"
proof -
  define filled :: "bytes scanned_bundles" where "filled = \<lparr>sb_commitments = replicate 41 (''c'', Marked), sb_final_tree_size = 41\<rparr>"
  have a: "append_block_commitments demo_trees filled 10 [] (0, [(9, 0)]) = Inr (41, [(10, 41), (9, 0)])"
    unfolding append_block_commitments_def filled_def
    by (simp add: append_demo) (simp add: demo_trees_def ensure_block_checkpoint_def)
  have e: "append_block_commitments demo_trees \<lparr>sb_commitments = [], sb_final_tree_size = 0\<rparr> 10 [] (0, [(9, 0)]) = Inr (0, [(10, 0), (9, 0)])"
    by (simp add: append_block_commitments_def demo_trees_def ensure_block_checkpoint_def)
  show ?thesis
    unfolding paying_block_def demo_new_wallet_def filled_def [symmetric]
    by (simp add: a e assms put_blocks_marked_def continuity_def wallet_tip_def bt_last_def next_height_def U32_MAX_def
        put_block_def receive_tx_def bt_insert_def spend_tx_def record_spends_def update_chain_tip_def to_block_metadata_def)
qed

lemma ceremony_balance:
  fixes w :: "(nat \<times> (height \<times> nat) list, unit, unit) wallet"
  assumes "w_ironwood_notes w = map (\<lambda>out. ((''cer'', PoolIronwood, wo_index out), out)) ceremony_outs"
    and "w_statuses w = [(''cer'', Mined 10)]" "w_ironwood_spends w = []" "w_sapling_notes w = []" "w_ufvks w = [(0, ()), (1, ())]"
    "w_zebra_tip w = Some 10" "w_locks w = []" "w_trusted w = []"
  shows "treasury_balance demo_boot_env w = Inr 300000"
proof -
  have t: "summary_target w = Some 11" using assms(6) by (simp add: summary_target_def next_height_def U32_MAX_def)
  have spent: "\<not> ironwood_note_is_spent w i 11" for i using assms(3) by (simp add: ironwood_note_is_spent_def bt_get_def)
  have z: "summary_entry w PoolIronwood 11 CONFIRMATIONS (i, zero_output k) = (REGISTRY_ACCOUNT, PoolIronwood, Uneconomic, 0)" for i k
    by (simp add: summary_entry_def zero_output_def balance_bucket_def)
  have p: "summary_entry w PoolIronwood 11 CONFIRMATIONS ((''cer'', PoolIronwood, k), treasury_output) =
      (TREASURY_ACCOUNT, PoolIronwood, Spendable, 300000)" for k
    using assms by (simp add: summary_entry_def treasury_output_def balance_bucket_def counts_as_change_def MARGINAL_FEE_def nid_txid_def
        bt_get_def required_confirmations_def CONFIRMATIONS_def lock_is_live_def)
  have "summary_entries w 11 CONFIRMATIONS =
      map (\<lambda>_. (REGISTRY_ACCOUNT, PoolIronwood, Uneconomic, 0)) [0..<40] @ [(TREASURY_ACCOUNT, PoolIronwood, Spendable, 300000)]"
    using assms(1,4) spent z p by (simp add: summary_entries_def comp_def split_def)
  then show ?thesis
    using assms(5) t by (simp add: treasury_balance_def demo_boot_env_def demo_totals_def ok_or_def require_def bt_has_def bt_get_def
        REGISTRY_ACCOUNT_def TREASURY_ACCOUNT_def)
qed

text \<open>What the later stages need of the wallet the ceremony's block leaves.\<close>

definition paid_wallet :: "(nat \<times> (height \<times> nat) list, unit, unit) wallet \<Rightarrow> bool" where
  "paid_wallet w \<longleftrightarrow> treasury_balance demo_boot_env w = Inr 300000 \<and> w_blocks w = [(10, to_block_metadata ceremony_scanned)] \<and>
     w_sapling_tree w = (0, [(10, 0), (9, 0)]) \<and> w_orchard_tree w = (0, [(10, 0), (9, 0)]) \<and>
     w_ironwood_tree w = (41, [(10, 41), (9, 0)])"

lemma paid_tip:
  "paid_wallet w \<Longrightarrow> bm_height (wallet_tip w) = 10" "paid_wallet w \<Longrightarrow> bm_hash (wallet_tip w) = ''h10''"
  "paid_wallet w \<Longrightarrow> block_hash_at w 10 = Some ''h10''"
  by (simp_all add: paid_wallet_def wallet_tip_def bt_last_def block_hash_at_def bt_get_def to_block_metadata_def paying_block_def)

lemma paid_put:
  assumes "paid_wallet w"
  shows "\<exists>w1. put_blocks_marked demo_trees (wallet_tip w) [request_scanned] [] w = Some (Inr w1)"
  using assms
  by (simp add: paid_wallet_def request_scanned_def put_blocks_marked_def continuity_def wallet_tip_def bt_last_def next_height_def
      U32_MAX_def append_block_commitments_def ensure_block_checkpoint_def demo_trees_def put_block_def to_block_metadata_def
      paying_block_def)

lemma nothing_spent: "follow_spends [] h r = r"
  by (simp add: follow_spends_def mark_released_def registry_retire_def retire_spent_def names_spent_by_def)

lemma demo_ceremony_applied:
  assumes "mtp_current demo_env (mtp_update 10 1700000000 clock) = Some (Some mtp)"
  shows "\<exists>w'. apply_block demo_env (mint_wallet demo_env demo_trees ceremony_scanner) 10 ceremony_block 10 (demo_new_wallet, registry_new, clock) =
      Some ([], w', fold (adopt_anchor 10) (map anchor_nf [0..<40]) registry_new, mtp_update 10 1700000000 clock) \<and>
    paid_wallet w'"
proof -
  let ?W = "mint_wallet demo_env demo_trees ceremony_scanner"
  let ?tx = "\<lparr>sx_txid = ''cer'', sx_spends = [], sx_outputs = map (\<lambda>out. (wo_account out = REGISTRY_ACCOUNT, wo_value out, wo_nf out)) ceremony_outs\<rparr>"
  have S: "sn_scan ceremony_scanner demo_new_wallet ceremony_block = Some ceremony_scanned" by (simp add: ceremony_scanner_def)
  obtain w1 where put: "put_blocks_marked demo_trees (wallet_tip demo_new_wallet) [ceremony_scanned] [] demo_new_wallet = Some (Inr w1)"
    and bal: "paid_wallet w1"
    using ceremony_stored paying_put ceremony_balance unfolding paid_wallet_def by blast
  have scan: "w_scan ?W demo_new_wallet ceremony_block = Some ([?tx], 0)"
    unfolding mint_scan using S by (intro exI [of _ ceremony_scanned]) (simp add: paying_block_def scanned_view_def ironwood_start_def)
  have commit: "w_commit ?W ceremony_block [] demo_new_wallet = Some w1"
    unfolding mint_commit using put S by (intro exI [of _ ceremony_scanned]) simp
  have outs: "ceremony_outputs ?tx = map anchor_nf [0..<40]"
    by (simp add: ceremony_outputs_def registry_outputs_def zero_output_def treasury_output_def comp_def REGISTRY_ACCOUNT_def TREASURY_ACCOUNT_def map_filter_simps)
  have c: "confirm_txs demo_env 10 mtp (blk_vtx ceremony_block) [] [?tx] registry_new =
      Some ([], fold (adopt_anchor 10) (map anchor_nf [0..<40]) registry_new)"
    using outs by (simp add: confirm_tx_def notes_of_def adopt_ceremony_def is_ceremony_fill_def ANCHOR_POOL_SIZE_def nothing_spent)
  have tip: "w_tip ?W demo_new_wallet = (9, ''h9'')" using demo_tip by (simp add: mint_tip tip_of_def)
  have dec: "decrypt_name_notes demo_env ceremony_block = Some []" "decrypt_treasury_memos demo_env (blk_vtx ceremony_block) = Some []"
    by (simp_all add: decrypt_name_notes_def ceremony_block_def treasury_payments_def)
  show ?thesis
    using assms c scan commit tip dec bal by (simp add: apply_block_def Let_def ceremony_block_def)
qed

definition demo_seated :: "(string, bytes) registry" where
  "demo_seated = fold (adopt_anchor 10) (map anchor_nf [0..<40]) registry_new"

lemma demo_scan:
  "\<exists>w clock. boot_scan demo_env demo_boot_env demo_trees ceremony_scanner demo_build demo_node 10 demo_secrets =
       Inr (Some 1699999000, 10000, w, demo_seated, clock, seal_replayed_buys market_new) \<and>
     paid_wallet w \<and> mtp_current demo_env clock = Some (Some 1699999000) \<and>
     mtp_current demo_env (mtp_update 11 1700000600 clock) = Some (Some 1699999000)"
proof -
  obtain clock where c: "boot_clock demo_env (bn_time demo_node) 10 9 None = Inr (Some 1699999000, clock)"
    "mtp_current demo_env clock = Some (Some 1699999000)" "mtp_current demo_env (mtp_update 10 1700000000 clock) = Some (Some 1699999000)"
    "mtp_current demo_env (mtp_update 11 1700000600 (mtp_update 10 1700000000 clock)) = Some (Some 1699999000)"
    using demo_clock_set by blast
  obtain w where a: "apply_block demo_env (mint_wallet demo_env demo_trees ceremony_scanner) 10 ceremony_block 10 (demo_new_wallet, registry_new, clock) =
      Some ([], w, demo_seated, mtp_update 10 1700000000 clock)" and bal: "paid_wallet w"
    using demo_ceremony_applied [OF c(3)] unfolding demo_seated_def by blast
  have inv: "wallet_inv demo_new_wallet" by (rule wallet_new_inv [OF demo_new_wallet_born]) (simp add: U32_MAX_def)
  have tip: "bm_height (wallet_tip w) = 10" using applied_tip [OF a inv] demo_tip by (simp add: tip_of_def U32_MAX_def)
  have l: "listings demo_seated = []"
    unfolding demo_seated_def by (rule fold_invariant [where Q = "\<lambda>_. True"]) (simp_all add: registry_new_def adopt_anchor_def)
  have quiet: "market_reconcile 10 (market_expire 1699999000 10 (market_new, demo_seated)) = (market_new, demo_seated)"
    using l by (simp add: market_expire_def finish_clocks_def market_reconcile_def reconcile_listings_def Let_def market_new_def
        sale_expire_def sale_reconcile_def sales_new_def market_records_def close_challenges_def bt_retain_def)
  have seen: "market_observe demo_env holder [] mtp 10 market_new = market_new" for holder mtp
    by (simp add: market_observe_def sale_observe_def market_new_def sales_new_def market_records_def)
  have ok: "header_time_ok demo_env clock (blk_time ceremony_block) = Some (Inr ())"
    by (simp add: header_time_ok_def c(2) ceremony_block_def MAX_TIME_SINCE_MEDIAN_def)
  have b: "boot_sync_block demo_env demo_trees ceremony_scanner ''fp'' 10 10000 (bn_block demo_node) (demo_new_wallet, registry_new, clock, market_new) =
      Inr (w, demo_seated, mtp_update 10 1700000000 clock, market_new)"
    unfolding boot_sync_block_def Let_def case_prod_conv
    using a c(3) quiet seen ok demo_tip
    by (simp add: demo_node_def expect_ok_def ok_or_def require_def transparent_payments_def map_filter_simps)
  have "boot_sync demo_env demo_trees ceremony_scanner ''fp'' 10 10000 (bn_block demo_node) 10 (Suc 0) (demo_new_wallet, registry_new, clock, market_new) =
      Inr (w, demo_seated, mtp_update 10 1700000000 clock, market_new)"
    using b tip demo_tip by simp
  then have "boot_scan demo_env demo_boot_env demo_trees ceremony_scanner demo_build demo_node 10 demo_secrets =
       Inr (Some 1699999000, 10000, w, demo_seated, mtp_update 10 1700000000 clock, seal_replayed_buys market_new)"
    unfolding boot_scan_def using demo_wallet_born c(1) demo_tip
    by (simp add: demo_node_def demo_secrets_def expect_ok_def)
  with bal c(3,4) show ?thesis by blast
qed

text \<open>The parameter files' first bytes are their hashes, which is what the demonstration's hash keeps.\<close>

lemma hex_of_val:
  assumes "is_lower_hex c"
  shows "hex_val c < 16 \<and> hex_digit (hex_val c) = c"
proof -
  have "hex_val c < 16 \<and> byte_of (hex_digit (hex_val c)) = byte_of c"
    using assms by (auto simp: is_lower_hex_def is_ascii_digit_def hex_val_def hex_digit_def byte_of_char_of)
  then show ?thesis by (simp add: byte_of_def)
qed

lemma encode_decoded:
  "list_all is_lower_hex s \<Longrightarrow> even (length s) \<Longrightarrow> \<exists>b. demo_hex_decode s = Some b \<and> demo_hex_encode b = s \<and> length b = length s div 2"
proof (induction s rule: demo_hex_decode.induct)
  case (3 a b s)
  then obtain r where r: "demo_hex_decode s = Some r" "demo_hex_encode r = s" "length r = length s div 2" by auto
  have h: "hex_val a < 16" "hex_val b < 16" "hex_digit (hex_val a) = a" "hex_digit (hex_val b) = b"
    using "3.prems"(1) hex_of_val by simp_all
  then have "byte_of (char_of (16 * hex_val a + hex_val b)) = 16 * hex_val a + hex_val b" by (simp add: byte_of_char_of)
  with h r show ?case by (simp add: demo_hex_encode_def)
qed (simp_all add: demo_hex_encode_def)

lemma demo_hash: "list_all is_lower_hex s \<Longrightarrow> length s = 128 \<Longrightarrow> \<exists>b. demo_hex_decode s = Some b \<and> hex_encode demo_env (blake2b512 demo_env b) = s"
  using encode_decoded [of s] by (auto simp: demo_env_def pad_right_def)

lemma demo_params:
  "\<exists>p. load_sapling_spend_params demo_env demo_boot_env demo_world = Inr p"
  "\<exists>p. load_sapling_output_params demo_env demo_boot_env demo_world = Inr p"
proof -
  have h: "list_all is_lower_hex SAPLING_SPEND_HASH" "length SAPLING_SPEND_HASH = 128"
    "list_all is_lower_hex SAPLING_OUTPUT_HASH" "length SAPLING_OUTPUT_HASH = 128"
    by (simp_all add: SAPLING_SPEND_HASH_def SAPLING_OUTPUT_HASH_def is_lower_hex_def is_ascii_digit_def byte_of_def)
  show "\<exists>p. load_sapling_spend_params demo_env demo_boot_env demo_world = Inr p"
    using demo_hash [OF h(1,2)]
    by (auto simp: load_sapling_spend_params_def read_verified_sapling_params_def path_join_def sapling_params_dir_def demo_world_def
        demo_boot_env_def SAPLING_SPEND_BYTES_def require_def ok_or_def)
  show "\<exists>p. load_sapling_output_params demo_env demo_boot_env demo_world = Inr p"
    using demo_hash [OF h(3,4)]
    by (auto simp: load_sapling_output_params_def read_verified_sapling_params_def path_join_def sapling_params_dir_def demo_world_def
        demo_boot_env_def SAPLING_OUTPUT_BYTES_def require_def ok_or_def)
qed

lemma demo_oracle:
  assumes "mtp_current demo_env clock = Some (Some 1699999000)"
  shows "\<exists>ora. boot_oracle demo_env demo_dec (Some 1699999000) clock (bw_round demo_world) = Inr ora"
  using assms
  by (simp add: boot_oracle_def mtp_current_day_def demo_world_def fetch_round_def fetch_last_def plausible_def demo_dec_def aggregate_def
      TRUSTED_def MAX_USD_PRICE_def oracle_new_def zats_per_usd_def COIN_def zat_from_u64_def demo_env_def ok_or_def)

lemma demo_boot:
  "\<exists>b. boot_start demo_env demo_dec demo_boot_env demo_trees ceremony_scanner demo_build demo_world demo_node =
     ([Whole (IDENTITY_DOC_FILE, dev_identity_document ''regtest'' ''u1mint'' ''uview'')], Inr b) \<and> b_birthday b = 10 \<and>
     paid_wallet (b_wallet b) \<and> b_lock b = Some 1699999000 \<and> b_requests b = requests_default \<and>
     mtp_current demo_env (b_mtp b) = Some (Some 1699999000) \<and>
     mtp_current demo_env (mtp_update 11 1700000600 (b_mtp b)) = Some (Some 1699999000)"
proof -
  obtain w clock where scan: "boot_scan demo_env demo_boot_env demo_trees ceremony_scanner demo_build demo_node 10 demo_secrets =
       Inr (Some 1699999000, 10000, w, demo_seated, clock, seal_replayed_buys market_new)"
    and paid: "paid_wallet w" and mtp: "mtp_current demo_env clock = Some (Some 1699999000)"
      "mtp_current demo_env (mtp_update 11 1700000600 clock) = Some (Some 1699999000)"
    using demo_scan by blast
  have bal: "treasury_balance demo_boot_env w = Inr 300000" using paid by (simp add: paid_wallet_def)
  obtain ora where ora: "boot_oracle demo_env demo_dec (Some 1699999000) clock (bw_round demo_world) = Inr ora"
    using demo_oracle [OF mtp(1)] by blast
  have presale: "boot_presale (bw_presale demo_world) = Inr []"
    by (simp add: demo_world_def fetch_def complete_def)
  obtain p q where spend: "load_sapling_spend_params demo_env demo_boot_env demo_world = Inr p"
    and out: "load_sapling_output_params demo_env demo_boot_env demo_world = Inr q" using demo_params by blast
  have closed: "anchor_adoption_closed demo_seated" unfolding demo_seated_def by (rule ceremony_seats)
  have identity: "mint_identity demo_env demo_boot_env (sx_treasury demo_secrets) (sx_registry demo_secrets) = Inr (''u1mint'', ''uview'')"
    by (simp add: mint_identity_def demo_boot_env_def demo_env_def ok_or_def)
  have "\<exists>b0. boot_faculties demo_env demo_dec demo_boot_env demo_world demo_ceremony demo_secrets
      (Some 1699999000, 10000, w, demo_seated, clock, seal_replayed_buys market_new) = Inr b0 \<and>
      b_treasury_address b0 = ''u1mint'' \<and> b_registry_ufvk b0 = ''uview'' \<and> b_birthday b0 = 10 \<and> b_wallet b0 = w \<and>
      b_lock b0 = Some 1699999000 \<and> b_requests b0 = requests_default \<and> b_mtp b0 = clock"
    unfolding boot_faculties_def require_established_ceremony_def require_treasury_balance_def
    using closed bal ora presale identity spend out
    by (simp add: require_def MIN_TREASURY_BALANCE_def demo_ceremony_def)
  then obtain b0 where b0: "boot_faculties demo_env demo_dec demo_boot_env demo_world demo_ceremony demo_secrets
      (Some 1699999000, 10000, w, demo_seated, clock, seal_replayed_buys market_new) = Inr b0"
    "b_treasury_address b0 = ''u1mint''" "b_registry_ufvk b0 = ''uview''" "b_birthday b0 = 10" "b_wallet b0 = w"
    "b_lock b0 = Some 1699999000" "b_requests b0 = requests_default" "b_mtp b0 = clock" by blast
  have "ca_birthday demo_ceremony = 10" by (simp add: demo_ceremony_def)
  with b0 scan paid mtp show ?thesis
    unfolding boot_start_def demo_ceremony_read
    by (simp add: then_go_def quietly_def publish_identity_def write_file_def demo_build_def demo_world_def)
qed

lemma ceremony_fresh: "fresh_txs demo_new_wallet (sc_txs ceremony_scanned)"
proof -
  have nf: "List.map_filter wo_nf ceremony_outs = map anchor_nf [0..<40] @ [''t'']"
    by (simp add: map_filter_def zero_output_def treasury_output_def comp_def)
  have "''t'' \<noteq> anchor_nf i" if "i < 40" for i
  proof
    assume "''t'' = anchor_nf i"
    then have "byte_of (CHR ''t'') = byte_of (char_of (i + 1))" by (simp add: anchor_nf_def)
    with that show False by (simp add: byte_of_char_of) (simp add: byte_of_def)
  qed
  then have "''t'' \<notin> set (map anchor_nf [0..<40])" by fastforce
  then have "distinct (List.map_filter wo_nf ceremony_outs)" unfolding nf using anchors_distinct by simp
  then show ?thesis
    by (simp add: fresh_txs_def new_nullifiers_def paying_block_def demo_new_wallet_def bt_get_def del: map_append)
qed

lemma request_fresh: "fresh_txs w (sc_txs request_scanned)"
  by (simp add: fresh_txs_def new_nullifiers_def request_scanned_def)

end
