(* ===== verification/Boot_Laws.thy ===== *)
theory Boot_Laws
  imports Boot_Demo
begin

text \<open>
  What a boot establishes: the keys and the anchor are the manifest's, the sync ends at the node's
  tip in a state the running mint can be in, the market read from history is the replay of its
  log with every buy sealed, and the whole identity document is written by the boots that
  complete and by no other. A boot's sync and the run loop's catch-up agree on the same blocks.
\<close>

declare split_paired_All [simp del] split_paired_Ex [simp del]

section \<open>Steps\<close>

lemma require_Inr [simp]: "require ok f = Inr u \<longleftrightarrow> ok"
  by (simp add: require_def)

lemma require_Inl: "require ok f = Inl e \<longleftrightarrow> \<not> ok \<and> e = Fatal f"
  by (auto simp: require_def)

lemma expect_ok_Inr [simp]: "expect_ok f r = Inr a \<longleftrightarrow> r = Inr a"
  by (simp add: expect_ok_def map_err_Inr)

lemma expect_ok_Inl: "expect_ok f r = Inl e \<longleftrightarrow> (\<exists>d. r = Inl d) \<and> e = Fatal f"
  by (auto simp: expect_ok_def map_err_Inl)

lemma then_go_Inr:
  "snd (then_go p k) = Inr b \<longleftrightarrow> (\<exists>a. snd p = Inr a \<and> snd (k a) = Inr b)"
  by (cases p) (auto simp: then_go_def split: sum.split prod.split)

lemma then_go_docs: "fst (then_go p k) = fst p @ (case snd p of Inr a \<Rightarrow> fst (k a) | Inl _ \<Rightarrow> [])"
  by (cases p) (auto simp: then_go_def split: sum.split prod.split)

lemma quietly_simps [simp]: "fst (quietly r) = []" "snd (quietly r) = r"
  by (simp_all add: quietly_def)

lemmas boot_simps = result_simps then_go_Inr

section \<open>The market a scan leaves\<close>

lemma relists_boot_arrive:
  assumes "boot_arrive E key fee h mtp a mr = Some mr'"
  shows "relists (snd mr) (snd mr')"
proof -
  obtain txid inbound paid m r m' r' where a: "a = (txid, inbound, paid)" "mr = (m, r)" "mr' = (m', r')"
    by (metis prod.exhaust)
  then show ?thesis
    using assms relists_answer [of E _ h m r]
    by (cases inbound) (auto simp: boot_arrive_def split: if_splits)
qed

lemma run_trans: "market_run E P b c \<Longrightarrow> market_run E P a b \<Longrightarrow> market_run E P a c"
  by (induction rule: market_run.induct) (auto intro: market_run.step)

lemma run_one: "P h \<Longrightarrow> market_step E h a b \<Longrightarrow> market_run E P a b"
  using market_run.step [OF market_run.refl] .

lemma run_boot_arrive:
  assumes "boot_arrive E key fee h mtp a mr = Some mr'"
  shows "market_run E (\<lambda>_. True) mr mr'"
proof -
  obtain txid inbound paid m r where a: "a = (txid, inbound, paid)" "mr = (m, r)" by (metis prod.exhaust)
  have "mr' = mr \<or> market_step E h mr mr'"
    using assms unfolding a boot_arrive_def
    by (cases inbound) (auto split: if_splits intro: market_step.answer market_step.admit)
  then show ?thesis using run_one market_run.refl by metis
qed

lemma each_keeps:
  assumes "\<And>x s s'. f x s = Some s' \<Longrightarrow> R s s'" and "\<And>s. R s s" and "\<And>a b c. R a b \<Longrightarrow> R b c \<Longrightarrow> R a c"
  shows "each f xs s = Some s' \<Longrightarrow> R s s'"
proof (induction xs arbitrary: s)
  case (Cons x xs)
  then show ?case using assms(1,3) by (auto split: Option.bind_splits) blast
qed (use assms(2) in simp)

section \<open>One block of the sync\<close>

lemma sync_block_parts:
  assumes "boot_sync_block E T S key birthday fee fetch_block (w, r, clock, m) = Inr (w', r', clock', m')"
  obtains b outs inbound r1 where "fetch_block (tip_of w + 1) = Inr (b, outs)"
    "apply_block E (mint_wallet E T S) birthday b (tip_of w + 1) (w, r, clock) = Some (inbound, w', r1, clock')"
    "relists r1 r'" "market_run E (\<lambda>_. True) (m, r1) (m', r')"
proof -
  define h where h: "h = bm_height (wallet_tip w) + 1"
  note block = assms [unfolded boot_sync_block_def Let_def case_prod_conv, folded h]
  obtain b outs inbound r1 mtp m2 where f: "fetch_block h = Inr (b, outs)"
    and ap: "apply_block E (mint_wallet E T S) birthday b h (w, r, clock) = Some (inbound, w', r1, clock')"
    and e: "each (boot_arrive E key fee h mtp) inbound (market_reconcile h (market_expire mtp h (m, r1))) = Some (m2, r')"
    and m': "m' = market_observe E (\<lambda>n. map_option nr_ua (record_of r' n)) (transparent_payments outs) mtp h m2"
    using block by (auto simp: result_simps split: prod.splits)
  obtain m1 r2 where mr: "market_reconcile h (market_expire mtp h (m, r1)) = (m1, r2)" by (rule prod.exhaust)
  have "market_run E (\<lambda>_. True) (m, r1) (market_expire mtp h (m, r1))" by (rule run_one) (auto intro: market_step.expire)
  moreover have "market_run E (\<lambda>_. True) (market_expire mtp h (m, r1)) (m1, r2)"
    using run_one [OF _ market_step.reconcile, of "\<lambda>_. True" h E "fst (market_expire mtp h (m, r1))" "snd (market_expire mtp h (m, r1))"] mr
    by simp
  moreover have "market_run E (\<lambda>_. True) (m1, r2) (m2, r')"
    by (rule each_keeps [OF _ _ _ e [unfolded mr]]) (auto intro: run_boot_arrive market_run.refl run_trans)
  moreover have "market_run E (\<lambda>_. True) (m2, r') (m', r')" unfolding m' by (rule run_one) (auto intro: market_step.observe)
  ultimately have run: "market_run E (\<lambda>_. True) (m, r1) (m', r')" by (meson run_trans)
  have "relists r1 (snd (market_expire mtp h (m, r1)))" using relists_expire [of "(m, r1)"] by simp
  moreover have "relists (snd (market_expire mtp h (m, r1))) r2"
    using relists_reconcile [of "market_expire mtp h (m, r1)" h] mr by simp
  moreover have "relists r2 r'"
    using each_keeps [of "boot_arrive E key fee h mtp" "\<lambda>x y. relists (snd x) (snd y)" inbound "(m1, r2)" "(m2, r')"]
      e [unfolded mr] relists_boot_arrive relists_trans by fastforce
  ultimately have "relists r1 r'" by (meson relists_trans)
  with that f ap run show ?thesis by (simp add: h tip_of_def)
qed

lemma applied_parent:
  "apply_block E (mint_wallet E T S) birthday b h (w, r, clock) = Some res \<Longrightarrow> blk_prev b = bm_hash (wallet_tip w)"
  by (auto simp: apply_block_def mint_wallet_def split: if_splits)

lemma serves_one:
  "serves_new E T S parse birthday (\<lambda>h. [fetch_block h]) \<Longrightarrow> fetch_block h = Inr (b, outs) \<Longrightarrow> mint_reach E T S parse birthday w r \<Longrightarrow>
     blk_prev b = bm_hash (wallet_tip w) \<Longrightarrow> sn_scan S w b = Some sc \<Longrightarrow> fresh_txs w (sc_txs sc)"
  unfolding serves_new_def by (metis list.set_intros(1))

lemma sync_block_keeps:
  assumes "boot_sync_block E T S key birthday fee fetch_block (w, r, clock, m) = Inr (w', r', clock', m')"
    and "tip_of w < U32_MAX" and "mint_reach E T S parse birthday w r" and "serves_new E T S parse birthday (\<lambda>h. [fetch_block h])"
  shows "tip_of w' = tip_of w + 1 \<and> mint_reach E T S parse birthday w' r'"
  using assms(1)
proof (rule sync_block_parts)
  fix b outs inbound r1
  assume f: "fetch_block (tip_of w + 1) = Inr (b, outs)" and r: "relists r1 r'"
    and a: "apply_block E (mint_wallet E T S) birthday b (tip_of w + 1) (w, r, clock) = Some (inbound, w', r1, clock')"
  have "mint_reach E T S parse birthday w' r1"
    by (rule mint_reach.block [OF assms(3) a]) (use assms(2) serves_one [OF assms(4) f assms(3) applied_parent [OF a]] in simp_all)
  then show ?thesis using reach_relists [OF _ r] applied_tip [OF a reach_inv [OF assms(3)]] assms(2) by simp
qed

lemma sync_keeps:
  "boot_sync E T S key birthday fee fetch_block best fuel (w, r, clock, m) = Inr (w', r', clock', m') \<Longrightarrow> best \<le> U32_MAX \<Longrightarrow>
     mint_reach E T S parse birthday w r \<Longrightarrow> serves_new E T S parse birthday (\<lambda>h. [fetch_block h]) \<Longrightarrow>
     tip_of w' = max (tip_of w) best \<and> mint_reach E T S parse birthday w' r'"
proof (induction fuel arbitrary: w r clock m)
  case 0
  then show ?case by (auto simp: tip_of_def split: if_splits)
next
  case (Suc fuel)
  show ?case
  proof (cases "tip_of w < best")
    case False
    then show ?thesis using Suc.prems by (simp add: tip_of_def)
  next
    case True
    then obtain w1 r1 clock1 m1 where b: "boot_sync_block E T S key birthday fee fetch_block (w, r, clock, m) = Inr (w1, r1, clock1, m1)"
      and rest: "boot_sync E T S key birthday fee fetch_block best fuel (w1, r1, clock1, m1) = Inr (w', r', clock', m')"
      using Suc.prems(1) by (auto simp: tip_of_def and_then_Inr)
    have "tip_of w1 = tip_of w + 1" "mint_reach E T S parse birthday w1 r1"
      using sync_block_keeps [OF b _ Suc.prems(3,4)] True Suc.prems(2) by simp_all
    with Suc.IH [OF rest Suc.prems(2) _ Suc.prems(4)] True show ?thesis by simp
  qed
qed

lemma block_answers: "boot_sync_block E T S key birthday fee fetch_block x \<noteq> Inl Unanswered"
  by (cases x) (auto simp: boot_sync_block_def Let_def result_simps require_Inl expect_ok_Inl split: prod.splits)

lemma sync_ends:
  "best - tip_of w \<le> fuel \<Longrightarrow> wallet_inv w \<Longrightarrow> best \<le> U32_MAX \<Longrightarrow>
     boot_sync E T S key birthday fee fetch_block best fuel (w, r, clock, m) \<noteq> Inl Unanswered"
proof (induction fuel arbitrary: w r clock m)
  case 0
  then show ?case by (simp add: tip_of_def)
next
  case (Suc fuel)
  show ?case
  proof (cases "boot_sync_block E T S key birthday fee fetch_block (w, r, clock, m)")
    case (Inl e)
    then show ?thesis using block_answers [of E T S key birthday fee fetch_block "(w, r, clock, m)"] by simp
  next
    case (Inr x)
    obtain w1 r1 clock1 m1 where x: "x = (w1, r1, clock1, m1)" by (metis prod.exhaust)
    have "tip_of w < best \<Longrightarrow> tip_of w1 = tip_of w + 1 \<and> wallet_inv w1"
      by (rule sync_block_parts [OF Inr [unfolded x]], drule applied_tip [OF _ Suc.prems(2)]) (use Suc.prems(3) in auto)
    then show ?thesis using Suc.IH [of w1 r1 clock1 m1] Suc.prems Inr x by (auto simp: tip_of_def)
  qed
qed

section \<open>The market a boot hands over\<close>

text \<open>A block's Name Notes leave the listings alone; the market reconciles them afterwards.\<close>

lemma fold_listings: "(\<And>x s. listings (f x s) = listings s) \<Longrightarrow> listings (fold f xs r) = listings r"
  by (induction xs arbitrary: r) simp_all

lemma listings_ops [simp]:
  "listings (set_record rec r) = listings r" "listings (registry_retire nfs nf h r) = listings r"
  "listings (mark_released nfs h r) = listings r" "listings (follow_spends nfs h r) = listings r"
  "listings (adopt_ceremony h wtx k r) = listings r"
proof -
  show "listings (set_record rec r) = listings r" for rec r by (simp add: set_record_def)
  note set = this
  show retire: "listings (registry_retire nfs nf h r) = listings r" for r nf by (simp add: registry_retire_def)
  show mark: "listings (mark_released nfs h r) = listings r" for r
    unfolding mark_released_def by (rule fold_listings) (simp add: mark_released_one_def set split: option.split)
  show "listings (follow_spends nfs h r) = listings r" by (simp add: follow_spends_def mark retire)
  show "listings (adopt_ceremony h wtx k r) = listings r"
    by (simp add: adopt_ceremony_def adopt_anchor_def fold_listings)
qed

lemma accept_listings:
  "accept_claim E nt nf s nfs h mtp expiry r = Some (ok, r') \<Longrightarrow> listings r' = listings r"
  "accept_successor E nt nf nfs h mtp r = Some (ok, r') \<Longrightarrow> listings r' = listings r"
  by (auto simp: accept_claim_def accept_successor_def release_predecessor_def Let_def split: if_splits option.splits)

lemma confirm_listings: "confirm_tx E h mtp vtx cs wtx r = Some (acc, r') \<Longrightarrow> listings r' = listings r"
  by (auto simp: confirm_tx_def accept_candidate_def accept_defs Let_def split: list.splits if_splits action.splits Option.bind_splits
      dest!: accept_listings)

lemma confirms_listings: "confirm_txs E h mtp vtx cs wtxs r = Some (acc, r') \<Longrightarrow> listings r' = listings r"
proof (induction wtxs arbitrary: r acc)
  case (Cons wtx wtxs)
  then show ?case using confirm_listings by (fastforce split: Option.bind_splits)
qed simp

lemma block_listings:
  assumes "apply_block E ops birthday b h (w, r, clock) = Some (inbound, w', r', clock')"
  shows "listings r' = listings r"
proof -
  obtain acc scanned cands mtp where "(if h < birthday then Some ([], r) else confirm_txs E h mtp (blk_vtx b) cands scanned r) = Some (acc, r')"
    using assms unfolding apply_block_def by (auto simp: Let_def Option.bind_eq_Some_conv simp del: not_le split: if_splits)
  then show ?thesis by (auto split: if_splits dest: confirms_listings)
qed

lemma sync_block_market:
  assumes "boot_sync_block E T S key birthday fee fetch_block (w, r, clock, m) = Inr (w', r', clock', m')"
  shows "market_run E (\<lambda>_. True) (m, r) (m', r')"
  using assms
proof (rule sync_block_parts)
  fix b outs inbound r1
  assume a: "apply_block E (mint_wallet E T S) birthday b (tip_of w + 1) (w, r, clock) = Some (inbound, w', r1, clock')"
    and run: "market_run E (\<lambda>_. True) (m, r1) (m', r')"
  have "market_run E (\<lambda>_. True) (m, r) (m, r1)"
    by (rule run_one [OF _ market_step.registry]) (use block_listings [OF a] in simp_all)
  with run show ?thesis by (rule run_trans)
qed

lemma sync_market:
  "boot_sync E T S key birthday fee fetch_block best fuel (w, r, clock, m) = Inr (w', r', clock', m') \<Longrightarrow>
     market_run E (\<lambda>_. True) (m, r) (m', r')"
proof (induction fuel arbitrary: w r clock m)
  case 0
  then show ?case by (auto split: if_splits intro: market_run.refl)
next
  case (Suc fuel)
  show ?case
  proof (cases "bm_height (wallet_tip w) < best")
    case True
    then obtain w1 r1 clock1 m1 where b: "boot_sync_block E T S key birthday fee fetch_block (w, r, clock, m) = Inr (w1, r1, clock1, m1)"
      and rest: "boot_sync E T S key birthday fee fetch_block best fuel (w1, r1, clock1, m1) = Inr (w', r', clock', m')"
      using Suc.prems by (auto simp: and_then_Inr)
    show ?thesis using run_trans [OF Suc.IH [OF rest] sync_block_market [OF b]] .
  qed (use Suc.prems in \<open>auto intro: market_run.refl\<close>)
qed

text \<open>Sealing marks every buy as relayed, in the book and in the log. No rollback brings an unsealed buy
  back.\<close>

definition sealed :: "('ua, 'cm) sale \<Rightarrow> bool" where
  "sealed s \<longleftrightarrow> (case s_phase s of Paying _ _ _ _ relayed \<Rightarrow> relayed | Paid \<Rightarrow> True)"

lemma sealed_unrelayed: "\<forall>s\<in>set (sales (m_sales m)). sealed s \<Longrightarrow> market_unrelayed m = []"
  by (force simp: market_unrelayed_def sale_unrelayed_def sealed_def map_filter_def filter_empty_conv split: phase.splits bool.splits)

lemma seal_sealed: "sealed (s\<lparr>s_phase := phase_relay (s_phase s)\<rparr>)"
  by (cases "s_phase s") (simp_all add: sealed_def)

definition log_sealed :: "(height \<times> ('ua, 'cm) market_event) list \<Rightarrow> bool" where
  "log_sealed es \<longleftrightarrow> (\<forall>h s. (h, EvOpen s) \<in> set es \<longrightarrow> sealed s)"

lemma event_sealed:
  assumes "\<forall>s\<in>set (sales (m_sales m)). sealed s" and "\<And>s. e = EvOpen s \<Longrightarrow> sealed s" and "apply_event e (m, r) = (m', r')"
  shows "\<forall>s\<in>set (sales (m_sales m')). sealed s"
  using assms
  by (cases e) (auto simp: sale_restore_def mark_paid_def sale_close_def sealed_def restore_challenge_def drop_challenge_def
      split: if_splits)

lemma replay_sealed:
  "log_sealed es \<Longrightarrow> \<forall>s\<in>set (sales (m_sales m)). sealed s \<Longrightarrow>
     \<forall>s\<in>set (sales (m_sales (fst (fold (\<lambda>(_, e). apply_event e) es (m, r))))). sealed s"
proof (induction es arbitrary: m r)
  case (Cons x es)
  obtain h e m1 r1 where x: "x = (h, e)" "apply_event e (m, r) = (m1, r1)" by (metis prod.exhaust)
  have "\<And>s. e = EvOpen s \<Longrightarrow> sealed s" using Cons.prems(1) x(1) by (auto simp: log_sealed_def)
  with event_sealed [OF Cons.prems(2) _ x(2)] have "\<forall>s\<in>set (sales (m_sales m1)). sealed s" by blast
  moreover have "log_sealed es" using Cons.prems(1) by (auto simp: log_sealed_def)
  ultimately show ?case using Cons.IH [of m1 r1] x by simp
qed simp

lemma event_seal_open: "EvOpen s = event_seal e \<Longrightarrow> sealed s"
  by (cases e) (auto simp: seal_sealed)

lemma seal_log_sealed: "log_sealed (m_events (seal_replayed_buys m))"
  by (auto simp: log_sealed_def seal_replayed_buys_def dest: event_seal_open)

lemma seal_unrelayed: "market_unrelayed (seal_replayed_buys m) = []"
  by (rule sealed_unrelayed) (auto simp: seal_replayed_buys_def seal_relayed_def seal_sealed)

lemma seal_rollback_unrelayed: "market_unrelayed (fst (market_truncate_to h (seal_replayed_buys m, r))) = []"
proof (rule sealed_unrelayed)
  let ?es = "filter (\<lambda>(k, _). k \<le> h) (m_events (seal_replayed_buys m))"
  have "log_sealed ?es" using seal_log_sealed [of m] by (auto simp: log_sealed_def)
  from replay_sealed [OF this, of "\<lparr>m_sales = sales_new, m_challenges = [], m_events = []\<rparr>" "clear_listings r"]
  show "\<forall>s\<in>set (sales (m_sales (fst (market_truncate_to h (seal_replayed_buys m, r))))). sealed s"
    by (auto simp: market_truncate_to_def sales_new_def Let_def split: prod.split)
qed

section \<open>The stages in sequence\<close>

lemma boot_wallet_parts:
  assumes "boot_wallet B T bd N birthday sx = Inr (checkpoint, w)"
  obtains origin sapling_roots ironwood_roots where "bn_treestate N (if bd_network bd = RegtestNet then birthday - 1 else birthday - 101) = Inr origin"
    "checkpoint = cs_height origin"
    "wallet_new T [(TREASURY_ACCOUNT, keys_fvk B (sx_treasury sx)), (REGISTRY_ACCOUNT, keys_fvk B (sx_registry sx))]
       origin sapling_roots ironwood_roots = Some (Inr w)"
  using assms that by (auto simp: boot_wallet_def origin_checkpoint_def result_simps)

lemma boot_scan_parts:
  assumes "boot_scan E B T S bd N birthday sx = Inr (lock, fee, w, r, clock, m)"
  obtains checkpoint w0 clock0 best hash m0 where "boot_wallet B T bd N birthday sx = Inr (checkpoint, w0)"
    "boot_clock E (bn_time N) birthday checkpoint None = Inr (lock, clock0)" "bn_exact_tip N = Inr (best, hash)"
    "bn_standard_fee N = Inr fee" "m = seal_replayed_buys m0"
    "boot_sync E T S (sx_access_code_key sx) birthday fee (bn_block N) best (best - tip_of w0) (w0, registry_new, clock0, market_new) =
       Inr (w, r, clock, m0)"
  using assms that by (auto simp: boot_scan_def result_simps tip_of_def split: prod.splits)

text \<open>A boot that completes went through every stage.\<close>

lemma boot_start_parts:
  assumes "snd (boot_start E D B T S bd W N) = Inr b"
  obtains ceremony sx lock fee w r clock m b0 guest where "boot_ceremony E B bd W N = Inr (ceremony, sx)"
    "boot_scan E B T S bd N (ca_birthday ceremony) sx = Inr (lock, fee, w, r, clock, m)"
    "boot_faculties E D B W ceremony sx (lock, fee, w, r, clock, m) = Inr b0"
    "snd (publish_identity E B bd W (b_treasury_address b0) (b_registry_ufvk b0)) = Inr guest" "b = b0\<lparr>b_guest := guest\<rparr>"
proof -
  obtain ceremony sx scan b0 guest where "boot_ceremony E B bd W N = Inr (ceremony, sx)"
    "boot_scan E B T S bd N (ca_birthday ceremony) sx = Inr scan" "boot_faculties E D B W ceremony sx scan = Inr b0"
    "snd (publish_identity E B bd W (b_treasury_address b0) (b_registry_ufvk b0)) = Inr guest" "b = b0\<lparr>b_guest := guest\<rparr>"
    using assms unfolding boot_start_def by (auto simp: then_go_Inr split: prod.splits)
  moreover obtain lock fee w r clock m where "scan = (lock, fee, w, r, clock, m)" by (metis prod.exhaust)
  ultimately show ?thesis using that by blast
qed

lemma boot_faculties_parts:
  assumes "boot_faculties E D B W ceremony sx (lock, fee, w, r, clock, m) = Inr b"
  obtains balance where "anchor_adoption_closed r" "treasury_balance B w = Inr balance" "MIN_TREASURY_BALANCE \<le> balance"
    "b_birthday b = ca_birthday ceremony" "b_wallet b = w" "b_registry b = r" "b_market b = m" "b_mtp b = clock" "b_lock b = lock"
    "b_fee_rule b = fee" "b_treasury_keys b = sx_treasury sx" "b_registry_keys b = sx_registry sx"
    "b_access_code_key b = sx_access_code_key sx" "b_seed_fingerprint b = hex_encode E (sx_fingerprint sx)"
    "b_name_notes b = nnq_default" "b_challenges b = otp_new" "b_requests b = requests_default" "b_refunds b = refunds_default"
    "boot_oracle E D lock clock (bw_round W) = Inr (b_oracle b)" "boot_presale (bw_presale W) = Inr (b_protected_names b)"
  using assms that
  by (auto simp: boot_faculties_def require_established_ceremony_def require_treasury_balance_def result_simps split: prod.splits)

section \<open>What a boot hands over\<close>

text \<open>The node's heights are \<open>u32\<close>s.\<close>

definition node_u32 :: "('cm, 'cmx, 'h, 'f) boot_node \<Rightarrow> bool" where
  "node_u32 N \<longleftrightarrow> (\<forall>best hash. bn_exact_tip N = Inr (best, hash) \<longrightarrow> best \<le> U32_MAX) \<and>
     (\<forall>h s. bn_treestate N h = Inr s \<longrightarrow> cs_height s \<le> U32_MAX)"

lemma new_wallet_bare:
  "wallet_new T keys s sapling_roots ironwood_roots = Some (Inr w) \<Longrightarrow> w_blocks w = [] \<and> w_zebra_tip w = None \<and> tip_of w = cs_height s"
  by (auto simp: wallet_new_def Let_def result_simps block_metadata_of_def tip_of_def wallet_tip_def bt_last_def split: prod.splits if_splits)

text \<open>With no block scanned the balance check refuses, so a boot that completes has scanned some.\<close>

lemma idle_sync:
  assumes "boot_sync E T S key birthday fee fetch_block best fuel (w, r, clock, m) = Inr (w', x)" and "best \<le> tip_of w"
  shows "w' = w"
  using assms by (cases fuel) (auto simp: tip_of_def)

lemma bare_refused: "w_blocks w = [] \<Longrightarrow> w_zebra_tip w = None \<Longrightarrow> treasury_balance B w \<noteq> Inr z"
  by (simp add: treasury_balance_def summary_target_def and_then_Inr ok_or_Inr)

lemma boot_scan_good:
  assumes "boot_scan E B T S bd N birthday sx = Inr (lock, fee, w, r, clock, m)" and "node_u32 N"
    and "serves_new E T S parse birthday (\<lambda>h. [bn_block N h])" and "treasury_balance B w = Inr balance"
  shows "(\<exists>hash. bn_exact_tip N = Inr (tip_of w, hash)) \<and> mint_reach E T S parse birthday w r \<and> consistent (m, r) \<and>
         (\<exists>m0. m = seal_replayed_buys m0)"
proof -
  from assms(1) obtain checkpoint w0 clock0 best hash m0 where w0: "boot_wallet B T bd N birthday sx = Inr (checkpoint, w0)"
    and tip: "bn_exact_tip N = Inr (best, hash)" and m: "m = seal_replayed_buys m0"
    and sync: "boot_sync E T S (sx_access_code_key sx) birthday fee (bn_block N) best (best - tip_of w0)
       (w0, registry_new, clock0, market_new) = Inr (w, r, clock, m0)" by (rule boot_scan_parts) blast
  from w0 obtain origin sr ir where o1: "bn_treestate N (if bd_network bd = RegtestNet then birthday - 1 else birthday - 101) = Inr origin"
    and new: "wallet_new T [(TREASURY_ACCOUNT, keys_fvk B (sx_treasury sx)), (REGISTRY_ACCOUNT, keys_fvk B (sx_registry sx))]
       origin sr ir = Some (Inr w0)" by (rule boot_wallet_parts) blast
  have u: "best \<le> U32_MAX" "cs_height origin \<le> U32_MAX" using assms(2) tip o1 unfolding node_u32_def by blast+
  have start: "mint_reach E T S parse birthday w0 registry_new"
    by (rule mint_reach.born [OF new u(2) reg_at_new]) (simp add: registry_new_def)
  have end': "tip_of w = max (tip_of w0) best \<and> mint_reach E T S parse birthday w r"
    by (rule sync_keeps [OF sync u(1) start assms(3)])
  have "tip_of w0 < best"
    using idle_sync [OF sync] bare_refused [of w B balance] assms(4) new_wallet_bare [OF new] by fastforce
  moreover have "consistent (m, r)" unfolding m
    by (rule seal_consistent [OF run_consistent [OF sync_market [OF sync] consistent_new]]) (simp add: registry_new_def)
  ultimately show ?thesis using end' tip m by auto
qed

lemma boot_good:
  assumes "snd (boot_start E D B T S bd W N) = Inr b" and "node_u32 N"
    and "serves_new E T S parse (b_birthday b) (\<lambda>h. [bn_block N h])"
  shows "(\<exists>hash. bn_exact_tip N = Inr (tip_of (b_wallet b), hash)) \<and>
         mint_reach E T S parse (b_birthday b) (b_wallet b) (b_registry b) \<and> consistent (b_market b, b_registry b) \<and>
         (\<exists>m0. b_market b = seal_replayed_buys m0)"
  using assms(1)
proof (rule boot_start_parts)
  fix ceremony sx lock fee w r clock m b0 guest
  assume scan: "boot_scan E B T S bd N (ca_birthday ceremony) sx = Inr (lock, fee, w, r, clock, m)"
    and fac: "boot_faculties E D B W ceremony sx (lock, fee, w, r, clock, m) = Inr b0" and b: "b = b0\<lparr>b_guest := guest\<rparr>"
  from fac obtain balance where f: "treasury_balance B w = Inr balance" "b_birthday b0 = ca_birthday ceremony" "b_wallet b0 = w"
    "b_registry b0 = r" "b_market b0 = m" by (rule boot_faculties_parts) blast
  then show ?thesis using boot_scan_good [OF scan assms(2) _ f(1), where parse = parse] assms(3) b by simp
qed


abbreviation demo_start ::
  "file_write list \<times> (halt + (nat \<times> (height \<times> nat) list, unit, unit, string, bytes, nat, account, bytes) boot)" where
  "demo_start \<equiv> boot_start demo_env demo_dec demo_boot_env demo_trees ceremony_scanner demo_build demo_world demo_node"

lemma ceremony_new: "serves_new demo_env demo_trees ceremony_scanner parse birthday blocks"
  using ceremony_fresh request_fresh by (auto simp: serves_new_def ceremony_scanner_def split: if_splits)


text \<open>The check of the seed: what the unsealed seed, the capsule and the manifest agree on.\<close>

lemma seed_intake_parts:
  assumes "seed_intake B bd capsule_file report ceremony = Inr sx"
  obtains blob capsule seed fp sk where "capsule_file = Some blob" "be_parse_capsule B blob = Some capsule"
    "be_fingerprint_from_str B (str_trim (ca_seed_fingerprint ceremony)) = Some fp" "be_capsule_fingerprint B capsule = fp"
    "bd_non_tee bd \<or> (\<exists>bytes. report = Regular bytes \<and> length bytes = ATTESTATION_REPORT_LEN \<and> be_verify_report B blob fp bytes)"
    "sealing_key B bd (be_key_context B) = Some sk" "be_unseal_seed B sk capsule = Some seed" "be_fingerprint_from_seed B seed = Some fp"
    "sx_fingerprint sx = fp" "sx_capsule_hash sx = be_capsule_hash B blob" "sx_access_code_key sx = be_purpose_key B seed"
    "be_usk_from_seed B seed TREASURY_ACCOUNT = Some (ak_spending (sx_treasury sx))"
    "be_usk_from_seed B seed REGISTRY_ACCOUNT = Some (ak_spending (sx_registry sx))"
proof -
  have report: "require_keygen_attestation B report blob fp = Inr u \<longleftrightarrow>
      (\<exists>bytes. report = Regular bytes \<and> length bytes = ATTESTATION_REPORT_LEN \<and> be_verify_report B blob fp bytes)" for blob fp u
    by (cases report) (auto simp: require_keygen_attestation_def result_simps)
  show ?thesis
    using assms that
    by (auto simp: seed_intake_def verify_fingerprint_def keys_derive_def result_simps report split: if_splits)
qed

text \<open>C5: Whose mint this is. A boot that completes read a manifest of its own network; the fingerprint
  the manifest names is the capsule's and the one of the seed that was unsealed; on hardware the
  keygen report, of the length of a report, covers this capsule and this fingerprint; both accounts'
  keys come from that seed; and the ceremony's transaction is mined in the block at the birthday.\<close>

theorem boot_keys_are_the_ceremonys:
  assumes "snd (boot_start E D B T S bd W N) = Inr b"
  shows "\<exists>manifest ceremony blob capsule seed fp block outs.
     bw_manifest W = Some manifest \<and> ceremony_anchor E B bd manifest = Inr ceremony \<and>
     ca_network ceremony = NETWORK_LABEL (bd_network bd) \<and> b_birthday b = ca_birthday ceremony \<and>
     bw_capsule W = Some blob \<and> be_parse_capsule B blob = Some capsule \<and>
     be_fingerprint_from_str B (str_trim (ca_seed_fingerprint ceremony)) = Some fp \<and>
     be_capsule_fingerprint B capsule = fp \<and> be_fingerprint_from_seed B seed = Some fp \<and> b_seed_fingerprint b = hex_encode E fp \<and>
     (bd_non_tee bd \<or> (\<exists>bytes. bw_report W = Regular bytes \<and> length bytes = 1184 \<and> be_verify_report B blob fp bytes)) \<and>
     be_usk_from_seed B seed TREASURY_ACCOUNT = Some (ak_spending (b_treasury_keys b)) \<and>
     be_usk_from_seed B seed REGISTRY_ACCOUNT = Some (ak_spending (b_registry_keys b)) \<and>
     b_access_code_key b = be_purpose_key B seed \<and>
     bn_block N (b_birthday b) = Inr (block, outs) \<and> (\<exists>tx\<in>set (blk_vtx block). bx_txid tx = ca_txid ceremony)"
  using assms
proof (rule boot_start_parts)
  fix ceremony sx lock fee w r clock m b0 guest
  assume cer: "boot_ceremony E B bd W N = Inr (ceremony, sx)" and b: "b = b0\<lparr>b_guest := guest\<rparr>"
    and fac: "boot_faculties E D B W ceremony sx (lock, fee, w, r, clock, m) = Inr b0"
  from fac have f: "b_birthday b = ca_birthday ceremony" "b_treasury_keys b = sx_treasury sx" "b_registry_keys b = sx_registry sx"
    "b_access_code_key b = sx_access_code_key sx" "b_seed_fingerprint b = hex_encode E (sx_fingerprint sx)"
    unfolding b by (rule boot_faculties_parts, simp)+
  obtain manifest block outs where c: "bw_manifest W = Some manifest" "ceremony_anchor E B bd manifest = Inr ceremony"
    "ca_network ceremony = NETWORK_LABEL (bd_network bd)" "seed_intake B bd (bw_capsule W) (bw_report W) ceremony = Inr sx"
    "bn_block N (ca_birthday ceremony) = Inr (block, outs)" "\<exists>tx\<in>set (blk_vtx block). bx_txid tx = ca_txid ceremony"
    using cer by (auto simp: boot_ceremony_def load_ceremony_anchor_def require_ceremony_network_def require_anchor_on_chain_def
        result_simps list_ex_iff)
  from c(4) obtain blob capsule seed fp where s: "bw_capsule W = Some blob" "be_parse_capsule B blob = Some capsule"
    "be_fingerprint_from_str B (str_trim (ca_seed_fingerprint ceremony)) = Some fp" "be_capsule_fingerprint B capsule = fp"
    "bd_non_tee bd \<or> (\<exists>bytes. bw_report W = Regular bytes \<and> length bytes = ATTESTATION_REPORT_LEN \<and> be_verify_report B blob fp bytes)"
    "be_fingerprint_from_seed B seed = Some fp" "sx_fingerprint sx = fp" "sx_access_code_key sx = be_purpose_key B seed"
    "be_usk_from_seed B seed TREASURY_ACCOUNT = Some (ak_spending (sx_treasury sx))"
    "be_usk_from_seed B seed REGISTRY_ACCOUNT = Some (ak_spending (sx_registry sx))" by (rule seed_intake_parts) blast
  show ?thesis
    using c s f unfolding ATTESTATION_REPORT_LEN_def by metis
qed

theorem boot_keys_are_the_ceremonys_witness:
  "\<exists>b. snd demo_start = Inr b \<and> (\<exists>ceremony. ceremony_anchor demo_env demo_boot_env demo_build [] = Inr ceremony \<and>
     ca_network ceremony = ''regtest'' \<and> b_birthday b = ca_birthday ceremony)"
proof -
  obtain b where b: "snd demo_start = Inr b" using demo_boot by (metis snd_conv)
  have "bw_manifest demo_world = Some []" "NETWORK_LABEL (bd_network demo_build) = ''regtest''"
    by (simp_all add: demo_world_def demo_build_def)
  with boot_keys_are_the_ceremonys [OF b] b show ?thesis by auto
qed

section \<open>The identity document\<close>

lemma then_go_eq:
  "then_go p k = (case snd p of Inl e \<Rightarrow> (fst p, Inl e) | Inr a \<Rightarrow> (fst p @ fst (k a), snd (k a)))"
  by (cases p) (auto simp: then_go_def split: sum.split prod.split)

lemma go_quietly: "then_go (quietly (Inr a)) k = k a"
  by (simp add: then_go_eq)

lemma genesis_docs:
  "doc \<in> set (fst (write_genesis_statement E B bd W hash fp ceremony)) \<Longrightarrow>
     (\<exists>body. doc = Whole (GENESIS_RECORD_FILE, body)) \<or> doc = Partial GENESIS_RECORD_FILE"
  "doc \<in> set (fst (write_genesis_statement E B bd W hash fp ceremony)) \<Longrightarrow>
     snd (write_genesis_statement E B bd W hash fp ceremony) = Inr u \<Longrightarrow> \<exists>body. doc = Whole (GENESIS_RECORD_FILE, body)"
  by (auto simp: write_genesis_statement_def Let_def then_go_eq write_file_def split: sum.splits write_end.splits)

text \<open>A publication that fails wrote nothing, or failed at the write itself and left a part.\<close>

lemma publish_stops:
  assumes "snd (publish_identity E B bd W ua ufvk) = Inl e"
  shows "fst (publish_identity E B bd W ua ufvk) = [] \<or>
     fst (publish_identity E B bd W ua ufvk) = [Partial IDENTITY_DOC_FILE] \<and> e = Fatal (AtIdentity IdentityUnwritable) \<and>
     bw_write W IDENTITY_DOC_FILE = Torn \<and>
     (\<exists>guest. snd (publish_identity E B bd (W\<lparr>bw_write := (bw_write W)(IDENTITY_DOC_FILE := Written)\<rparr>) ua ufvk) = Inr guest)"
  using assms
  by (auto simp: publish_identity_def Let_def then_go_eq write_file_def split: sum.splits if_splits write_end.splits)

text \<open>The document a boot publishes.\<close>

definition published :: "('ua, 'cm) zenv \<Rightarrow> build \<Rightarrow> string \<Rightarrow> string \<Rightarrow> bytes \<Rightarrow> document" where
  "published E bd ua ufvk report = (IDENTITY_DOC_FILE,
     if bd_non_tee bd then dev_identity_document (NETWORK_LABEL (bd_network bd)) ua ufvk
     else identity_document E (NETWORK_LABEL (bd_network bd)) ua ufvk report)"

lemma publish_writes:
  assumes "snd (publish_identity E B bd W ua ufvk) = Inr guest"
  shows "\<exists>report. fst (publish_identity E B bd W ua ufvk) = [Whole (published E bd ua ufvk report)] \<and>
     (\<not> bd_non_tee bd \<longrightarrow> be_get_attestation B (identity_report_data E ua ufvk) = Some report)"
  using assms
  by (auto simp: publish_identity_def published_def Let_def then_go_eq write_file_def ok_or_Inr ok_or_Inl
      split: sum.splits if_splits write_end.splits)

text \<open>From the wallet on.\<close>

definition boot_rest ::
  "('ua, 'cm) zenv \<Rightarrow> 'd::linorder dec_env \<Rightarrow> ('cap, 'sk, 'seed, 'usk, 'k, 'ua, 'p) boot_env \<Rightarrow> ('t, 'h, 'f) tree_ops \<Rightarrow>
     ('t, 'h, 'n, 'k, 'ua, 'cm, 'cmx) scanner \<Rightarrow> build \<Rightarrow> 'd boot_world \<Rightarrow> ('cm, 'cmx, 'h, 'f) boot_node \<Rightarrow> CeremonyAnchor \<Rightarrow>
     'usk secrets \<Rightarrow> file_write list \<times> (halt + ('t, 'n, 'k, 'ua, 'cm, 'd, 'usk, 'p) boot)" where
  "boot_rest E D B T S bd W N ceremony sx =
     then_go (quietly (boot_scan E B T S bd N (ca_birthday ceremony) sx)) (\<lambda>scan.
     then_go (quietly (boot_faculties E D B W ceremony sx scan)) (\<lambda>b.
     then_go (publish_identity E B bd W (b_treasury_address b) (b_registry_ufvk b)) (\<lambda>guest.
     quietly (Inr (b\<lparr>b_guest := guest\<rparr>)))))"

text \<open>Nothing before the identity looks at how a write ends, the genesis statement's apart.\<close>

lemma params_dir_unseen: "sapling_params_dir (W\<lparr>bw_write := f\<rparr>) = sapling_params_dir W"
  by (simp add: sapling_params_dir_def split: option.split)

lemma params_read_unseen:
  "read_verified_sapling_params E (W\<lparr>bw_write := f\<rparr>) path = read_verified_sapling_params E W path"
  by (simp add: read_verified_sapling_params_def fun_eq_iff)

lemma params_unseen:
  "load_sapling_spend_params E B (W\<lparr>bw_write := f\<rparr>) = load_sapling_spend_params E B W"
  "load_sapling_output_params E B (W\<lparr>bw_write := f\<rparr>) = load_sapling_output_params E B W"
  by (simp_all add: load_sapling_spend_params_def load_sapling_output_params_def params_dir_unseen params_read_unseen)

lemma writes_unseen:
  "boot_ceremony E B bd (W\<lparr>bw_write := f\<rparr>) N = boot_ceremony E B bd W N"
  "boot_faculties E D B (W\<lparr>bw_write := f\<rparr>) ceremony sx scan = boot_faculties E D B W ceremony sx scan"
  "write_genesis_statement E B bd (W\<lparr>bw_write := (bw_write W)(IDENTITY_DOC_FILE := x)\<rparr>) hash fp ceremony =
     write_genesis_statement E B bd W hash fp ceremony"
  by (simp_all add: boot_ceremony_def boot_faculties_def params_unseen write_genesis_statement_def write_file_def
      IDENTITY_DOC_FILE_def GENESIS_RECORD_FILE_def)

lemma rest_stops:
  assumes "snd (boot_rest E D B T S bd W N ceremony sx) = Inl e"
  shows "fst (boot_rest E D B T S bd W N ceremony sx) = [] \<or>
     fst (boot_rest E D B T S bd W N ceremony sx) = [Partial IDENTITY_DOC_FILE] \<and> e = Fatal (AtIdentity IdentityUnwritable) \<and>
     bw_write W IDENTITY_DOC_FILE = Torn \<and>
     (\<exists>b. snd (boot_rest E D B T S bd (W\<lparr>bw_write := (bw_write W)(IDENTITY_DOC_FILE := Written)\<rparr>) N ceremony sx) = Inr b)"
  using assms publish_stops [where W = W]
  unfolding boot_rest_def by (force simp: then_go_eq writes_unseen split: sum.splits)

lemma rest_writes:
  assumes "snd (boot_rest E D B T S bd W N ceremony sx) = Inr b"
  shows "\<exists>report. fst (boot_rest E D B T S bd W N ceremony sx) = [Whole (published E bd (b_treasury_address b) (b_registry_ufvk b) report)] \<and>
     (\<not> bd_non_tee bd \<longrightarrow> be_get_attestation B (identity_report_data E (b_treasury_address b) (b_registry_ufvk b)) = Some report)"
proof -
  obtain scan b0 guest where "boot_scan E B T S bd N (ca_birthday ceremony) sx = Inr scan"
    "boot_faculties E D B W ceremony sx scan = Inr b0"
    "snd (publish_identity E B bd W (b_treasury_address b0) (b_registry_ufvk b0)) = Inr guest" "b = b0\<lparr>b_guest := guest\<rparr>"
    using assms unfolding boot_rest_def by (auto simp: then_go_Inr)
  then show ?thesis using publish_writes [of E B bd W "b_treasury_address b0" "b_registry_ufvk b0" guest]
    by (simp add: boot_rest_def then_go_eq)
qed

text \<open>C24: The identity document is the last act of a boot. A boot that stops anywhere before, or still
  waits, has not touched the file. A boot that stops at the write itself may leave a part of it, and
  then nothing else was missing: had the write succeeded, the boot would have completed. No boot that
  stops writes a whole one. A boot that completes has written exactly one, whole and after everything
  else, for the address and the viewing key it hands over, and on hardware with the report of exactly
  those two.\<close>

theorem identity_is_the_last_act:
  "(case boot_start E D B T S bd W N of
      (docs, Inl e) \<Rightarrow>
        (\<forall>doc\<in>set docs. (\<exists>body. doc = Whole (GENESIS_RECORD_FILE, body)) \<or> doc = Partial GENESIS_RECORD_FILE) \<or>
        (\<exists>before b. docs = before @ [Partial IDENTITY_DOC_FILE] \<and> (\<forall>doc\<in>set before. \<exists>body. doc = Whole (GENESIS_RECORD_FILE, body)) \<and>
           e = Fatal (AtIdentity IdentityUnwritable) \<and> bw_write W IDENTITY_DOC_FILE = Torn \<and>
           snd (boot_start E D B T S bd (W\<lparr>bw_write := (bw_write W)(IDENTITY_DOC_FILE := Written)\<rparr>) N) = Inr b)
    | (docs, Inr b) \<Rightarrow> \<exists>before report. docs = before @ [Whole (published E bd (b_treasury_address b) (b_registry_ufvk b) report)] \<and>
        (\<forall>doc\<in>set before. \<exists>body. doc = Whole (GENESIS_RECORD_FILE, body)) \<and>
        (\<not> bd_non_tee bd \<longrightarrow> be_get_attestation B (identity_report_data E (b_treasury_address b) (b_registry_ufvk b)) = Some report))"
proof (cases "boot_ceremony E B bd W N")
  case (Inl e)
  then show ?thesis by (simp add: boot_start_def then_go_eq)
next
  case cer: (Inr cs)
  obtain ceremony sx where cs: "cs = (ceremony, sx)" by (rule prod.exhaust)
  define g where "g = (if bd_non_tee bd then quietly (Inr ())
      else write_genesis_statement E B bd W (sx_capsule_hash sx) (sx_fingerprint sx) ceremony)"
  have g: "\<forall>doc\<in>set (fst g). (\<exists>body. doc = Whole (GENESIS_RECORD_FILE, body)) \<or> doc = Partial GENESIS_RECORD_FILE"
    using genesis_docs(1) by (force simp: g_def split: if_splits)
  let ?rest = "\<lambda>W. boot_rest E D B T S bd W N ceremony sx"
  let ?W = "W\<lparr>bw_write := (bw_write W)(IDENTITY_DOC_FILE := Written)\<rparr>"
  have start: "boot_start E D B T S bd W N = then_go g (\<lambda>_. ?rest W)" "boot_start E D B T S bd ?W N = then_go g (\<lambda>_. ?rest ?W)"
    unfolding boot_start_def g_def boot_rest_def by (simp_all add: cer cs go_quietly writes_unseen)
  show ?thesis
  proof (cases "snd g")
    case (Inl e)
    then show ?thesis using g by (simp add: start then_go_eq)
  next
    case through: (Inr u)
    have whole: "\<forall>doc\<in>set (fst g). \<exists>body. doc = Whole (GENESIS_RECORD_FILE, body)"
      using genesis_docs(2) through by (force simp: g_def split: if_splits)
    show ?thesis
    proof (cases "snd (?rest W)")
      case (Inl e)
      then show ?thesis using whole rest_stops [OF Inl] through by (auto simp: start then_go_eq)
    next
      case (Inr b)
      then show ?thesis using whole rest_writes [OF Inr] through by (auto simp: start then_go_eq)
    qed
  qed
qed

theorem identity_is_the_last_act_witness:
  "\<exists>before report b. fst demo_start = before @ [Whole (published demo_env demo_build (b_treasury_address b) (b_registry_ufvk b) report)] \<and>
     snd demo_start = Inr b"
proof -
  obtain docs b where b: "demo_start = (docs, Inr b)" using demo_boot by blast
  from identity_is_the_last_act [where E = demo_env and D = demo_dec and B = demo_boot_env and T = demo_trees and S = ceremony_scanner
    and bd = demo_build and W = demo_world and N = demo_node] show ?thesis
    unfolding b by auto
qed

section \<open>A boot and a catch-up agree\<close>

text \<open>With no order and no challenge in its queues, a running mint follows a block's arrivals the way a
  boot does: only the market and the Registry change, besides the requests and refunds it queues.\<close>

definition idle :: "('ua, 'cm, 'd) mint_state \<Rightarrow> bool" where
  "idle s \<longleftrightarrow> ms_name_notes s = nnq_default \<and> ms_challenges s = otp_new"

lemma empty_queues:
  "otp_complete response otp_new = (None, otp_new)" "otp_expire mtp otp_new = otp_new" "drop_challenges n otp_new = otp_new"
  "note_pending nnq_default = (\<lambda>_. False)" "reconcile_seen E r nnq_default = nnq_default"
  by (simp_all add: otp_complete_def otp_expire_def drop_challenges_def otp_new_def note_pending_def reconcile_seen_def nnq_default_def
      fun_eq_iff)

definition follows :: "('ua, 'cm, 'd) mint_state \<Rightarrow> ('ua, 'cm, 'd) mint_state \<Rightarrow> bool" where
  "follows s s' \<longleftrightarrow> idle s' \<and> ms_fee s' = ms_fee s \<and> ms_mtp s' = ms_mtp s"

lemma idle_arrive_market:
  assumes "idle s" and "arrive_market E key h mtp txid request paid s = Some s'"
  shows "follows s s' \<and>
    boot_arrive E key (ms_fee s) h mtp (txid, InMarket request, paid) (ms_market s, ms_registry s) = Some (ms_market s', ms_registry s')"
  using assms
  by (auto simp: arrive_market_def boot_arrive_def follows_def idle_def empty_queues Let_def split: option.splits)

lemma idle_arrive_response:
  assumes "idle s" and "arrive_response E h mtp txid response paid s = Some s'"
  shows "follows s s' \<and>
    boot_arrive E key (ms_fee s) h mtp (txid, InResponse response, paid) (ms_market s, ms_registry s) = Some (ms_market s', ms_registry s')"
proof -
  let ?market = "is_list (om_action response) \<or> is_delist (om_action response) \<or> is_auction (om_action response)"
  have empty: "ms_challenges s = otp_new" "ms_name_notes s = nnq_default" using assms(1) by (simp_all add: idle_def)
  show ?thesis
  proof (cases ?market)
    case True
    obtain hit m r where "market_answer E response h (ms_market s, ms_registry s) = Some (hit, m, r)"
      and "s' = refund E txid (om_ua response) (om_name response) h paid (s\<lparr>ms_market := m, ms_registry := r\<rparr>)"
      using assms(2) unfolding arrive_response_def if_P [OF True] by (auto split: prod.splits)
    then show ?thesis
      unfolding boot_arrive_def using True by (simp add: follows_def idle_def refund_def empty)
  next
    case False
    have "\<exists>q. s' = refund E txid (om_ua response) (om_name response) h paid (s\<lparr>ms_challenges := q\<rparr>) \<and> q = otp_new"
      using assms(2) unfolding arrive_response_def if_not_P [OF False] empty empty_queues by (simp split: if_splits)
    then show ?thesis using False by (auto simp: boot_arrive_def follows_def idle_def refund_def empty)
  qed
qed

lemma idle_arrive:
  assumes "idle s" and "arrive E key h mtp a s = Some s'"
  shows "follows s s' \<and> boot_arrive E key (ms_fee s) h mtp a (ms_market s, ms_registry s) = Some (ms_market s', ms_registry s')"
proof -
  obtain txid inbound paid where a: "a = (txid, inbound, paid)" by (metis prod.exhaust)
  show ?thesis
  proof (cases inbound)
    case (InMarket request)
    then show ?thesis using assms idle_arrive_market [OF assms(1)] by (simp add: a arrive_def)
  next
    case (InResponse response)
    then show ?thesis using assms idle_arrive_response [OF assms(1)] by (simp add: a arrive_def)
  qed (use assms in \<open>auto simp: a arrive_def boot_arrive_def follows_def idle_def\<close>)
qed

lemma idle_arrivals:
  "idle s \<Longrightarrow> arrivals E key h mtp as s = Some s' \<Longrightarrow>
     follows s s' \<and> each (boot_arrive E key (ms_fee s) h mtp) as (ms_market s, ms_registry s) = Some (ms_market s', ms_registry s')"
proof (induction as arbitrary: s)
  case Nil
  then show ?case by (simp add: follows_def)
next
  case (Cons a as)
  then obtain s1 where s1: "arrive E key h mtp a s = Some s1" "arrivals E key h mtp as s1 = Some s'"
    by (auto split: Option.bind_splits)
  note one = idle_arrive [OF Cons.prems(1) s1(1)]
  then have "idle s1" by (simp add: follows_def)
  from Cons.IH [OF this s1(2)] one show ?case by (simp add: follows_def)
qed

lemma idle_after_block:
  assumes "idle s" and "after_block E key h payments inbound s = Some s'"
  obtains mtp m r where "mtp_current E (ms_mtp s) = Some (Some mtp)"
    "each (boot_arrive E key (ms_fee s) h mtp) inbound (market_reconcile h (market_expire mtp h (ms_market s, ms_registry s))) = Some (m, r)"
    "ms_registry s' = r" "ms_market s' = market_observe E (\<lambda>n. map_option nr_ua (record_of r n)) payments mtp h m" "follows s s'"
proof -
  obtain mtp where mtp: "mtp_current E (ms_mtp s) = Some (Some mtp)"
    using assms(2) by (auto simp: after_block_def Let_def Option.bind_eq_Some_conv)
  obtain m r where mr: "market_reconcile h (market_expire mtp h (ms_market s, ms_registry s)) = (m, r)" by (rule prod.exhaust)
  let ?s = "s\<lparr>ms_market := m, ms_registry := r\<rparr>"
  have q: "s\<lparr>ms_name_notes := reconcile_seen E (ms_registry s) (ms_name_notes s), ms_challenges := otp_expire mtp (ms_challenges s),
      ms_market := m, ms_registry := r\<rparr> = ?s" using assms(1) by (simp add: idle_def empty_queues)
  obtain s3 where a: "arrivals E key h mtp inbound ?s = Some s3"
    and s': "s' = s3\<lparr>ms_market := market_observe E (\<lambda>n. map_option nr_ua (record_of (ms_registry s3) n)) payments mtp h (ms_market s3)\<rparr>"
    using assms(2) q by (auto simp: after_block_def Let_def Option.bind_eq_Some_conv mtp mr simp del: arrivals.simps)
  have "idle ?s" using assms(1) by (simp add: idle_def)
  from idle_arrivals [OF this a] that mtp mr s' show ?thesis by (simp add: follows_def idle_def)
qed

lemma idle_block:
  assumes "idle s" and "catch_up_block E T S key birthday blocks (w, s) = Reached (w', s')"
    and "\<And>h x. retry_loop is_retryable (blocks h) = Some (Inr x) \<Longrightarrow> fetch_block h = Inr x"
  shows "boot_sync_block E T S key birthday (ms_fee s) fetch_block (w, ms_registry s, ms_mtp s, ms_market s) =
      Inr (w', ms_registry s', ms_mtp s', ms_market s') \<and> idle s' \<and> ms_fee s' = ms_fee s"
proof -
  define h where h: "h = bm_height (wallet_tip w) + 1"
  note pass = assms(2) [unfolded catch_up_block_def Let_def case_prod_conv, folded h]
  obtain b outs where f: "retry_loop is_retryable (blocks h) = Some (Inr (b, outs))"
    using pass by (auto simp: fetched_def split: option.splits sum.splits if_splits)
  have t: "header_time_ok E (ms_mtp s) (blk_time b) = Some (Inr ())"
    using pass f by (auto simp: fetched_def split: if_splits)
  obtain inbound r clock where a: "apply_block E (mint_wallet E T S) birthday b h (w, ms_registry s, ms_mtp s) = Some (inbound, w', r, clock)"
    and af: "after_block E key h (transparent_payments outs) inbound (s\<lparr>ms_registry := r, ms_mtp := clock\<rparr>) = Some s'"
    using pass f by (auto simp: fetched_def split: if_splits option.splits prod.splits)
  have i: "idle (s\<lparr>ms_registry := r, ms_mtp := clock\<rparr>)" using assms(1) by (simp add: idle_def)
  show ?thesis
    unfolding boot_sync_block_def Let_def case_prod_conv h [symmetric]
    by (rule idle_after_block [OF i af])
      (use assms(3) [OF f] t a in \<open>simp add: follows_def require_def expect_ok_def ok_or_def\<close>)
qed

text \<open>C10: A restart loses nothing of the chain. The wallet, the Registry, the clock and the market a running
  mint with empty queues reaches by catching up to a height are exactly what a boot's sync reaches
  from the same state over the same blocks. So the mint that ran and the mint that starts later
  agree on every name, listing and open sale.\<close>

theorem restart_agrees:
  assumes "catch_up E T S key birthday blocks best fuel (w, s) = Reached (w', s')" and "idle s"
    and "\<forall>h x. retry_loop is_retryable (blocks h) = Some (Inr x) \<longrightarrow> fetch_block h = Inr x"
  shows "boot_sync E T S key birthday (ms_fee s) fetch_block best fuel (w, ms_registry s, ms_mtp s, ms_market s) =
           Inr (w', ms_registry s', ms_mtp s', ms_market s') \<and> idle s'"
  using assms(1,2)
proof (induction fuel arbitrary: w s)
  case 0
  then show ?case by (auto split: if_splits)
next
  case (Suc fuel)
  show ?case
  proof (cases "bm_height (wallet_tip w) < best")
    case True
    then obtain w1 s1 where b: "catch_up_block E T S key birthday blocks (w, s) = Reached (w1, s1)"
      and rest: "catch_up E T S key birthday blocks best fuel (w1, s1) = Reached (w', s')"
      using Suc.prems(1) by (auto split: pass.splits)
    note one = idle_block [OF Suc.prems(2) b, of fetch_block] 
    from one assms(3) Suc.IH [OF rest] True show ?thesis by simp
  qed (use Suc.prems in auto)
qed

text \<open>The catch-up over the block that claims \<open>alice\<close>, and the sync that reads it at a later boot.\<close>

theorem restart_agrees_witness:
  "\<exists>w' s'. catch_up demo_env demo_trees once_scanner ''k'' 1 served 10 1 (demo_new_wallet, pass_state0) = Reached (w', s') \<and>
     boot_sync demo_env demo_trees once_scanner ''k'' 1 (ms_fee pass_state0) (\<lambda>h. if h = 10 then Inr (claim_block, []) else Inl TimeoutError) 10 1
       (demo_new_wallet, ms_registry pass_state0, ms_mtp pass_state0, ms_market pass_state0) =
     Inr (w', ms_registry s', ms_mtp s', ms_market s')"
proof -
  obtain w' s' where c: "catch_up demo_env demo_trees once_scanner ''k'' 1 served 10 1 (demo_new_wallet, pass_state0) = Reached (w', s')"
    using demo_catch_up by auto
  have i: "idle pass_state0" by (simp add: idle_def pass_state0_def demo_state_def)
  have f: "\<forall>h x. retry_loop is_retryable (served h) = Some (Inr x) \<longrightarrow> (if h = 10 then Inr (claim_block, []) else Inl TimeoutError) = Inr x"
    by (auto split: if_splits)
  from restart_agrees [OF c i f] c show ?thesis by blast
qed

end
