(* ===== verification/Process.thy ===== *)
theory Process
  imports Boot_Laws Treasury_Tx
begin

text \<open>
  The whole process: a boot, then the loop of \<open>src/main.rs\<close>. A pass first follows the node to the
  tip it announced, starting over when the chain moves under it, and then does its work at that
  tip: requests, relays, orders, refunds and the sweep. What its transactions do to the wallet
  are the sends, locks and unlocks of the wallet's own operations.
\<close>

declare split_paired_All [simp del] split_paired_Ex [simp del]

section \<open>The loop\<close>

text \<open>The state the loop starts from: \<open>main\<close> takes the boot apart.\<close>

definition boot_state :: "('t, 'n, 'k, 'ua, 'cm, 'd, 'usk, 'p) boot \<Rightarrow> ('ua, 'cm, 'd) mint_state" where
  "boot_state b =
     \<lparr>ms_registry = b_registry b, ms_name_notes = b_name_notes b, ms_challenges = b_challenges b, ms_market = b_market b,
      ms_requests = b_requests b, ms_refunds = b_refunds b, ms_oracle = b_oracle b, ms_mtp = b_mtp b,
      ms_protected = b_protected_names b, ms_fee = b_fee_rule b\<rparr>"

text \<open>The end of a pass: the sweep of a new day, when no refund waits. The result is the transaction
  handed to the node, if any; a sweep that could not be built is only logged.\<close>

definition sweep_pass ::
  "int \<Rightarrow> int \<Rightarrow> (('e + 'tx option) may_panic) \<Rightarrow> ('ua, 'cm, 'd) mint_state \<Rightarrow> 'tx option may_panic" where
  "sweep_pass today previous_day sweep s =
     (if sweep_due today previous_day s
      then map_option (\<lambda>res. case res of Inr tx \<Rightarrow> tx | Inl _ \<Rightarrow> None) sweep
      else Some None)"

inductive wallet_use :: "(bytes \<Rightarrow> memo option) \<Rightarrow> ('t, 'n, 'k) wallet \<Rightarrow> ('t, 'n, 'k) wallet \<Rightarrow> bool" for parse where
  untouched: "wallet_use parse w w"
| sent: "wallet_use parse w w' \<Longrightarrow> wallet_use parse w (store_transactions_to_be_sent parse txs w')"
| locked: "wallet_use parse w w' \<Longrightarrow> lock_outputs outs owner expiry w' = Inr (n, w'') \<Longrightarrow> wallet_use parse w w''"
| unlocked: "wallet_use parse w w' \<Longrightarrow> wallet_use parse w (snd (unlock_output out owner w'))"

text \<open>One run of the process from the boot \<open>b\<close>: the states at the start of its passes and at the tips.\<close>

inductive mint_process ::
  "('ua, 'cm) zenv \<Rightarrow> 'd::linorder dec_env \<Rightarrow> ('t, 'h, 'f) tree_ops \<Rightarrow> ('t, 'h, 'n, 'k, 'ua, 'cm, 'cmx) scanner \<Rightarrow>
     (bytes \<Rightarrow> memo option) \<Rightarrow> ('t, 'n, 'k, 'ua, 'cm, 'd, 'usk, 'p) boot \<Rightarrow> ('t, 'n, 'k) wallet \<Rightarrow> ('ua, 'cm, 'd) mint_state \<Rightarrow> bool"
  for E D T S parse b where
  started: "mint_process E D T S parse b (b_wallet b) (boot_state b)"
| converged: "mint_process E D T S parse b w s \<Longrightarrow>
    converge E T S (b_access_code_key b) (b_birthday b) (b_lock b) hashes get_time blocks best (w, s) = Reached (day, w', s') \<Longrightarrow>
    best \<le> U32_MAX \<Longrightarrow> serves_new E T S parse (b_birthday b) blocks \<Longrightarrow> mint_process E D T S parse b w' s'"
| restarted: "mint_process E D T S parse b w s \<Longrightarrow>
    converge E T S (b_access_code_key b) (b_birthday b) (b_lock b) hashes get_time blocks best (w, s) = Restarted (w', s') \<Longrightarrow>
    best \<le> U32_MAX \<Longrightarrow> serves_new E T S parse (b_birthday b) blocks \<Longrightarrow> mint_process E D T S parse b w' s'"
| tip: "mint_process E D T S parse b w s \<Longrightarrow>
    tip_pass E D (b_access_code_key b) (b_lock b) (tip_of w) ti s = Some s' \<Longrightarrow> wallet_use parse w w' \<Longrightarrow>
    mint_process E D T S parse b w' s'"

section \<open>The market through a pass\<close>

abbreviation book :: "('ua, 'cm, 'd) mint_state \<Rightarrow> ('ua, 'cm) market \<times> ('ua, 'cm) registry" where
  "book s \<equiv> (ms_market s, ms_registry s)"

abbreviation book_run :: "('ua, 'cm) zenv \<Rightarrow> ('ua, 'cm, 'd) mint_state \<Rightarrow> ('ua, 'cm, 'd) mint_state \<Rightarrow> bool" where
  "book_run E s s' \<equiv> market_run E (\<lambda>_. True) (book s) (book s')"

text \<open>At a tip the Registry stands still and the market moves by its own operations.\<close>

definition moves :: "('ua, 'cm) zenv \<Rightarrow> ('ua, 'cm, 'd) mint_state \<Rightarrow> ('ua, 'cm, 'd) mint_state \<Rightarrow> bool" where
  "moves E s s' \<longleftrightarrow> ms_registry s' = ms_registry s \<and> book_run E s s'"

lemma moves_same: "ms_registry s' = ms_registry s \<Longrightarrow> ms_market s' = ms_market s \<Longrightarrow> moves E s s'"
  by (simp add: moves_def market_run.refl)

lemma moves_trans: "moves E s s' \<Longrightarrow> moves E s' s'' \<Longrightarrow> moves E s s''"
  unfolding moves_def using run_trans by fastforce

lemma moves_each: "each f xs s = Some s' \<Longrightarrow> (\<And>x a a'. f x a = Some a' \<Longrightarrow> moves E a a') \<Longrightarrow> moves E s s'"
  by (rule each_keeps [of f "moves E"]) (auto intro: moves_same moves_trans)

lemma admit_order_book [simp]: "ms_market (snd (admit_order h nt s)) = ms_market s"
  by (simp add: admit_order_def split: prod.split bool.split)

lemma refund_book [simp]: "ms_market (refund E txid ua n h z s) = ms_market s" "ms_registry (refund E txid ua n h z s) = ms_registry s"
  by (simp_all add: refund_def)

lemma moves_claim:
  assumes "decide_claim E key rate mtp txid n ua t c paid h s = Some s'"
  shows "moves E s s'"
proof -
  have admitted: "book s1 = book s" if "admit_order h nt s = (ok, s1)" for nt ok s1
    using that admit_order_book [of h nt s] admit_order_registry [of h nt s] by simp
  have "book (case authorize_claim E (ms_registry s) n ua t mtp of
        None \<Rightarrow> if \<not> is_available (ms_registry s) n then refund E txid ua n h paid s else s
      | Some nt \<Rightarrow> (case admit_order h nt s of (True, s1) \<Rightarrow> s1 | (False, s1) \<Rightarrow> refund E txid ua n h paid s1)) = book s"
    using admitted by (simp split: option.split prod.split bool.split)
  note authorized = this
  show ?thesis
  proof (cases "is_protected (ms_protected s) n mtp \<and> c = None")
    case True
    then show ?thesis using assms by (auto simp: decide_claim_def intro!: moves_same)
  next
    case False
    then obtain quote where "quote_at E rate n t = Some quote" and s': "s' = (case quote of
           None \<Rightarrow> s
         | Some price \<Rightarrow>
             if paid < price then refund E txid ua n h paid s
             else if is_protected (ms_protected s) n mtp \<and> \<not> key_accepts E key n c
             then refund E txid ua n h (case zat_sub paid (access_code_penalty price) of Some z \<Rightarrow> z | None \<Rightarrow> 0) s
             else (case authorize_claim E (ms_registry s) n ua t mtp of
                 None \<Rightarrow> if \<not> is_available (ms_registry s) n then refund E txid ua n h paid s else s
               | Some nt \<Rightarrow> (case admit_order h nt s of (True, s1) \<Rightarrow> s1 | (False, s1) \<Rightarrow> refund E txid ua n h paid s1)))"
      using assms unfolding decide_claim_def Let_def if_not_P [OF False] by auto
    have "book s' = book s" unfolding s' using authorized by (cases quote) simp_all
    then show ?thesis by (auto intro: moves_same)
  qed
qed

lemma moves_challenge: "decide_challenge E ds target mtp request paid s = Some s' \<Longrightarrow> moves E s s'"
  by (auto simp: decide_challenge_def split: if_splits option.splits intro!: moves_same)

lemma moves_decide:
  assumes "decide_request E key draws rate target mtp a s = Some s'"
  shows "moves E s s'"
proof -
  obtain txid request paid h where a: "a = (txid, request, paid, h)" by (metis prod.exhaust)
  let ?s = "s\<lparr>ms_requests := request_resolved txid (ms_requests s)\<rparr>"
  have "moves E ?s s'"
    using assms moves_claim moves_challenge by (cases request) (fastforce simp: a decide_request_def)+
  then show ?thesis by (rule moves_trans [rotated]) (simp add: moves_same)
qed

lemma moves_relay_requested: "relay_requested sent target mtp pending s = Some s' \<Longrightarrow> moves E s s'"
  by (auto simp: relay_requested_def split: if_splits option.splits intro!: moves_same)

lemma moves_relay_market: "relay_market sent challenge s = Some s' \<Longrightarrow> moves E s s'"
  by (auto simp: relay_market_def moves_def split: if_splits intro!: market_run.refl run_one market_step.challenge_relayed)

lemma moves_relay_buys: "relay_buys sent_buy otp s = Some s' \<Longrightarrow> moves E s s'"
  by (auto simp: relay_buys_def moves_def split: if_splits intro!: market_run.refl run_one market_step.relayed)

lemma moves_relays:
  assumes "relays E sent sent_buy target mtp s = Some s'"
  shows "moves E s s'"
proof -
  obtain s1 s2 xs ys zs where e: "each (relay_requested sent target mtp) xs s = Some s1" "each (relay_market sent) ys s1 = Some s2"
    "each (relay_buys sent_buy) zs s2 = Some s'"
    using assms by (auto simp: relays_def Option.bind_eq_Some_conv)
  have "moves E s s1" by (rule moves_each [OF e(1)]) (erule moves_relay_requested)
  moreover have "moves E s1 s2" by (rule moves_each [OF e(2)]) (erule moves_relay_market)
  moreover have "moves E s2 s'" by (rule moves_each [OF e(3)]) (erule moves_relay_buys)
  ultimately show ?thesis using moves_trans by blast
qed

lemma moves_poll: "moves E s (poll_sales tip s)"
proof -
  obtain nts m where p: "market_poll (ms_registry s) (note_pending (ms_name_notes s)) tip (ms_market s) = (nts, m)" by (rule prod.exhaust)
  have "ms_market (fold (\<lambda>nt s. snd (admit_order tip nt s)) nts s1) = ms_market s1 \<and>
      ms_registry (fold (\<lambda>nt s. snd (admit_order tip nt s)) nts s1) = ms_registry s1" for s1 :: "('a, 'b, 'c) mint_state"
    by (induction nts arbitrary: s1) simp_all
  then show ?thesis
    using run_one [OF _ market_step.poll, of "\<lambda>_. True" tip E "ms_market s" "ms_registry s" "note_pending (ms_name_notes s)"]
    by (simp add: moves_def poll_sales_def p)
qed

lemma moves_orders:
  assumes "orders_pass spendable send tip mtp s = Some s'"
  shows "moves E s s'"
proof -
  have due: "drop_due_update mtp nt s1 = Some s2 \<Longrightarrow> moves E s1 s2" for nt s1 s2
    by (auto simp: drop_due_update_def split: if_splits intro!: moves_same)
  have sign: "(\<lambda>(i, nt). sign_order (spendable i) (send i) nt) x s1 = Some s2 \<Longrightarrow> moves E s1 s2" for x s1 s2
    by (cases x) (auto simp: sign_order_def Option.bind_eq_Some_conv split: sum.splits bool.splits option.splits intro!: moves_same)
  have life: "moves E s1 (fold (lifecycle_release tip) xs s1)" for xs s1
  proof (induction xs arbitrary: s1)
    case (Cons x xs)
    have "moves E s1 (lifecycle_release tip x s1)"
      by (cases x) (auto simp: lifecycle_release_def intro!: moves_same)
    then show ?case using Cons.IH moves_trans by simp blast
  qed (simp add: moves_same)
  let ?s = "(poll_sales tip s)\<lparr>ms_name_notes := expire_sent tip (ms_name_notes (poll_sales tip s))\<rparr>"
  obtain s3 xs ys zs where e: "each (drop_due_update mtp) xs ?s = Some s3"
    "each (\<lambda>(i, nt). sign_order (spendable i) (send i) nt) zs (fold (lifecycle_release tip) ys s3) = Some s'"
    using assms by (auto simp: orders_pass_def Let_def Option.bind_eq_Some_conv)
  have "moves E ?s s3" by (rule moves_each [OF e(1)]) (erule due)
  moreover have "moves E (fold (lifecycle_release tip) ys s3) s'" by (rule moves_each [OF e(2)]) (erule sign)
  ultimately have "moves E ?s s'" using life [of s3 ys] moves_trans by blast
  moreover have "moves E (poll_sales tip s) ?s" by (simp add: moves_same)
  ultimately show ?thesis using moves_poll moves_trans by blast
qed

text \<open>A tip that is still the node's: the four passes, over a state whose books are untouched.\<close>

lemma tip_pass_parts:
  assumes "tip_pass E D key lock tip ti s = Some s'" and "ti_confirmed ti"
  obtains mtp rate prot orc fee s3 s4 s5
  where "decide_requests E key (ti_draws ti) rate (tip + 1) mtp (s\<lparr>ms_protected := prot, ms_oracle := orc, ms_fee := fee\<rparr>) = Some s3"
    "relays E (ti_sent ti) (ti_sent_buy ti) (tip + 1) mtp s3 = Some s4"
    "orders_pass (ti_spendable ti) (ti_send ti) tip mtp s4 = Some s5"
    "each (\<lambda>(i, built). pay_refund (ti_pay ti i) built) (enumerate 0 (refund_due tip (ms_refunds s5))) s5 = Some s'"
proof -
  note pass = assms(1) [unfolded tip_pass_def Let_def Option.bind_eq_Some_conv]
  then have "\<not> \<not> ti_confirmed ti" using assms(2) by simp
  from pass [unfolded if_not_P [OF this] Option.bind_eq_Some_conv] that show ?thesis by (elim exE conjE)
qed

lemma moves_tip:
  assumes "tip_pass E D key birthday tip ti s = Some s'"
  shows "moves E s s'"
proof (cases "ti_confirmed ti")
  case False
  then show ?thesis using assms unfolding tip_pass_def Let_def by (auto simp: Option.bind_eq_Some_conv intro!: moves_same)
next
  case True
  have pay: "(\<lambda>(i, built). pay_refund (ti_pay ti i) built) x a = Some a' \<Longrightarrow> moves E a a'" for x a a'
    by (cases x) (auto simp: pay_refund_def intro!: moves_same split: if_splits)
  from assms True show ?thesis
  proof (rule tip_pass_parts)
    fix mtp rate prot orc fee s3 s4 s5
    define s2 where "s2 = s\<lparr>ms_protected := prot, ms_oracle := orc, ms_fee := fee\<rparr>"
    assume d: "decide_requests E key (ti_draws ti) rate (tip + 1) mtp (s\<lparr>ms_protected := prot, ms_oracle := orc, ms_fee := fee\<rparr>) = Some s3"
      and r: "relays E (ti_sent ti) (ti_sent_buy ti) (tip + 1) mtp s3 = Some s4"
      and o: "orders_pass (ti_spendable ti) (ti_send ti) tip mtp s4 = Some s5"
      and p: "each (\<lambda>(i, built). pay_refund (ti_pay ti i) built) (enumerate 0 (refund_due tip (ms_refunds s5))) s5 = Some s'"
    have "moves E s s2" by (simp add: s2_def moves_same)
    moreover have "moves E s2 s3"
      using d unfolding decide_requests_def s2_def [symmetric] by (rule moves_each) (erule moves_decide)
    moreover have "moves E s5 s'" by (rule moves_each [OF p]) (erule pay)
    ultimately show ?thesis using moves_relays [OF r] moves_orders [OF o] moves_trans by blast
  qed
qed

section \<open>The market along the chain\<close>

lemma apply_response_market:
  assumes "apply_response E h mtp txid response sent paid s = Some s'"
  shows "ms_market s' = ms_market s"
proof -
  obtain rest where r: "response_rest E (ms_oracle s) (ch_request sent) paid = Some rest"
    using assms by (cases "response_rest E (ms_oracle s) (ch_request sent) paid") (simp_all add: apply_response_def Let_def)
  have auth: "ms_market s' = ms_market s"
    if "map_option f (authorize_response E (ms_registry s) sent mtp) = Some s'" "\<And>x. ms_market (f x) = ms_market s" for f
    using that by auto
  show ?thesis using assms
    by (cases rest) (auto simp: apply_response_def Let_def r split: if_splits intro: auth split: option.split)
qed

lemma run_arrive:
  assumes "arrive E key h mtp a s = Some s'"
  shows "book_run E s s'"
proof -
  obtain txid inbound paid where a: "a = (txid, inbound, paid)" by (metis prod.exhaust)
  show ?thesis
  proof (cases inbound)
    case (InMarket request)
    then obtain ad m where "market_admit E key txid request paid (ms_registry s) (ms_fee s) h mtp (note_pending (ms_name_notes s)) (ms_market s)
        = Some (ad, m)" and "book s' = (m, ms_registry s)"
      using assms by (auto simp: a arrive_def arrive_market_def Let_def split: option.splits)
    then show ?thesis
      using run_one [where P = "\<lambda>_. True", OF _ market_step.admit [where E = E and m = "ms_market s" and r = "ms_registry s"]] by auto
  next
    case (InResponse response)
    then have r: "arrive_response E h mtp txid response paid s = Some s'" using assms by (simp add: a arrive_def)
    have "book s' = book s \<or> (\<exists>hit. market_answer E response h (book s) = Some (hit, book s'))"
    proof (cases "is_list (om_action response) \<or> is_delist (om_action response) \<or> is_auction (om_action response)")
      case True
      then show ?thesis using r unfolding arrive_response_def if_P [OF True] by auto
    next
      case False
      have "book s' = book s0" if "apply_response E h mtp txid response sent paid s0 = Some s'" for sent s0
        using apply_response_registry [OF that] apply_response_market [OF that] by simp
      then show ?thesis using r unfolding arrive_response_def if_not_P [OF False]
        by (auto split: if_splits prod.splits option.splits)
    qed
    then show ?thesis using run_one [OF _ market_step.answer] market_run.refl by metis
  qed (use assms in \<open>auto simp: a arrive_def intro: market_run.refl\<close>)
qed

lemma run_arrivals: "arrivals E key h mtp as s = Some s' \<Longrightarrow> book_run E s s'"
proof (induction as arbitrary: s)
  case (Cons a as)
  then obtain s1 where "arrive E key h mtp a s = Some s1" "arrivals E key h mtp as s1 = Some s'"
    by (auto split: Option.bind_splits)
  then show ?case using Cons.IH run_arrive run_trans by metis
qed (simp add: market_run.refl)

lemma after_block_parts:
  assumes "after_block E key h payments inbound s = Some s'"
  obtains mtp m1 r1 m r s3 where "market_expire mtp h (book s) = (m1, r1)" "market_reconcile h (m1, r1) = (m, r)"
    "market_run E (\<lambda>_. True) (book s) (m, r)"
    "arrivals E key h mtp inbound (s\<lparr>ms_name_notes := reconcile_seen E (ms_registry s) (ms_name_notes s),
       ms_challenges := otp_expire mtp (ms_challenges s), ms_market := m, ms_registry := r\<rparr>) = Some s3"
    "s' = s3\<lparr>ms_market := market_observe E (\<lambda>n. map_option nr_ua (record_of (ms_registry s3) n)) payments mtp h (ms_market s3)\<rparr>"
proof -
  obtain mtp where mtp: "mtp_current E (ms_mtp s) = Some (Some mtp)"
    using assms by (auto simp: after_block_def Let_def Option.bind_eq_Some_conv)
  obtain m1 r1 where e: "market_expire mtp h (book s) = (m1, r1)" by (rule prod.exhaust)
  obtain m r where mr: "market_reconcile h (m1, r1) = (m, r)" by (rule prod.exhaust)
  have "market_run E (\<lambda>_. True) (book s) (m1, r1)" using run_one [OF _ market_step.expire, of "\<lambda>_. True" h E _ _ mtp] e by metis
  moreover have "market_run E (\<lambda>_. True) (m1, r1) (m, r)" using run_one [OF _ market_step.reconcile, of "\<lambda>_. True" h E m1 r1] mr by simp
  ultimately have run: "market_run E (\<lambda>_. True) (book s) (m, r)" by (meson run_trans)
  show ?thesis
    using assms that [OF e mr run] by (auto simp: after_block_def Let_def Option.bind_eq_Some_conv mtp e mr simp del: arrivals.simps)
qed

lemma run_after_block:
  assumes "after_block E key h payments inbound s = Some s'"
  shows "book_run E s s'"
  using assms
proof (rule after_block_parts)
  fix mtp m r s3
  assume run: "market_run E (\<lambda>_. True) (book s) (m, r)"
    and a: "arrivals E key h mtp inbound (s\<lparr>ms_name_notes := reconcile_seen E (ms_registry s) (ms_name_notes s),
       ms_challenges := otp_expire mtp (ms_challenges s), ms_market := m, ms_registry := r\<rparr>) = Some s3"
    and s': "s' = s3\<lparr>ms_market := market_observe E (\<lambda>n. map_option nr_ua (record_of (ms_registry s3) n)) payments mtp h (ms_market s3)\<rparr>"
  have "market_run E (\<lambda>_. True) (m, r) (book s3)" using run_arrivals [OF a] by simp
  moreover have "market_run E (\<lambda>_. True) (book s3) (book s')"
    unfolding s' using run_one [OF _ market_step.observe, of "\<lambda>_. True"] by simp
  ultimately show ?thesis using run by (meson run_trans)
qed

lemma catch_up_block_parts:
  assumes "catch_up_block E T S key birthday blocks (w, s) = Reached (w', s')"
  obtains b h payments inbound r clock
  where "apply_block E (mint_wallet E T S) birthday b h (w, ms_registry s, ms_mtp s) = Some (inbound, w', r, clock)"
    "after_block E key h payments inbound (s\<lparr>ms_registry := r, ms_mtp := clock\<rparr>) = Some s'"
proof -
  define h where h: "h = bm_height (wallet_tip w) + 1"
  note pass = assms [unfolded catch_up_block_def Let_def case_prod_conv, folded h]
  obtain b outs where "retry_loop is_retryable (blocks h) = Some (Inr (b, outs))"
    using pass by (auto simp: fetched_def split: option.splits sum.splits if_splits)
  then show ?thesis using pass that by (auto simp: fetched_def split: if_splits option.splits prod.splits)
qed

lemma run_block:
  assumes "catch_up_block E T S key birthday blocks (w, s) = Reached (w', s')"
  shows "book_run E s s'"
  using assms
proof (rule catch_up_block_parts)
  fix b h payments inbound r clock
  assume a: "apply_block E (mint_wallet E T S) birthday b h (w, ms_registry s, ms_mtp s) = Some (inbound, w', r, clock)"
    and af: "after_block E key h payments inbound (s\<lparr>ms_registry := r, ms_mtp := clock\<rparr>) = Some s'"
  have "market_run E (\<lambda>_. True) (book s) (ms_market s, r)"
    by (rule run_one [OF _ market_step.registry]) (use block_listings [OF a] in simp_all)
  then show ?thesis using run_after_block [OF af] run_trans by fastforce
qed

lemma run_catch_up:
  "catch_up E T S key birthday blocks best fuel (w, s) \<in> {Reached (w', s'), Restarted (w', s')} \<Longrightarrow> book_run E s s'"
proof (induction fuel arbitrary: w s)
  case 0
  then show ?case by (auto split: if_splits intro: market_run.refl)
next
  case (Suc fuel)
  show ?case
  proof (cases "catch_up_block E T S key birthday blocks (w, s)")
    case (Reached ws1)
    obtain w1 s1 where ws1: "ws1 = (w1, s1)" by (rule prod.exhaust)
    show ?thesis
      using Suc.prems Suc.IH [of w1 s1] run_block [OF Reached [unfolded ws1]] run_trans Reached ws1
      by (auto split: if_splits intro: market_run.refl)
  qed (use Suc.prems block_restarts [of E T S key birthday blocks "(w, s)"] in \<open>auto split: if_splits intro: market_run.refl\<close>)
qed

lemma rewind_consistent:
  assumes "rewind_state E k get_time s = Some s'"
  shows "consistent (book s')"
proof -
  obtain clock where b: "mtp_backfill k get_time mtp_default = (Inr (), clock)"
    using assms by (cases "mtp_backfill k get_time mtp_default") (auto simp: rewind_state_def split: sum.splits)
  obtain mtp where c: "mtp_current E clock = Some (Some mtp)"
    using assms by (auto simp: rewind_state_def b Option.bind_eq_Some_conv)
  define mr where "mr = market_truncate_to k (ms_market s, truncate_to_height k (ms_registry s))"
  have "book s' = market_expire mtp k mr"
    using assms by (auto simp: rewind_state_def Let_def b c mr_def split: prod.splits)
  moreover have "consistent mr" unfolding mr_def by (rule truncate_consistent)
  moreover have "market_run E (\<lambda>_. True) mr (market_expire mtp k mr)"
    using run_one [OF _ market_step.expire, of "\<lambda>_. True" k E "fst mr" "snd mr"] by simp
  ultimately show ?thesis using run_consistent by metis
qed

lemma converge_consistent:
  assumes "converge E T S key birthday lock hashes get_time blocks best (w, s) = res"
    and "res = Reached (day, w', s') \<or> res = Restarted (w', s')" and "consistent (book s)"
  shows "consistent (book s')"
proof (cases "res = Restarted (w, s)")
  case True
  then show ?thesis using assms by auto
next
  case False
  show ?thesis
  proof (rule converge_parts [OF assms(1)])
    fix a w1 s1 day'
    assume r: "rewind_all E T get_time a (w, s) = Some (w1, s1)"
      and res: "res = (case catch_up E T S key birthday blocks best (best - tip_of w1) (w1, s1) of
        Reached ws2 \<Rightarrow> Reached (day', ws2)
      | Panicked \<Rightarrow> Panicked | Waiting \<Rightarrow> Waiting | OutOfFuel \<Rightarrow> OutOfFuel | Restarted ws2 \<Rightarrow> Restarted ws2)"
    have "consistent (book s1)"
      using r assms(3) rewind_consistent by (fastforce simp: rewind_all_def split: if_splits sum.splits)
    moreover have "book_run E s1 s'"
      by (rule run_catch_up [of E T S key birthday blocks best "best - tip_of w1" w1 s1 w'])
        (use res assms(2) in \<open>auto split: pass.splits\<close>)
    ultimately show ?thesis using run_consistent by blast
  qed (use assms(2) False in auto)
qed

section \<open>Every state of the process\<close>

lemma converge_reach:
  assumes "converge E T S key birthday lock hashes get_time blocks best (w, s) = res"
    and "res = Reached (day, w', s') \<or> res = Restarted (w', s')" and "mint_reach E T S parse birthday w (ms_registry s)"
    and "serves_new E T S parse birthday blocks" and "best \<le> U32_MAX"
  shows "mint_reach E T S parse birthday w' (ms_registry s')"
proof (cases "res = Restarted (w, s)")
  case True
  then show ?thesis using assms by auto
next
  case False
  show ?thesis
  proof (rule converge_parts [OF assms(1)])
    fix a w1 s1 day'
    assume r: "rewind_all E T get_time a (w, s) = Some (w1, s1)"
      and res: "res = (case catch_up E T S key birthday blocks best (best - tip_of w1) (w1, s1) of
        Reached ws2 \<Rightarrow> Reached (day', ws2)
      | Panicked \<Rightarrow> Panicked | Waiting \<Rightarrow> Waiting | OutOfFuel \<Rightarrow> OutOfFuel | Restarted ws2 \<Rightarrow> Restarted ws2)"
    have "catch_up E T S key birthday blocks best (best - tip_of w1) (w1, s1) \<in> {Reached (w', s'), Restarted (w', s')}"
      using res assms(2) by (auto split: pass.splits)
    from catch_up_reach [OF this _ assms(4,5)] show ?thesis using rewind_all_reach [OF r assms(3)] by simp
  qed (use assms(2) False in auto)
qed

lemma use_reach: "wallet_use parse w w' \<Longrightarrow> mint_reach E T S parse birthday w r \<Longrightarrow> mint_reach E T S parse birthday w' r"
  by (induction rule: wallet_use.induct) (auto intro: mint_reach.sent mint_reach.locked mint_reach.unlocked)

lemma tip_keeps:
  assumes "tip_pass E D key lock tip ti s = Some s'"
  shows "ms_registry s' = ms_registry s" and "consistent (book s) \<Longrightarrow> consistent (book s')"
  using moves_tip [OF assms] run_consistent unfolding moves_def by blast+

lemma process_keeps:
  assumes "mint_process E D T S parse b w s" and "mint_reach E T S parse (b_birthday b) (b_wallet b) (b_registry b)"
    and "consistent (b_market b, b_registry b)"
  shows "mint_reach E T S parse (b_birthday b) w (ms_registry s) \<and> consistent (book s)"
  using assms(1)
proof (induction rule: mint_process.induct)
  case started
  then show ?case using assms(2,3) by (simp add: boot_state_def)
next
  case (converged w s hashes get_time blocks best day w' s')
  then show ?case using converge_reach [OF converged.hyps(2)] converge_consistent [OF converged.hyps(2)] by blast
next
  case (restarted w s hashes get_time blocks best w' s')
  then show ?case using converge_reach [OF restarted.hyps(2)] converge_consistent [OF restarted.hyps(2)] by blast
next
  case (tip w s ti s' w')
  then show ?case using tip_keeps [OF tip.hyps(2)] use_reach [OF tip.hyps(3)] by auto
qed

lemma reach_holds:
  assumes "mint_reach E T S parse birthday w r" and "record_of r n = Some rec"
  shows "holds w (nr_predecessor_nullifier rec) (nr_confirmed_height rec)"
proof -
  have j: "reg_inv r" "held w r" using mint_reach_joint [OF assms(1)] reg_at_inv by (auto simp: joint_ok_def)
  have "rec \<in> set (record_history r n)" "\<not> released rec" using record_of_last [OF j(1) assms(2)] last_in_set by auto
  with j(2) show ?thesis unfolding held_def by blast
qed

text \<open>C3: The whole process. From a boot that completed, whatever the node serves, however often the
  chain moves under the mint and whatever it sends, locks and unlocks at its tips, two things hold
  between and within its passes: the wallet holds the note that carries the authority over every
  live name, mined where the Registry says, and the market is the replay of its log, with at most
  one sale for a name.\<close>

theorem process_keeps_names:
  assumes "snd (boot_start E D B T S bd W N) = Inr b" and "node_u32 N"
    and "serves_new E T S parse (b_birthday b) (\<lambda>h. [bn_block N h])" and "mint_process E D T S parse b w s"
  shows "(\<forall>n rec. record_of (ms_registry s) n = Some rec \<longrightarrow> holds w (nr_predecessor_nullifier rec) (nr_confirmed_height rec)) \<and>
         consistent (ms_market s, ms_registry s) \<and> distinct (map s_name (sales (m_sales (ms_market s))))"
proof -
  have "mint_reach E T S parse (b_birthday b) (b_wallet b) (b_registry b) \<and> consistent (b_market b, b_registry b)"
    using boot_good [OF assms(1-3)] by blast
  from process_keeps [OF assms(4)] this
  have "mint_reach E T S parse (b_birthday b) w (ms_registry s)" "consistent (book s)" by blast+
  then show ?thesis using reach_holds consistent_distinct(1) by blast
qed

end
