(* ===== verification/Metrics.thy ===== *)
theory Metrics
  imports Run_Loop_Laws Boot
begin

text \<open>
  The page the mint shows its host, \<open>src/metrics.rs\<close>: the boot facts, the requests in flight and
  the answer of the listener. The recorder that keeps and prints the gauges is another crate's; its
  text is an argument of \<open>page\<close>.
\<close>

section \<open>The gauges of a boot\<close>

text \<open>A gauge as it is set: its name, its labels and its value.\<close>

type_synonym gauge = "string \<times> (string \<times> string) list \<times> nat"

definition metrics_identity :: "string \<Rightarrow> string \<Rightarrow> gauge" where
  "metrics_identity treasury_address registry_ufvk =
     (''zns_mint_identity_info'', [(''treasury_address'', treasury_address), (''registry_ufvk'', registry_ufvk)], 1)"

definition metrics_ceremony :: "string \<Rightarrow> string \<Rightarrow> gauge" where
  "metrics_ceremony seed_fingerprint capsule_hash =
     (''zns_mint_ceremony_info'', [(''seed_fingerprint'', seed_fingerprint), (''capsule_hash'', capsule_hash)], 1)"

definition metrics_guest :: "string \<Rightarrow> string \<Rightarrow> gauge" where
  "metrics_guest measurement guest_policy =
     (''zns_mint_guest_info'', [(''measurement'', measurement), (''guest_policy'', guest_policy)], 1)"

definition metrics_serving :: "bool \<Rightarrow> gauge" where
  "metrics_serving b = (''zns_mint_serving'', [], if b then 1 else 0)"

text \<open>What \<open>main\<close> sets between the boot and the loop, in order.\<close>

definition boot_gauges :: "('t, 'n, 'k, 'ua, 'cm, 'd, 'usk, 'p) boot \<Rightarrow> gauge list" where
  "boot_gauges b =
     [metrics_identity (b_treasury_address b) (b_registry_ufvk b), metrics_ceremony (b_seed_fingerprint b) (b_capsule_hash b)] @
     (case b_guest b of Some guest \<Rightarrow> [metrics_guest (gi_measurement guest) (gi_guest_policy guest)] | None \<Rightarrow> []) @
     [metrics_serving False, metrics_serving True]"

section \<open>The requests in flight\<close>

abbreviation newline :: char where
  "newline \<equiv> CHR 0x0A"

abbreviation dquote :: char where
  "dquote \<equiv> CHR 0x22"

definition sample_line :: "string \<times> nat \<Rightarrow> string" where
  "sample_line = (\<lambda>(n, state). ''zns_mint_request_state{name='' @ dquote # n @ dquote # ''} '' @ dec state @ [newline])"

definition request_states :: "name list \<Rightarrow> name list \<Rightarrow> (string, nat) btree" where
  "request_states working awaiting_response =
     fold (\<lambda>n. bt_insert (as_str n) 1) working (fold (\<lambda>n. bt_insert (as_str n) 2) awaiting_response [])"

definition requests_in_flight :: "name list \<Rightarrow> name list \<Rightarrow> string" where
  "requests_in_flight working awaiting_response =
     (let states = request_states working awaiting_response in
      if states = [] then []
      else ''# TYPE zns_mint_request_state gauge'' @ newline # concat (map sample_line states))"

text \<open>The call at the head of every pass.\<close>

definition pass_in_flight :: "('ua, 'cm, 'd) mint_state \<Rightarrow> string" where
  "pass_in_flight s =
     requests_in_flight
       (request_names (ms_requests s) @ otp_unrelayed (ms_challenges s) @ market_names (ms_market s) @ authorized_names (ms_name_notes s))
       (otp_relayed (ms_challenges s))"

definition metrics_page :: "string \<Rightarrow> string \<Rightarrow> string" where
  "metrics_page recorder in_flight = recorder @ in_flight"

definition metrics_serve :: "string \<Rightarrow> string \<Rightarrow> string \<Rightarrow> string" where
  "metrics_serve path recorder in_flight = (if path = ''/health'' then ''OK'' else metrics_page recorder in_flight)"

section \<open>Reading the page back\<close>

text \<open>What a scraper reads of this metric: of every line of its form, the label and the value.\<close>

definition read_sample :: "string \<Rightarrow> (string \<times> nat) option" where
  "read_sample line =
     (case split_on dquote line of
        [p, n, q] \<Rightarrow> if p = ''zns_mint_request_state{name='' \<and> take 2 q = ''} '' then map_option (Pair n) (parse_upto 255 (drop 2 q)) else None
      | _ \<Rightarrow> None)"

definition read_samples :: "string \<Rightarrow> (string \<times> nat) list" where
  "read_samples body = List.map_filter read_sample (split_on newline body)"

lemma dec_chars: "\<not> is_ascii_digit c \<Longrightarrow> c \<notin> set (dec n)"
  by (rule digits_no_char) simp_all

lemma read_sample_line:
  assumes "dquote \<notin> set n" and "v \<le> 255"
  shows "read_sample (''zns_mint_request_state{name='' @ dquote # n @ dquote # ''} '' @ dec v) = Some (n, v)"
proof -
  have "dquote \<notin> set (''} '' @ dec v)" using dec_chars [of dquote v] by (simp add: is_ascii_digit_def byte_of_def)
  then have "split_on dquote (n @ dquote # ''} '' @ dec v) = [n, ''} '' @ dec v]"
    using assms(1) by (simp add: split_on_append split_on_piece del: append_Cons)
  moreover have "dquote \<notin> set ''zns_mint_request_state{name=''" by simp
  ultimately have "split_on dquote (''zns_mint_request_state{name='' @ dquote # n @ dquote # ''} '' @ dec v) =
      [''zns_mint_request_state{name='', n, ''} '' @ dec v]"
    using split_on_append by metis
  then show ?thesis using assms(2) by (simp add: read_sample_def)
qed

lemma read_lines:
  assumes "\<forall>(n, v)\<in>set states. dquote \<notin> set n \<and> newline \<notin> set n \<and> v \<le> 255"
  shows "read_samples (concat (map sample_line states)) = states"
  using assms
proof (induction states)
  case Nil
  then show ?case by (simp add: read_samples_def read_sample_def map_filter_def)
next
  case (Cons x states)
  obtain n v where x: "x = (n, v)" by (rule prod.exhaust)
  let ?l = "''zns_mint_request_state{name='' @ dquote # n @ dquote # ''} '' @ dec v"
  have l: "sample_line x = ?l @ [newline]" by (simp add: sample_line_def x)
  have "newline \<notin> set (dec v)" using dec_chars [of newline v] by (simp add: is_ascii_digit_def byte_of_def)
  then have "newline \<notin> set ?l" using Cons.prems x by simp
  from split_on_append [OF this, of "concat (map sample_line states)"]
  have "split_on newline (concat (map sample_line (x # states))) = ?l # split_on newline (concat (map sample_line states))"
    by (simp only: list.map concat.simps l append_assoc append_Cons append_Nil)
  moreover have "read_sample ?l = Some (n, v)" using Cons.prems x by (intro read_sample_line) auto
  ultimately show ?case using Cons x by (simp add: read_samples_def map_filter_simps)
qed

lemma read_in_flight:
  assumes "\<forall>(n, v)\<in>set (request_states working awaiting). dquote \<notin> set n \<and> newline \<notin> set n \<and> v \<le> 255"
  shows "read_samples (requests_in_flight working awaiting) = request_states working awaiting"
proof (cases "request_states working awaiting = []")
  case True
  then show ?thesis by (simp add: requests_in_flight_def read_samples_def read_sample_def map_filter_def)
next
  case False
  let ?h = "''# TYPE zns_mint_request_state gauge''"
  have "newline \<notin> set ?h" by simp
  from split_on_append [OF this]
  have "split_on newline (requests_in_flight working awaiting) =
      ?h # split_on newline (concat (map sample_line (request_states working awaiting)))"
    using False by (simp only: requests_in_flight_def Let_def if_False)
  moreover have "read_sample ?h = None" by (simp add: read_sample_def)
  ultimately show ?thesis using read_lines [OF assms] by (simp add: read_samples_def map_filter_simps)
qed

lemma valid_name_plain: "valid_name n \<Longrightarrow> dquote \<notin> set (as_str n) \<and> newline \<notin> set (as_str n)"
proof -
  assume "valid_name n"
  then have "list_all name_byte (as_str n)" by (simp add: valid_name_iff)
  moreover have "\<not> name_byte dquote" "\<not> name_byte newline"
    by (simp_all add: name_byte_def is_ascii_lower_def is_ascii_digit_def byte_of_def)
  ultimately show ?thesis by (auto simp: list_all_iff)
qed

lemma fold_states:
  assumes "bt_ok m"
  shows "bt_ok (fold (\<lambda>n. bt_insert (as_str n) v) ns m) \<and>
         bt_get (fold (\<lambda>n. bt_insert (as_str n) v) ns m) k = (if k \<in> as_str ` set ns then Some v else bt_get m k)"
  using assms
proof (induction ns arbitrary: m)
  case (Cons n ns)
  from Cons.IH [OF bt_ok_insert [OF Cons.prems]] show ?case by (simp add: bt_simps(1) [OF Cons.prems])
qed simp

lemma request_states_ok:
  "bt_ok (request_states working awaiting)"
  "bt_get (request_states working awaiting) k =
     (if k \<in> as_str ` set working then Some 1 else if k \<in> as_str ` set awaiting then Some 2 else None)"
proof -
  let ?a = "fold (\<lambda>n. bt_insert (as_str n) 2) awaiting ([] :: (string, nat) btree)"
  note a = fold_states [OF bt_ok_Nil, of 2 awaiting k]
  note w = fold_states [OF a [THEN conjunct1], of 1 working k]
  show "bt_ok (request_states working awaiting)" unfolding request_states_def using w by (rule conjunct1)
  show "bt_get (request_states working awaiting) k =
     (if k \<in> as_str ` set working then Some 1 else if k \<in> as_str ` set awaiting then Some 2 else None)"
    unfolding request_states_def w [THEN conjunct2] a [THEN conjunct2] by simp
qed

text \<open>C25: The page tells who has the next move. Of the requests in flight a scraper reads every name
  once, in order: with \<open>1\<close> when a request, an unsent challenge, an open sale or an unfinished Name
  Note leaves the move with the mint, with \<open>2\<close> when only a relayed challenge waits for its owner,
  and no name that nothing is pending for. The names need no escaping.\<close>

theorem in_flight_reads_back:
  assumes "\<forall>n\<in>set (request_names (ms_requests s)) \<union> set (otp_unrelayed (ms_challenges s)) \<union> set (market_names (ms_market s)) \<union>
      set (authorized_names (ms_name_notes s)) \<union> set (otp_relayed (ms_challenges s)). valid_name n"
  shows "sorted_wrt (<) (map fst (read_samples (pass_in_flight s))) \<and>
         (\<forall>n v. (as_str n, v) \<in> set (read_samples (pass_in_flight s)) \<longleftrightarrow>
           v = 1 \<and> (n \<in> set (request_names (ms_requests s)) \<or> n \<in> set (otp_unrelayed (ms_challenges s)) \<or>
             market_is_open (ms_market s) n \<or> note_pending (ms_name_notes s) n) \<or>
           v = 2 \<and> n \<in> set (otp_relayed (ms_challenges s)) \<and> n \<notin> set (request_names (ms_requests s)) \<and>
             n \<notin> set (otp_unrelayed (ms_challenges s)) \<and> \<not> market_is_open (ms_market s) n \<and> \<not> note_pending (ms_name_notes s) n)"
proof -
  let ?w = "request_names (ms_requests s) @ otp_unrelayed (ms_challenges s) @ market_names (ms_market s) @ authorized_names (ms_name_notes s)"
  let ?a = "otp_relayed (ms_challenges s)"
  let ?st = "request_states ?w ?a"
  have e: "(k, v) \<in> set ?st \<longleftrightarrow> bt_get ?st k = Some v" for k v
    using bt_ok_distinct [OF request_states_ok(1)] by (simp add: bt_get_def)
  have "dquote \<notin> set k \<and> newline \<notin> set k \<and> v \<le> 255" if "(k, v) \<in> set ?st" for k v
  proof -
    have "k \<in> as_str ` (set ?w \<union> set ?a) \<and> v \<le> 2"
      using that unfolding e request_states_ok(2) by (simp only: image_Un Un_iff split: if_splits) simp_all
    moreover have "\<forall>n\<in>set ?w \<union> set ?a. valid_name n" using assms by auto
    ultimately obtain n where "valid_name n" "k = as_str n" "v \<le> 255" by fastforce
    then show ?thesis using valid_name_plain by blast
  qed
  then have r: "read_samples (pass_in_flight s) = ?st"
    unfolding pass_in_flight_def by (intro read_in_flight) auto
  have open_iff: "n \<in> set (market_names (ms_market s)) \<longleftrightarrow> market_is_open (ms_market s) n" for n
    by (auto simp: market_names_def market_is_open_def sale_names_def sale_is_open_def list_ex_iff)
  have inj: "as_str n \<in> as_str ` A \<longleftrightarrow> n \<in> A" for n A by (metis (no_types) image_iff name.expand)
  show ?thesis
    unfolding r e request_states_ok(2) inj set_append Un_iff open_iff authorized_names_pending
    using request_states_ok(1) by (auto simp: bt_ok_def)
qed

text \<open>\<open>bob\<close>'s request waits for the mint, \<open>alice\<close>'s relayed challenge for her answer.\<close>

definition waiting_state :: "(string, bytes, nat) mint_state" where
  "waiting_state = demo_state\<lparr>ms_requests := \<lparr>queued = [(''t'', ReqRelease (Name ''bob'') ''u1bob'', 0, 5)]\<rparr>\<rparr>"

theorem in_flight_reads_back_witness:
  "(as_str (Name ''bob''), 1) \<in> set (read_samples (pass_in_flight waiting_state)) \<and>
   (as_str demo_alice, 2) \<in> set (read_samples (pass_in_flight waiting_state)) \<and>
   (as_str (Name ''carol''), 1) \<notin> set (read_samples (pass_in_flight waiting_state))"
proof -
  note defs = waiting_state_def demo_state_def request_names_def otp_unrelayed_def otp_relayed_def
    market_names_def sale_names_def market_is_open_def sale_is_open_def market_new_def sales_new_def authorized_names_def note_pending_def
    nnq_default_def owns_name_def
  have "\<forall>n\<in>set (request_names (ms_requests waiting_state)) \<union> set (otp_unrelayed (ms_challenges waiting_state)) \<union>
      set (market_names (ms_market waiting_state)) \<union> set (authorized_names (ms_name_notes waiting_state)) \<union>
      set (otp_relayed (ms_challenges waiting_state)). valid_name n"
    by (simp add: defs valid_name_iff name_byte_def is_ascii_lower_def is_ascii_digit_def byte_of_def)
  note read = in_flight_reads_back [OF this, THEN conjunct2, THEN spec, THEN spec]
  show ?thesis unfolding read by (simp add: defs)
qed

end
