(* ===== verification/Typing.thy ===== *)
theory Typing
  imports Process Metrics Request_Laws
begin

text \<open>
  The type of names: a name in the mint's state is a \<open>Name\<close>, one to sixty-three lower-case letters
  and digits. The state gets its names from two decoders, of Name Notes and of requests, and every
  other operation only moves names around or forgets them.
\<close>

declare split_paired_All [simp del] split_paired_Ex [simp del]

section \<open>The Registry\<close>

definition records_typed :: "(name, ('ua, 'cm) name_record) btree \<Rightarrow> bool" where
  "records_typed m \<longleftrightarrow> list_all (\<lambda>x. valid_name (fst x) \<and> valid_name (nr_name (snd x))) m"

definition history_typed :: "(name, ('ua, 'cm) name_record list) btree \<Rightarrow> bool" where
  "history_typed m \<longleftrightarrow> list_all (\<lambda>x. list_all (valid_name \<circ> nr_name) (snd x)) m"

definition reg_typed :: "('ua, 'cm) registry \<Rightarrow> bool" where
  "reg_typed r \<longleftrightarrow> records_typed (records r) \<and> history_typed (history r)"

lemma list_all_filter: "list_all p xs \<Longrightarrow> list_all p (filter q xs)"
  by (induction xs) auto

lemma all_bt_insert: "list_all p m \<Longrightarrow> p (k, v) \<Longrightarrow> list_all p (bt_insert k v m)"
  by (simp add: bt_insert_def list_all_filter)

lemma all_bt_remove: "list_all p m \<Longrightarrow> list_all p (bt_remove k m)"
  by (simp add: bt_remove_def list_all_filter)

lemma all_bt_get: "list_all p m \<Longrightarrow> bt_get m k = Some v \<Longrightarrow> p (k, v)"
  by (auto simp: bt_get_def list_all_iff dest!: map_of_SomeD)

lemma reg_typed_new: "reg_typed registry_new"
  by (simp add: reg_typed_def records_typed_def history_typed_def registry_new_def)

lemma record_typed: "reg_typed r \<Longrightarrow> record_of r n = Some rec \<Longrightarrow> valid_name n \<and> valid_name (nr_name rec)"
  unfolding reg_typed_def records_typed_def record_of_def by (drule conjunct1, drule (1) all_bt_get) simp

lemma past_typed: "history_typed (history r) \<Longrightarrow> list_all (valid_name \<circ> nr_name) (record_history r n)"
  unfolding history_typed_def record_history_def
  by (cases "bt_get (history r) n") (auto dest: all_bt_get)

lemma typed_cong: "records r' = records r \<Longrightarrow> history r' = history r \<Longrightarrow> reg_typed r' = reg_typed r"
  by (simp add: reg_typed_def)

lemma typed_set_record:
  assumes "reg_typed r" and "valid_name (nr_name rec)"
  shows "reg_typed (set_record rec r)"
proof -
  have "history_typed (bt_insert (nr_name rec) (record_history r (nr_name rec) @ [rec]) (history r))"
    unfolding history_typed_def using assms past_typed [of r "nr_name rec"]
    by (intro all_bt_insert) (simp_all add: reg_typed_def history_typed_def)
  moreover have "records_typed (records (set_record rec r))"
    using assms by (simp add: set_record_def reg_typed_def records_typed_def all_bt_insert all_bt_remove)
  ultimately show ?thesis by (simp add: reg_typed_def set_record_def)
qed

lemma typed_fold: "reg_typed r \<Longrightarrow> (\<And>x r. reg_typed r \<Longrightarrow> reg_typed (f x r)) \<Longrightarrow> reg_typed (fold f xs r)"
  by (induction xs arbitrary: r) auto

lemma typed_mark_released: "reg_typed r \<Longrightarrow> reg_typed (mark_released nfs h r)"
  unfolding mark_released_def
  by (erule typed_fold) (auto simp: mark_released_one_def split: option.split intro!: typed_set_record dest: record_typed)

lemma typed_retire: "reg_typed (registry_retire nfs s h r) = reg_typed r"
  by (rule typed_cong) (simp_all add: registry_retire_def)

lemma typed_follow: "reg_typed r \<Longrightarrow> reg_typed (follow_spends nfs h r)"
  by (simp add: follow_spends_def typed_mark_released typed_retire)

lemma typed_anchor: "reg_typed (adopt_anchor h nf r) = reg_typed r"
  by (rule typed_cong) (simp_all add: adopt_anchor_def)

lemma typed_adopt: "reg_typed r \<Longrightarrow> reg_typed (adopt_ceremony h wtx k r)"
  unfolding adopt_ceremony_def by (simp, intro impI) (erule typed_fold, simp add: typed_anchor)

lemma create_name: "record_create E nt nf h mtp = Some rec \<Longrightarrow> nr_name rec = note_name nt"
  by (auto simp: record_create_def)

lemma typed_claim:
  assumes "accept_claim E nt nf s nfs h mtp expiry r = Some (ok, r')" and "reg_typed r" and "valid_name (note_name nt)"
  shows "reg_typed r'"
  using assms
  by (auto simp: accept_claim_def Let_def split: if_splits dest!: create_name
      intro!: typed_mark_released typed_set_record simp: typed_retire)

lemma typed_successor:
  assumes "accept_successor E nt nf nfs h mtp r = Some (ok, r')" and "reg_typed r" and "valid_name (note_name nt)"
  shows "reg_typed r'"
  using assms
  by (auto simp: accept_successor_def release_predecessor_def split: option.splits if_splits dest!: create_name
      intro!: typed_follow typed_set_record)

lemma typed_candidate:
  assumes "accept_candidate E h mtp vtx wtx c r = Some (ok, r')" and "reg_typed r" and "valid_name (note_name (dn_payload c))"
  shows "reg_typed r'"
  using assms typed_claim typed_successor
  by (auto simp: accept_candidate_def accept_defs split: if_splits action.splits Option.bind_splits)

lemma typed_confirm:
  assumes "\<forall>c\<in>set cs. valid_name (note_name (dn_payload c))"
  shows "confirm_txs E h mtp vtx cs wtxs r = Some (acc, r') \<Longrightarrow> reg_typed r \<Longrightarrow> reg_typed r'"
proof (induction wtxs arbitrary: r acc)
  case (Cons wtx wtxs)
  then obtain here r1 rest where t: "confirm_tx E h mtp vtx cs wtx r = Some (here, r1)"
    and rest: "confirm_txs E h mtp vtx cs wtxs r1 = Some (rest, r')" by (auto split: Option.bind_splits)
  have "set (notes_of cs (sx_txid wtx)) \<subseteq> set cs" by (auto simp: notes_of_def)
  with t assms have "reg_typed r1"
    using typed_adopt [OF Cons.prems(2)]
    by (auto simp: confirm_tx_def Let_def split: list.splits intro: typed_follow dest: typed_candidate)
  then show ?case using Cons.IH [OF rest] by blast
qed simp

lemma typed_rebuild:
  "history_typed m \<Longrightarrow> records_typed acc \<Longrightarrow>
     records_typed (fold (\<lambda>(_, rs) acc. if rs \<noteq> [] \<and> \<not> is_release (nr_action (last rs))
         then bt_insert (nr_name (last rs)) (last rs) acc else acc) m acc)"
proof (induction m arbitrary: acc)
  case (Cons x m)
  obtain n rs where x: "x = (n, rs)" by (rule prod.exhaust)
  have "valid_name (nr_name (last rs))" if "rs \<noteq> []" using Cons.prems(1) that by (simp add: history_typed_def x list_all_iff)
  then have "records_typed (if rs \<noteq> [] \<and> \<not> is_release (nr_action (last rs))
         then bt_insert (nr_name (last rs)) (last rs) acc else acc)"
    using Cons.prems(2) by (simp add: records_typed_def all_bt_insert)
  then show ?case using Cons by (simp add: x history_typed_def)
qed simp

lemma typed_truncate: "reg_typed r \<Longrightarrow> reg_typed (truncate_to_height k r)"
proof -
  have "list_all p (pop_above k rs)" if "list_all p rs" for p and rs :: "('a, 'b) name_record list"
    using that by (auto simp: pop_above_def list_all_iff dest: set_dropWhileD)
  then have "history_typed (truncate_history k m)" if "history_typed m" for m :: "(name, ('a, 'b) name_record list) btree"
    using that unfolding history_typed_def truncate_history_def by (intro list_all_filter) (induction m; auto)
  then show "reg_typed r \<Longrightarrow> reg_typed (truncate_to_height k r)"
    by (auto simp: reg_typed_def truncate_to_height_def Let_def rebuild_records_def intro!: typed_rebuild)
      (simp add: records_typed_def)
qed

lemma typed_relists: "relists r r' \<Longrightarrow> reg_typed r' = reg_typed r"
  by (auto simp: relists_def reg_typed_def)

section \<open>What the decoders give\<close>

lemma candidate_typed:
  assumes "decrypt_name_notes E b = Some cs" and "c \<in> set cs"
  shows "valid_name (note_name (dn_payload c))"
proof -
  have decoded: "valid_note E nt" if "note_decode E memo = Some (Some nt)" for nt and memo
    using that by (auto simp: note_decode_def note_decode_fields_valid split: if_splits option.splits)
  have "valid_note E (dn_payload c)" if "decrypt_action E txid i k act = Some cs" "c \<in> set cs" for txid i k act cs
    using that by (auto simp: decrypt_action_def decoded split: option.splits if_splits)
  then have "valid_note E (dn_payload c)" if "decrypt_actions E txid capable i k acts = Some cs" "c \<in> set cs" for txid capable i k acts cs
    using that by (induction acts arbitrary: i k cs) (fastforce simp: Option.bind_eq_Some_conv split: if_splits)+
  then have "valid_note E (dn_payload c)" if "decrypt_txs E k txs = Some cs" "c \<in> set cs" for k txs cs
    using that by (induction txs arbitrary: k cs) (fastforce simp: Option.bind_eq_Some_conv split: option.splits)+
  then have "valid_note E (dn_payload c)" using assms unfolding decrypt_name_notes_def by blast
  then show ?thesis by (simp add: valid_note_def)
qed

lemma request_typed:
  assumes "inbound_decode E memo = InRequest request"
  shows "valid_name (request_name request)"
proof -
  have "request_decode E memo = Some request" using assms by (auto simp: inbound_decode_def split: option.splits)
  then have "valid_request request" unfolding request_decode_def decode_zns_Some using request_fields_Some by blast
  then show ?thesis by (cases request) auto
qed

definition inbound_typed :: "txid \<times> 'ua mint_inbound \<times> zat \<Rightarrow> bool" where
  "inbound_typed a \<longleftrightarrow> (case fst (snd a) of InRequest request \<Rightarrow> valid_name (request_name request) | _ \<Rightarrow> True)"

lemma block_typed:
  assumes "apply_block E W birthday b h (w, r, clock) = Some (inbound, w', r', clock')" and "reg_typed r"
  shows "reg_typed r'" and "list_all inbound_typed inbound"
proof -
  from assms(1) obtain cands memos acc mtp vtx scanned
    where c: "(if h \<ge> birthday then decrypt_name_notes E b else Some []) = Some cands"
      and r: "(if h < birthday then Some ([], r) else confirm_txs E h mtp (blk_vtx b) cands scanned r) = Some (acc, r')"
      and i: "inbound = map (\<lambda>(txid, paid, memo). (txid, inbound_decode E memo, paid)) memos"
    unfolding apply_block_def by (auto simp: Let_def Option.bind_eq_Some_conv simp del: not_le split: if_splits)
  have "\<forall>c\<in>set cands. valid_name (note_name (dn_payload c))"
    using c candidate_typed by (auto split: if_splits)
  with r assms(2) show "reg_typed r'" using typed_confirm by (auto split: if_splits)
  show "list_all inbound_typed inbound"
    unfolding i using request_typed
    by (auto simp: list_all_iff inbound_typed_def split: mint_inbound.splits)
qed

section \<open>The market's log\<close>

text \<open>The names an event brings into the market. With the market the replay of its log, they are all
  its names.\<close>

fun event_typed :: "('ua, 'cm) market_event \<Rightarrow> bool" where
  "event_typed (EvList l) = valid_name (l_name l)"
| "event_typed (EvOpen s) = valid_name (s_name s)"
| "event_typed (EvChallenge ch) = valid_name (mc_name ch)"
| "event_typed _ = True"

definition log_typed :: "('ua, 'cm) market \<Rightarrow> bool" where
  "log_typed m \<longleftrightarrow> list_all (event_typed \<circ> snd) (m_events m)"

fun view_typed :: "('ua, 'cm) market_view \<Rightarrow> bool" where
  "view_typed (L, S, C) \<longleftrightarrow> list_all (valid_name \<circ> s_name) S \<and> list_all (valid_name \<circ> mc_name) C"

lemma mc_name_erase [simp]: "mc_name (challenge_erase ch) = mc_name ch"
  by (simp add: challenge_erase_def mc_name_def)

lemma view_event_typed: "view_typed v \<Longrightarrow> event_typed e \<Longrightarrow> view_typed (view_event e v)"
  by (cases v; cases e) (auto simp: list_all_iff comp_def)

lemma view_log_typed: "list_all (event_typed \<circ> snd) es \<Longrightarrow> view_typed (view_log es)"
proof -
  have "view_typed v \<Longrightarrow> list_all (event_typed \<circ> snd) es \<Longrightarrow> view_typed (fold (\<lambda>(_, e). view_event e) es v)"
    for v :: "('a, 'b) market_view"
  proof (induction es arbitrary: v)
    case (Cons x es)
    have "view_typed (view_event (snd x) v)" using Cons.prems by (simp add: view_event_typed del: view_typed.simps)
    from Cons.IH [OF this] Cons.prems(2) show ?case by (simp add: case_prod_beta)
  qed simp
  then show "list_all (event_typed \<circ> snd) es \<Longrightarrow> view_typed (view_log es)" by (simp add: view_log_def)
qed

lemma book_typed:
  assumes "consistent (m, r)" and "log_typed m"
  shows "list_all (valid_name \<circ> s_name) (sales (m_sales m))" and "list_all (valid_name \<circ> mc_name) (m_challenges m)"
proof -
  have "view_typed (market_view (m, r))"
    using view_log_typed [of "m_events m"] assms by (simp add: consistent_def log_typed_def)
  then show "list_all (valid_name \<circ> s_name) (sales (m_sales m))" "list_all (valid_name \<circ> mc_name) (m_challenges m)"
    by (simp_all add: market_view_def list_all_iff)
qed

lemma typed_records: "log_typed (market_records h es m) \<longleftrightarrow> log_typed m \<and> list_all event_typed es"
  by (simp add: log_typed_def list_all_iff ball_Un)

lemma typed_record: "log_typed (market_record h e m) \<longleftrightarrow> log_typed m \<and> event_typed e"
  by (auto simp: log_typed_def)

lemma typed_sales [simp]: "log_typed (m\<lparr>m_sales := q\<rparr>) = log_typed m" "log_typed (m\<lparr>m_challenges := cs\<rparr>) = log_typed m"
  by (simp_all add: log_typed_def)

lemma typed_close: "log_typed (close_challenges cs h m) = log_typed m"
proof -
  have "log_typed (close_challenge c h m) = log_typed m" for c and m :: "('a, 'b) market"
    by (simp add: close_challenge_def typed_record drop_challenge_def)
  then show ?thesis unfolding close_challenges_def by (induction cs arbitrary: m) simp_all
qed

lemma typed_close_for: "log_typed (close_challenges_for n h m) = log_typed m"
  by (simp add: close_challenges_for_def typed_close)

lemma all_event_typed: "list_all event_typed (map EvDelist ns)" "list_all event_typed (map EvExpire ns)"
  "list_all event_typed (map EvClose ns)" "list_all event_typed (map (\<lambda>(n, c). EvPaid n c) ps)"
  by (auto simp: list_all_iff)

lemma typed_passes:
  "log_typed (market_observe E holder payments mtp h m) = log_typed m"
  "log_typed (fst (market_expire mtp h (m, r))) = log_typed m"
  "log_typed (fst (market_reconcile h (m, r))) = log_typed m"
  "log_typed (snd (market_poll r pending h m)) = log_typed m"
  "log_typed (market_relayed n m) = log_typed m" "log_typed (challenge_relayed c m) = log_typed m"
  by (simp_all add: market_observe_def market_expire_def market_reconcile_def market_poll_def market_relayed_def challenge_relayed_def
      Let_def typed_records typed_close all_event_typed split: prod.split)

lemma typed_market_truncate: "log_typed m \<Longrightarrow> log_typed (fst (market_truncate_to h (m, r)))"
  by (simp add: log_typed_def events_truncate list_all_filter)

lemma typed_seal: "log_typed (seal_replayed_buys m) = log_typed m"
proof -
  have "event_typed (event_seal e) = event_typed e" for e :: "('a, 'b) market_event" by (cases e) simp_all
  then show ?thesis by (auto simp: log_typed_def seal_replayed_buys_def list_all_iff)
qed

lemma typed_push:
  "push_new_challenge E k c mtp h m = Some (Inr m') \<Longrightarrow> log_typed m \<Longrightarrow>
     (case k of KindList l \<Rightarrow> valid_name (l_name l) | KindDelist n ua \<Rightarrow> valid_name n) \<Longrightarrow> log_typed m'"
  by (auto simp: push_new_challenge_def push_challenge_def typed_record mc_name_def split: if_splits challenge_kind.splits)

lemma typed_open_buy:
  assumes "open_buy E r n bob owner t prior rd pn c mtp h m = Some (Inr (otp, m'))" and "log_typed m" and "valid_name n"
  shows "log_typed m'"
proof -
  from assms(1) obtain pay_to price dutch q s where
    q: "sale_open E n bob owner pay_to price t prior c dutch mtp (m_sales m) = Some (otp, q)" and s: "sale_get q n = Some s"
    and m': "m' = close_challenges_for n h (market_record h (EvOpen s) (m\<lparr>m_sales := q\<rparr>))"
    by (auto simp: open_buy_def split: if_splits option.splits sum.splits prod.splits)
  from sale_open_Some [OF q] s have "s_name s = n" by auto
  then show ?thesis using assms(2,3) by (simp add: m' typed_close_for typed_record)
qed

text \<open>A market request acts on a live name only.\<close>

lemma typed_admit:
  assumes "market_admit E key txid request paid r fee h mtp pending m = Some (ad, m')" and "log_typed m" and "reg_typed r"
  shows "log_typed m'"
proof (cases request)
  case (MktList l)
  show ?thesis
  proof (cases "m' = m")
    case False
    then obtain rec owner c z where r: "record_of r (l_name l) = Some rec" and p: "propose_list E l owner c mtp h m = Some z"
      and z: "m' = (case z of Inl _ \<Rightarrow> m | Inr x \<Rightarrow> x)"
      using assms(1) by (auto simp: market_admit_def MktList Let_def split: option.splits if_splits)
    with keep_or_new [OF z] False have p: "propose_list E l owner c mtp h m = Some (Inr m')" by simp
    then have "push_new_challenge E (KindList l) c mtp h m = Some (Inr m')"
      using False by (auto simp: propose_list_def split: sum.splits if_splits)
    then show ?thesis by (rule typed_push) (use assms(2) record_typed [OF assms(3) r] in simp_all)
  qed (use assms(2) in simp)
next
  case (MktDelist n ua)
  show ?thesis
  proof (cases "m' = m")
    case False
    then obtain rec c z where r: "record_of r n = Some rec" and p: "propose_delist E r n ua c mtp h m = Some z"
      and z: "m' = (case z of Inl _ \<Rightarrow> m | Inr x \<Rightarrow> x)"
      using assms(1) by (auto simp: market_admit_def MktDelist Let_def split: option.splits if_splits)
    with keep_or_new [OF z] False have p: "propose_delist E r n ua c mtp h m = Some (Inr m')" by simp
    then have "push_new_challenge E (KindDelist n ua) c mtp h m = Some (Inr m')"
      using False by (auto simp: propose_delist_def split: if_splits)
    then show ?thesis by (rule typed_push) (use assms(2) record_typed [OF assms(3) r] in simp_all)
  qed (use assms(2) in simp)
next
  case (MktBuy n bob)
  have keep: "snd (buy_admission n bob m z) = m \<or> (\<exists>otp. z = Inr (otp, snd (buy_admission n bob m z)))"
    for z by (cases "(n, bob, m, z)" rule: buy_admission.cases) auto
  show ?thesis
  proof (cases "record_of r n")
    case (Some rec)
    then have "m' = m \<or> (\<exists>owner t prior rd pn c otp. open_buy E r n bob owner t prior rd pn c mtp h m = Some (Inr (otp, m')))"
      using assms(1) keep by (auto simp: market_admit_def MktBuy Let_def split: if_splits) (metis snd_conv)+
    then show ?thesis using assms(2) record_typed [OF assms(3) Some] by (auto dest: typed_open_buy)
  qed (use assms in \<open>auto simp: market_admit_def MktBuy Let_def\<close>)
qed

lemma typed_answer:
  assumes "market_answer E response h (m, r) = Some (b, m', r')" and "consistent (m, r)" and "log_typed m"
  shows "log_typed m'"
proof -
  have wrong: "log_typed m2" if "count_wrong h is m1 = Some m2" "log_typed m1" for "is" m1 m2
    using that
    by (induction "is" arbitrary: m1)
      (auto simp: Let_def close_challenge_def typed_record drop_challenge_def split: if_splits)
  have hit: "log_typed (fst (answer_hit E h i (m, r)))" if "i < length (m_challenges m)" for i
  proof -
    have "valid_name (mc_name (m_challenges m ! i))"
      using book_typed(2) [OF assms(2,3)] that by (simp add: list_all_length)
    then show ?thesis using assms(3)
      by (auto simp: answer_hit_def Let_def market_list_def market_delist_def typed_record mc_name_def
          split: sum.splits challenge_kind.splits if_splits)
  qed
  from assms(1) consider "m' = m" | "count_wrong h (rev (named_indices response m)) m = Some m'"
    | i where "right_answer response m = Some i" "(m', r') = answer_hit E h i (m, r)"
    by (auto simp: market_answer_def split: if_splits option.splits)
  then show ?thesis
  proof cases
    case 3
    then show ?thesis using hit [OF right_answer_Some(1)] by (metis fst_conv)
  qed (use assms(3) wrong in auto)
qed

end
