(* ===== verification/Process_Demo.thy ===== *)
theory Process_Demo
  imports Process
begin

text \<open>
  A concrete pass after a concrete boot, for the witnesses: the node's next block pays the Treasury
  with a claim for a name, and the pass that reads it leaves the claim pending.
\<close>

lemma request_read: "inbound_decode demo_env ''ZNS:claim:1y:alice:u1abc'' = InRequest (ReqClaim demo_alice ''u1abc'' (Years 1) None)"
proof -
  have f: "split_on (CHR '':'') ''ZNS:claim:1y:alice:u1abc'' = [''ZNS'', ''claim'', ''1y'', ''alice'', ''u1abc'']" by simp
  have t: "memo_text demo_env ''ZNS:claim:1y:alice:u1abc'' = Some ''ZNS:claim:1y:alice:u1abc''" by (simp add: demo_env_def)
  have "term_text (Years 1) = ''1y''" by (simp add: term_text_def dec.simps digit_char_def char_of_def bit_iff_odd)
  moreover have "valid_term (Years 1)" by (simp add: valid_term_def MAX_TERM_YEARS_def)
  ultimately have y: "term_parse ''1y'' = Some (Years 1)" using term_parse_text by metis
  have n: "name_parse ''alice'' = Some demo_alice" using demo_valid_name by (simp add: valid_name_def)
  have u: "decode_controller_ua demo_env ''u1abc'' = Some ''u1abc''" by (simp add: decode_controller_ua_def demo_env_def)
  have "otp_memo_decode demo_env ''ZNS:claim:1y:alice:u1abc'' = None"
    unfolding otp_memo_decode_def t by (simp add: f otp_memo_decode_parts_def del: split_on.simps)
  moreover have "request_decode demo_env ''ZNS:claim:1y:alice:u1abc'' = Some (ReqClaim demo_alice ''u1abc'' (Years 1) None)"
    unfolding request_decode_def decode_zns_def t
    by (simp add: f y n u request_fields_def decode_name_and_ua_def del: split_on.simps)
  ultimately show ?thesis by (simp add: inbound_decode_def)
qed

abbreviation request_served :: "height \<Rightarrow> (transport_error + (bytes, bytes) full_block) list" where
  "request_served \<equiv> \<lambda>_. [Inr (request_block, [])]"

lemma request_applied:
  assumes "paid_wallet w" and "mtp_current demo_env (mtp_update 11 1700000600 clock) = Some (Some mtp)"
  shows "\<exists>w'. apply_block demo_env (mint_wallet demo_env demo_trees ceremony_scanner) 10 request_block 11 (w, r, clock) =
    Some ([(''req'', InRequest (ReqClaim demo_alice ''u1abc'' (Years 1) None), 50000)], w', r, mtp_update 11 1700000600 clock)"
proof -
  let ?W = "mint_wallet demo_env demo_trees ceremony_scanner"
  have "request_block \<noteq> ceremony_block" by (simp add: request_block_def ceremony_block_def)
  then have S: "sn_scan ceremony_scanner w request_block = Some request_scanned" by (simp add: ceremony_scanner_def)
  obtain w' where put: "put_blocks_marked demo_trees (wallet_tip w) [request_scanned] [] w = Some (Inr w')"
    using paid_put [OF assms(1)] by blast
  have scan: "w_scan ?W w request_block = Some ([], 41)"
    unfolding mint_scan using S by (intro exI [of _ request_scanned]) (simp add: request_scanned_def ironwood_start_def)
  have commit: "w_commit ?W request_block [] w = Some w'"
    unfolding mint_commit using put S by (intro exI [of _ request_scanned]) simp
  have tip: "w_tip ?W w = (10, ''h10'')" using paid_tip [OF assms(1)] by (simp add: mint_tip tip_of_def)
  have dec: "decrypt_name_notes demo_env request_block = Some []"
    "decrypt_treasury_memos demo_env (blk_vtx request_block) = Some [(''req'', 50000, ''ZNS:claim:1y:alice:u1abc'')]"
    by (simp_all add: decrypt_name_notes_def request_block_def treasury_payments_def zat_from_u64_def demo_env_def)
  have c: "confirm_txs demo_env 11 mtp (blk_vtx request_block) [] [] r = Some ([], r)"
    by (simp add: request_block_def)
  show ?thesis
    using assms(2) c scan commit tip dec request_read by (simp add: apply_block_def Let_def request_block_def)
qed

lemma request_passed:
  assumes "snd demo_start = Inr b" and "paid_wallet (b_wallet b)" and "b_birthday b = 10" and "b_lock b = Some 1699999000"
    and "mtp_current demo_env (b_mtp b) = Some (Some 1699999000)"
    and mtp: "mtp_current demo_env (mtp_update 11 1700000600 (b_mtp b)) = Some (Some 1699999000)"
  shows "\<exists>w' s'. converge demo_env demo_trees ceremony_scanner (b_access_code_key b) (b_birthday b) (b_lock b) (\<lambda>_. [Inr ''h10'']) (\<lambda>_. Inr 0)
      request_served 11 (b_wallet b, boot_state b) = Reached (0, w', s') \<and> demo_alice \<in> set (request_names (ms_requests s'))"
proof -
  let ?w = "b_wallet b" and ?r = "InRequest (ReqClaim demo_alice ''u1abc'' (Years 1) None)"
  let ?s = "(boot_state b)\<lparr>ms_registry := b_registry b, ms_mtp := mtp_update 11 1700000600 (b_mtp b)\<rparr>"
  obtain w' where a: "apply_block demo_env (mint_wallet demo_env demo_trees ceremony_scanner) 10 request_block 11 (?w, b_registry b, b_mtp b) =
      Some ([(''req'', ?r, 50000)], w', b_registry b, mtp_update 11 1700000600 (b_mtp b))"
    using request_applied [OF assms(2) mtp] by blast
  have "\<exists>s'. after_block demo_env (b_access_code_key b) 11 [] [(''req'', ?r, 50000)] ?s = Some s' \<and>
      demo_alice \<in> set (request_names (ms_requests s'))"
    using mtp by (simp add: after_block_def Let_def arrive_def request_record_def request_names_def boot_state_def split: prod.split)
  then obtain s' where af: "after_block demo_env (b_access_code_key b) 11 [] [(''req'', ?r, 50000)] ?s = Some s'"
    and n: "demo_alice \<in> set (request_names (ms_requests s'))" by blast
  have st: "ms_registry (boot_state b) = b_registry b" "ms_mtp (boot_state b) = b_mtp b"
    by (simp_all add: boot_state_def)
  have ok: "header_time_ok demo_env (b_mtp b) (blk_time request_block) = Some (Inr ())"
    by (simp add: header_time_ok_def assms(5) request_block_def MAX_TIME_SINCE_MEDIAN_def)
  have prev: "blk_prev request_block = ''h10''" by (simp add: request_block_def)
  have blk: "catch_up_block demo_env demo_trees ceremony_scanner (b_access_code_key b) 10 request_served (?w, boot_state b) = Reached (w', s')"
    using a af ok paid_tip [OF assms(2)] st prev
    by (simp add: catch_up_block_def fetched_def Let_def transparent_payments_def map_filter_simps)
  have u: "node_u32 demo_node" by (simp add: node_u32_def demo_node_def U32_MAX_def)
  have "wallet_inv ?w" using boot_good [OF assms(1) u ceremony_new, where parse = "\<lambda>_. None"] reach_inv by blast
  then have tip: "bm_height (wallet_tip w') = 11"
    using applied_tip [OF a] paid_tip [OF assms(2)] by (simp add: tip_of_def U32_MAX_def)
  have walk: "ancestor_walk (block_hash_at ?w) (\<lambda>_. [Inr ''h10'']) 10 = Reached 10"
    by (simp add: ancestor_walk.simps [of _ _ 10] fetched_def paid_tip [OF assms(2)])
  have day: "mtp_current_day demo_env (Some 1699999000) (b_mtp b) = Some (Some 0)"
    by (simp add: mtp_current_day_def assms(5) whole_days_def)
  show ?thesis
    using walk day blk tip n paid_tip [OF assms(2)] assms(3,4) st
    by (simp add: converge_def rewind_all_def)
qed

lemma request_process:
  "\<exists>b w s. snd demo_start = Inr b \<and> mint_process demo_env demo_dec demo_trees ceremony_scanner (\<lambda>_. None) b w s \<and>
     demo_alice \<in> set (request_names (ms_requests s))"
proof -
  obtain b where b: "snd demo_start = Inr b" and f: "paid_wallet (b_wallet b)" "b_birthday b = 10" "b_lock b = Some 1699999000"
    "mtp_current demo_env (b_mtp b) = Some (Some 1699999000)" "mtp_current demo_env (mtp_update 11 1700000600 (b_mtp b)) = Some (Some 1699999000)"
    using demo_boot by (metis snd_conv)
  obtain w s where c: "converge demo_env demo_trees ceremony_scanner (b_access_code_key b) (b_birthday b) (b_lock b) (\<lambda>_. [Inr ''h10''])
      (\<lambda>_. Inr 0) request_served 11 (b_wallet b, boot_state b) = Reached (0, w, s)" and n: "demo_alice \<in> set (request_names (ms_requests s))"
    using request_passed [OF b f] by blast
  have "mint_process demo_env demo_dec demo_trees ceremony_scanner (\<lambda>_. None) b w s"
    by (rule mint_process.converged [OF mint_process.started c _ ceremony_new]) (simp add: U32_MAX_def)
  with b n show ?thesis by blast
qed

text \<open>The invariant of the process, at the state the pass leaves.\<close>

theorem process_keeps_names_witness:
  "\<exists>b w s. snd demo_start = Inr b \<and> mint_process demo_env demo_dec demo_trees ceremony_scanner (\<lambda>_. None) b w s \<and>
     demo_alice \<in> set (request_names (ms_requests s)) \<and>
     consistent (ms_market s, ms_registry s) \<and> distinct (map s_name (sales (m_sales (ms_market s))))"
proof -
  obtain b w s where b: "snd demo_start = Inr b" and p: "mint_process demo_env demo_dec demo_trees ceremony_scanner (\<lambda>_. None) b w s"
    and n: "demo_alice \<in> set (request_names (ms_requests s))"
    using request_process by blast
  have u: "node_u32 demo_node" by (simp add: node_u32_def demo_node_def U32_MAX_def)
  from process_keeps_names [OF b u ceremony_new p] p b n show ?thesis by blast
qed

end
