(* ===== verification/Typing_Laws.thy ===== *)
theory Typing_Laws
  imports Typing Process_Demo
begin

text \<open>
  The type of names through the whole process: from the boot's first block on, every name in the
  Registry, the market, the queues and the log is a valid one.
\<close>

declare split_paired_All [simp del] split_paired_Ex [simp del]

section \<open>The queues\<close>

definition orders_typed :: "('ua, 'cm) name_note_queue \<Rightarrow> bool" where
  "orders_typed q \<longleftrightarrow> list_all (\<lambda>x. valid_name (note_name (fst x))) (orders q)"

definition challenges_typed :: "'ua otp_queue \<Rightarrow> bool" where
  "challenges_typed q \<longleftrightarrow> list_all (\<lambda>x. valid_name (request_name (ch_request (fst x)))) (challenges q)"

definition requests_typed :: "'ua request_queue \<Rightarrow> bool" where
  "requests_typed q \<longleftrightarrow> list_all (\<lambda>x. valid_name (request_name (fst (snd x)))) (queued q)"

lemmas queue_typed_defs = orders_typed_def challenges_typed_def requests_typed_def

lemma typed_nothing: "orders_typed nnq_default" "challenges_typed otp_new" "requests_typed requests_default"
  by (simp_all add: queue_typed_defs nnq_default_def otp_new_def requests_default_def)

lemma orders_typed_ops:
  assumes "orders_typed q"
  shows "valid_name (note_name nt) \<Longrightarrow> orders_typed (snd (nnq_admit h nt q))"
    and "orders_typed (nnq_rewind_to k q)" and "orders_typed (expire_sent tip q)" and "orders_typed (reconcile_seen E r q)"
    and "mark_sent n e q = Some q' \<Longrightarrow> orders_typed q'" and "drop_note n q = Some q' \<Longrightarrow> orders_typed q'"
proof -
  have all: "\<And>x. x \<in> set (orders q) \<Longrightarrow> valid_name (note_name (fst x))"
    using assms by (simp add: orders_typed_def list_all_iff)
  show "valid_name (note_name nt) \<Longrightarrow> orders_typed (snd (nnq_admit h nt q))"
    using assms by (simp add: orders_typed_def nnq_admit_def)
  show "orders_typed (nnq_rewind_to k q)" "orders_typed (expire_sent tip q)" "orders_typed (reconcile_seen E r q)"
    using all by (force simp: orders_typed_def list_all_iff nnq_rewind_to_def expire_sent_def reconcile_seen_def)+
  show "mark_sent n e q = Some q' \<Longrightarrow> orders_typed q'"
    using all set_update_first [of "authorized_for n" "\<lambda>(nt, origin, _). (nt, origin, Sent e)" "orders q"]
    by (fastforce simp: orders_typed_def list_all_iff mark_sent_def split: if_splits)
  show "drop_note n q = Some q' \<Longrightarrow> orders_typed q'"
    using all set_remove_at_subset
    by (fastforce simp: orders_typed_def list_all_iff drop_note_def split: option.splits)
qed

lemma challenges_typed_ops:
  assumes "challenges_typed q"
  shows "challenges_typed (drop_challenges n q)" and "challenges_typed (otp_expire mtp q)" and "challenges_typed (challenge_issued ch q)"
    and "valid_name (request_name request) \<Longrightarrow> otp_admit E draws request mtp q = Some q' \<Longrightarrow> challenges_typed q'"
proof -
  show "challenges_typed (drop_challenges n q)" "challenges_typed (otp_expire mtp q)"
    using assms by (simp_all add: challenges_typed_def drop_challenges_def otp_expire_def list_all_filter)
  show "challenges_typed (challenge_issued ch q)"
    using assms by (force simp: challenges_typed_def challenge_issued_def list_all_iff)
  show "valid_name (request_name request) \<Longrightarrow> otp_admit E draws request mtp q = Some q' \<Longrightarrow> challenges_typed q'"
    using assms by (auto simp: challenges_typed_def otp_admit_def Option.bind_eq_Some_conv split: if_splits)
qed

lemma complete_typed:
  assumes "otp_complete response q = (sent, q')" and "challenges_typed q"
  shows "challenges_typed q'" and "sent = Some ch \<Longrightarrow> valid_name (request_name (ch_request ch))"
proof -
  have all: "\<And>x. x \<in> set (challenges q) \<Longrightarrow> valid_name (request_name (ch_request (fst x)))"
    using assms(2) by (simp add: challenges_typed_def list_all_iff)
  show "challenges_typed q'"
  proof (cases sent)
    case None
    have "valid_name (request_name (ch_request (fst (fst (count_attempt response x)))))" if "x \<in> set (challenges q)" for x
      using all [OF that] unfolding count_attempt_same .
    then show ?thesis
      unfolding challenges_typed_def list_all_iff otp_complete_None(1) [OF assms(1) [unfolded None]] set_retain_mut by blast
  next
    case (Some c)
    then show ?thesis
      using otp_complete_Some [OF assms(1) [unfolded Some]] all set_remove_at_subset
      by (fastforce simp: challenges_typed_def list_all_iff)
  qed
  show "valid_name (request_name (ch_request ch))" if "sent = Some ch"
    using otp_complete_Some [OF assms(1) [unfolded that]] all by (metis fst_conv nth_mem)
qed

lemma requests_typed_ops:
  assumes "requests_typed q"
  shows "requests_typed (request_resolved txid q)" and "requests_typed (request_truncate_to k q)"
    and "valid_name (request_name request) \<Longrightarrow> requests_typed (request_record txid request paid h q)"
  using assms by (simp_all add: requests_typed_def request_resolved_def request_truncate_to_def request_record_def list_all_filter)

section \<open>The state\<close>

definition typed :: "('ua, 'cm, 'd) mint_state \<Rightarrow> bool" where
  "typed s \<longleftrightarrow> reg_typed (ms_registry s) \<and> log_typed (ms_market s) \<and> requests_typed (ms_requests s) \<and>
     challenges_typed (ms_challenges s) \<and> orders_typed (ms_name_notes s)"

lemma typed_refund [simp]: "typed (refund E txid ua n h z s) = typed s"
  by (simp add: typed_def refund_def)

lemma typed_admit_order: "typed s \<Longrightarrow> valid_name (note_name nt) \<Longrightarrow> typed (snd (admit_order h nt s))"
  using orders_typed_ops(1) [of "ms_name_notes s" nt h]
  by (auto simp: typed_def admit_order_def nnq_admit_def challenges_typed_ops)

lemma typed_arrive_market:
  assumes "arrive_market E key h mtp txid request paid s = Some s'" and "typed s"
  shows "typed s'"
proof -
  obtain ad m where a: "market_admit E key txid request paid (ms_registry s) (ms_fee s) h mtp (note_pending (ms_name_notes s)) (ms_market s)
      = Some (ad, m)" using assms(1) by (auto simp: arrive_market_def)
  have "log_typed m" using typed_admit [OF a] assms(2) by (simp add: typed_def)
  then show ?thesis
    using assms a by (auto simp: arrive_market_def typed_def Let_def challenges_typed_ops split: option.splits)
qed

lemma typed_apply_response:
  assumes "apply_response E h mtp txid response sent paid s = Some s'" and "typed s"
    and "valid_name (request_name (ch_request sent))"
  shows "typed s'"
proof -
  have "typed (snd (admit_order h nt s))" if "authorize_response E (ms_registry s) sent mtp = Some (Some nt)" for nt
    using typed_admit_order [OF assms(2)] authorize_response_note [OF that] assms(3) by auto
  then have step: "typed s'" if "map_option f (authorize_response E (ms_registry s) sent mtp) = Some s'"
    "f = (\<lambda>authorized. case authorized of
        None \<Rightarrow> refund E txid (om_ua response) (request_name (ch_request sent)) h paid s
      | Some nt \<Rightarrow> if rest > 0 then refund E txid (om_ua response) (request_name (ch_request sent)) h rest (snd (admit_order h nt s))
          else snd (admit_order h nt s))" for f rest
    using that assms(2) by (auto split: option.splits)
  obtain rest where r: "response_rest E (ms_oracle s) (ch_request sent) paid = Some rest"
    using assms(1) by (cases "response_rest E (ms_oracle s) (ch_request sent) paid") (simp_all add: apply_response_def Let_def)
  show ?thesis using assms(1,2) step
    by (cases rest) (auto simp: apply_response_def Let_def r split: if_splits)
qed

lemma typed_arrive:
  assumes "arrive E key h mtp a s = Some s'" and "typed s" and "inbound_typed a" and "consistent (book s)"
  shows "typed s'"
proof -
  obtain txid inbound paid where a: "a = (txid, inbound, paid)" by (metis prod.exhaust)
  show ?thesis
  proof (cases inbound)
    case (InMarket request)
    then show ?thesis using assms typed_arrive_market by (simp add: a arrive_def)
  next
    case (InRequest request)
    then show ?thesis using assms by (auto simp: a arrive_def typed_def inbound_typed_def requests_typed_ops)
  next
    case (InResponse response)
    then have r: "arrive_response E h mtp txid response paid s = Some s'" using assms by (simp add: a arrive_def)
    show ?thesis
    proof (cases "is_list (om_action response) \<or> is_delist (om_action response) \<or> is_auction (om_action response)")
      case True
      obtain hit m rg where ans: "market_answer E response h (book s) = Some (hit, m, rg)"
        and s': "s' = refund E txid (om_ua response) (om_name response) h paid (s\<lparr>ms_market := m, ms_registry := rg\<rparr>)"
        using r unfolding arrive_response_def if_P [OF True] by auto
      have "log_typed m" using typed_answer [OF ans assms(4)] assms(2) by (simp add: typed_def)
      moreover have "reg_typed rg" using typed_relists [OF relists_answer [OF ans]] assms(2) by (simp add: typed_def)
      ultimately show ?thesis unfolding s' typed_refund using assms(2) by (simp add: typed_def)
    next
      case False
      obtain sent q where c: "otp_complete response (ms_challenges s) = (sent, q)" by (rule prod.exhaust)
      have q: "typed (s\<lparr>ms_challenges := q\<rparr>)" using complete_typed(1) [OF c] assms(2) by (simp add: typed_def)
      have "typed (s\<lparr>ms_challenges := drop_challenges (om_name response) (ms_challenges s)\<rparr>)"
        using assms(2) by (simp add: typed_def challenges_typed_ops)
      then show ?thesis
        using r q typed_apply_response complete_typed(2) [OF c] assms(2) unfolding arrive_response_def if_not_P [OF False]
        by (auto simp: c typed_def [of s] split: if_splits option.splits)
    qed
  qed (use assms in \<open>simp add: a arrive_def\<close>)
qed

lemma typed_arrivals:
  "arrivals E key h mtp as s = Some s' \<Longrightarrow> typed s \<Longrightarrow> list_all inbound_typed as \<Longrightarrow> consistent (book s) \<Longrightarrow> typed s'"
proof (induction as arbitrary: s)
  case (Cons a as)
  then obtain s1 where a: "arrive E key h mtp a s = Some s1" and as: "arrivals E key h mtp as s1 = Some s'"
    by (auto split: Option.bind_splits)
  have "typed s1" using typed_arrive [OF a] Cons.prems by simp
  moreover have "consistent (book s1)" using run_consistent [OF run_arrive [OF a]] Cons.prems(4) by blast
  ultimately show ?case using Cons.IH [OF as] Cons.prems(3) by simp
qed simp

section \<open>The chain\<close>

lemma typed_after_block:
  assumes "after_block E key h payments inbound s = Some s'" and "typed s" and "list_all inbound_typed inbound" and "consistent (book s)"
  shows "typed s'"
  using assms(1)
proof (rule after_block_parts)
  fix mtp m1 r1 m r s3
  let ?s = "s\<lparr>ms_name_notes := reconcile_seen E (ms_registry s) (ms_name_notes s), ms_challenges := otp_expire mtp (ms_challenges s),
      ms_market := m, ms_registry := r\<rparr>"
  assume e: "market_expire mtp h (book s) = (m1, r1)" and mr: "market_reconcile h (m1, r1) = (m, r)"
    and run: "market_run E (\<lambda>_. True) (book s) (m, r)" and a: "arrivals E key h mtp inbound ?s = Some s3"
    and s': "s' = s3\<lparr>ms_market := market_observe E (\<lambda>n. map_option nr_ua (record_of (ms_registry s3) n)) payments mtp h (ms_market s3)\<rparr>"
  have "relists (ms_registry s) r"
    using relists_trans [OF relists_expire [of "book s" mtp h] relists_reconcile [of "market_expire mtp h (book s)" h]] by (simp add: e mr)
  then have "reg_typed r" using assms(2) typed_relists by (auto simp: typed_def)
  moreover have "log_typed m"
    using typed_passes(2) [of mtp h "ms_market s" "ms_registry s"] typed_passes(3) [of h m1 r1] assms(2)
    unfolding e mr fst_conv typed_def by blast
  ultimately have "typed ?s" using assms(2) by (simp add: typed_def orders_typed_ops(4) challenges_typed_ops(2))
  moreover have "consistent (book ?s)" using run_consistent [OF run assms(4)] by simp
  ultimately have "typed s3" using typed_arrivals [OF a] assms(3) by blast
  then show ?thesis unfolding s' by (simp add: typed_def typed_passes)
qed

lemma typed_block:
  assumes "catch_up_block E T S key birthday blocks (w, s) = Reached (w', s')" and "typed s" and "consistent (book s)"
  shows "typed s'"
  using assms(1)
proof (rule catch_up_block_parts)
  fix b h payments inbound r clock
  assume a: "apply_block E (mint_wallet E T S) birthday b h (w, ms_registry s, ms_mtp s) = Some (inbound, w', r, clock)"
    and af: "after_block E key h payments inbound (s\<lparr>ms_registry := r, ms_mtp := clock\<rparr>) = Some s'"
  have "consistent (ms_market s, r)"
    by (rule run_consistent [OF run_one [OF _ market_step.registry, of "\<lambda>_. True" h r "ms_registry s" E "ms_market s"] assms(3)])
      (use block_listings [OF a] in simp_all)
  then show ?thesis
    using typed_after_block [OF af] block_typed [OF a] assms(2) by (simp add: typed_def)
qed

lemma typed_catch_up:
  "catch_up E T S key birthday blocks best fuel (w, s) \<in> {Reached (w', s'), Restarted (w', s')} \<Longrightarrow>
     typed s \<Longrightarrow> consistent (book s) \<Longrightarrow> typed s'"
proof (induction fuel arbitrary: w s)
  case 0
  then show ?case by (auto split: if_splits)
next
  case (Suc fuel)
  show ?case
  proof (cases "catch_up_block E T S key birthday blocks (w, s)")
    case (Reached ws1)
    obtain w1 s1 where ws1: "ws1 = (w1, s1)" by (rule prod.exhaust)
    note b = Reached [unfolded ws1]
    have "typed s1" "consistent (book s1)"
      using typed_block [OF b Suc.prems(2,3)] run_consistent [OF run_block [OF b] Suc.prems(3)] by blast+
    then show ?thesis using Suc.prems Suc.IH [of w1 s1] Reached ws1 by (auto split: if_splits)
  qed (use Suc.prems block_restarts [of E T S key birthday blocks "(w, s)"] in \<open>auto split: if_splits\<close>)
qed

lemma typed_rewind:
  assumes "rewind_state E k get_time s = Some s'" and "typed s"
  shows "typed s'"
proof -
  obtain clock where b: "mtp_backfill k get_time mtp_default = (Inr (), clock)"
    using assms by (cases "mtp_backfill k get_time mtp_default") (auto simp: rewind_state_def split: sum.splits)
  obtain mtp where c: "mtp_current E clock = Some (Some mtp)"
    using assms by (auto simp: rewind_state_def b Option.bind_eq_Some_conv)
  let ?mr = "market_truncate_to k (ms_market s, truncate_to_height k (ms_registry s))"
  obtain m r where mr: "market_expire mtp k ?mr = (m, r)" by (rule prod.exhaust)
  have s': "s' = s\<lparr>ms_registry := r, ms_mtp := clock, ms_challenges := otp_new, ms_market := m,
      ms_name_notes := reconcile_seen E r (nnq_rewind_to k (ms_name_notes s)), ms_requests := request_truncate_to k (ms_requests s),
      ms_refunds := refund_truncate_to k (ms_refunds s)\<rparr>"
    using assms(1) by (simp add: rewind_state_def Let_def b c mr)
  have "relists (truncate_to_height k (ms_registry s)) r"
    using relists_trans [OF relists_truncate relists_expire [of ?mr mtp k]] by (simp add: mr)
  then have "reg_typed r" using assms(2) typed_relists typed_truncate by (auto simp: typed_def)
  moreover have "log_typed m"
    using typed_passes(2) [of mtp k "fst ?mr" "snd ?mr"] typed_market_truncate [of "ms_market s" k "truncate_to_height k (ms_registry s)"]
      assms(2) unfolding prod.collapse mr fst_conv typed_def by blast
  ultimately show ?thesis
    using assms(2) by (simp add: s' typed_def orders_typed_ops(2,4) requests_typed_ops(2) typed_nothing)
qed

lemma typed_converge:
  assumes "converge E T S key birthday lock hashes get_time blocks best (w, s) = res"
    and "res = Reached (day, w', s') \<or> res = Restarted (w', s')" and "typed s" and "consistent (book s)"
  shows "typed s'"
proof (cases "res = Restarted (w, s)")
  case True
  then show ?thesis using assms by auto
next
  case False
  show ?thesis
  proof (rule converge_parts [OF assms(1)])
    fix a w1 s1 day'
    assume r: "rewind_all E T get_time a (w, s) = Some (w1, s1)"
      and res: "res = (case catch_up E T S key birthday blocks best (best - tip_of w1) (w1, s1) of
        Reached ws2 \<Rightarrow> Reached (day', ws2)
      | Panicked \<Rightarrow> Panicked | Waiting \<Rightarrow> Waiting | OutOfFuel \<Rightarrow> OutOfFuel | Restarted ws2 \<Rightarrow> Restarted ws2)"
    have c: "catch_up E T S key birthday blocks best (best - tip_of w1) (w1, s1) \<in> {Reached (w', s'), Restarted (w', s')}"
      using res assms(2) by (auto split: pass.splits)
    have "typed s1 \<and> consistent (book s1)"
      using r assms(3,4) rewind_consistent typed_rewind by (fastforce simp: rewind_all_def split: if_splits sum.splits)
    then show ?thesis using typed_catch_up [OF c] by blast
  qed (use assms(2) False in auto)
qed

section \<open>The tip\<close>

lemma each_inv:
  "each f xs s = Some s' \<Longrightarrow> P s \<Longrightarrow> (\<And>x a a'. x \<in> set xs \<Longrightarrow> P a \<Longrightarrow> f x a = Some a' \<Longrightarrow> P a') \<Longrightarrow> P s'"
proof (induction xs arbitrary: s)
  case (Cons x xs)
  then obtain a where a: "f x s = Some a" "each f xs a = Some s'" by (auto split: Option.bind_splits)
  have "P a" by (rule Cons.prems(3) [OF _ Cons.prems(2) a(1)]) simp
  then show ?case by (rule Cons.IH [OF a(2)]) (rule Cons.prems(3), simp_all)
qed simp

lemma typed_decide_claim:
  assumes "decide_claim E key rate mtp txid n ua t c paid h s = Some s'" and "typed s" and "valid_name n"
  shows "typed s'"
proof -
  have nt: "typed s1" if "authorize_claim E (ms_registry s) n ua t mtp = Some nt" "admit_order h nt s = (ok, s1)" for nt ok s1
    using that typed_admit_order [OF assms(2), of nt h] assms(3) by (auto simp: authorize_claim_def split: if_splits)
  show ?thesis
  proof (cases "is_protected (ms_protected s) n mtp \<and> c = None")
    case True
    then show ?thesis using assms(1,2) by (auto simp: decide_claim_def)
  next
    case False
    let ?final = "case authorize_claim E (ms_registry s) n ua t mtp of
        None \<Rightarrow> if \<not> is_available (ms_registry s) n then refund E txid ua n h paid s else s
      | Some nt \<Rightarrow> (case admit_order h nt s of (True, s1) \<Rightarrow> s1 | (False, s1) \<Rightarrow> refund E txid ua n h paid s1)"
    have final: "typed ?final" using assms(2) nt by (auto split: option.split prod.split bool.split)
    obtain quote where s': "s' = (case quote of
           None \<Rightarrow> s
         | Some price \<Rightarrow>
             if paid < price then refund E txid ua n h paid s
             else if is_protected (ms_protected s) n mtp \<and> \<not> key_accepts E key n c
             then refund E txid ua n h (case zat_sub paid (access_code_penalty price) of Some z \<Rightarrow> z | None \<Rightarrow> 0) s
             else ?final)"
      using assms(1) unfolding decide_claim_def Let_def if_not_P [OF False] by auto
    show ?thesis unfolding s' using final assms(2) by (cases quote) simp_all
  qed
qed

lemma typed_decide:
  assumes "decide_request E key draws rate target mtp a s = Some s'" and "typed s" and "valid_name (request_name (fst (snd a)))"
  shows "typed s'"
proof -
  obtain txid request paid h where a: "a = (txid, request, paid, h)" by (metis prod.exhaust)
  let ?s = "s\<lparr>ms_requests := request_resolved txid (ms_requests s)\<rparr>"
  have s: "typed ?s" using assms(2) by (simp add: typed_def requests_typed_ops(1))
  have challenge: "typed s'" if "decide_challenge E ds target mtp request paid ?s = Some s'" for ds
    using that s challenges_typed_ops(4) [of "ms_challenges s" request E ds mtp] assms(3)
    by (auto simp: decide_challenge_def typed_def a split: if_splits option.splits)
  show ?thesis
    using assms(1,3) s typed_decide_claim challenge
    by (cases request) (auto simp: a decide_request_def Let_def)
qed

lemma typed_relays:
  assumes "relays E sent sent_buy target mtp s = Some s'" and "typed s"
  shows "typed s'"
proof -
  obtain s1 s2 xs ys zs where e: "each (relay_requested sent target mtp) xs s = Some s1" "each (relay_market sent) ys s1 = Some s2"
    "each (relay_buys sent_buy) zs s2 = Some s'"
    using assms by (auto simp: relays_def Option.bind_eq_Some_conv)
  have "typed s1"
    by (rule each_inv [where P = typed, OF e(1) assms(2)])
      (auto simp: relay_requested_def typed_def challenges_typed_ops(3) split: if_splits option.splits)
  then have "typed s2"
    by (rule each_inv [where P = typed, OF e(2)]) (auto simp: relay_market_def typed_def typed_passes split: if_splits)
  then show ?thesis
    by (rule each_inv [where P = typed, OF e(3)]) (auto simp: relay_buys_def typed_def typed_passes split: if_splits)
qed

lemma typed_orders_fold:
  "typed s \<Longrightarrow> (\<And>x. x \<in> set xs \<Longrightarrow> valid_name (note_name (f x))) \<Longrightarrow>
     (\<And>x a. g x a = a \<or> g x a = snd (admit_order tip (f x) a)) \<Longrightarrow> typed (fold g xs s)"
proof (induction xs arbitrary: s)
  case (Cons x xs)
  have "typed (g x s)"
    using Cons.prems(3) [of x s] typed_admit_order [OF Cons.prems(1), of "f x" tip] Cons.prems(1) Cons.prems(2) [of x] by auto
  then show ?case using Cons.IH [of "g x s"] Cons.prems(2,3) by simp
qed simp

lemma typed_poll:
  assumes "typed s" and "consistent (book s)"
  shows "typed (poll_sales tip s)"
proof -
  obtain nts m where p: "market_poll (ms_registry s) (note_pending (ms_name_notes s)) tip (ms_market s) = (nts, m)" by (rule prod.exhaust)
  have named: "note_name nt = s_name x" if "fst (poll_one r pending x) = Some nt" for r pending nt and x :: "('a, 'b) sale"
    using that by (auto simp: poll_one_def sale_transfer_def split: if_splits option.splits)
  have "valid_name (note_name nt)" if "nt \<in> set nts" for nt
  proof -
    from that p obtain x where "x \<in> set (sales (m_sales (ms_market s)))"
      "fst (poll_one (ms_registry s) (note_pending (ms_name_notes s)) x) = Some nt"
      by (auto simp: market_poll_def sale_poll_def set_map_filter)
    then show ?thesis
      using named book_typed(1) [OF assms(2)] assms(1) by (auto simp: list_all_iff typed_def)
  qed
  moreover have "log_typed m" using typed_passes(4) [of "ms_registry s" "note_pending (ms_name_notes s)" tip "ms_market s"] assms(1)
    by (simp add: p typed_def)
  ultimately show ?thesis
    unfolding poll_sales_def p case_prod_conv using assms(1)
    by (intro typed_orders_fold [where f = "\<lambda>nt. nt" and tip = tip]) (auto simp: typed_def)
qed

lemma typed_orders:
  assumes "orders_pass spendable send tip mtp s = Some s'" and "typed s" and "consistent (book s)"
  shows "typed s'"
proof -
  let ?s = "(poll_sales tip s)\<lparr>ms_name_notes := expire_sent tip (ms_name_notes (poll_sales tip s))\<rparr>"
  obtain s3 xs zs where e: "each (drop_due_update mtp) xs ?s = Some s3"
    "each (\<lambda>(i, nt). sign_order (spendable i) (send i) nt) zs (fold (lifecycle_release tip) (releases_due (ms_registry s3) mtp) s3) = Some s'"
    using assms(1) by (auto simp: orders_pass_def Let_def Option.bind_eq_Some_conv)
  have "typed ?s" using typed_poll [OF assms(2,3)] by (simp add: typed_def orders_typed_ops(3))
  then have s3: "typed s3"
    by (rule each_inv [where P = typed, OF e(1)]) (auto simp: drop_due_update_def typed_def dest: orders_typed_ops(6) split: if_splits)
  have "typed (fold (lifecycle_release tip) (releases_due (ms_registry s3) mtp) s3)"
  proof (rule typed_orders_fold [where f = snd and tip = tip])
    show "valid_name (note_name (snd x))" if "x \<in> set (releases_due (ms_registry s3) mtp)" for x
      using that s3 by (auto simp: releases_due_def typed_def reg_typed_def records_typed_def list_all_iff)
  qed (use s3 in \<open>auto simp: lifecycle_release_def split: prod.split\<close>)
  then show ?thesis
  proof (rule each_inv [where P = typed, OF e(2)])
    fix x a a'
    assume a: "typed a" and fx: "(\<lambda>(i, nt). sign_order (spendable i) (send i) nt) x a = Some a'"
    obtain i nt where f: "sign_order (spendable i) (send i) nt a = Some a'" using fx by (cases x) simp
    then have "ms_name_notes a' = ms_name_notes a \<or> drop_note (note_name nt) (ms_name_notes a) = Some (ms_name_notes a') \<or>
        (\<exists>expiry. mark_sent (note_name nt) expiry (ms_name_notes a) = Some (ms_name_notes a'))"
      by (auto simp: sign_order_def Option.bind_eq_Some_conv split: sum.splits bool.splits option.splits)
    then have "orders_typed (ms_name_notes a')" using orders_typed_ops(5,6) a by (auto simp: typed_def)
    then show "typed a'"
      using a f by (auto simp: typed_def sign_order_def Option.bind_eq_Some_conv split: sum.splits bool.splits option.splits)
  qed
qed

lemma typed_tip:
  assumes "tip_pass E D key lock tip ti s = Some s'" and "typed s" and "consistent (book s)"
  shows "typed s'"
proof (cases "ti_confirmed ti")
  case False
  then show ?thesis using assms unfolding tip_pass_def Let_def by (auto simp: Option.bind_eq_Some_conv typed_def)
next
  case True
  from assms(1) True show ?thesis
  proof (rule tip_pass_parts)
    fix mtp rate prot orc fee s3 s4 s5
    define s2 where "s2 = s\<lparr>ms_protected := prot, ms_oracle := orc, ms_fee := fee\<rparr>"
    assume d0: "decide_requests E key (ti_draws ti) rate (tip + 1) mtp (s\<lparr>ms_protected := prot, ms_oracle := orc, ms_fee := fee\<rparr>) = Some s3"
      and r: "relays E (ti_sent ti) (ti_sent_buy ti) (tip + 1) mtp s3 = Some s4"
      and o: "orders_pass (ti_spendable ti) (ti_send ti) tip mtp s4 = Some s5"
      and p: "each (\<lambda>(i, built). pay_refund (ti_pay ti i) built) (enumerate 0 (refund_due tip (ms_refunds s5))) s5 = Some s'"
    note d = d0 [folded s2_def, unfolded decide_requests_def]
    have s2: "typed s2" "consistent (book s2)" using assms(2,3) by (simp_all add: s2_def typed_def)
    have "typed s3"
    proof (rule each_inv [where P = typed, OF d s2(1)])
      fix x a a'
      assume "x \<in> set (request_pending (ms_requests s2))" and a: "typed a"
        "decide_request E key (ti_draws ti) rate (tip + 1) mtp x a = Some a'"
      then have "valid_name (request_name (fst (snd x)))"
        using s2(1) by (simp add: typed_def requests_typed_def request_pending_def list_all_iff)
      then show "typed a'" using typed_decide a by blast
    qed
    then have s4: "typed s4" by (rule typed_relays [OF r])
    have "moves E s2 s3" using d by (rule moves_each) (erule moves_decide)
    then have "moves E s2 s4" using moves_relays [OF r] moves_trans by blast
    then have "consistent (book s4)" using run_consistent s2(2) unfolding moves_def by blast
    then have "typed s5" by (rule typed_orders [OF o s4])
    then show ?thesis
      by (rule each_inv [where P = typed, OF p]) (auto simp: pay_refund_def typed_def split: if_splits)
  qed
qed

section \<open>The boot\<close>

definition book_ok :: "('ua, 'cm) market \<times> ('ua, 'cm) registry \<Rightarrow> bool" where
  "book_ok mr \<longleftrightarrow> consistent mr \<and> log_typed (fst mr) \<and> reg_typed (snd mr)"

lemma book_ok_step: "market_step E h mr mr' \<Longrightarrow> book_ok mr \<Longrightarrow> log_typed (fst mr') \<Longrightarrow> reg_typed (snd mr') \<Longrightarrow> book_ok mr'"
  unfolding book_ok_def using run_consistent [OF run_one [where P = "\<lambda>_. True"]] by blast

lemma book_ok_expire: "book_ok mr \<Longrightarrow> book_ok (market_expire mtp h mr)"
proof (cases mr)
  case (Pair m r)
  show "book_ok mr \<Longrightarrow> book_ok (market_expire mtp h mr)" unfolding Pair
    by (rule book_ok_step [OF market_step.expire]) (simp_all add: book_ok_def typed_passes typed_relists [OF relists_expire])
qed

lemma book_ok_reconcile: "book_ok mr \<Longrightarrow> book_ok (market_reconcile h mr)"
proof (cases mr)
  case (Pair m r)
  show "book_ok mr \<Longrightarrow> book_ok (market_reconcile h mr)" unfolding Pair
    by (rule book_ok_step [OF market_step.reconcile]) (simp_all add: book_ok_def typed_passes typed_relists [OF relists_reconcile])
qed

lemma book_ok_observe: "book_ok (m, r) \<Longrightarrow> book_ok (market_observe E holder payments mtp h m, r)"
  by (rule book_ok_step [OF market_step.observe]) (auto simp: book_ok_def typed_passes)

lemma book_ok_arrive:
  assumes "boot_arrive E key fee h mtp a mr = Some mr'" and "book_ok mr"
  shows "book_ok mr'"
proof -
  obtain txid inbound paid m r m' r' where a: "a = (txid, inbound, paid)" "mr = (m, r)" "mr' = (m', r')" by (metis prod.exhaust)
  have ok: "consistent (m, r)" "log_typed m" "reg_typed r" using assms(2) by (simp_all add: a book_ok_def)
  have "log_typed m'"
    using assms(1) ok typed_answer [of E _ h m r] typed_admit [of E key txid _ paid r fee h mtp]
    by (cases inbound) (auto simp: boot_arrive_def a split: if_splits)
  moreover have "reg_typed r'" using typed_relists [OF relists_boot_arrive [OF assms(1)]] ok(3) by (simp add: a)
  moreover have "consistent mr'" using run_consistent [OF run_boot_arrive [OF assms(1)]] ok(1) by (simp add: a)
  ultimately show ?thesis by (simp add: book_ok_def a)
qed

lemma sync_block_typed:
  assumes "boot_sync_block E T S key birthday fee fetch_block (w, r, clock, m) = Inr (w', r', clock', m')" and "book_ok (m, r)"
  shows "book_ok (m', r')"
proof -
  define h where h: "h = bm_height (wallet_tip w) + 1"
  note block = assms(1) [unfolded boot_sync_block_def Let_def case_prod_conv, folded h]
  obtain b outs inbound r1 mtp m2 where ap: "apply_block E (mint_wallet E T S) birthday b h (w, r, clock) = Some (inbound, w', r1, clock')"
    and e: "each (boot_arrive E key fee h mtp) inbound (market_reconcile h (market_expire mtp h (m, r1))) = Some (m2, r')"
    and m': "m' = market_observe E (\<lambda>n. map_option nr_ua (record_of r' n)) (transparent_payments outs) mtp h m2"
    using block by (auto simp: result_simps split: prod.splits)
  have "book_ok (m, r1)"
    by (rule book_ok_step [OF market_step.registry [OF block_listings [OF ap]] assms(2)])
      (use assms(2) block_typed(1) [OF ap] in \<open>simp_all add: book_ok_def\<close>)
  then have "book_ok (market_reconcile h (market_expire mtp h (m, r1)))" by (intro book_ok_reconcile book_ok_expire)
  then have "book_ok (m2, r')" by (rule each_inv [where P = book_ok, OF e]) (rule book_ok_arrive)
  then show ?thesis unfolding m' by (rule book_ok_observe)
qed

lemma sync_typed:
  "boot_sync E T S key birthday fee fetch_block best fuel (w, r, clock, m) = Inr (w', r', clock', m') \<Longrightarrow>
     book_ok (m, r) \<Longrightarrow> book_ok (m', r')"
proof (induction fuel arbitrary: w r clock m)
  case 0
  then show ?case by (auto split: if_splits)
next
  case (Suc fuel)
  show ?case
  proof (cases "bm_height (wallet_tip w) < best")
    case True
    then obtain w1 r1 clock1 m1 where b: "boot_sync_block E T S key birthday fee fetch_block (w, r, clock, m) = Inr (w1, r1, clock1, m1)"
      and rest: "boot_sync E T S key birthday fee fetch_block best fuel (w1, r1, clock1, m1) = Inr (w', r', clock', m')"
      using Suc.prems(1) by (auto simp: and_then_Inr)
    show ?thesis by (rule Suc.IH [OF rest sync_block_typed [OF b Suc.prems(2)]])
  qed (use Suc.prems in auto)
qed

lemma boot_typed:
  assumes "snd (boot_start E D B T S bd W N) = Inr b"
  shows "typed (boot_state b)" and "consistent (book (boot_state b))"
proof -
  obtain ceremony sx lock fee w r clock m b0 guest where scan: "boot_scan E B T S bd N (ca_birthday ceremony) sx = Inr (lock, fee, w, r, clock, m)"
    and fac: "boot_faculties E D B W ceremony sx (lock, fee, w, r, clock, m) = Inr b0" and b: "b = b0\<lparr>b_guest := guest\<rparr>"
    using assms by (rule boot_start_parts)
  from scan obtain w0 clock0 best m0 where m: "m = seal_replayed_buys m0"
    and sync: "boot_sync E T S (sx_access_code_key sx) (ca_birthday ceremony) fee (bn_block N) best (best - tip_of w0)
      (w0, registry_new, clock0, market_new) = Inr (w, r, clock, m0)" by (rule boot_scan_parts) blast
  have "book_ok (market_new, registry_new)"
    using consistent_new [of registry_new] reg_typed_new
    by (simp add: book_ok_def registry_new_def log_typed_def market_new_def)
  then have ok: "book_ok (m0, r)" by (rule sync_typed [OF sync])
  have f: "b_registry b = r" "b_market b = m" "b_name_notes b = nnq_default" "b_challenges b = otp_new" "b_requests b = requests_default"
    unfolding b by (rule boot_faculties_parts [OF fac], simp)+
  show "typed (boot_state b)"
    using ok f by (simp add: typed_def boot_state_def book_ok_def m typed_seal typed_nothing)
  show "consistent (book (boot_state b))"
    using ok f seal_consistent [of m0 r] by (simp add: boot_state_def book_ok_def m)
qed

section \<open>The process\<close>

lemma process_typed:
  assumes "mint_process E D T S parse b w s" and "typed (boot_state b)" and "consistent (book (boot_state b))"
  shows "typed s \<and> consistent (book s)"
  using assms(1)
proof (induction rule: mint_process.induct)
  case started
  then show ?case using assms(2,3) by blast
next
  case (converged w s hashes get_time blocks best day w' s')
  then show ?case using typed_converge [OF converged.hyps(2)] converge_consistent [OF converged.hyps(2)] by blast
next
  case (restarted w s hashes get_time blocks best w' s')
  then show ?case using typed_converge [OF restarted.hyps(2)] converge_consistent [OF restarted.hyps(2)] by blast
next
  case (tip w s ti s' w')
  then show ?case using typed_tip [OF tip.hyps(2)] tip_keeps(2) [OF tip.hyps(2)] by blast
qed

lemma typed_names:
  assumes "typed s" and "consistent (book s)"
  shows "record_of (ms_registry s) n = Some rec \<Longrightarrow> valid_name n"
    and "\<forall>n\<in>set (request_names (ms_requests s)) \<union> set (otp_unrelayed (ms_challenges s)) \<union> set (market_names (ms_market s)) \<union>
      set (authorized_names (ms_name_notes s)) \<union> set (otp_relayed (ms_challenges s)). valid_name n"
proof -
  have ok: "reg_typed (ms_registry s)" "log_typed (ms_market s)" "requests_typed (ms_requests s)" "challenges_typed (ms_challenges s)"
    "orders_typed (ms_name_notes s)" using assms(1) by (simp_all add: typed_def)
  have names: "list_all valid_name (request_names (ms_requests s))" "list_all valid_name (otp_unrelayed (ms_challenges s))"
    "list_all valid_name (otp_relayed (ms_challenges s))" "list_all valid_name (market_names (ms_market s))"
    "list_all valid_name (authorized_names (ms_name_notes s))"
    using ok(3-5) book_typed(1) [OF assms(2) ok(2)]
    by (simp_all add: queue_typed_defs request_names_def otp_unrelayed_def otp_relayed_def market_names_def sale_names_def
        authorized_names_def list.pred_map comp_def case_prod_beta list_all_filter)
  show "record_of (ms_registry s) n = Some rec \<Longrightarrow> valid_name n" using record_typed [OF ok(1)] by blast
  show "\<forall>n\<in>set (request_names (ms_requests s)) \<union> set (otp_unrelayed (ms_challenges s)) \<union> set (market_names (ms_market s)) \<union>
      set (authorized_names (ms_name_notes s)) \<union> set (otp_relayed (ms_challenges s)). valid_name n"
    using names unfolding list_all_iff by blast
qed

text \<open>C9: Every name is a name. From the first block a boot reads on, in every state the process
  reaches, a name with a live record, a pending request, a challenge, an open sale or an unfinished
  Name Note has one to sixty-three characters, all lower-case letters or digits.\<close>

theorem names_are_typed:
  assumes "snd (boot_start E D B T S bd W N) = Inr b" and "mint_process E D T S parse b w s"
    and "(\<exists>rec. record_of (ms_registry s) n = Some rec) \<or> n \<in> set (request_names (ms_requests s)) \<or>
      n \<in> set (otp_unrelayed (ms_challenges s)) \<or> n \<in> set (otp_relayed (ms_challenges s)) \<or>
      n \<in> set (market_names (ms_market s)) \<or> n \<in> set (authorized_names (ms_name_notes s))"
  shows "1 \<le> length (as_str n) \<and> length (as_str n) \<le> 63 \<and>
         (\<forall>c\<in>set (as_str n). is_ascii_lower c \<or> is_ascii_digit c)"
proof -
  have "typed s" "consistent (book s)" using process_typed [OF assms(2) boot_typed [OF assms(1)]] by blast+
  then have "valid_name n" using typed_names [of s] assms(3) by blast
  then show ?thesis by (cases "as_str n") (auto simp: valid_name_iff list_all_iff name_byte_def)
qed

theorem names_are_typed_witness:
  "\<exists>b w s. snd demo_start = Inr b \<and> mint_process demo_env demo_dec demo_trees ceremony_scanner (\<lambda>_. None) b w s \<and>
     demo_alice \<in> set (request_names (ms_requests s)) \<and> length (as_str demo_alice) \<le> 63"
proof -
  obtain b w s where b: "snd demo_start = Inr b" and p: "mint_process demo_env demo_dec demo_trees ceremony_scanner (\<lambda>_. None) b w s"
    and n: "demo_alice \<in> set (request_names (ms_requests s))"
    using request_process by blast
  have "length (as_str demo_alice) \<le> 63" using names_are_typed [OF b p] n by blast
  with b p n show ?thesis by blast
qed

end
