(* ===== verification/Spec2Isabelle.thy ===== *)
theory Spec2Isabelle
  imports Request_Laws Market_Safety Code_Laws Treasury_Tx Mint_Block_Laws Run_Loop_Laws Assemble
    Wallet_Selection Wallet_Read Venues Typing_Laws
begin

text \<open>
  The Zcash Name Service mint, \<open>zns-mint\<close>: the root of its verification library.

  \<^bold>\<open>The program.\<close> The mint sells names on the Zcash chain. A name is a record of the Registry; the
  authority over it is a note of the Registry's account, the Name Note, whose memo says who controls
  the name and until when. Users pay the Treasury's account with a memo; the mint decides, sends a
  challenge code back where a name's owner has to confirm, and signs a new Name Note that spends the
  old one. A market lists names at a price or on a falling clock; a payment of the price plus a
  six-digit code to the seller's own address buys one. The state of the mint lives in memory only: a
  boot rebuilds it from the chain, and a reorganisation of the chain rolls every part of it back.

  \<^bold>\<open>How the parts work together.\<close> \<open>Boot::start\<close> (\<open>src/boot.rs\<close>) checks the ceremony's manifest and
  the sealed seed, derives both accounts, scans the chain to the node's tip and hands its faculties to
  \<open>main\<close> (\<open>src/main.rs\<close>). A pass of \<open>main\<close>'s loop waits for a tip, walks back to the common
  ancestor, rewinds the wallet, the Registry, the clock, the market and the queues to it, applies every
  missing block (\<open>apply_block\<close> of \<open>src/mint.rs\<close>: scan, clock, Registry law, wallet commit, decoded
  memos), handles what arrived in each block, and at the tip decides requests, relays challenges,
  signs orders, pays refunds and sweeps the Treasury.

  \<^bold>\<open>The theories, in the order of the code.\<close>
  \<^item> \<open>Zns_Prelude\<close>, \<open>Zns_Text\<close>: scalar types, list, decimal and text lemmas, the collections of
    rewrite rules. \<open>Btree_Map\<close>: \<open>BTreeMap\<close> and \<open>BTreeSet\<close> as strictly sorted lists, behind the locale
    \<open>ordered_map\<close>. \<open>Rewind\<close>: the reorganisation contract (below).
  \<^item> \<open>Names\<close>, \<open>Requests\<close>, \<open>Request_Laws\<close>: \<open>src/mint.rs\<close>, names, verbs and the memo grammars;
    \<open>Name_Note\<close>, \<open>Name_Note_Laws\<close>, \<open>Name_Note_Queue\<close>, \<open>Note_Lifecycle\<close>: \<open>src/mint/note.rs\<close>;
    \<open>Codes\<close>, \<open>Otp\<close>, \<open>Code_Laws\<close>: the codes of \<open>src/mint/treasury/otp.rs\<close> and
    \<open>src/mint/presale.rs\<close>; \<open>Presale\<close>, \<open>Pricing\<close>, \<open>Median\<close>, \<open>Mtp\<close>: the protected names, the price
    and the clock; \<open>Venues\<close>: the HTTP reads behind the first two.
  \<^item> \<open>Anchor_Pool\<close>, \<open>Registry\<close>, \<open>Registry_Inv\<close>, \<open>Registry_Laws\<close>: \<open>src/mint/registry.rs\<close> and its pool.
    \<open>Sale_Terms\<close>, \<open>Sale_Queue\<close>, \<open>Market\<close>, \<open>Market_Replay\<close>, \<open>Market_Laws\<close>, \<open>Market_Safety\<close>:
    \<open>src/mint/sale.rs\<close>. \<open>Treasury\<close>, \<open>Treasury_Tx\<close>, \<open>Assemble\<close>: \<open>src/mint/treasury.rs\<close>, its refund
    queue, and the Name Note transaction of \<open>src/mint/note/assemble.rs\<close>.
  \<^item> \<open>Zebra\<close>: \<open>src/zcash.rs\<close> and \<open>src/zcash/\<close>. \<open>Wallet\<close>, \<open>Wallet_Write\<close>, \<open>Wallet_Input\<close>,
    \<open>Wallet_Inv\<close>, \<open>Wallet_Steps\<close>, \<open>Wallet_Laws\<close>, \<open>Wallet_Selection\<close>, \<open>Wallet_Read\<close>: \<open>src/wallet.rs\<close>
    and \<open>src/wallet/\<close>.
  \<^item> \<open>Mint_Block\<close>, \<open>Mint_Block_Laws\<close>: block application; \<open>Authority\<close>: the Registry and the wallet
    together; \<open>Run_Loop\<close>, \<open>Run_Loop_Laws\<close>, \<open>Converge\<close>: \<open>src/main.rs\<close>; \<open>Boot\<close>, \<open>Boot_Laws\<close>:
    \<open>src/boot.rs\<close> and \<open>src/boot/key.rs\<close>; \<open>Process\<close>: boot and loop composed; \<open>Metrics\<close>:
    \<open>src/metrics.rs\<close>; \<open>Typing\<close>, \<open>Typing_Laws\<close>: the type of names through every operation.
    \<open>Demo_Env\<close>, \<open>Boot_Demo\<close> and \<open>Process_Demo\<close> hold the concrete inputs of the witnesses.

  A struct is a record with the fields of the source, an enum a datatype with its variants, an
  operation one definition that returns the updated state. \<open>may_panic\<close> is an option whose \<open>None\<close> is
  a panic; a \<open>Result\<close> is a sum; in \<open>Boot\<close> each \<open>expect\<close> is a value of \<open>fatal\<close>. Unsigned integers are
  naturals with their width's bound or saturation written out where the code has it; prices and times
  are checked as the code checks them.

  \<^bold>\<open>Interfaces.\<close> \<open>rewindable\<close> is the contract of every \<open>truncate_to\<close>: steps stamped with a height,
  and a truncation that forgets exactly the steps above its target. It is interpreted on the anchor
  pool and on the Registry; \<open>height_log\<close>, a sublocale of it, on the refund and the request queue.
  \<open>ordered_map\<close> is interpreted on the sorted association lists. The block application takes the wallet
  as a record of operations, \<open>wallet_ops\<close>; \<open>mint_wallet\<close> is that record on the modelled wallet.

  \<^bold>\<open>Parameters and what is assumed of them.\<close> Code of other crates is an argument: \<open>zenv\<close> (addresses,
  memos, hashes, MAC, ranges), \<open>dec_env\<close> (decimals), \<open>tree_ops\<close> (the note commitment tree),
  \<open>scanner\<close> (trial decryption), \<open>asm_env\<close> and \<open>tx_env\<close> (the transaction builder), \<open>boot_env\<close>,
  \<open>boot_node\<close> and \<open>boot_world\<close> (TOML, the capsule library, the hardware, the node, the files), \<open>http_env\<close> and \<open>json_env\<close> (the HTTP
  client's parsers and the JSON decoder). A
  theorem that relies on more than their types says so: that encodings round-trip
  (\<open>codec_ok\<close>, \<open>memo_codec\<close>), that a MAC input has a bounded size, that adding and halving two
  plausible prices stay in the decimal's range (\<open>halving_in_range\<close>), that a six-digit amount is within the
  monetary range, that building and submitting an order does not panic, that the transactions of a new block have not been mined below
  it (\<open>fresh_txs\<close>, \<open>serves_new\<close>), that the node's heights are \<open>u32\<close> (\<open>node_u32\<close>). Each such
  theorem has a witness with a concrete instance.

  \<^bold>\<open>Loops.\<close> Retries read from a finite list of answers; the list running out is its own outcome
  (\<open>None\<close>, \<open>Waiting\<close> or \<open>Unanswered\<close>), never success. Catching up and the boot's sync take the fuel
  \<open>best - tip\<close>, the number of missing blocks, and are shown not to exhaust it (\<open>catch_up_ends\<close>,
  \<open>sync_ends\<close>). A challenge code is drawn from a list, and a list with a free code is enough. The
  other loops are structural.

  \<^bold>\<open>What the theorems show.\<close>
  \<^item> \<open>Registry_Laws\<close>, \<open>Mint_Block_Laws\<close>: which confirmed transitions bind a name, that what the chain
    spent is never live, that claim authority is conserved, that records are the tips of their
    histories, and that any applied chain of blocks can be rolled back.
  \<^item> \<open>Wallet_Laws\<close>, \<open>Wallet_Selection\<close>: the wallet's invariant in every reachable state, what a
    truncation leaves, that selection takes the shortest cover and that balances agree with it.
    \<open>Wallet_Read\<close>: the accounts never change, and the answers about blocks are the cursor's.
  \<^item> \<open>Pricing\<close>, \<open>Venues\<close>, \<open>Presale\<close>: a minority of hostile venues cannot move the price of a round past the
    honest quotes, up to how the decimal rounds a halved sum; the protection table changes only on a whole answer, and then says exactly what its rows say.
  \<^item> \<open>Market_Laws\<close>, \<open>Market_Safety\<close>: the market is the replay of its log, so it can be rolled back; over
    rollbacks and restarts (\<open>market_reach\<close>) a payment identifies one sale; exactly the exact payment
    settles it; an open buy freezes its listing.
  \<^item> \<open>Name_Note_Laws\<close>, \<open>Request_Laws\<close>, \<open>Code_Laws\<close>: the codecs and grammars exactly, the binding of
    codes, the bound on guesses.
  \<^item> \<open>Run_Loop_Laws\<close>, \<open>Note_Lifecycle\<close>: what an arriving memo can change, when a claim becomes an order,
    that the order passes do not panic and give no name a second order; and the order queue's one
    defect, recorded as a finding. \<open>Assemble\<close>: a built Name Note transaction balances, with exactly the
    spends and outputs its action needs.
  \<^item> \<open>Authority\<close>, \<open>Converge\<close>, \<open>Boot_Laws\<close>, \<open>Process\<close>: the composition. A pass ends at the announced tip
    and keeps the common chain; a boot hands over a state of the running mint, with the ceremony's
    keys, and announces itself last, a torn write apart; a boot's sync and a catch-up over the same blocks agree; and in
    every state from the boot on, the wallet holds the note of every live name.
  \<^item> \<open>Typing\<close>, \<open>Typing_Laws\<close>: the parsers are the only source of names, and every operation keeps what
    they checked: each name in the Registry, the market and the queues is one to sixty-three lower-case
    letters or digits, and stands in a memo or a label as it is.
  \<^item> \<open>Metrics\<close>: a scraper reads back from the page exactly who has the next move.

  \<^bold>\<open>Not modelled.\<close> Sockets, TLS, timers and task scheduling: their outcomes are arguments. Trial
  decryption, proving, signing and the commitment tree itself: other crates. The floating-point gauges
  of the metrics recorder and log lines: nothing reads them back. Zeroing of secrets in memory: not
  observable in the state. Wallet trait methods that the mint never calls and that only refuse. The
  integration harness and the test vectors: test code.
\<close>

end
